(* ===== verification/Prelude.thy ===== *)
theory Prelude
  imports Main "HOL-Library.Word"
begin

text \<open>
  Shared vocabulary of the development: the machine integers of the code as words, byte
  strings, the \<open>Result\<close> type as a sum with its sequencing operator, a small calculus for
  facts about results, and lemmas on lists and words the components share.
\<close>

unbundle bit_operations_syntax

section \<open>Types\<close>

type_synonym u8 = "8 word"
type_synonym u16 = "16 word"
type_synonym u32 = "32 word"
type_synonym u64 = "64 word"
text \<open>An \<open>i64\<close> is kept as its 64 bits; \<open>sint\<close> reads it signed.\<close>
type_synonym i64 = "64 word"
type_synonym bytes = "8 word list"
text \<open>A Rust \<open>String\<close> as its list of Unicode code points.\<close>
type_synonym ustring = "nat list"

definition ustr :: "string \<Rightarrow> ustring" where
  "ustr s = map of_char s"

section \<open>Results\<close>

text \<open>\<open>bindE\<close> is Rust's \<open>?\<close>: an error leaves, a value goes on.\<close>

definition bindE :: "'e + 'a \<Rightarrow> ('a \<Rightarrow> 'e + 'b) \<Rightarrow> 'e + 'b" where
  "bindE r k = (case r of Inl e \<Rightarrow> Inl e | Inr x \<Rightarrow> k x)"

lemma bindE_simps [simp]:
  "bindE (Inl e) k = Inl e"
  "bindE (Inr x) k = k x"
  by (simp_all add: bindE_def)

lemma bindE_Inr_iff: "bindE r k = Inr y \<longleftrightarrow> (\<exists>x. r = Inr x \<and> k x = Inr y)"
  by (cases r) auto

lemma bindE_Inl_iff:
  "bindE r k = Inl e \<longleftrightarrow> r = Inl e \<or> (\<exists>x. r = Inr x \<and> k x = Inl e)"
  by (cases r) auto

text \<open>\<open>ok_or\<close>: an absent value is the given error.\<close>

definition ok_or :: "'a option \<Rightarrow> 'e \<Rightarrow> 'e + 'a" where
  "ok_or x e = (case x of None \<Rightarrow> Inl e | Some y \<Rightarrow> Inr y)"

lemma ok_or_simps [simp]:
  "ok_or None e = Inl e"
  "ok_or (Some y) e = Inr y"
  by (simp_all add: ok_or_def)

definition map_err :: "('e \<Rightarrow> 'f) \<Rightarrow> 'e + 'a \<Rightarrow> 'f + 'a" where
  "map_err f r = (case r of Inl e \<Rightarrow> Inl (f e) | Inr x \<Rightarrow> Inr x)"

lemma map_err_simps [simp]:
  "map_err f (Inl e) = Inl (f e)"
  "map_err f (Inr x) = Inr x"
  by (simp_all add: map_err_def)

text \<open>
  \<open>post Q P r\<close>: an error of \<open>r\<close> satisfies \<open>Q\<close>, a value satisfies \<open>P\<close>. Its introduction
  rules follow the shape of the operations, so that a fact about an operation is proved by
  walking through its body once.
\<close>

definition post :: "('e \<Rightarrow> bool) \<Rightarrow> ('a \<Rightarrow> bool) \<Rightarrow> 'e + 'a \<Rightarrow> bool" where
  "post Q P r = (case r of Inl e \<Rightarrow> Q e | Inr x \<Rightarrow> P x)"

named_theorems postI

lemma post_simps [simp]:
  "post Q P (Inl e) = Q e"
  "post Q P (Inr x) = P x"
  by (simp_all add: post_def)

lemma post_bindE:
  "post Q P r \<Longrightarrow> (\<And>x. P x \<Longrightarrow> post Q P' (k x)) \<Longrightarrow> post Q P' (bindE r k)"
  by (cases r) auto

lemma post_if [postI]:
  "(c \<Longrightarrow> post Q P a) \<Longrightarrow> (\<not> c \<Longrightarrow> post Q P b) \<Longrightarrow> post Q P (if c then a else b)"
  by simp

lemma post_mono: "post Q P r \<Longrightarrow> (\<And>e. Q e \<Longrightarrow> Q' e) \<Longrightarrow> (\<And>x. P x \<Longrightarrow> P' x) \<Longrightarrow> post Q' P' r"
  by (cases r) auto

lemma post_ok_or: "post Q P (ok_or x e) \<longleftrightarrow> (case x of None \<Rightarrow> Q e | Some y \<Rightarrow> P y)"
  by (cases x) auto

lemma post_InrD: "post Q P r \<Longrightarrow> r = Inr x \<Longrightarrow> P x"
  by simp

lemma post_InlD: "post Q P r \<Longrightarrow> r = Inl e \<Longrightarrow> Q e"
  by simp

section \<open>Slices\<close>

text \<open>Rust's \<open>xs.get(i)\<close>, \<open>xs.get(a..b)\<close> and \<open>xs.get(a..)\<close>.\<close>

definition nth_opt :: "'a list \<Rightarrow> nat \<Rightarrow> 'a option" where
  "nth_opt xs i = (if i < length xs then Some (xs ! i) else None)"

definition slice_opt :: "'a list \<Rightarrow> nat \<Rightarrow> nat \<Rightarrow> 'a list option" where
  "slice_opt xs a b = (if a \<le> b \<and> b \<le> length xs then Some (take (b - a) (drop a xs)) else None)"

definition slice_from_opt :: "'a list \<Rightarrow> nat \<Rightarrow> 'a list option" where
  "slice_from_opt xs a = (if a \<le> length xs then Some (drop a xs) else None)"

lemma nth_opt_Some_iff: "nth_opt xs i = Some x \<longleftrightarrow> i < length xs \<and> xs ! i = x"
  by (auto simp: nth_opt_def)

lemma nth_opt_simps [simp]:
  "nth_opt [] i = None"
  "nth_opt (x # xs) 0 = Some x"
  "nth_opt (x # xs) (Suc i) = nth_opt xs i"
  "nth_opt (x # xs) (numeral n) = nth_opt xs (pred_numeral n)"
  by (simp_all add: nth_opt_def numeral_eq_Suc)

lemma nth_opt_append_left: "i < length xs \<Longrightarrow> nth_opt (xs @ ys) i = nth_opt xs i"
  by (simp add: nth_opt_def nth_append)

lemma slice_opt_Some_iff:
  "slice_opt xs a b = Some ys \<longleftrightarrow> a \<le> b \<and> b \<le> length xs \<and> ys = take (b - a) (drop a xs)"
  by (auto simp: slice_opt_def)

lemma length_slice_opt: "slice_opt xs a b = Some ys \<Longrightarrow> length ys = b - a"
  by (auto simp: slice_opt_def split: if_splits)

lemma take_take_drop: "a \<le> b \<Longrightarrow> take a xs @ take (b - a) (drop a xs) = take b xs"
  by (metis le_add_diff_inverse take_add)

text \<open>The first index that satisfies a predicate: \<open>iter().position(..)\<close>.\<close>

fun position :: "('a \<Rightarrow> bool) \<Rightarrow> 'a list \<Rightarrow> nat option" where
  "position p [] = None"
| "position p (x # xs) = (if p x then Some 0 else map_option Suc (position p xs))"

lemma position_Some:
  "position p xs = Some i \<Longrightarrow> i < length xs \<and> p (xs ! i) \<and> (\<forall>j<i. \<not> p (xs ! j))"
proof (induction xs arbitrary: i)
  case Nil
  then show ?case by simp
next
  case (Cons x xs)
  then show ?case
    by (auto split: if_splits simp: less_Suc_eq_0_disj)
qed

lemma position_None: "position p xs = None \<longleftrightarrow> (\<forall>x\<in>set xs. \<not> p x)"
  by (induction xs) auto

lemma position_find: "find p xs = map_option ((!) xs) (position p xs)"
  by (induction xs) (auto simp: option.map_comp comp_def)

text \<open>Slices of exactly \<open>n\<close> elements, a shorter tail left out: \<open>chunks_exact(n)\<close>.\<close>

fun chunks_exact :: "nat \<Rightarrow> 'a list \<Rightarrow> 'a list list" where
  "chunks_exact n xs =
     (if n = 0 \<or> length xs < n then [] else take n xs # chunks_exact n (drop n xs))"

declare chunks_exact.simps [simp del]

lemma chunks_exact_short [simp]: "length xs < n \<Longrightarrow> chunks_exact n xs = []"
  by (simp add: chunks_exact.simps)

lemma chunks_exact_append:
  "0 < n \<Longrightarrow> length ys = n \<Longrightarrow> chunks_exact n (ys @ xs) = ys # chunks_exact n xs"
  by (simp add: chunks_exact.simps)

lemma length_chunks_exact: "0 < n \<Longrightarrow> length (chunks_exact n xs) = length xs div n"
proof (induction n xs rule: chunks_exact.induct)
  case (1 n xs)
  then show ?case
    by (cases "length xs < n") (simp_all add: chunks_exact.simps [of n xs] le_div_geq not_less)
qed

lemma set_chunks_exact: "ys \<in> set (chunks_exact n xs) \<Longrightarrow> length ys = n"
proof (induction n xs rule: chunks_exact.induct)
  case (1 n xs)
  then show ?case
    by (cases "n = 0 \<or> length xs < n") (auto simp: chunks_exact.simps [of n xs])
qed

lemma concat_chunks_exact:
  "n dvd length xs \<Longrightarrow> 0 < n \<Longrightarrow> concat (chunks_exact n xs) = xs"
proof (induction n xs rule: chunks_exact.induct)
  case (1 n xs)
  show ?case
  proof (cases "length xs < n")
    case True
    then have "xs = []"
      using "1.prems" by (metis dvd_imp_le length_greater_0_conv not_less)
    then show ?thesis using True by simp
  next
    case False
    then have "n dvd length (drop n xs)"
      using "1.prems" by (simp add: dvd_diff_nat)
    with "1.IH" "1.prems" False show ?thesis
      by (simp add: chunks_exact.simps [of n xs])
  qed
qed

section \<open>Big- and little-endian integers\<close>

definition be16 :: "u8 \<Rightarrow> u8 \<Rightarrow> u16" where
  "be16 hi lo = push_bit 8 (ucast hi) OR ucast lo"

definition be32 :: "u8 \<Rightarrow> u8 \<Rightarrow> u8 \<Rightarrow> u8 \<Rightarrow> u32" where
  "be32 a b c d =
     push_bit 24 (ucast a) OR push_bit 16 (ucast b) OR push_bit 8 (ucast c) OR ucast d"

definition be16_bytes :: "u16 \<Rightarrow> bytes" where
  "be16_bytes w = [ucast (drop_bit 8 w), ucast w]"

definition be32_bytes :: "u32 \<Rightarrow> bytes" where
  "be32_bytes w =
     [ucast (drop_bit 24 w), ucast (drop_bit 16 w), ucast (drop_bit 8 w), ucast w]"

lemma bit_u8_beyond [simp]: "8 \<le> n \<Longrightarrow> \<not> bit (w :: u8) n"
  using bit_imp_le_length [of w n] by auto

lemma be16_hi_lo [simp]:
  "(ucast (drop_bit 8 (be16 hi lo)) :: u8) = hi"
  "(ucast (be16 hi lo) :: u8) = lo"
  unfolding be16_def by (auto intro!: bit_word_eqI simp: bit_simps)

lemma be16_bytes_be16 [simp]: "be16_bytes (be16 hi lo) = [hi, lo]"
  by (simp add: be16_bytes_def)

lemma be32_bytes_be32 [simp]: "be32_bytes (be32 a b c d) = [a, b, c, d]"
  by (auto simp: be32_bytes_def be32_def bit_simps intro!: bit_word_eqI)

lemma u32_byte_cases:
  assumes "n < 32"
  obtains (b0) "n < 8" | (b1) k where "n = 8 + k" "k < 8"
    | (b2) k where "n = 16 + k" "k < 8" | (b3) k where "n = 24 + k" "k < (8::nat)"
  using assms
  by (metis add_diff_inverse_nat less_diff_conv2 not_less numeral_plus_numeral
      add_num_simps(1,2,3,4,5,6,7,8) nat_add_left_cancel_less)

lemma be32_be32_bytes [simp]:
  "be32 (ucast (drop_bit 24 w)) (ucast (drop_bit 16 w)) (ucast (drop_bit 8 w)) (ucast w) = w"
proof (rule bit_word_eqI)
  fix n :: nat
  assume "n < LENGTH(32)"
  then have "n < 32" by simp
  then show "bit (be32 (ucast (drop_bit 24 w)) (ucast (drop_bit 16 w)) (ucast (drop_bit 8 w))
      (ucast w)) n = bit w n"
    by (cases rule: u32_byte_cases) (auto simp: be32_def bit_simps)
qed

lemma be16_be16_bytes [simp]: "be16 (ucast (drop_bit 8 w)) (ucast w) = w"
  by (auto simp: be16_def bit_simps intro!: bit_word_eqI)

lemma length_be_bytes [simp]:
  "length (be32_bytes w) = 4" "length (be16_bytes v) = 2"
  by (simp_all add: be32_bytes_def be16_bytes_def)

lemma take_two: "2 \<le> k \<Longrightarrow> k \<le> length xs \<Longrightarrow> xs ! 0 # xs ! Suc 0 # drop 2 (take k xs) = take k xs"
  by (cases xs; cases "tl xs"; cases k; cases "k - 1") auto

lemma be32_bytes_nth [simp]:
  "be32 (be32_bytes w ! 0) (be32_bytes w ! Suc 0) (be32_bytes w ! 2) (be32_bytes w ! 3) = w"
  by (simp add: be32_bytes_def nth_Cons')

end
