(* ===== verification/Uds_Nrc.thy ===== *)
theory Uds_Nrc
  imports Prelude
begin

text \<open>
  Negative response codes, \<open>crates/uds/src/nrc.rs\<close>: the \<open>Nrc\<close> enum, its byte (\<open>Nrc::code\<close>)
  and the total conversion from a byte (\<open>From<u8> for Nrc\<close>).
\<close>

datatype (plugins only: size code) nrc =
    GeneralReject
  | ServiceNotSupported
  | SubFunctionNotSupported
  | IncorrectMessageLengthOrInvalidFormat
  | ResponseTooLong
  | BusyRepeatRequest
  | ConditionsNotCorrect
  | RequestSequenceError
  | NoResponseFromSubnetComponent
  | FailurePreventsExecutionOfRequestedAction
  | RequestOutOfRange
  | SecurityAccessDenied
  | AuthenticationRequired
  | InvalidKey
  | ExceededNumberOfAttempts
  | RequiredTimeDelayNotExpired
  | UploadDownloadNotAccepted
  | TransferDataSuspended
  | GeneralProgrammingFailure
  | WrongBlockSequenceCounter
  | RequestCorrectlyReceivedResponsePending
  | SubFunctionNotSupportedInActiveSession
  | ServiceNotSupportedInActiveSession
  | RpmTooHigh
  | RpmTooLow
  | EngineIsRunning
  | EngineIsNotRunning
  | EngineRunTimeTooLow
  | TemperatureTooHigh
  | TemperatureTooLow
  | VehicleSpeedTooHigh
  | VehicleSpeedTooLow
  | ThrottlePedalTooHigh
  | ThrottlePedalTooLow
  | TransmissionRangeNotInNeutral
  | TransmissionRangeNotInGear
  | BrakeSwitchesNotClosed
  | ShifterLeverNotInPark
  | TorqueConverterClutchLocked
  | VoltageTooHigh
  | VoltageTooLow
  | SecuredDataReserved u8
  | Manufacturer u8
  | Reserved u8

primrec nrc_code :: "nrc \<Rightarrow> u8" where
  "nrc_code GeneralReject = 0x10"
| "nrc_code ServiceNotSupported = 0x11"
| "nrc_code SubFunctionNotSupported = 0x12"
| "nrc_code IncorrectMessageLengthOrInvalidFormat = 0x13"
| "nrc_code ResponseTooLong = 0x14"
| "nrc_code BusyRepeatRequest = 0x21"
| "nrc_code ConditionsNotCorrect = 0x22"
| "nrc_code RequestSequenceError = 0x24"
| "nrc_code NoResponseFromSubnetComponent = 0x25"
| "nrc_code FailurePreventsExecutionOfRequestedAction = 0x26"
| "nrc_code RequestOutOfRange = 0x31"
| "nrc_code SecurityAccessDenied = 0x33"
| "nrc_code AuthenticationRequired = 0x34"
| "nrc_code InvalidKey = 0x35"
| "nrc_code ExceededNumberOfAttempts = 0x36"
| "nrc_code RequiredTimeDelayNotExpired = 0x37"
| "nrc_code UploadDownloadNotAccepted = 0x70"
| "nrc_code TransferDataSuspended = 0x71"
| "nrc_code GeneralProgrammingFailure = 0x72"
| "nrc_code WrongBlockSequenceCounter = 0x73"
| "nrc_code RequestCorrectlyReceivedResponsePending = 0x78"
| "nrc_code SubFunctionNotSupportedInActiveSession = 0x7E"
| "nrc_code ServiceNotSupportedInActiveSession = 0x7F"
| "nrc_code RpmTooHigh = 0x81"
| "nrc_code RpmTooLow = 0x82"
| "nrc_code EngineIsRunning = 0x83"
| "nrc_code EngineIsNotRunning = 0x84"
| "nrc_code EngineRunTimeTooLow = 0x85"
| "nrc_code TemperatureTooHigh = 0x86"
| "nrc_code TemperatureTooLow = 0x87"
| "nrc_code VehicleSpeedTooHigh = 0x88"
| "nrc_code VehicleSpeedTooLow = 0x89"
| "nrc_code ThrottlePedalTooHigh = 0x8A"
| "nrc_code ThrottlePedalTooLow = 0x8B"
| "nrc_code TransmissionRangeNotInNeutral = 0x8C"
| "nrc_code TransmissionRangeNotInGear = 0x8D"
| "nrc_code BrakeSwitchesNotClosed = 0x8F"
| "nrc_code ShifterLeverNotInPark = 0x90"
| "nrc_code TorqueConverterClutchLocked = 0x91"
| "nrc_code VoltageTooHigh = 0x92"
| "nrc_code VoltageTooLow = 0x93"
| "nrc_code (SecuredDataReserved b) = b"
| "nrc_code (Manufacturer b) = b"
| "nrc_code (Reserved b) = b"

text \<open>The arms in the order of the source; the ranges come after the named codes.\<close>

definition nrc_from :: "u8 \<Rightarrow> nrc" where
  "nrc_from b =
     (if b = 0x10 then GeneralReject
      else if b = 0x11 then ServiceNotSupported
      else if b = 0x12 then SubFunctionNotSupported
      else if b = 0x13 then IncorrectMessageLengthOrInvalidFormat
      else if b = 0x14 then ResponseTooLong
      else if b = 0x21 then BusyRepeatRequest
      else if b = 0x22 then ConditionsNotCorrect
      else if b = 0x24 then RequestSequenceError
      else if b = 0x25 then NoResponseFromSubnetComponent
      else if b = 0x26 then FailurePreventsExecutionOfRequestedAction
      else if b = 0x31 then RequestOutOfRange
      else if b = 0x33 then SecurityAccessDenied
      else if b = 0x34 then AuthenticationRequired
      else if b = 0x35 then InvalidKey
      else if b = 0x36 then ExceededNumberOfAttempts
      else if b = 0x37 then RequiredTimeDelayNotExpired
      else if b = 0x70 then UploadDownloadNotAccepted
      else if b = 0x71 then TransferDataSuspended
      else if b = 0x72 then GeneralProgrammingFailure
      else if b = 0x73 then WrongBlockSequenceCounter
      else if b = 0x78 then RequestCorrectlyReceivedResponsePending
      else if b = 0x7E then SubFunctionNotSupportedInActiveSession
      else if b = 0x7F then ServiceNotSupportedInActiveSession
      else if b = 0x81 then RpmTooHigh
      else if b = 0x82 then RpmTooLow
      else if b = 0x83 then EngineIsRunning
      else if b = 0x84 then EngineIsNotRunning
      else if b = 0x85 then EngineRunTimeTooLow
      else if b = 0x86 then TemperatureTooHigh
      else if b = 0x87 then TemperatureTooLow
      else if b = 0x88 then VehicleSpeedTooHigh
      else if b = 0x89 then VehicleSpeedTooLow
      else if b = 0x8A then ThrottlePedalTooHigh
      else if b = 0x8B then ThrottlePedalTooLow
      else if b = 0x8C then TransmissionRangeNotInNeutral
      else if b = 0x8D then TransmissionRangeNotInGear
      else if b = 0x8F then BrakeSwitchesNotClosed
      else if b = 0x90 then ShifterLeverNotInPark
      else if b = 0x91 then TorqueConverterClutchLocked
      else if b = 0x92 then VoltageTooHigh
      else if b = 0x93 then VoltageTooLow
      else if 0x38 \<le> b \<and> b \<le> 0x4F then SecuredDataReserved b
      else if 0xF0 \<le> b then Manufacturer b
      else Reserved b)"

lemma nrc_code_from: "nrc_code (nrc_from b) = b"
  by (simp add: nrc_from_def)

text \<open>
  \<open>Nrc::from\<close> and \<open>Nrc::code\<close> are inverse to each other: every byte is recovered from its
  code, and the codes that are recovered from their byte are exactly the values \<open>Nrc::from\<close>
  can yield.
\<close>
theorem nrc_from_code_roundtrip:
  "nrc_code (nrc_from b) = b \<and> (nrc_from (nrc_code n) = n \<longleftrightarrow> n \<in> range nrc_from)"
proof -
  have "nrc_from (nrc_code n) = n \<longleftrightarrow> n \<in> range nrc_from"
    by (metis nrc_code_from rangeE rangeI)
  then show ?thesis by (simp add: nrc_code_from)
qed

end
