(* ===== verification/Uds_Request.thy ===== *)
theory Uds_Request
  imports Prelude
begin

text \<open>
  The constants of \<open>crates/uds/src/lib.rs\<close> and the request builders of
  \<open>crates/uds/src/service.rs\<close>: each builder returns the raw request bytes of one service.
\<close>

named_theorems uds_consts

section \<open>Constants (modules \<open>sid\<close>, \<open>session\<close>, \<open>reset_subfn\<close>, \<open>did\<close> and the sub-function modules)\<close>

definition sid_DIAGNOSTIC_SESSION_CONTROL :: u8 where [uds_consts]: "sid_DIAGNOSTIC_SESSION_CONTROL = 0x10"
definition sid_ECU_RESET :: u8 where [uds_consts]: "sid_ECU_RESET = 0x11"
definition sid_CLEAR_DIAGNOSTIC_INFORMATION :: u8 where [uds_consts]: "sid_CLEAR_DIAGNOSTIC_INFORMATION = 0x14"
definition sid_READ_DTC_INFORMATION :: u8 where [uds_consts]: "sid_READ_DTC_INFORMATION = 0x19"
definition sid_READ_DATA_BY_IDENTIFIER :: u8 where [uds_consts]: "sid_READ_DATA_BY_IDENTIFIER = 0x22"
definition sid_DYNAMICALLY_DEFINE_DATA_IDENTIFIER :: u8 where [uds_consts]: "sid_DYNAMICALLY_DEFINE_DATA_IDENTIFIER = 0x2C"
definition sid_WRITE_DATA_BY_IDENTIFIER :: u8 where [uds_consts]: "sid_WRITE_DATA_BY_IDENTIFIER = 0x2E"
definition sid_ROUTINE_CONTROL :: u8 where [uds_consts]: "sid_ROUTINE_CONTROL = 0x31"
definition sid_TESTER_PRESENT :: u8 where [uds_consts]: "sid_TESTER_PRESENT = 0x3E"
definition sid_NEGATIVE_RESPONSE :: u8 where [uds_consts]: "sid_NEGATIVE_RESPONSE = 0x7F"

definition session_DEFAULT :: u8 where [uds_consts]: "session_DEFAULT = 0x01"
definition session_EXTENDED :: u8 where [uds_consts]: "session_EXTENDED = 0x03"
definition reset_subfn_HARD :: u8 where [uds_consts]: "reset_subfn_HARD = 0x01"
definition POSITIVE_RESPONSE_OFFSET :: u8 where [uds_consts]: "POSITIVE_RESPONSE_OFFSET = 0x40"
definition SUPPRESS_POSITIVE_RESPONSE :: u8 where [uds_consts]: "SUPPRESS_POSITIVE_RESPONSE = 0x80"
definition NRC_RESPONSE_PENDING :: u8 where [uds_consts]: "NRC_RESPONSE_PENDING = 0x78"

definition did_VIN :: u16 where [uds_consts]: "did_VIN = 0xF190"
definition did_ECU_LIST_ALL :: u16 where [uds_consts]: "did_ECU_LIST_ALL = 0x3F07"
definition did_ECU_LIST_ACTIVE :: u16 where [uds_consts]: "did_ECU_LIST_ACTIVE = 0x3F08"
definition did_VEHICLE_ORDER :: u16 where [uds_consts]: "did_VEHICLE_ORDER = 0x3F06"
definition did_I_STUFE :: u16 where [uds_consts]: "did_I_STUFE = 0x100B"
definition did_INFO_MEMORY :: u16 where [uds_consts]: "did_INFO_MEMORY = 0x2000"

definition REPORT_DTC_BY_STATUS_MASK :: u8 where [uds_consts]: "REPORT_DTC_BY_STATUS_MASK = 0x02"
definition REPORT_DTC_SNAPSHOT_BY_DTC :: u8 where [uds_consts]: "REPORT_DTC_SNAPSHOT_BY_DTC = 0x04"
definition REPORT_DTC_EXT_DATA_BY_DTC :: u8 where [uds_consts]: "REPORT_DTC_EXT_DATA_BY_DTC = 0x06"
definition REPORT_SEVERITY_INFO_OF_DTC :: u8 where [uds_consts]: "REPORT_SEVERITY_INFO_OF_DTC = 0x09"
definition dddi_DEFINE_BY_IDENTIFIER :: u8 where [uds_consts]: "dddi_DEFINE_BY_IDENTIFIER = 0x01"
definition dddi_CLEAR :: u8 where [uds_consts]: "dddi_CLEAR = 0x03"
definition ALL_DTC_STATUS_MASK :: u8 where [uds_consts]: "ALL_DTC_STATUS_MASK = 0xFF"
definition ALL_DTC_RECORDS :: u8 where [uds_consts]: "ALL_DTC_RECORDS = 0xFF"

text \<open>\<open>[u8; 3]\<close>, the three code bytes of a DTC, high byte first.\<close>
type_synonym code3 = "u8 \<times> u8 \<times> u8"

definition CLEAR_ALL_DTCS :: code3 where [uds_consts]: "CLEAR_ALL_DTCS = (0xFF, 0xFF, 0xFF)"

definition positive_response_sid :: "u8 \<Rightarrow> u8" where
  "positive_response_sid request_sid = request_sid + POSITIVE_RESPONSE_OFFSET"

section \<open>Builders\<close>

definition tester_present :: bytes where
  "tester_present = [sid_TESTER_PRESENT, 0x00]"

definition tester_present_suppressed :: bytes where
  "tester_present_suppressed = [sid_TESTER_PRESENT, SUPPRESS_POSITIVE_RESPONSE]"

definition diagnostic_session_control :: "u8 \<Rightarrow> bytes" where
  "diagnostic_session_control s = [sid_DIAGNOSTIC_SESSION_CONTROL, s]"

definition read_dtc_by_status_mask :: "u8 \<Rightarrow> bytes" where
  "read_dtc_by_status_mask m = [sid_READ_DTC_INFORMATION, REPORT_DTC_BY_STATUS_MASK, m]"

definition read_dtc_snapshot_by_dtc :: "code3 \<Rightarrow> u8 \<Rightarrow> bytes" where
  "read_dtc_snapshot_by_dtc dtc rec =
     (case dtc of (a, b, c) \<Rightarrow>
        [sid_READ_DTC_INFORMATION, REPORT_DTC_SNAPSHOT_BY_DTC, a, b, c, rec])"

definition read_dtc_extended_data_by_dtc :: "code3 \<Rightarrow> u8 \<Rightarrow> bytes" where
  "read_dtc_extended_data_by_dtc dtc rec =
     (case dtc of (a, b, c) \<Rightarrow>
        [sid_READ_DTC_INFORMATION, REPORT_DTC_EXT_DATA_BY_DTC, a, b, c, rec])"

definition read_dtc_severity_by_dtc :: "code3 \<Rightarrow> bytes" where
  "read_dtc_severity_by_dtc dtc =
     (case dtc of (a, b, c) \<Rightarrow>
        [sid_READ_DTC_INFORMATION, REPORT_SEVERITY_INFO_OF_DTC, a, b, c])"

definition read_data_by_identifier :: "u16 \<Rightarrow> bytes" where
  "read_data_by_identifier did = sid_READ_DATA_BY_IDENTIFIER # be16_bytes did"

definition clear_diagnostic_information :: "code3 \<Rightarrow> bytes" where
  "clear_diagnostic_information dtc =
     (case dtc of (a, b, c) \<Rightarrow> [sid_CLEAR_DIAGNOSTIC_INFORMATION, a, b, c])"

definition req_clear_all_dtcs :: bytes where
  "req_clear_all_dtcs = clear_diagnostic_information CLEAR_ALL_DTCS"

definition req_ecu_reset :: "u8 \<Rightarrow> bytes" where
  "req_ecu_reset subfunction = [sid_ECU_RESET, subfunction]"

definition clear_dynamic_data_identifier :: "u16 \<Rightarrow> bytes" where
  "clear_dynamic_data_identifier dynamic_did =
     [sid_DYNAMICALLY_DEFINE_DATA_IDENTIFIER, dddi_CLEAR] @ be16_bytes dynamic_did"

definition define_dynamic_data_by_identifier :: "u16 \<Rightarrow> u16 \<Rightarrow> u8 \<Rightarrow> u8 \<Rightarrow> bytes" where
  "define_dynamic_data_by_identifier dynamic_did source_did pos sz =
     [sid_DYNAMICALLY_DEFINE_DATA_IDENTIFIER, dddi_DEFINE_BY_IDENTIFIER]
     @ be16_bytes dynamic_did @ be16_bytes source_did @ [pos, sz]"

definition routine_control :: "u8 \<Rightarrow> u16 \<Rightarrow> bytes \<Rightarrow> bytes" where
  "routine_control subfn rid params =
     [sid_ROUTINE_CONTROL, subfn] @ be16_bytes rid @ params"

definition write_data_by_identifier :: "u16 \<Rightarrow> bytes \<Rightarrow> bytes" where
  "write_data_by_identifier did data =
     sid_WRITE_DATA_BY_IDENTIFIER # be16_bytes did @ data"

lemmas uds_builders =
  tester_present_def tester_present_suppressed_def diagnostic_session_control_def
  read_dtc_by_status_mask_def read_dtc_snapshot_by_dtc_def read_dtc_extended_data_by_dtc_def
  read_dtc_severity_by_dtc_def read_data_by_identifier_def clear_diagnostic_information_def
  req_clear_all_dtcs_def req_ecu_reset_def clear_dynamic_data_identifier_def
  define_dynamic_data_by_identifier_def routine_control_def write_data_by_identifier_def

end
