(* ===== verification/Uds_Decode.thy ===== *)
theory Uds_Decode
  imports Uds_Request
begin

text \<open>
  The positive-response decoders of \<open>crates/uds/src/dtc.rs\<close> and
  \<open>crates/uds/src/identity.rs\<close>, with the error type \<open>UdsError\<close> of \<open>lib.rs\<close>. Every early
  return of the source is a branch with its error value.
\<close>

datatype uds_error =
    UdsEmpty
  | UnexpectedResponse u8 u8          \<comment> \<open>expected SID, SID got\<close>
  | UnexpectedSubfunction u8 u8       \<comment> \<open>expected, got\<close>
  | ShortResponse u8 nat nat          \<comment> \<open>SID, bytes needed, bytes got\<close>
  | MalformedDtcRecords nat

record dtc =
  dtc_code :: code3
  dtc_status :: u8

section \<open>DTC status\<close>

definition status_PENDING :: u8 where [uds_consts]: "status_PENDING = 0x04"
definition status_CONFIRMED :: u8 where [uds_consts]: "status_CONFIRMED = 0x08"
definition status_TEST_NOT_COMPLETED_SINCE_CLEAR :: u8 where
  [uds_consts]: "status_TEST_NOT_COMPLETED_SINCE_CLEAR = 0x10"
definition status_TEST_NOT_COMPLETED_THIS_OPERATION_CYCLE :: u8 where
  [uds_consts]: "status_TEST_NOT_COMPLETED_THIS_OPERATION_CYCLE = 0x40"
definition status_RELEVANT_MASK :: u8 where [uds_consts]: "status_RELEVANT_MASK = 0xAF"

definition dtc_pending :: "dtc \<Rightarrow> bool" where
  "dtc_pending d \<longleftrightarrow> dtc_status d AND status_PENDING \<noteq> 0"

definition dtc_confirmed :: "dtc \<Rightarrow> bool" where
  "dtc_confirmed d \<longleftrightarrow> dtc_status d AND status_CONFIRMED \<noteq> 0"

definition dtc_is_relevant :: "dtc \<Rightarrow> bool" where
  "dtc_is_relevant d \<longleftrightarrow> dtc_status d AND status_RELEVANT_MASK \<noteq> 0"

section \<open>Decoders\<close>

definition expect_positive :: "bytes \<Rightarrow> u8 \<Rightarrow> uds_error + bytes" where
  "expect_positive payload expected_sid =
     (case payload of
        [] \<Rightarrow> Inl UdsEmpty
      | s # rest \<Rightarrow>
          if s = expected_sid then Inr rest else Inl (UnexpectedResponse expected_sid s))"

text \<open>One 4-byte record: \<open>[code: 3][status: 1]\<close>.\<close>

definition dtc_of_record :: "bytes \<Rightarrow> dtc" where
  "dtc_of_record r = \<lparr>dtc_code = (r ! 0, r ! 1, r ! 2), dtc_status = r ! 3\<rparr>"

definition DTC_RECORD_LEN :: nat where "DTC_RECORD_LEN = 4"

definition decode_dtcs :: "bytes \<Rightarrow> uds_error + dtc list" where
  "decode_dtcs payload =
     (let expected = positive_response_sid sid_READ_DTC_INFORMATION in
      bindE (expect_positive payload expected) (\<lambda>body.
      bindE (ok_or (slice_from_opt body 2) (ShortResponse expected 2 (length body))) (\<lambda>records.
      let subfn = REPORT_DTC_BY_STATUS_MASK in
      if body ! 0 \<noteq> subfn then Inl (UnexpectedSubfunction subfn (body ! 0))
      else if length records mod DTC_RECORD_LEN \<noteq> 0
      then Inl (MalformedDtcRecords (length records))
      else Inr (map dtc_of_record (chunks_exact DTC_RECORD_LEN records)))))"

record dtc_record_region =
  region_dtc :: code3
  region_status :: u8
  region_body :: bytes

record dtc_severity =
  sev_dtc :: code3
  sev_status :: u8
  sev_severity :: u8
  sev_functional_unit :: u8

definition DTC_DETAIL_HEADER_LEN :: nat where "DTC_DETAIL_HEADER_LEN = 5"
definition DTC_SEVERITY_BODY_LEN :: nat where "DTC_SEVERITY_BODY_LEN = 8"

definition decode_dtc_record_region :: "bytes \<Rightarrow> u8 \<Rightarrow> uds_error + dtc_record_region" where
  "decode_dtc_record_region payload expected_subfn =
     (let expected = positive_response_sid sid_READ_DTC_INFORMATION in
      bindE (expect_positive payload expected) (\<lambda>body.
      if length body < DTC_DETAIL_HEADER_LEN
      then Inl (ShortResponse expected DTC_DETAIL_HEADER_LEN (length body))
      else if body ! 0 \<noteq> expected_subfn
      then Inl (UnexpectedSubfunction expected_subfn (body ! 0))
      else Inr \<lparr>region_dtc = (body ! 1, body ! 2, body ! 3), region_status = body ! 4,
                region_body = drop DTC_DETAIL_HEADER_LEN body\<rparr>))"

definition decode_dtc_snapshot :: "bytes \<Rightarrow> uds_error + dtc_record_region" where
  "decode_dtc_snapshot payload = decode_dtc_record_region payload REPORT_DTC_SNAPSHOT_BY_DTC"

definition decode_dtc_extended_data :: "bytes \<Rightarrow> uds_error + dtc_record_region" where
  "decode_dtc_extended_data payload = decode_dtc_record_region payload REPORT_DTC_EXT_DATA_BY_DTC"

definition decode_dtc_severity :: "bytes \<Rightarrow> uds_error + dtc_severity" where
  "decode_dtc_severity payload =
     (let expected = positive_response_sid sid_READ_DTC_INFORMATION in
      bindE (expect_positive payload expected) (\<lambda>body.
      if length body < DTC_SEVERITY_BODY_LEN
      then Inl (ShortResponse expected DTC_SEVERITY_BODY_LEN (length body))
      else let subfn = REPORT_SEVERITY_INFO_OF_DTC in
      if body ! 0 \<noteq> subfn then Inl (UnexpectedSubfunction subfn (body ! 0))
      else Inr \<lparr>sev_dtc = (body ! 4, body ! 5, body ! 6), sev_status = body ! 7,
                sev_severity = body ! 2, sev_functional_unit = body ! 3\<rparr>))"

definition decode_read_data_by_identifier :: "bytes \<Rightarrow> uds_error + (u16 \<times> bytes)" where
  "decode_read_data_by_identifier payload =
     (let expected = positive_response_sid sid_READ_DATA_BY_IDENTIFIER in
      bindE (expect_positive payload expected) (\<lambda>body.
      bindE (ok_or (slice_opt body 0 2) (ShortResponse expected 2 (length body))) (\<lambda>did.
      Inr (be16 (did ! 0) (did ! 1), drop 2 body))))"

record info_memory =
  im_version :: "u8 option"
  im_entries :: "dtc list"
  im_raw :: bytes

definition decode_info_memory :: "bytes \<Rightarrow> uds_error + info_memory" where
  "decode_info_memory payload =
     (let expected = positive_response_sid sid_READ_DATA_BY_IDENTIFIER in
      bindE (expect_positive payload expected) (\<lambda>body.
      bindE (ok_or (slice_from_opt body 2) (ShortResponse expected 2 (length body))) (\<lambda>rest.
      Inr \<lparr>im_version = nth_opt rest 0,
           im_entries = map dtc_of_record
             (chunks_exact 4 (case slice_from_opt rest 1 of None \<Rightarrow> [] | Some r \<Rightarrow> r)),
           im_raw = rest\<rparr>)))"

record ecu_list =
  el_count :: u16
  el_addresses :: bytes

definition decode_ecu_list :: "bytes \<Rightarrow> uds_error + ecu_list" where
  "decode_ecu_list data =
     bindE (ok_or (slice_opt data 0 2) (ShortResponse 0x62 2 (length data))) (\<lambda>count_bytes.
     Inr \<lparr>el_count = be16 (count_bytes ! 0) (count_bytes ! 1), el_addresses = drop 2 data\<rparr>)"

section \<open>Lemmas\<close>

text \<open>The bytes an ECU sends for a list of DTCs, the layout the decoder documents.\<close>

fun dtc_bytes :: "dtc \<Rightarrow> bytes" where
  "dtc_bytes d = (case dtc_code d of (a, b, c) \<Rightarrow> [a, b, c, dtc_status d])"

lemma length_dtc_bytes [simp]: "length (dtc_bytes d) = 4"
  by (simp split: prod.split)

lemma dtc_of_record_bytes [simp]: "dtc_of_record (dtc_bytes d) = d"
  by (cases d) (auto simp: dtc_of_record_def split: prod.split)

lemma dtc_bytes_of_record: "length r = 4 \<Longrightarrow> dtc_bytes (dtc_of_record r) = r"
  by (auto simp: dtc_of_record_def length_Suc_conv numeral_eq_Suc)

lemma length_concat_dtc_bytes: "length (concat (map dtc_bytes ds)) = 4 * length ds"
  by (induction ds) (simp_all del: dtc_bytes.simps)

lemma chunks_dtc_bytes:
  "map dtc_of_record (chunks_exact 4 (concat (map dtc_bytes ds))) = ds"
  by (induction ds) (simp_all add: chunks_exact_append del: dtc_bytes.simps)

lemma dtc_bytes_chunks:
  "4 dvd length xs \<Longrightarrow> concat (map dtc_bytes (map dtc_of_record (chunks_exact 4 xs))) = xs"
proof -
  assume "4 dvd length xs"
  have "map dtc_bytes (map dtc_of_record (chunks_exact 4 xs)) = chunks_exact 4 xs"
    by (simp add: map_idI dtc_bytes_of_record set_chunks_exact del: dtc_bytes.simps)
  with \<open>4 dvd length xs\<close> show ?thesis
    by (simp add: concat_chunks_exact)
qed

lemma expect_positive_Inr:
  "expect_positive p s = Inr body \<longleftrightarrow> p = s # body"
  by (auto simp: expect_positive_def split: list.splits if_splits)

text \<open>
  \<open>decode_dtcs\<close> accepts exactly the responses \<open>59 02 <mask> <records>\<close> whose record region is
  a sequence of 4-byte records, and it returns exactly the DTCs those records spell: the
  decoder and the layout determine each other, with nothing dropped or invented.
\<close>
theorem decode_dtcs_characterisation:
  "decode_dtcs payload = Inr ds \<longleftrightarrow>
     (\<exists>m. payload = [0x59, 0x02, m] @ concat (map dtc_bytes ds))"
proof
  assume "decode_dtcs payload = Inr ds"
  then obtain body where p: "payload = 0x59 # body" and len: "2 \<le> length body"
    and b0: "body ! 0 = 0x02" and dvd: "4 dvd length (drop 2 body)"
    and ds: "ds = map dtc_of_record (chunks_exact 4 (drop 2 body))"
    by (auto simp: decode_dtcs_def Let_def bindE_Inr_iff expect_positive_Inr DTC_RECORD_LEN_def
        positive_response_sid_def uds_consts slice_from_opt_def ok_or_def dvd_eq_mod_eq_0
        split: if_splits option.splits)
  from ds dvd have "concat (map dtc_bytes ds) = drop 2 body"
    using dtc_bytes_chunks by blast
  moreover from len obtain x y rest where "body = x # y # rest"
    by (auto simp: numeral_2_eq_2 Suc_le_length_iff)
  ultimately show "\<exists>m. payload = [0x59, 0x02, m] @ concat (map dtc_bytes ds)"
    using p b0 by simp
next
  assume "\<exists>m. payload = [0x59, 0x02, m] @ concat (map dtc_bytes ds)"
  then show "decode_dtcs payload = Inr ds"
    by (auto simp: decode_dtcs_def Let_def expect_positive_def DTC_RECORD_LEN_def
        positive_response_sid_def uds_consts slice_from_opt_def length_concat_dtc_bytes
        chunks_dtc_bytes[unfolded map_map] simp del: dtc_bytes.simps)
qed

end
