(* ===== verification/Hsfz_Frame.thy ===== *)
theory Hsfz_Frame
  imports Prelude
begin

text \<open>
  The HSFZ transport frame of \<open>crates/hsfz/src/frame.rs\<close>: encoding, decoding and the
  reassembly of one frame from a byte source (\<open>read_frame\<close>). The error type is the one of
  \<open>crates/hsfz/src/lib.rs\<close>, its I/O sources left out.
\<close>

datatype hsfz_error =
    HsfzConnect
  | HsfzConnectTimeout
  | HsfzReadTimeout
  | FrameTooLarge u32
  | Truncated nat nat                 \<comment> \<open>have, need\<close>
  | DiscoveryBind
  | HsfzIo

definition HEADER_LEN :: nat where "HEADER_LEN = 6"
definition MAX_FRAME_LEN :: u32 where "MAX_FRAME_LEN = 64 * 1024"

definition control_DIAGNOSTIC :: u16 where "control_DIAGNOSTIC = 0x0001"
definition control_ACK :: u16 where "control_ACK = 0x0002"
definition control_IDENTIFICATION :: u16 where "control_IDENTIFICATION = 0x0011"
definition control_ALIVE_CHECK :: u16 where "control_ALIVE_CHECK = 0x0012"

lemmas hsfz_consts = HEADER_LEN_def MAX_FRAME_LEN_def control_DIAGNOSTIC_def control_ACK_def
  control_IDENTIFICATION_def control_ALIVE_CHECK_def

record hsfz_frame =
  hf_control :: u16
  hf_addr :: "(u8 \<times> u8) option"
  hf_payload :: bytes

definition hsfz_diagnostic :: "u8 \<Rightarrow> u8 \<Rightarrow> bytes \<Rightarrow> hsfz_frame" where
  "hsfz_diagnostic source target uds =
     \<lparr>hf_control = control_DIAGNOSTIC, hf_addr = Some (source, target), hf_payload = uds\<rparr>"

definition identification_request :: hsfz_frame where
  "identification_request =
     \<lparr>hf_control = control_IDENTIFICATION, hf_addr = None, hf_payload = []\<rparr>"

definition control_has_addrs :: "u16 \<Rightarrow> nat \<Rightarrow> bool" where
  "control_has_addrs ctl body_len \<longleftrightarrow>
     (ctl = control_DIAGNOSTIC \<or> ctl = control_ACK)
     \<or> (ctl = control_ALIVE_CHECK \<and> body_len = 2)"

text \<open>The bytes \<open>encode\<close> puts after the header: the addresses, when present, then the payload.\<close>

definition hsfz_body :: "hsfz_frame \<Rightarrow> bytes" where
  "hsfz_body f = (case hf_addr f of None \<Rightarrow> [] | Some (src, tgt) \<Rightarrow> [src, tgt]) @ hf_payload f"

definition hsfz_encode :: "hsfz_frame \<Rightarrow> bytes" where
  "hsfz_encode f =
     (let body = hsfz_body f
      in be32_bytes (of_nat (length body)) @ be16_bytes (hf_control f) @ body)"

definition hsfz_decode :: "bytes \<Rightarrow> hsfz_error + hsfz_frame" where
  "hsfz_decode buf =
     (if length buf < HEADER_LEN then Inl (Truncated (length buf) HEADER_LEN)
      else let len = be32 (buf ! 0) (buf ! 1) (buf ! 2) (buf ! 3) in
      if len > MAX_FRAME_LEN then Inl (FrameTooLarge len)
      else let ctl = be16 (buf ! 4) (buf ! 5);
               body_len = unat len;
               need = HEADER_LEN + body_len in
      if length buf < need then Inl (Truncated (length buf) need)
      else let body = take body_len (drop HEADER_LEN buf) in
      if control_has_addrs ctl body_len then
        (if body_len < 2 then Inl (Truncated need (HEADER_LEN + 2))
         else Inr \<lparr>hf_control = ctl, hf_addr = Some (body ! 0, body ! 1), hf_payload = drop 2 body\<rparr>)
      else Inr \<lparr>hf_control = ctl, hf_addr = None, hf_payload = body\<rparr>)"

section \<open>Reassembly\<close>

text \<open>
  The asynchronous reader is not part of the repository. It is the parameter \<open>rx\<close>: asked for
  \<open>n\<close> bytes in state \<open>s\<close>, it fills the buffer, fails, or lets the timeout pass.
\<close>

datatype io_outcome = Filled bytes | IoFailed | TimedOut

type_synonym 's reader = "nat \<Rightarrow> 's \<Rightarrow> io_outcome \<times> 's"

definition read_exact_timed :: "'s reader \<Rightarrow> nat \<Rightarrow> 's \<Rightarrow> (hsfz_error + bytes) \<times> 's" where
  "read_exact_timed rx n s =
     (case rx n s of
        (Filled bs, s') \<Rightarrow> (Inr bs, s')
      | (IoFailed, s') \<Rightarrow> (Inl HsfzIo, s')
      | (TimedOut, s') \<Rightarrow> (Inl HsfzReadTimeout, s'))"

definition read_frame :: "'s reader \<Rightarrow> 's \<Rightarrow> (hsfz_error + hsfz_frame) \<times> 's" where
  "read_frame rx s =
     (case read_exact_timed rx 4 s of
        (Inl e, s1) \<Rightarrow> (Inl e, s1)
      | (Inr len_buf, s1) \<Rightarrow>
          let len = be32 (len_buf ! 0) (len_buf ! 1) (len_buf ! 2) (len_buf ! 3) in
          if len > MAX_FRAME_LEN then (Inl (FrameTooLarge len), s1)
          else let rest_len = 2 + unat len in
          (case read_exact_timed rx rest_len s1 of
             (Inl e, s2) \<Rightarrow> (Inl e, s2)
           | (Inr rest, s2) \<Rightarrow> (hsfz_decode (len_buf @ rest), s2)))"

section \<open>Lemmas\<close>

text \<open>
  A frame whose addresses agree with its control word and whose body the 16-bit-page cap admits:
  what the constructors of the module build.
\<close>

definition hsfz_wf :: "hsfz_frame \<Rightarrow> bool" where
  "hsfz_wf f \<longleftrightarrow>
     length (hsfz_body f) \<le> unat MAX_FRAME_LEN
     \<and> (control_has_addrs (hf_control f) (length (hsfz_body f)) \<longleftrightarrow> hf_addr f \<noteq> None)"

lemma length_hsfz_encode [simp]: "length (hsfz_encode f) = 6 + length (hsfz_body f)"
  by (simp add: hsfz_encode_def Let_def)

lemma nth_header:
  "(be32_bytes w @ be16_bytes v @ xs) ! 0 = ucast (drop_bit 24 w)"
  "(be32_bytes w @ be16_bytes v @ xs) ! Suc 0 = ucast (drop_bit 16 w)"
  "(be32_bytes w @ be16_bytes v @ xs) ! 2 = ucast (drop_bit 8 w)"
  "(be32_bytes w @ be16_bytes v @ xs) ! 3 = ucast w"
  "(be32_bytes w @ be16_bytes v @ xs) ! 4 = ucast (drop_bit 8 v)"
  "(be32_bytes w @ be16_bytes v @ xs) ! 5 = ucast v"
  by (simp_all add: be32_bytes_def be16_bytes_def numeral_eq_Suc)

lemma drop_header: "drop HEADER_LEN (be32_bytes w @ be16_bytes v @ xs) = xs"
  by (simp add: HEADER_LEN_def)

text \<open>Decoding bytes that start with a header: the branches after the length check.\<close>

lemma hsfz_decode_header:
  assumes "unat w \<le> unat MAX_FRAME_LEN" and "unat w \<le> length xs"
  shows "hsfz_decode (be32_bytes w @ be16_bytes v @ xs) =
    (if control_has_addrs v (unat w) then
       (if unat w < 2 then Inl (Truncated (6 + unat w) 8)
        else Inr \<lparr>hf_control = v, hf_addr = Some (xs ! 0, xs ! 1),
                  hf_payload = drop 2 (take (unat w) xs)\<rparr>)
     else Inr \<lparr>hf_control = v, hf_addr = None, hf_payload = take (unat w) xs\<rparr>)"
proof -
  from assms(1) have "\<not> w > MAX_FRAME_LEN"
    by (simp add: word_less_nat_alt)
  with assms(2) show ?thesis
    by (auto simp: hsfz_decode_def Let_def nth_header drop_header HEADER_LEN_def)
qed

lemma decode_encode_iff:
  assumes "length (hsfz_body f) < 2 ^ 32"
  shows "hsfz_decode (hsfz_encode f @ rest) = Inr f \<longleftrightarrow> hsfz_wf f"
proof (cases "length (hsfz_body f) \<le> unat MAX_FRAME_LEN")
  case True
  let ?w = "of_nat (length (hsfz_body f)) :: u32"
  have w: "unat ?w = length (hsfz_body f)"
    using assms by (simp add: unat_of_nat)
  have le: "unat ?w \<le> unat MAX_FRAME_LEN" and len: "unat ?w \<le> length (hsfz_body f @ rest)"
    using True w by simp_all
  have dec: "hsfz_decode (hsfz_encode f @ rest) =
      hsfz_decode (be32_bytes ?w @ be16_bytes (hf_control f) @ hsfz_body f @ rest)"
    by (simp add: hsfz_encode_def Let_def)
  show ?thesis
  proof (cases "hf_addr f")
    case None
    then show ?thesis
      using True unfolding dec hsfz_decode_header [OF le len] w
      by (cases f) (auto simp: hsfz_wf_def hsfz_body_def)
  next
    case (Some st)
    then show ?thesis
      using True unfolding dec hsfz_decode_header [OF le len] w
      by (cases f; cases st) (auto simp: hsfz_wf_def hsfz_body_def)
  qed
next
  case False
  let ?w = "of_nat (length (hsfz_body f)) :: u32"
  have w: "unat ?w = length (hsfz_body f)"
    using assms by (simp add: unat_of_nat)
  from False w have "?w > MAX_FRAME_LEN"
    by (simp add: word_less_nat_alt)
  then have "hsfz_decode (hsfz_encode f @ rest) = Inl (FrameTooLarge ?w)"
    by (simp add: hsfz_encode_def hsfz_decode_def Let_def nth_header HEADER_LEN_def)
  with False show ?thesis
    by (simp add: hsfz_wf_def)
qed

text \<open>
  \<open>decode\<close> inverts \<open>encode\<close> exactly on the well-formed frames, whatever bytes follow the
  frame in the buffer: for a frame whose body length fits the 32-bit length field, decoding its
  encoding gives the frame back if and only if its addresses agree with its control word and its
  body stays within \<open>MAX_FRAME_LEN\<close>.
\<close>
theorem hsfz_decode_encode:
  assumes "length (hsfz_body f) < 2 ^ 32"
  shows "hsfz_decode (hsfz_encode f @ rest) = Inr f \<longleftrightarrow> hsfz_wf f"
  using assms by (rule decode_encode_iff)

theorem hsfz_decode_encode_witness:
  "length (hsfz_body (hsfz_diagnostic 0xF4 0x10 [0x3E, 0x00])) < 2 ^ 32
   \<and> hsfz_decode (hsfz_encode (hsfz_diagnostic 0xF4 0x10 [0x3E, 0x00]) @ [7])
       = Inr (hsfz_diagnostic 0xF4 0x10 [0x3E, 0x00])"
proof -
  let ?f = "hsfz_diagnostic 0xF4 0x10 [0x3E, 0x00]"
  have len: "length (hsfz_body ?f) < 2 ^ 32"
    by (simp add: hsfz_diagnostic_def hsfz_body_def)
  have "hsfz_wf ?f"
    by (simp add: hsfz_wf_def hsfz_diagnostic_def hsfz_body_def hsfz_consts control_has_addrs_def)
  with hsfz_decode_encode [OF len, of "[7]"] len show ?thesis by simp
qed

lemma split_header:
  assumes "HEADER_LEN \<le> length buf"
  shows "\<exists>w v xs. buf = be32_bytes w @ be16_bytes v @ xs"
proof -
  obtain a b c d e f xs where "buf = a # b # c # d # e # f # xs"
    using assms by (auto simp: HEADER_LEN_def numeral_eq_Suc Suc_le_length_iff)
  then have "buf = be32_bytes (be32 a b c d) @ be16_bytes (be16 e f) @ xs"
    by simp
  then show ?thesis by blast
qed

text \<open>
  Every accepted buffer starts with the encoding of the frame \<open>decode\<close> returns, and that
  frame is well formed: the wire form of a frame is unique, and no accepted input is read past
  the length its header claims.
\<close>
theorem hsfz_decode_canonical:
  "hsfz_decode buf = Inr f \<Longrightarrow> hsfz_wf f \<and> (\<exists>rest. buf = hsfz_encode f @ rest)"
proof -
  assume dec: "hsfz_decode buf = Inr f"
  then have "HEADER_LEN \<le> length buf"
    by (auto simp: hsfz_decode_def split: if_splits)
  then obtain w v xs where buf: "buf = be32_bytes w @ be16_bytes v @ xs"
    using split_header by blast
  from dec buf have le: "unat w \<le> unat MAX_FRAME_LEN" and len: "unat w \<le> length xs"
    by (auto simp: hsfz_decode_def Let_def nth_header HEADER_LEN_def word_le_nat_alt not_less
        split: if_splits)
  have body: "hsfz_body f = take (unat w) xs" and ctl: "hf_control f = v"
    and addr: "control_has_addrs v (unat w) \<longleftrightarrow> hf_addr f \<noteq> None"
    using dec [unfolded buf hsfz_decode_header [OF le len]] take_two [OF _ len]
    by (auto simp: hsfz_body_def split: if_splits)
  have "length (hsfz_body f) = unat w"
    using body len by simp
  then have "hsfz_wf f" and "hsfz_encode f = be32_bytes w @ be16_bytes v @ take (unat w) xs"
    using le ctl addr body by (auto simp: hsfz_wf_def hsfz_encode_def Let_def)
  moreover have "buf = (be32_bytes w @ be16_bytes v @ take (unat w) xs) @ drop (unat w) xs"
    using buf by simp
  ultimately show ?thesis by metis
qed

theorem hsfz_decode_canonical_witness:
  "hsfz_decode [0, 0, 0, 4, 0, 1, 0x10, 0xF4, 0x7E, 0, 9]
     = Inr (hsfz_diagnostic 0x10 0xF4 [0x7E, 0])
   \<and> hsfz_wf (hsfz_diagnostic 0x10 0xF4 [0x7E, 0])"
proof -
  have "hsfz_decode [0, 0, 0, 4, 0, 1, 0x10, 0xF4, 0x7E, 0, 9]
      = Inr (hsfz_diagnostic 0x10 0xF4 [0x7E, 0])"
    by code_simp
  with hsfz_decode_canonical [OF this] show ?thesis by simp
qed

section \<open>Reading frames off a stream\<close>

text \<open>What \<open>read_exact\<close> documents: it fills the whole buffer with the next bytes of the stream.\<close>

definition exact_reader :: "'s reader \<Rightarrow> ('s \<Rightarrow> bytes) \<Rightarrow> bool" where
  "exact_reader rx stream \<longleftrightarrow>
     (\<forall>n s. n \<le> length (stream s) \<longrightarrow>
        (\<exists>s'. rx n s = (Filled (take n (stream s)), s') \<and> stream s' = drop n (stream s)))"

text \<open>A reader over a list of TCP segments, for which the law holds wherever the cuts are.\<close>

fun segment_reader :: "bytes list reader" where
  "segment_reader n segs =
     (if n \<le> length (concat segs) then (Filled (take n (concat segs)), [drop n (concat segs)])
      else (TimedOut, segs))"

lemma exact_reader_segments: "exact_reader segment_reader concat"
  by (simp add: exact_reader_def)

lemma exact_readerD:
  assumes "exact_reader rx stream" and "stream s = xs @ ys"
  obtains s' where "rx (length xs) s = (Filled xs, s')" and "stream s' = ys"
proof -
  have "length xs \<le> length (stream s)" using assms(2) by simp
  with assms(1) obtain s' where "rx (length xs) s = (Filled (take (length xs) (stream s)), s')"
    and "stream s' = drop (length xs) (stream s)"
    unfolding exact_reader_def by blast
  with assms(2) that show thesis by simp
qed

text \<open>
  \<open>read_frame\<close> reassembles: over any reader that fills its buffer with the next bytes of the
  stream (so wherever TCP has cut the segments), a stream that starts with the encoding of a
  well-formed frame yields that frame and leaves exactly the bytes after it.
\<close>
theorem read_frame_reassembles:
  assumes rx: "exact_reader rx stream" and s: "stream s = hsfz_encode f @ rest"
    and wf: "hsfz_wf f"
  shows "\<exists>s'. read_frame rx s = (Inr f, s') \<and> stream s' = rest"
proof -
  let ?w = "of_nat (length (hsfz_body f)) :: u32"
  have le: "length (hsfz_body f) \<le> unat MAX_FRAME_LEN" using wf by (simp add: hsfz_wf_def)
  then have w: "unat ?w = length (hsfz_body f)"
    by (simp add: unat_of_nat MAX_FRAME_LEN_def)
  let ?hdr = "be16_bytes (hf_control f) @ hsfz_body f"
  obtain s1 where r1: "rx 4 s = (Filled (be32_bytes ?w), s1)" and s1: "stream s1 = ?hdr @ rest"
    using exact_readerD [OF rx, of s "be32_bytes ?w"] s by (auto simp: hsfz_encode_def Let_def)
  obtain s2 where r2: "rx (length ?hdr) s1 = (Filled ?hdr, s2)" and s2: "stream s2 = rest"
    using exact_readerD [OF rx s1] by blast
  have "length (hsfz_body f) < 2 ^ 32" using le by (simp add: MAX_FRAME_LEN_def)
  then have dec: "hsfz_decode (be32_bytes ?w @ ?hdr) = Inr f"
    using decode_encode_iff [of f "[]"] wf by (simp add: hsfz_encode_def Let_def)
  have "\<not> ?w > MAX_FRAME_LEN" using le w by (simp add: word_less_nat_alt)
  with r1 r2 w dec s2 show ?thesis
    by (simp add: read_frame_def read_exact_timed_def Let_def be32_bytes_nth)
qed

theorem read_frame_reassembles_witness:
  "exact_reader segment_reader concat
   \<and> concat [[0, 0, 0], [0, 0, 0x11, 1], [2]] = hsfz_encode identification_request @ [1, 2]
   \<and> hsfz_wf identification_request
   \<and> (\<exists>s'. read_frame segment_reader [[0, 0, 0], [0, 0, 0x11, 1], [2]]
          = (Inr identification_request, s') \<and> concat s' = [1, 2])"
proof -
  have cat: "concat [[0, 0, 0], [0, 0, 0x11, 1], [2]] = hsfz_encode identification_request @ [1, 2]"
    by (simp add: hsfz_encode_def identification_request_def hsfz_body_def be32_bytes_def
        be16_bytes_def hsfz_consts)
  have wf: "hsfz_wf identification_request"
    by (simp add: hsfz_wf_def identification_request_def hsfz_body_def hsfz_consts
        control_has_addrs_def)
  show ?thesis
    using read_frame_reassembles [OF exact_reader_segments cat wf] exact_reader_segments cat wf
    by blast
qed

end
