(* ===== verification/Hsfz_Discover.thy ===== *)
theory Hsfz_Discover
  imports Hsfz_Frame
begin

text \<open>
  Gateway discovery, \<open>crates/hsfz/src/discover.rs\<close>: the VIN scan of an announcement body and
  the collection of the replies. The socket is outside: the datagrams it delivered before the
  listen window elapsed are the argument of \<open>collect_gateways\<close>.
\<close>

definition VIN_LEN :: nat where "VIN_LEN = 17"

definition is_vin_char :: "u8 \<Rightarrow> bool" where
  "is_vin_char b \<longleftrightarrow>
     (0x30 \<le> b \<and> b \<le> 0x39) \<or> (0x41 \<le> b \<and> b \<le> 0x48) \<or> (0x4A \<le> b \<and> b \<le> 0x4E)
     \<or> b = 0x50 \<or> (0x52 \<le> b \<and> b \<le> 0x5A)"

text \<open>The bytes of \<open>BMWVIN\<close>.\<close>
definition VIN_MARKER :: bytes where "VIN_MARKER = [0x42, 0x4D, 0x57, 0x56, 0x49, 0x4E]"

text \<open>\<open>slice.windows(n)\<close>: every run of \<open>n\<close> adjacent elements, left to right.\<close>

definition windows :: "nat \<Rightarrow> 'a list \<Rightarrow> 'a list list" where
  "windows n xs = map (\<lambda>i. take n (drop i xs)) [0..<Suc (length xs) - n]"

definition vin_text :: "bytes \<Rightarrow> ustring" where
  "vin_text bs = map unat bs"

definition valid_vin :: "bytes \<Rightarrow> bool" where
  "valid_vin w \<longleftrightarrow> list_all is_vin_char w"

definition scan_vin :: "bytes \<Rightarrow> ustring option" where
  "scan_vin bs =
     (let anchored =
        (case position (\<lambda>w. w = VIN_MARKER) (windows (length VIN_MARKER) bs) of
           None \<Rightarrow> None
         | Some pos \<Rightarrow>
             let start = pos + length VIN_MARKER in
             (case slice_opt bs start (start + VIN_LEN) of
                None \<Rightarrow> None
              | Some vin \<Rightarrow> if valid_vin vin then Some (vin_text vin) else None))
      in case anchored of
           Some v \<Rightarrow> Some v
         | None \<Rightarrow> map_option vin_text (find valid_vin (windows VIN_LEN bs)))"

record 'ip gateway =
  gw_ip :: 'ip
  gw_vin :: "ustring option"
  gw_raw :: bytes

definition collect_gateways :: "('ip \<times> bytes) list \<Rightarrow> 'ip gateway list" where
  "collect_gateways replies =
     map (\<lambda>(ip, raw). \<lparr>gw_ip = ip, gw_vin = scan_vin raw, gw_raw = raw\<rparr>) replies"

lemma set_windows: "w \<in> set (windows n xs) \<longleftrightarrow> (\<exists>i. i + n \<le> length xs \<and> w = take n (drop i xs))"
  by (auto simp: windows_def image_iff) (metis Suc_le_mono le_SucI less_diff_conv less_Suc_eq_le)+

lemma windows_append: "length w = n \<Longrightarrow> w \<in> set (windows n (xs @ w @ ys))"
  unfolding set_windows by (rule exI [of _ "length xs"]) simp

lemma slice_window: "slice_opt xs a (a + n) = Some w \<Longrightarrow> w \<in> set (windows n xs)"
  by (auto simp: slice_opt_Some_iff set_windows)

lemma find_SomeD: "find p xs = Some x \<Longrightarrow> x \<in> set xs \<and> p x"
  by (auto simp: find_Some_iff)

lemma scan_vin_Some:
  "scan_vin bs = Some v \<Longrightarrow> \<exists>w\<in>set (windows VIN_LEN bs). valid_vin w \<and> v = vin_text w"
  by (auto simp: scan_vin_def Let_def dest!: find_SomeD slice_window
      split: option.splits if_splits)

text \<open>
  \<open>scan_vin\<close> finds a VIN exactly when the datagram holds a run of 17 bytes of the VIN
  alphabet, and what it returns is such a run of the datagram, never text assembled from
  elsewhere.
\<close>
theorem scan_vin_sound_complete:
  "(scan_vin bs = None \<longleftrightarrow> (\<forall>w\<in>set (windows VIN_LEN bs). \<not> valid_vin w))
   \<and> (\<forall>v. scan_vin bs = Some v \<longrightarrow>
        (\<exists>pre w post. bs = pre @ w @ post \<and> length w = 17 \<and> valid_vin w \<and> v = vin_text w))"
proof (intro conjI allI impI)
  show "scan_vin bs = None \<longleftrightarrow> (\<forall>w\<in>set (windows VIN_LEN bs). \<not> valid_vin w)"
    by (auto simp: scan_vin_def Let_def find_None_iff dest: slice_window
        split: option.splits if_splits)
next
  fix v
  assume "scan_vin bs = Some v"
  then obtain i where i: "i + 17 \<le> length bs" and w: "valid_vin (take 17 (drop i bs))"
    "v = vin_text (take 17 (drop i bs))"
    by (auto dest!: scan_vin_Some simp: set_windows VIN_LEN_def)
  have "bs = take i bs @ take 17 (drop i bs) @ drop (i + 17) bs"
    by (metis add.commute append_take_drop_id drop_drop)
  with i w show "\<exists>pre w post. bs = pre @ w @ post \<and> length w = 17 \<and> valid_vin w \<and> v = vin_text w"
    by (metis length_take length_drop min.absorb2 le_diff_conv2 add_leD1 add.commute)
qed

theorem scan_vin_sound_complete_witness:
  "scan_vin (map of_nat [0, 1, 87, 66, 65, 51, 66, 53, 67, 53, 48, 69, 75, 49, 50, 51, 52, 53, 54, 7])
     = Some [87, 66, 65, 51, 66, 53, 67, 53, 48, 69, 75, 49, 50, 51, 52, 53, 54]
   \<and> (\<exists>pre w post. map of_nat [0, 1, 87, 66, 65, 51, 66, 53, 67, 53, 48, 69, 75, 49, 50, 51, 52,
          53, 54, 7] = pre @ w @ post
        \<and> length w = 17 \<and> valid_vin w
        \<and> [87, 66, 65, 51, 66, 53, 67, 53, 48, 69, 75, 49, 50, 51, 52, 53, 54] = vin_text w)"
proof -
  let ?bs = "map of_nat [0, 1, 87, 66, 65, 51, 66, 53, 67, 53, 48, 69, 75, 49, 50, 51, 52, 53, 54, 7]"
  have "scan_vin ?bs = Some [87, 66, 65, 51, 66, 53, 67, 53, 48, 69, 75, 49, 50, 51, 52, 53, 54]"
    by code_simp
  with scan_vin_sound_complete [of ?bs] show ?thesis by blast
qed

lemma position_SomeI:
  "i < length xs \<Longrightarrow> p (xs ! i) \<Longrightarrow> (\<And>j. j < i \<Longrightarrow> \<not> p (xs ! j)) \<Longrightarrow> position p xs = Some i"
proof (induction xs arbitrary: i)
  case Nil
  then show ?case by simp
next
  case (Cons x xs)
  show ?case
  proof (cases i)
    case 0
    with Cons.prems show ?thesis by simp
  next
    case (Suc k)
    have "\<not> p x" using Cons.prems(3) [of 0] Suc by simp
    moreover have "position p xs = Some k"
      using Cons.IH [of k] Cons.prems Suc by (metis Suc_less_eq length_Cons nth_Cons_Suc)
    ultimately show ?thesis using Suc by simp
  qed
qed

lemma nth_windows: "i + n \<le> length xs \<Longrightarrow> windows n xs ! i = take n (drop i xs)"
  by (simp add: windows_def less_diff_conv less_Suc_eq_le del: upt_Suc)

text \<open>
  The first \<open>BMWVIN\<close> marker decides: when 17 VIN characters follow it they are the result,
  whatever VIN-like run an earlier part of the datagram contains.
\<close>
theorem scan_vin_marker_first:
  assumes bs: "bs = pre @ VIN_MARKER @ vin @ suf"
    and first: "\<And>i. i < length pre \<Longrightarrow> take 6 (drop i bs) \<noteq> VIN_MARKER"
    and vin: "length vin = 17" "valid_vin vin"
  shows "scan_vin bs = Some (vin_text vin)"
proof -
  have len: "length VIN_MARKER = 6" by (simp add: VIN_MARKER_def)
  have "position (\<lambda>w. w = VIN_MARKER) (windows 6 bs) = Some (length pre)"
  proof (rule position_SomeI)
    show "length pre < length (windows 6 bs)"
      using bs len vin by (simp add: windows_def)
    show "windows 6 bs ! length pre = VIN_MARKER"
      using bs len vin by (simp add: nth_windows)
    show "windows 6 bs ! j \<noteq> VIN_MARKER" if "j < length pre" for j
      using first [OF that] bs len vin that by (simp add: nth_windows)
  qed
  moreover have "slice_opt bs (length pre + 6) (length pre + 6 + 17) = Some vin"
    using bs len vin by (simp add: slice_opt_def)
  ultimately show ?thesis
    using vin by (simp add: scan_vin_def Let_def len VIN_LEN_def)
qed

theorem scan_vin_marker_first_witness:
  "scan_vin (map of_nat ([65, 71, 65, 68, 82, 49, 48, 66, 77, 87, 77, 65, 67, 48, 48, 49, 65]
      @ [66, 77, 87, 86, 73, 78]
      @ [87, 66, 65, 51, 66, 53, 67, 53, 48, 69, 75, 49, 50, 51, 52, 53, 54]))
   = Some [87, 66, 65, 51, 66, 53, 67, 53, 48, 69, 75, 49, 50, 51, 52, 53, 54]"
proof -
  let ?pre = "map of_nat [65, 71, 65, 68, 82, 49, 48, 66, 77, 87, 77, 65, 67, 48, 48, 49, 65] :: bytes"
  let ?vin = "map of_nat [87, 66, 65, 51, 66, 53, 67, 53, 48, 69, 75, 49, 50, 51, 52, 53, 54] :: bytes"
  have "\<forall>i\<in>set [0..<17]. take 6 (drop i (?pre @ VIN_MARKER @ ?vin @ [])) \<noteq> VIN_MARKER"
    by code_simp
  then have first: "take 6 (drop i (?pre @ VIN_MARKER @ ?vin @ [])) \<noteq> VIN_MARKER"
    if "i < length ?pre" for i
  proof -
    from that have "i \<in> set [0..<17]" by simp
    with \<open>\<forall>i\<in>set [0..<17]. _ i\<close> show ?thesis by blast
  qed
  have "scan_vin (?pre @ VIN_MARKER @ ?vin @ []) = Some (vin_text ?vin)"
    by (rule scan_vin_marker_first [OF refl first]) (simp_all, code_simp)
  then show ?thesis by (simp add: VIN_MARKER_def vin_text_def)
qed

end
