(* ===== verification/Hsfz_Conn.thy ===== *)
theory Hsfz_Conn
  imports Hsfz_Discover
begin

text \<open>
  The transport's contact with the network: \<open>write_frame\<close> of \<open>crates/hsfz/src/frame.rs\<close>, the TCP
  connection of \<open>crates/hsfz/src/conn.rs\<close> and the discovery broadcast of
  \<open>crates/hsfz/src/discover.rs\<close>. The sockets are outside the repository: each is a record of the
  operations the code calls on it, over a state \<open>'w\<close> of the network, and nothing is assumed of
  them. A timeout is an outcome of the operation it bounds.
\<close>

section \<open>Writing a frame\<close>

text \<open>An \<open>AsyncWrite\<close>: \<open>True\<close> is \<open>Ok\<close>, \<open>False\<close> an I/O error.\<close>

record 'w writer =
  wr_write_all :: "bytes \<Rightarrow> 'w \<Rightarrow> bool \<times> 'w"
  wr_flush :: "'w \<Rightarrow> bool \<times> 'w"

definition write_frame :: "'w writer \<Rightarrow> hsfz_frame \<Rightarrow> 'w \<Rightarrow> (hsfz_error + unit) \<times> 'w" where
  "write_frame wr frame w =
     (case wr_write_all wr (hsfz_encode frame) w of
        (False, w1) \<Rightarrow> (Inl HsfzIo, w1)
      | (True, w1) \<Rightarrow>
     (case wr_flush wr w1 of
        (False, w2) \<Rightarrow> (Inl HsfzIo, w2)
      | (True, w2) \<Rightarrow> (Inr (), w2)))"

section \<open>The connection\<close>

text \<open>\<open>timeout(connect_timeout, TcpStream::connect(peer))\<close>: a stream, an error, or neither in time.\<close>

datatype 'st tcp_outcome = TcpStream 'st | TcpRefused | TcpTimedOut

record ('ip, 'st, 'w) tcp =
  tcp_connect :: "u64 \<Rightarrow> 'ip \<times> u16 \<Rightarrow> 'w \<Rightarrow> 'st tcp_outcome \<times> 'w"
  tcp_set_nodelay :: "bool \<Rightarrow> 'st \<Rightarrow> 'w \<Rightarrow> bool \<times> 'w"

record 'st hsfz_connection =
  hc_stream :: 'st
  hc_read_timeout :: u64

definition hsfz_connect ::
    "('ip, 'st, 'w) tcp \<Rightarrow> 'ip \<Rightarrow> u16 \<Rightarrow> u64 \<Rightarrow> u64 \<Rightarrow> 'w \<Rightarrow> (hsfz_error + 'st hsfz_connection) \<times> 'w" where
  "hsfz_connect tcp ip port connect_timeout read_timeout w =
     (let peer = (ip, port) in
      case tcp_connect tcp connect_timeout peer w of
        (TcpRefused, w1) \<Rightarrow> (Inl HsfzConnect, w1)
      | (TcpTimedOut, w1) \<Rightarrow> (Inl HsfzConnectTimeout, w1)
      | (TcpStream stream, w1) \<Rightarrow>
     (case tcp_set_nodelay tcp True stream w1 of
        (False, w2) \<Rightarrow> (Inl HsfzConnect, w2)
      | (True, w2) \<Rightarrow> (Inr \<lparr>hc_stream = stream, hc_read_timeout = read_timeout\<rparr>, w2)))"

text \<open>\<open>into_split\<close> of the stream is the parameter \<open>split\<close>.\<close>

definition into_parts :: "('st \<Rightarrow> 'r \<times> 'h) \<Rightarrow> 'st hsfz_connection \<Rightarrow> 'r \<times> 'h \<times> u64" where
  "into_parts split conn =
     (let (rd, wr) = split (hc_stream conn) in (rd, wr, hc_read_timeout conn))"

section \<open>The discovery broadcast\<close>

datatype ip_addr = V4 u32 | V6 "128 word"

text \<open>\<open>Ipv4Addr::is_link_local\<close>: \<open>169.254.0.0/16\<close>.\<close>

definition is_link_local :: "u32 \<Rightarrow> bool" where
  "is_link_local a \<longleftrightarrow> drop_bit 16 a = 0xA9FE"

text \<open>The interfaces of the host are the argument; \<open>None\<close> when they cannot be listed.\<close>

fun first_link_local :: "ip_addr list \<Rightarrow> u32 option" where
  "first_link_local [] = None"
| "first_link_local (V4 v4 # rest) = (if is_link_local v4 then Some v4 else first_link_local rest)"
| "first_link_local (V6 _ # rest) = first_link_local rest"

definition link_local_bind_ip :: "ip_addr list option \<Rightarrow> u32 option" where
  "link_local_bind_ip if_addrs = Option.bind if_addrs first_link_local"

text \<open>\<open>timeout(wait, recv_from(buf))\<close>: the sender and the bytes put into the buffer.\<close>

datatype 'ip recv_outcome = Datagram 'ip bytes | RecvFailed | WindowElapsed

record ('ip, 'w) udp =
  udp_bind :: "u32 \<Rightarrow> 'w \<Rightarrow> bool \<times> 'w"
  udp_set_broadcast :: "bool \<Rightarrow> 'w \<Rightarrow> bool \<times> 'w"
  udp_send_to :: "bytes \<Rightarrow> u32 \<times> u16 \<Rightarrow> 'w \<Rightarrow> bool \<times> 'w"
  udp_recv :: "u64 \<Rightarrow> nat \<Rightarrow> 'w \<Rightarrow> 'ip recv_outcome \<times> 'w"

definition DISCOVERY_BUF :: nat where "DISCOVERY_BUF = 2048"

text \<open>
  The receive loop. Each receive has the whole window again, so the loop need not end: \<open>None\<close> is
  a loop that the fuel did not see the end of.
\<close>

fun receive_gateways ::
    "nat \<Rightarrow> ('ip, 'w) udp \<Rightarrow> u64 \<Rightarrow> 'ip gateway list \<Rightarrow> 'w \<Rightarrow> ((hsfz_error + 'ip gateway list) \<times> 'w) option" where
  "receive_gateways 0 udp wait gateways w = None"
| "receive_gateways (Suc fuel) udp wait gateways w =
     (case udp_recv udp wait DISCOVERY_BUF w of
        (WindowElapsed, w1) \<Rightarrow> Some (Inr gateways, w1)
      | (RecvFailed, w1) \<Rightarrow> Some (Inl HsfzIo, w1)
      | (Datagram peer raw, w1) \<Rightarrow>
          let vin = scan_vin raw in
          receive_gateways fuel udp wait (gateways @ [\<lparr>gw_ip = peer, gw_vin = vin, gw_raw = raw\<rparr>]) w1)"

definition discover ::
    "nat \<Rightarrow> ('ip, 'w) udp \<Rightarrow> u32 \<Rightarrow> u32 \<Rightarrow> u16 \<Rightarrow> u64 \<Rightarrow> 'w \<Rightarrow> ((hsfz_error + 'ip gateway list) \<times> 'w) option" where
  "discover fuel udp bind_ip broadcast port wait w =
     (case udp_bind udp bind_ip w of
        (False, w1) \<Rightarrow> Some (Inl DiscoveryBind, w1)
      | (True, w1) \<Rightarrow>
     (case udp_set_broadcast udp True w1 of
        (False, w2) \<Rightarrow> Some (Inl DiscoveryBind, w2)
      | (True, w2) \<Rightarrow>
     (let probe = hsfz_encode identification_request; dest = (broadcast, port) in
      case udp_send_to udp probe dest w2 of
        (False, w3) \<Rightarrow> Some (Inl HsfzIo, w3)
      | (True, w3) \<Rightarrow> receive_gateways fuel udp wait [] w3)))"

section \<open>What the loop returns\<close>

text \<open>
  The socket delivers the datagrams \<open>ds\<close> from state \<open>w\<close> on, and then ends: quietly, with a window
  that elapses, or with an error.
\<close>

inductive delivers :: "('ip, 'w) udp \<Rightarrow> u64 \<Rightarrow> 'w \<Rightarrow> ('ip \<times> bytes) list \<Rightarrow> bool \<Rightarrow> 'w \<Rightarrow> bool"
  for udp :: "('ip, 'w) udp" and wait :: u64 where
  quiet: "udp_recv udp wait DISCOVERY_BUF w = (WindowElapsed, w') \<Longrightarrow> delivers udp wait w [] True w'"
| failed: "udp_recv udp wait DISCOVERY_BUF w = (RecvFailed, w') \<Longrightarrow> delivers udp wait w [] False w'"
| datagram: "udp_recv udp wait DISCOVERY_BUF w = (Datagram peer raw, w1) \<Longrightarrow>
    delivers udp wait w1 ds ok w' \<Longrightarrow> delivers udp wait w ((peer, raw) # ds) ok w'"

lemma collect_gateways_simps [simp]:
  "collect_gateways [] = []"
  "collect_gateways ((ip, raw) # ds) = \<lparr>gw_ip = ip, gw_vin = scan_vin raw, gw_raw = raw\<rparr> # collect_gateways ds"
  by (simp_all add: collect_gateways_def)

text \<open>One receive decides how the sequence begins.\<close>

lemma delivers_recv:
  "udp_recv udp wait DISCOVERY_BUF w = (WindowElapsed, w1) \<Longrightarrow>
     delivers udp wait w ds ok w' \<longleftrightarrow> ds = [] \<and> ok \<and> w' = w1"
  "udp_recv udp wait DISCOVERY_BUF w = (RecvFailed, w1) \<Longrightarrow>
     delivers udp wait w ds ok w' \<longleftrightarrow> ds = [] \<and> \<not> ok \<and> w' = w1"
  "udp_recv udp wait DISCOVERY_BUF w = (Datagram peer raw, w1) \<Longrightarrow>
     delivers udp wait w ds ok w' \<longleftrightarrow> (\<exists>ds'. ds = (peer, raw) # ds' \<and> delivers udp wait w1 ds' ok w')"
  by (subst delivers.simps; force)+

lemma receive_gateways_iff:
  "receive_gateways fuel udp wait acc w = Some (res, w') \<longleftrightarrow>
     (\<exists>ds ok. delivers udp wait w ds ok w' \<and> length ds < fuel
        \<and> res = (if ok then Inr (acc @ collect_gateways ds) else Inl HsfzIo))"
proof (induction fuel arbitrary: acc w)
  case 0
  then show ?case by simp
next
  case (Suc fuel)
  obtain out w1 where out: "udp_recv udp wait DISCOVERY_BUF w = (out, w1)" by fastforce
  show ?case
  proof (cases out)
    case (Datagram peer raw)
    note split = delivers_recv(3) [OF out [unfolded Datagram]]
    have "(\<exists>ds ok. delivers udp wait w ds ok w' \<and> length ds < Suc fuel \<and> Q ds ok) \<longleftrightarrow>
        (\<exists>ds ok. delivers udp wait w1 ds ok w' \<and> length ds < fuel \<and> Q ((peer, raw) # ds) ok)" for Q
      unfolding split by (rule iffI; elim exE conjE; fastforce)
    with Datagram out show ?thesis
      by (simp add: Let_def Suc.IH)
  next
    case RecvFailed
    with out show ?thesis by (auto simp: delivers_recv(2) [OF out [unfolded RecvFailed]])
  next
    case WindowElapsed
    with out show ?thesis by (auto simp: delivers_recv(1) [OF out [unfolded WindowElapsed]])
  qed
qed

text \<open>
  A \<open>discover\<close> whose socket opened and took the probe returns exactly when the socket
  stops delivering within the fuel, and then with one gateway per datagram, in order of arrival;
  a socket that always has another datagram in time keeps it for ever.
\<close>

lemma discover_iff:
  assumes "udp_bind udp bind_ip w = (True, w1)" "udp_set_broadcast udp True w1 = (True, w2)"
    and "udp_send_to udp [0, 0, 0, 0, 0, 0x11] (broadcast, port) w2 = (True, w3)"
  shows "discover fuel udp bind_ip broadcast port wait w = Some (res, w') \<longleftrightarrow>
    (\<exists>ds ok. delivers udp wait w3 ds ok w' \<and> length ds < fuel
       \<and> res = (if ok then Inr (collect_gateways ds) else Inl HsfzIo))"
proof -
  have probe: "hsfz_encode identification_request = [0, 0, 0, 0, 0, 0x11]"
    by code_simp
  from assms show ?thesis
    by (simp add: discover_def probe Let_def receive_gateways_iff)
qed

lemma discover_chatter:
  assumes "udp_bind udp bind_ip w = (True, w1)" "udp_set_broadcast udp True w1 = (True, w2)"
    and "udp_send_to udp [0, 0, 0, 0, 0, 0x11] (broadcast, port) w2 = (True, w3)"
    and chatter: "\<And>v. \<exists>peer raw v'. udp_recv udp wait DISCOVERY_BUF v = (Datagram peer raw, v')"
  shows "discover fuel udp bind_ip broadcast port wait w = None"
proof -
  have "False" if "delivers udp wait v ds ok w'" for v ds ok w'
    using that
  proof (induction rule: delivers.induct)
    case (quiet v w')
    with chatter [of v] show ?case by auto
  next
    case (failed v w')
    with chatter [of v] show ?case by auto
  qed
  then show ?thesis
    using discover_iff [OF assms(1-3), of fuel wait] by (metis option.exhaust surj_pair)
qed

section \<open>A written frame is read back\<close>

text \<open>
  A writer that, when it succeeds, has put all the bytes on the stream, and a reader that fills
  its buffer from the stream: a successful \<open>write_frame\<close> has appended the encoding and nothing
  else.
\<close>

definition appends :: "'w writer \<Rightarrow> ('w \<Rightarrow> bytes) \<Rightarrow> bool" where
  "appends wr sent \<longleftrightarrow>
     (\<forall>bs w w'. wr_write_all wr bs w = (True, w') \<longrightarrow> sent w' = sent w @ bs)
     \<and> (\<forall>w ok w'. wr_flush wr w = (ok, w') \<longrightarrow> sent w' = sent w)"

lemma write_frame_appends:
  assumes "appends wr sent" "write_frame wr frame w = (Inr (), w')"
  shows "sent w' = sent w @ hsfz_encode frame"
  using assms by (auto simp: appends_def write_frame_def split: prod.splits bool.splits)

section \<open>The properties\<close>

text \<open>
  C38. \<open>discover\<close>, once its socket is bound and the probe \<open>00 00 00 00 00 11\<close> is out, returns
  exactly when the socket stops delivering, and then with one gateway for each datagram that
  came, in order, whoever sent it and whatever it holds: two datagrams of one gateway are two
  gateways. A receive error discards them all. There is no other bound: a network with a
  datagram in every window keeps it in the loop.
\<close>
theorem discover_collects:
  assumes "udp_bind udp bind_ip w = (True, w1)" "udp_set_broadcast udp True w1 = (True, w2)"
    and "udp_send_to udp [0, 0, 0, 0, 0, 0x11] (broadcast, port) w2 = (True, w3)"
  shows "((\<exists>fuel. discover fuel udp bind_ip broadcast port wait w = Some (res, w')) \<longleftrightarrow>
      (\<exists>ds ok. delivers udp wait w3 ds ok w' \<and> res = (if ok then Inr (collect_gateways ds) else Inl HsfzIo)))
    \<and> ((\<forall>fuel. discover fuel udp bind_ip broadcast port wait w = None) \<longleftrightarrow>
      (\<nexists>ds ok w'. delivers udp wait w3 ds ok w'))"
proof (intro conjI)
  show "(\<exists>fuel. discover fuel udp bind_ip broadcast port wait w = Some (res, w')) \<longleftrightarrow>
      (\<exists>ds ok. delivers udp wait w3 ds ok w' \<and> res = (if ok then Inr (collect_gateways ds) else Inl HsfzIo))"
    using discover_iff [OF assms, of _ wait res w'] by (metis lessI)
  have "(\<exists>fuel res w'. discover fuel udp bind_ip broadcast port wait w = Some (res, w')) \<longleftrightarrow>
      (\<exists>ds ok w'. delivers udp wait w3 ds ok w')"
    using discover_iff [OF assms, of _ wait] by (metis lessI)
  then show "(\<forall>fuel. discover fuel udp bind_ip broadcast port wait w = None) \<longleftrightarrow>
      (\<nexists>ds ok w'. delivers udp wait w3 ds ok w')"
    by (metis not_None_eq old.prod.exhaust)
qed

text \<open>A network that holds the datagrams still to come, and logs what was sent.\<close>

type_synonym demo_net = "(nat \<times> bytes) list \<times> (bytes \<times> u32 \<times> u16) list"

definition demo_udp :: "(nat, demo_net) udp" where
  "demo_udp =
     \<lparr>udp_bind = (\<lambda>ip w. (is_link_local ip, w)), udp_set_broadcast = (\<lambda>on w. (on, w)),
      udp_send_to = (\<lambda>bs dest (inbox, sent). (True, inbox, sent @ [(bs, dest)])),
      udp_recv = (\<lambda>wait n (inbox, sent). case inbox of
          [] \<Rightarrow> (WindowElapsed, [], sent)
        | (ip, bs) # inbox' \<Rightarrow> (Datagram ip (take n bs), inbox', sent))\<rparr>"

theorem discover_collects_witness:
  "(\<exists>fuel. discover fuel demo_udp 0xA9FE0102 0xA9FEFFFF 6811 500 ([(7, [1, 2]), (7, [3])], []) =
     Some (Inr [\<lparr>gw_ip = 7, gw_vin = None, gw_raw = [1, 2]\<rparr>, \<lparr>gw_ip = 7, gw_vin = None, gw_raw = [3]\<rparr>],
           [], [([0, 0, 0, 0, 0, 0x11], 0xA9FEFFFF, 6811)]))"
proof -
  let ?sent = "[([0, 0, 0, 0, 0, 0x11], 0xA9FEFFFF, 6811)] :: (bytes \<times> u32 \<times> u16) list"
  let ?ds = "[(7, [1, 2]), (7, [3])] :: (nat \<times> bytes) list"
  let ?res = "Inr (collect_gateways ?ds) :: hsfz_error + nat gateway list"
  have deliver: "delivers demo_udp 500 (?ds, ?sent) ?ds True ([], ?sent)"
    by (rule delivers.datagram, simp add: demo_udp_def DISCOVERY_BUF_def,
        rule delivers.datagram, simp add: demo_udp_def DISCOVERY_BUF_def,
        rule delivers.quiet, simp add: demo_udp_def DISCOVERY_BUF_def)
  have "udp_bind demo_udp 0xA9FE0102 (?ds, []) = (True, ?ds, [])"
    "udp_set_broadcast demo_udp True (?ds, []) = (True, ?ds, [])"
    "udp_send_to demo_udp [0, 0, 0, 0, 0, 0x11] (0xA9FEFFFF, 6811) (?ds, []) = (True, ?ds, ?sent)"
    by (simp_all add: demo_udp_def is_link_local_def)
  from discover_collects [OF this, of 500 ?res "([], ?sent)", THEN conjunct1] deliver
  have "\<exists>fuel. discover fuel demo_udp 0xA9FE0102 0xA9FEFFFF 6811 500 (?ds, []) = Some (?res, [], ?sent)"
    by (metis (full_types))
  moreover have "scan_vin [1, 2] = None" "scan_vin [3] = None"
    by code_simp+
  ultimately show ?thesis by simp
qed

end
