(* ===== verification/Cp1252.thy ===== *)
theory Cp1252
  imports Prelude
begin

text \<open>
  The Windows-1252 codec of \<open>crates/sgbd/src/cp1252.rs\<close>. A \<open>char\<close> is its code point, a
  \<open>String\<close> the list of them.
\<close>

definition HIGH_CONTROL_MAP :: "nat list" where
  "HIGH_CONTROL_MAP =
    [0x20AC, 0x0081, 0x201A, 0x0192, 0x201E, 0x2026, 0x2020, 0x2021,
     0x02C6, 0x2030, 0x0160, 0x2039, 0x0152, 0x008D, 0x017D, 0x008F,
     0x0090, 0x2018, 0x2019, 0x201C, 0x201D, 0x2022, 0x2013, 0x2014,
     0x02DC, 0x2122, 0x0161, 0x203A, 0x0153, 0x009D, 0x017E, 0x0178]"

definition decode_byte :: "u8 \<Rightarrow> nat" where
  "decode_byte b =
     (if 0x80 \<le> b \<and> b \<le> 0x9F then HIGH_CONTROL_MAP ! unat (b - 0x80) else unat b)"

definition cp1252_decode :: "bytes \<Rightarrow> ustring" where
  "cp1252_decode bs = map decode_byte bs"

definition encode_char :: "nat \<Rightarrow> u8" where
  "encode_char c =
     (if c \<le> 0x7F \<or> (0xA0 \<le> c \<and> c \<le> 0xFF) then of_nat c
      else case position (\<lambda>mapped. mapped = c) HIGH_CONTROL_MAP of
             None \<Rightarrow> 0x3F
           | Some i \<Rightarrow> 0x80 + of_nat i)"

definition cp1252_encode :: "ustring \<Rightarrow> bytes" where
  "cp1252_encode text = map encode_char text"

lemma high_map_length [simp]: "length HIGH_CONTROL_MAP = 32"
  by (simp add: HIGH_CONTROL_MAP_def)

lemma high_map_distinct: "distinct HIGH_CONTROL_MAP"
  by (simp add: HIGH_CONTROL_MAP_def)

lemma high_map_outside:
  "c \<in> set HIGH_CONTROL_MAP \<Longrightarrow> \<not> (c \<le> 0x7F \<or> (0xA0 \<le> c \<and> c \<le> 0xFF))"
  by (auto simp: HIGH_CONTROL_MAP_def)

lemma position_nth_distinct:
  "distinct xs \<Longrightarrow> i < length xs \<Longrightarrow> position (\<lambda>x. x = xs ! i) xs = Some i"
proof (induction xs arbitrary: i)
  case Nil
  then show ?case by simp
next
  case (Cons x xs)
  then show ?case by (cases i) auto
qed

lemma encode_decode_byte: "encode_char (decode_byte b) = b"
proof (cases "0x80 \<le> b \<and> b \<le> 0x9F")
  case True
  define i where "i = unat (b - 0x80)"
  have i: "i < 32" and b: "b = 0x80 + of_nat i"
    using True by (auto simp: i_def unat_sub word_le_nat_alt)
  have d: "decode_byte b = HIGH_CONTROL_MAP ! i"
    using True by (simp add: decode_byte_def i_def)
  have "HIGH_CONTROL_MAP ! i \<in> set HIGH_CONTROL_MAP" using i by simp
  note outside = high_map_outside [OF this]
  have "position (\<lambda>x. x = HIGH_CONTROL_MAP ! i) HIGH_CONTROL_MAP = Some i"
    using i by (intro position_nth_distinct high_map_distinct) simp
  then have "encode_char (HIGH_CONTROL_MAP ! i) = 0x80 + of_nat i"
    unfolding encode_char_def if_not_P [OF outside] by simp
  then show ?thesis unfolding d using b by simp
next
  case False
  have "unat b < 256" using unsigned_less [of b] by simp
  with False show ?thesis
    by (auto simp: decode_byte_def encode_char_def word_le_nat_alt not_le)
qed

lemma decode_byte_inj: "decode_byte a = decode_byte b \<longleftrightarrow> a = b"
  by (metis encode_decode_byte)

lemma decode_byte_eq_0 [simp]: "decode_byte b = 0 \<longleftrightarrow> b = 0"
proof -
  have "decode_byte 0 = 0" by (simp add: decode_byte_def)
  then show ?thesis by (metis decode_byte_inj)
qed

lemma cp1252_encode_decode [simp]: "cp1252_encode (cp1252_decode bs) = bs"
  by (simp add: cp1252_encode_def cp1252_decode_def comp_def encode_decode_byte)

lemma length_cp1252 [simp]:
  "length (cp1252_decode bs) = length bs" "length (cp1252_encode t) = length t"
  by (simp_all add: cp1252_decode_def cp1252_encode_def)

lemma cp1252_decode_append [simp]:
  "cp1252_decode (xs @ ys) = cp1252_decode xs @ cp1252_decode ys"
  by (simp add: cp1252_decode_def)

lemma cp1252_decode_inj: "cp1252_decode xs = cp1252_decode ys \<longleftrightarrow> xs = ys"
  by (metis cp1252_encode_decode)

text \<open>
  Text survives the trip through EDIABAS's byte registers: every byte string is recovered
  from its decoding, and a text is recovered from its encoding if and only if all its
  characters are in the CP1252 repertoire (any other character comes back as \<open>?\<close>).
\<close>
theorem cp1252_roundtrip:
  "cp1252_encode (cp1252_decode bs) = bs
   \<and> (cp1252_decode (cp1252_encode t) = t \<longleftrightarrow> set t \<subseteq> range decode_byte)"
proof -
  have "decode_byte (encode_char c) = c \<longleftrightarrow> c \<in> range decode_byte" for c
    by (metis encode_decode_byte rangeE rangeI)
  then have "map decode_byte (map encode_char t) = t \<longleftrightarrow> set t \<subseteq> range decode_byte"
    by (induction t) auto
  then show ?thesis
    by (simp add: cp1252_decode_def cp1252_encode_def comp_def encode_decode_byte)
qed

end
