(* ===== verification/Rust_Text.thy ===== *)
theory Rust_Text
  imports Prelude
begin

text \<open>
  The string operations of Rust's standard library that the program uses, on strings as lists of
  code points: ASCII case, digits, \<open>trim\<close>, \<open>split\<close>, integer parsing and formatting.
\<close>

section \<open>Characters\<close>

text \<open>\<open>char::is_whitespace\<close>: the Unicode \<open>White_Space\<close> characters.\<close>

definition is_whitespace :: "nat \<Rightarrow> bool" where
  "is_whitespace c \<longleftrightarrow> (9 \<le> c \<and> c \<le> 13) \<or> c = 0x20 \<or> c = 0x85 \<or> c = 0xA0 \<or> c = 0x1680
     \<or> (0x2000 \<le> c \<and> c \<le> 0x200A) \<or> c = 0x2028 \<or> c = 0x2029 \<or> c = 0x202F \<or> c = 0x205F \<or> c = 0x3000"

definition is_ascii_digit :: "nat \<Rightarrow> bool" where
  "is_ascii_digit c \<longleftrightarrow> 0x30 \<le> c \<and> c \<le> 0x39"

definition is_ascii_alphabetic :: "nat \<Rightarrow> bool" where
  "is_ascii_alphabetic c \<longleftrightarrow> (0x41 \<le> c \<and> c \<le> 0x5A) \<or> (0x61 \<le> c \<and> c \<le> 0x7A)"

text \<open>\<open>str::to_ascii_lowercase\<close> and \<open>str::eq_ignore_ascii_case\<close>.\<close>

definition ascii_lower :: "nat \<Rightarrow> nat" where
  "ascii_lower c = (if 0x41 \<le> c \<and> c \<le> 0x5A then c + 0x20 else c)"

definition to_ascii_lowercase :: "ustring \<Rightarrow> ustring" where
  "to_ascii_lowercase t = map ascii_lower t"

definition eq_ignore_ascii_case :: "ustring \<Rightarrow> ustring \<Rightarrow> bool" where
  "eq_ignore_ascii_case a b \<longleftrightarrow> map ascii_lower a = map ascii_lower b"

text \<open>\<open>char::to_digit(radix)\<close>, for a radix of at most 36.\<close>

definition to_digit :: "nat \<Rightarrow> nat \<Rightarrow> nat option" where
  "to_digit radix c =
     (let d = (if 0x30 \<le> c \<and> c \<le> 0x39 then c - 0x30
               else if 0x61 \<le> c \<and> c \<le> 0x7A then c - 0x61 + 10
               else if 0x41 \<le> c \<and> c \<le> 0x5A then c - 0x41 + 10
               else radix)
      in if d < radix then Some d else None)"

definition is_ascii_hexdigit :: "nat \<Rightarrow> bool" where
  "is_ascii_hexdigit c \<longleftrightarrow> to_digit 16 c \<noteq> None"

section \<open>Strings\<close>

definition trim_start :: "ustring \<Rightarrow> ustring" where
  "trim_start t = dropWhile is_whitespace t"

definition trim_end :: "ustring \<Rightarrow> ustring" where
  "trim_end t = rev (dropWhile is_whitespace (rev t))"

definition trim :: "ustring \<Rightarrow> ustring" where
  "trim t = trim_start (trim_end t)"

text \<open>\<open>str::split\<close> on the characters of a set: always at least one field.\<close>

fun split_on :: "(nat \<Rightarrow> bool) \<Rightarrow> ustring \<Rightarrow> ustring list" where
  "split_on p [] = [[]]"
| "split_on p (c # cs) =
     (if p c then [] # split_on p cs
      else (case split_on p cs of [] \<Rightarrow> [[c]] | f # fs \<Rightarrow> (c # f) # fs))"

definition strip_prefix :: "ustring \<Rightarrow> ustring \<Rightarrow> ustring option" where
  "strip_prefix p t =
     (if take (length p) t = p \<and> length p \<le> length t then Some (drop (length p) t) else None)"

text \<open>\<open>join\<close> of a slice of strings.\<close>

fun join_with :: "ustring \<Rightarrow> ustring list \<Rightarrow> ustring" where
  "join_with sep [] = []"
| "join_with sep [t] = t"
| "join_with sep (t # ts) = t @ sep @ join_with sep ts"

section \<open>Integers\<close>

fun digits_value :: "nat \<Rightarrow> nat \<Rightarrow> ustring \<Rightarrow> nat option" where
  "digits_value radix acc [] = Some acc"
| "digits_value radix acc (c # cs) =
     (case to_digit radix c of
        None \<Rightarrow> None
      | Some d \<Rightarrow> digits_value radix (acc * radix + d) cs)"

text \<open>
  \<open>from_str_radix\<close> and \<open>parse\<close> of the integer types, for the inclusive range \<open>lo..=hi\<close>: an
  optional sign (a minus only for a signed type), at least one digit, and the value in range.
\<close>

definition parse_int :: "nat \<Rightarrow> int \<Rightarrow> int \<Rightarrow> ustring \<Rightarrow> int option" where
  "parse_int radix lo hi t =
     (let neg = (lo < 0 \<and> t \<noteq> [] \<and> hd t = 0x2D);
          ds = (if neg \<or> (t \<noteq> [] \<and> hd t = 0x2B) then tl t else t)
      in if ds = [] then None
         else case digits_value radix 0 ds of
           None \<Rightarrow> None
         | Some n \<Rightarrow>
             let v = (if neg then - int n else int n)
             in if lo \<le> v \<and> v \<le> hi then Some v else None)"

definition parse_i64 :: "nat \<Rightarrow> ustring \<Rightarrow> int option" where
  "parse_i64 radix t = parse_int radix (- (2 ^ 63)) (2 ^ 63 - 1) t"

definition parse_u8 :: "nat \<Rightarrow> ustring \<Rightarrow> int option" where
  "parse_u8 radix t = parse_int radix 0 255 t"

text \<open>Formatting: decimal, and upper-case hexadecimal padded to a width.\<close>

definition digit_char :: "nat \<Rightarrow> nat" where
  "digit_char d = (if d < 10 then 0x30 + d else 0x41 + (d - 10))"

fun nat_digits :: "nat \<Rightarrow> nat \<Rightarrow> ustring" where
  "nat_digits radix n =
     (if n < radix \<or> radix \<le> 1 then [digit_char n]
      else nat_digits radix (n div radix) @ [digit_char (n mod radix)])"

declare nat_digits.simps [simp del]

definition fmt_int :: "int \<Rightarrow> ustring" where
  "fmt_int i = (if i < 0 then 0x2D # nat_digits 10 (nat (- i)) else nat_digits 10 (nat i))"

definition fmt_hex :: "nat \<Rightarrow> nat \<Rightarrow> ustring" where
  "fmt_hex width n =
     (let ds = nat_digits 16 n in replicate (width - length ds) 0x30 @ ds)"

section \<open>Lemmas\<close>

lemma to_digit_digit_char [simp]:
  "d < radix \<Longrightarrow> radix \<le> 36 \<Longrightarrow> to_digit radix (digit_char d) = Some d"
  by (auto simp: to_digit_def digit_char_def)

lemma digits_value_append:
  "digits_value radix acc (xs @ ys) =
     (case digits_value radix acc xs of None \<Rightarrow> None | Some a \<Rightarrow> digits_value radix a ys)"
  by (induction xs arbitrary: acc) (auto split: option.split)

lemma digits_value_nat_digits:
  assumes "2 \<le> radix" "radix \<le> 36"
  shows "digits_value radix 0 (nat_digits radix n) = Some n"
proof (induction n rule: less_induct)
  case (less n)
  show ?case
  proof (cases "n < radix")
    case True
    then show ?thesis using assms by (simp add: nat_digits.simps)
  next
    case False
    then have "digits_value radix 0 (nat_digits radix (n div radix)) = Some (n div radix)"
      using assms by (intro less) simp
    with False assms show ?thesis
      by (simp add: nat_digits.simps [of radix n] digits_value_append)
  qed
qed

lemma nat_digits_not_Nil [simp]: "nat_digits radix n \<noteq> []"
  by (subst nat_digits.simps) simp

lemma digits_value_zeros [simp]:
  "1 < radix \<Longrightarrow> digits_value radix 0 (replicate k 0x30 @ ds) = digits_value radix 0 ds"
  by (induction k) (simp_all add: to_digit_def)

lemma set_nat_digits: "2 \<le> radix \<Longrightarrow> c \<in> set (nat_digits radix n) \<Longrightarrow> \<exists>d<radix. c = digit_char d"
proof (induction n rule: less_induct)
  case (less n)
  show ?case
  proof (cases "n < radix")
    case True
    with less.prems show ?thesis by (auto simp: nat_digits.simps)
  next
    case False
    then have "n div radix < n" using less.prems by (intro div_less_dividend) auto
    note IH = less.IH [OF this]
    from less.prems False have "c \<in> set (nat_digits radix (n div radix)) \<or> c = digit_char (n mod radix)"
      by (auto simp: nat_digits.simps [of radix n])
    then show ?thesis
    proof
      assume "c \<in> set (nat_digits radix (n div radix))"
      with IH less.prems show ?thesis by blast
    next
      assume "c = digit_char (n mod radix)"
      moreover have "n mod radix < radix" using less.prems by simp
      ultimately show ?thesis by blast
    qed
  qed
qed

lemma hd_nat_digits: "2 \<le> radix \<Longrightarrow> \<exists>d<radix. hd (nat_digits radix n) = digit_char d"
  using set_nat_digits [of radix "hd (nat_digits radix n)" n] by auto

text \<open>Formatting and parsing an integer of a type gives it back.\<close>

lemma parse_fmt_int:
  assumes "lo \<le> i" "i \<le> hi" "i < 0 \<longrightarrow> lo < 0"
  shows "parse_int 10 lo hi (fmt_int i) = Some i"
proof -
  obtain d where "d < 10" "hd (nat_digits 10 (nat i)) = digit_char d"
    using hd_nat_digits [of 10 "nat i"] by auto
  then have "hd (nat_digits 10 (nat i)) \<noteq> 0x2D" "hd (nat_digits 10 (nat i)) \<noteq> 0x2B"
    by (auto simp: digit_char_def)
  with assms show ?thesis
    by (auto simp: parse_int_def fmt_int_def digits_value_nat_digits Let_def)
qed

lemma split_on_not_Nil [simp]: "split_on p t \<noteq> []"
  by (induction t) (auto split: list.split)

lemma split_on_append:
  "list_all (\<lambda>c. \<not> p c) f \<Longrightarrow> p c \<Longrightarrow> split_on p (f @ c # rest) = f # split_on p rest"
  by (induction f) auto

lemma split_on_none: "list_all (\<lambda>c. \<not> p c) f \<Longrightarrow> split_on p f = [f]"
  by (induction f) auto

lemma trim_end_last:
  "t \<noteq> [] \<Longrightarrow> \<not> is_whitespace (last t) \<Longrightarrow> trim_end t = t"
  by (cases t rule: rev_cases) (auto simp: trim_end_def)

lemma trim_start_hd: "t \<noteq> [] \<Longrightarrow> \<not> is_whitespace (hd t) \<Longrightarrow> trim_start t = t"
  by (cases t) (auto simp: trim_start_def)

end
