(* ===== verification/Sgbd_Prg.thy ===== *)
theory Sgbd_Prg
  imports Cp1252 Rust_Text
begin

text \<open>
  The \<open>@EDIABAS OBJECT\<close> container of \<open>crates/sgbd/src/prg.rs\<close>: the de-obfuscation of the
  body, the two directories, the table cells and the slicing of a job's bytecode. \<open>Prg::open\<close>
  only reads the file and calls \<open>Prg::parse\<close>.
\<close>

section \<open>Layout constants\<close>

text \<open>The bytes of \<open>@EDIABAS OBJECT\<close>.\<close>
definition MAGIC :: bytes where
  "MAGIC = [0x40, 0x45, 0x44, 0x49, 0x41, 0x42, 0x41, 0x53, 0x20, 0x4F, 0x42, 0x4A, 0x45, 0x43, 0x54]"

definition DATA_OFFSET :: nat where "DATA_OFFSET = 0xA0"
definition XOR_KEY :: u8 where "XOR_KEY = 0xF7"
definition OFFSET_TABLE_DIR :: nat where "OFFSET_TABLE_DIR = 0x84"
definition OFFSET_JOB_DIR :: nat where "OFFSET_JOB_DIR = 0x88"
definition TABLE_ENTRY_SIZE :: nat where "TABLE_ENTRY_SIZE = 0x50"
definition JOB_ENTRY_SIZE :: nat where "JOB_ENTRY_SIZE = 0x44"
definition ENTRY_CELL_PTR :: nat where "ENTRY_CELL_PTR = 0x40"
definition ENTRY_COLUMNS :: nat where "ENTRY_COLUMNS = 0x48"
definition ENTRY_ROWS :: nat where "ENTRY_ROWS = 0x4C"
definition MAX_DIRECTORY_ENTRIES :: nat where "MAX_DIRECTORY_ENTRIES = 100000"
definition NAME_FIELD_LEN :: nat where "NAME_FIELD_LEN = 64"

lemmas prg_consts = MAGIC_def DATA_OFFSET_def XOR_KEY_def OFFSET_TABLE_DIR_def OFFSET_JOB_DIR_def
  TABLE_ENTRY_SIZE_def JOB_ENTRY_SIZE_def ENTRY_CELL_PTR_def ENTRY_COLUMNS_def ENTRY_ROWS_def
  MAX_DIRECTORY_ENTRIES_def NAME_FIELD_LEN_def

section \<open>Types\<close>

record table =
  tbl_name :: ustring
  tbl_columns :: "ustring list"
  tbl_rows :: "ustring list list"

record prg =
  prg_tables :: "table list"
  prg_jobs :: "ustring list"
  prg_deob :: bytes
  prg_job_offsets :: "(ustring \<times> nat) list"

datatype sgbd_error =
    BadMagic
  | SgbdTruncated nat nat             \<comment> \<open>needed, got\<close>

section \<open>Reading\<close>

definition deobfuscate :: "u8 \<Rightarrow> nat \<Rightarrow> u8" where
  "deobfuscate byte offset = (if offset \<ge> DATA_OFFSET then byte XOR XOR_KEY else byte)"

definition deobf_buffer :: "bytes \<Rightarrow> bytes" where
  "deobf_buffer bs = map (\<lambda>(i, b). deobfuscate b i) (enumerate 0 bs)"

definition le32 :: "u8 \<Rightarrow> u8 \<Rightarrow> u8 \<Rightarrow> u8 \<Rightarrow> u32" where
  "le32 a b c d = be32 d c b a"

definition raw_u32 :: "bytes \<Rightarrow> nat \<Rightarrow> u32 option" where
  "raw_u32 bs offset =
     map_option (\<lambda>s. le32 (s ! 0) (s ! 1) (s ! 2) (s ! 3)) (slice_opt bs offset (offset + 4))"

definition deobf_u32 :: "bytes \<Rightarrow> nat \<Rightarrow> u32 option" where
  "deobf_u32 bs offset =
     map_option (\<lambda>s. le32 (deobfuscate (s ! 0) offset) (deobfuscate (s ! 1) (offset + 1))
                      (deobfuscate (s ! 2) (offset + 2)) (deobfuscate (s ! 3) (offset + 3)))
       (slice_opt bs offset (offset + 4))"

text \<open>
  The loop of \<open>read_string\<close>: from index \<open>i\<close> up to \<open>stop\<close>, the de-obfuscated bytes before the
  first NUL, and the index after the last byte read.
\<close>

function read_raw :: "bytes \<Rightarrow> nat \<Rightarrow> nat \<Rightarrow> bytes \<times> nat" where
  "read_raw bs i stop =
     (if i < stop then
        let c = deobfuscate (bs ! i) i in
        if c = 0 then ([], i + 1)
        else (case read_raw bs (i + 1) stop of (raw, j) \<Rightarrow> (c # raw, j))
      else ([], i))"
  by pat_completeness auto
termination
  by (relation "measure (\<lambda>(bs, i, stop). stop - i)") auto

declare read_raw.simps [simp del]

definition read_string :: "bytes \<Rightarrow> nat \<Rightarrow> nat \<Rightarrow> ustring \<times> nat" where
  "read_string bs offset mx =
     (let stop = min (offset + mx) (length bs)
      in case read_raw bs offset stop of (raw, i) \<Rightarrow> (cp1252_decode raw, i - offset))"

definition plausible_count :: "u32 option \<Rightarrow> u32 option" where
  "plausible_count v =
     (case v of None \<Rightarrow> None
      | Some c \<Rightarrow> if 1 \<le> unat c \<and> unat c \<le> MAX_DIRECTORY_ENTRIES then Some c else None)"

definition read_directory :: "bytes \<Rightarrow> nat \<Rightarrow> (nat \<times> u32) option" where
  "read_directory bs ptr_offset =
     (case raw_u32 bs ptr_offset of None \<Rightarrow> None
      | Some p \<Rightarrow>
          let dir = unat p in
          if dir = 0 \<or> dir + 4 > length bs then None
          else (case (case plausible_count (raw_u32 bs dir) of
                        Some c \<Rightarrow> Some c
                      | None \<Rightarrow> plausible_count (deobf_u32 bs dir)) of
                  None \<Rightarrow> None
                | Some count \<Rightarrow> Some (dir + 4, count)))"

text \<open>\<open>parse_cells\<close>: the inner loop reads one row of at most \<open>k\<close> cells, the outer loop the rows.\<close>

fun read_row :: "bytes \<Rightarrow> nat \<Rightarrow> nat \<Rightarrow> ustring list \<times> nat" where
  "read_row bs 0 offset = ([], offset)"
| "read_row bs (Suc k) offset =
     (if offset \<ge> length bs then ([], offset)
      else case read_string bs offset (length bs - offset) of (cell, consumed) \<Rightarrow>
        if consumed = 0 then ([cell], offset)
        else case read_row bs k (offset + consumed) of (row, offset') \<Rightarrow> (cell # row, offset'))"

fun read_grid :: "bytes \<Rightarrow> nat \<Rightarrow> nat \<Rightarrow> nat \<Rightarrow> ustring list list" where
  "read_grid bs columns 0 offset = []"
| "read_grid bs columns (Suc n) offset =
     (case read_row bs columns offset of (row, offset') \<Rightarrow>
        if row = [] then read_grid bs columns n offset'
        else row # read_grid bs columns n offset')"

definition parse_cells :: "bytes \<Rightarrow> nat \<Rightarrow> nat \<Rightarrow> nat \<Rightarrow> ustring list list" where
  "parse_cells bs start columns rows = read_grid bs columns (rows + 1) start"

definition u32_or_0 :: "u32 option \<Rightarrow> nat" where
  "u32_or_0 v = (case v of None \<Rightarrow> 0 | Some w \<Rightarrow> unat w)"

fun tables_from :: "bytes \<Rightarrow> nat \<Rightarrow> nat \<Rightarrow> nat \<Rightarrow> table list" where
  "tables_from bs entries_start i 0 = []"
| "tables_from bs entries_start i (Suc k) =
     (let entry = entries_start + i * TABLE_ENTRY_SIZE in
      if entry + TABLE_ENTRY_SIZE > length bs then []
      else
        let name = fst (read_string bs entry NAME_FIELD_LEN);
            cell_ptr = u32_or_0 (deobf_u32 bs (entry + ENTRY_CELL_PTR));
            columns = u32_or_0 (deobf_u32 bs (entry + ENTRY_COLUMNS));
            rows = u32_or_0 (deobf_u32 bs (entry + ENTRY_ROWS));
            cells = parse_cells bs cell_ptr columns rows;
            header = (case cells of [] \<Rightarrow> [] | h # _ \<Rightarrow> h)
        in \<lparr>tbl_name = name, tbl_columns = header, tbl_rows = tl cells\<rparr>
           # tables_from bs entries_start (Suc i) k)"

definition parse_tables :: "bytes \<Rightarrow> table list" where
  "parse_tables bs =
     (case read_directory bs OFFSET_TABLE_DIR of
        None \<Rightarrow> []
      | Some (entries_start, count) \<Rightarrow> tables_from bs entries_start 0 (unat count))"

fun jobs_from :: "bytes \<Rightarrow> nat \<Rightarrow> nat \<Rightarrow> nat \<Rightarrow> ustring list" where
  "jobs_from bs entries_start i 0 = []"
| "jobs_from bs entries_start i (Suc k) =
     (let entry = entries_start + i * JOB_ENTRY_SIZE in
      if entry + JOB_ENTRY_SIZE > length bs then []
      else
        let name = fst (read_string bs entry NAME_FIELD_LEN);
            rest = jobs_from bs entries_start (Suc i) k
        in if name \<noteq> [] then name # rest else rest)"

definition parse_jobs :: "bytes \<Rightarrow> ustring list" where
  "parse_jobs bs =
     (case read_directory bs OFFSET_JOB_DIR of
        None \<Rightarrow> []
      | Some (entries_start, count) \<Rightarrow> jobs_from bs entries_start 0 (unat count))"

fun job_offsets_from :: "bytes \<Rightarrow> nat \<Rightarrow> nat \<Rightarrow> nat \<Rightarrow> (ustring \<times> nat) list" where
  "job_offsets_from bs entries_start i 0 = []"
| "job_offsets_from bs entries_start i (Suc k) =
     (let entry = entries_start + i * JOB_ENTRY_SIZE in
      if entry + JOB_ENTRY_SIZE > length bs then []
      else
        let name = fst (read_string bs entry NAME_FIELD_LEN);
            off = u32_or_0 (deobf_u32 bs (entry + NAME_FIELD_LEN));
            rest = job_offsets_from bs entries_start (Suc i) k
        in if name \<noteq> [] then (name, off) # rest else rest)"

definition parse_job_offsets :: "bytes \<Rightarrow> (ustring \<times> nat) list" where
  "parse_job_offsets bs =
     (case read_directory bs OFFSET_JOB_DIR of
        None \<Rightarrow> []
      | Some (entries_start, count) \<Rightarrow> job_offsets_from bs entries_start 0 (unat count))"

section \<open>The container's operations\<close>

definition prg_parse :: "bytes \<Rightarrow> sgbd_error + prg" where
  "prg_parse bs =
     (if length bs < length MAGIC \<or> take (length MAGIC) bs \<noteq> MAGIC then Inl BadMagic
      else let header_end = OFFSET_JOB_DIR + 4 in
      if length bs < header_end then Inl (SgbdTruncated header_end (length bs))
      else Inr \<lparr>prg_tables = parse_tables bs, prg_jobs = parse_jobs bs,
                prg_deob = deobf_buffer bs, prg_job_offsets = parse_job_offsets bs\<rparr>)"

definition prg_table :: "prg \<Rightarrow> ustring \<Rightarrow> table option" where
  "prg_table p name = find (\<lambda>t. tbl_name t = name) (prg_tables p)"

definition prg_table_ci :: "prg \<Rightarrow> ustring \<Rightarrow> table option" where
  "prg_table_ci p name = find (\<lambda>t. eq_ignore_ascii_case (tbl_name t) name) (prg_tables p)"

definition prg_has_job :: "prg \<Rightarrow> ustring \<Rightarrow> bool" where
  "prg_has_job p name = list_ex (\<lambda>j. j = name) (prg_jobs p)"

definition prg_job_bytecode :: "prg \<Rightarrow> ustring \<Rightarrow> bytes option" where
  "prg_job_bytecode p name =
     (case find (\<lambda>(n, _). n = name) (prg_job_offsets p) of
        None \<Rightarrow> None
      | Some (_, off) \<Rightarrow>
          let later = filter (\<lambda>x. x > off) (map snd (prg_job_offsets p));
              stop = (case later of [] \<Rightarrow> length (prg_deob p) | x # xs \<Rightarrow> fold min xs x)
          in slice_opt (prg_deob p) off stop)"

section \<open>De-obfuscation\<close>

lemma length_deobf_buffer [simp]: "length (deobf_buffer bs) = length bs"
  by (simp add: deobf_buffer_def)

lemma nth_deobf_buffer: "i < length bs \<Longrightarrow> deobf_buffer bs ! i = deobfuscate (bs ! i) i"
  by (simp add: deobf_buffer_def nth_enumerate_eq)

lemma deobfuscate_twice [simp]: "deobfuscate (deobfuscate b i) i = b"
  by (simp add: deobfuscate_def xor.assoc)

lemma deobf_buffer_twice: "deobf_buffer (deobf_buffer bs) = bs"
  by (rule nth_equalityI) (simp_all add: nth_deobf_buffer)

lemma nth_slice: "a + k < b \<Longrightarrow> b \<le> length xs \<Longrightarrow> take (b - a) (drop a xs) ! k = xs ! (a + k)"
  by simp

text \<open>
  One de-obfuscation pass over the whole file is equivalent to de-obfuscating each byte by
  its absolute offset as the directory readers do, and it is its own inverse.
\<close>
theorem deobf_u32_buffer:
  "deobf_u32 bs off = raw_u32 (deobf_buffer bs) off \<and> deobf_buffer (deobf_buffer bs) = bs"
  by (auto simp: deobf_u32_def raw_u32_def slice_opt_def nth_deobf_buffer deobf_buffer_twice)

section \<open>Strings and cells\<close>

lemma read_raw_spec:
  assumes "stop \<le> length bs" and "drop i (deobf_buffer bs) = cell @ 0 # rest"
    and "0 \<notin> set cell" and "i + length cell < stop"
  shows "read_raw bs i stop = (cell, i + length cell + 1)"
  using assms
proof (induction cell arbitrary: i)
  case Nil
  then have "i < length bs" by simp
  with Nil.prems have "deobfuscate (bs ! i) i = 0"
    by (metis append_Nil length_deobf_buffer nth_deobf_buffer nth_via_drop)
  with Nil.prems show ?case by (subst read_raw.simps) simp
next
  case (Cons c cell)
  then have i: "i < length bs" by simp
  with Cons.prems have c: "deobfuscate (bs ! i) i = c"
    by (metis append_Cons length_deobf_buffer nth_deobf_buffer nth_via_drop)
  have "drop (i + 1) (deobf_buffer bs) = cell @ 0 # rest"
    using Cons.prems(2) by (metis Suc_eq_plus1 append_Cons drop_Suc list.sel(3) tl_drop)
  then have "read_raw bs (i + 1) stop = (cell, i + 1 + length cell + 1)"
    using Cons.prems by (intro Cons.IH) auto
  with c Cons.prems show ?case by (subst read_raw.simps) simp
qed

lemma read_raw_bound: "i \<le> stop \<Longrightarrow> i \<le> snd (read_raw bs i stop) \<and> snd (read_raw bs i stop) \<le> stop"
proof (induction bs i stop rule: read_raw.induct)
  case (1 bs i stop)
  then show ?case
    by (subst (1 2) read_raw.simps) (auto simp: Let_def split: prod.splits)
qed

lemma read_string_cell:
  assumes "drop i (deobf_buffer bs) = cell @ 0 # rest" and "0 \<notin> set cell"
  shows "read_string bs i (length bs - i) = (cp1252_decode cell, length cell + 1)"
proof -
  have "length (drop i (deobf_buffer bs)) = length cell + 1 + length rest"
    using assms(1) by simp
  then have "i + length cell < length bs" by simp
  with read_raw_spec [OF order_refl assms this] show ?thesis
    by (simp add: read_string_def)
qed

text \<open>The bytes of a row and of a grid: every cell followed by its NUL.\<close>

definition row_bytes :: "bytes list \<Rightarrow> bytes" where
  "row_bytes row = concat (map (\<lambda>cell. cell @ [0]) row)"

definition grid_bytes :: "bytes list list \<Rightarrow> bytes" where
  "grid_bytes grid = concat (map row_bytes grid)"

lemma row_bytes_simps [simp]:
  "row_bytes [] = []"
  "row_bytes (cell # row) = cell @ 0 # row_bytes row"
  by (simp_all add: row_bytes_def)

lemma grid_bytes_simps [simp]:
  "grid_bytes [] = []"
  "grid_bytes (row # grid) = row_bytes row @ grid_bytes grid"
  by (simp_all add: grid_bytes_def)

lemma read_row_spec:
  assumes "drop i (deobf_buffer bs) = row_bytes row @ rest" and "\<forall>cell\<in>set row. 0 \<notin> set cell"
  shows "read_row bs (length row) i = (map cp1252_decode row, i + length (row_bytes row))"
  using assms
proof (induction row arbitrary: i)
  case Nil
  then show ?case by simp
next
  case (Cons cell row)
  have d: "drop i (deobf_buffer bs) = cell @ 0 # (row_bytes row @ rest)"
    using Cons.prems by simp
  then have i: "i < length bs"
    by (metis append_is_Nil_conv drop_all leI length_deobf_buffer list.distinct(1))
  have "drop (i + (length cell + 1)) (deobf_buffer bs) = drop (length cell + 1) (cell @ 0 # (row_bytes row @ rest))"
    using d by (metis add.commute drop_drop)
  then have "drop (i + (length cell + 1)) (deobf_buffer bs) = row_bytes row @ rest" by simp
  with Cons have "read_row bs (length row) (i + (length cell + 1))
      = (map cp1252_decode row, i + (length cell + 1) + length (row_bytes row))"
    by auto
  with i read_string_cell [OF d] Cons.prems show ?case by simp
qed

lemma read_grid_spec:
  assumes "drop i (deobf_buffer bs) = grid_bytes grid @ rest"
    and "\<forall>row\<in>set grid. row \<noteq> [] \<and> length row = columns \<and> (\<forall>cell\<in>set row. 0 \<notin> set cell)"
  shows "read_grid bs columns (length grid) i = map (map cp1252_decode) grid"
  using assms
proof (induction grid arbitrary: i)
  case Nil
  then show ?case by simp
next
  case (Cons row grid)
  have d: "drop i (deobf_buffer bs) = row_bytes row @ (grid_bytes grid @ rest)"
    using Cons.prems by simp
  then have "drop (i + length (row_bytes row)) (deobf_buffer bs) = grid_bytes grid @ rest"
    by (metis add.commute append_eq_conv_conj drop_drop)
  with Cons have "read_grid bs columns (length grid) (i + length (row_bytes row))
      = map (map cp1252_decode) grid" by auto
  with read_row_spec [OF d] Cons.prems show ?case by auto
qed

text \<open>
  \<open>parse_cells\<close> reads back the grid that was written: where the de-obfuscated file holds, from
  \<open>start\<close> on, the header row and \<open>rows\<close> data rows of \<open>columns\<close> NUL-terminated cells, the result is
  exactly these cells, decoded, whatever follows them.
\<close>
theorem parse_cells_reads_grid:
  assumes "drop start (deobf_buffer bs) = grid_bytes grid @ rest"
    and "length grid = rows + 1" and "0 < columns"
    and "\<forall>row\<in>set grid. length row = columns \<and> (\<forall>cell\<in>set row. 0 \<notin> set cell)"
  shows "parse_cells bs start columns rows = map (map cp1252_decode) grid"
  unfolding parse_cells_def assms(2) [symmetric]
  by (rule read_grid_spec [OF assms(1)]) (use assms(3,4) in auto)

theorem parse_cells_reads_grid_witness:
  "parse_cells (replicate 0xA0 0 @ map (\<lambda>b. b XOR 0xF7) [0x49, 0x44, 0, 0x58, 0, 0x31, 0, 0, 7]) 0xA0 2 1
     = [[ustr ''ID'', ustr ''X''], [ustr ''1'', []]]"
proof -
  let ?bs = "replicate 0xA0 0 @ map (\<lambda>b. b XOR 0xF7) [0x49, 0x44, 0, 0x58, 0, 0x31, 0, 0, 7] :: bytes"
  let ?grid = "[[[0x49, 0x44], [0x58]], [[0x31], []]] :: bytes list list"
  have "drop 0xA0 (deobf_buffer ?bs) = grid_bytes ?grid @ [7]" by code_simp
  from parse_cells_reads_grid [OF this, of 1 2]
  have "parse_cells ?bs 0xA0 2 1 = map (map cp1252_decode) ?grid" by simp
  moreover have "map (map cp1252_decode) ?grid = [[ustr ''ID'', ustr ''X''], [ustr ''1'', []]]"
    by code_simp
  ultimately show ?thesis by simp
qed

section \<open>Directories and jobs\<close>

lemma jobs_from_offsets:
  "jobs_from bs st i k = map fst (job_offsets_from bs st i k)"
  by (induction bs st i k rule: jobs_from.induct) (simp_all add: Let_def)

lemma parse_jobs_offsets: "parse_jobs bs = map fst (parse_job_offsets bs)"
  by (simp add: parse_jobs_def parse_job_offsets_def jobs_from_offsets split: option.split prod.split)

lemma length_job_offsets: "length (job_offsets_from bs st i k) \<le> k"
  by (induction bs st i k rule: job_offsets_from.induct)
    (auto simp: Let_def intro: le_SucI split: option.splits prod.splits)

lemma length_tables_from: "length (tables_from bs st i k) \<le> k"
  by (induction bs st i k rule: tables_from.induct)
    (auto simp: Let_def intro: le_SucI split: option.splits prod.splits)

lemma read_directory_bound:
  "read_directory bs ptr = Some (st, count) \<Longrightarrow>
     1 \<le> unat count \<and> unat count \<le> MAX_DIRECTORY_ENTRIES \<and> st \<le> length bs"
  by (auto simp: read_directory_def plausible_count_def Let_def split: option.splits if_splits)

lemma length_parse_job_offsets: "length (parse_job_offsets bs) \<le> MAX_DIRECTORY_ENTRIES"
proof (cases "read_directory bs OFFSET_JOB_DIR")
  case None
  then show ?thesis by (simp add: parse_job_offsets_def)
next
  case (Some d)
  obtain st k where d: "d = (st, k)" by (cases d)
  from Some d have "unat k \<le> MAX_DIRECTORY_ENTRIES" using read_directory_bound by blast
  with Some d show ?thesis
    by (simp add: parse_job_offsets_def order_trans [OF length_job_offsets])
qed

lemma length_parse_tables: "length (parse_tables bs) \<le> MAX_DIRECTORY_ENTRIES"
proof (cases "read_directory bs OFFSET_TABLE_DIR")
  case None
  then show ?thesis by (simp add: parse_tables_def)
next
  case (Some d)
  obtain st k where d: "d = (st, k)" by (cases d)
  from Some d have "unat k \<le> MAX_DIRECTORY_ENTRIES" using read_directory_bound by blast
  with Some d show ?thesis
    by (simp add: parse_tables_def order_trans [OF length_tables_from])
qed

text \<open>
  Parsing is total and its errors are exactly the documented two: a missing signature, and a
  file too short for the header; any other file parses, and then the job names are those of
  the offset list in the same order, and no directory yields more than
  \<open>MAX_DIRECTORY_ENTRIES\<close> entries however corrupt its count is.
\<close>
theorem prg_parse_total:
  "(prg_parse bs = Inl BadMagic \<longleftrightarrow> take 15 bs \<noteq> MAGIC)
   \<and> (\<forall>n g. prg_parse bs = Inl (SgbdTruncated n g) \<longleftrightarrow>
          take 15 bs = MAGIC \<and> length bs < 0x8C \<and> n = 0x8C \<and> g = length bs)
   \<and> (\<forall>p. prg_parse bs = Inr p \<longrightarrow>
          prg_jobs p = map fst (prg_job_offsets p)
          \<and> length (prg_job_offsets p) \<le> MAX_DIRECTORY_ENTRIES
          \<and> length (prg_tables p) \<le> MAX_DIRECTORY_ENTRIES
          \<and> length (prg_deob p) = length bs)"
proof -
  have short: "length bs < 15 \<Longrightarrow> take 15 bs \<noteq> MAGIC"
    by (auto dest!: arg_cong [where f = length] simp: MAGIC_def)
  note offs = length_parse_job_offsets [of bs]
  note tabs = length_parse_tables [of bs]
  have len: "length MAGIC = 15" by (simp add: MAGIC_def)
  show ?thesis
    using short offs tabs
    by (auto simp: prg_parse_def len Let_def OFFSET_JOB_DIR_def parse_jobs_offsets split: if_splits)
qed

theorem prg_parse_total_witness:
  "\<exists>p. prg_parse (MAGIC @ replicate 125 0) = Inr p \<and> prg_jobs p = map fst (prg_job_offsets p)
     \<and> length (prg_deob p) = 140"
proof -
  have "\<exists>p. prg_parse (MAGIC @ replicate 125 0) = Inr p"
    by (simp add: prg_parse_def MAGIC_def OFFSET_JOB_DIR_def)
  then obtain p where "prg_parse (MAGIC @ replicate 125 0) = Inr p" ..
  with prg_parse_total [of "MAGIC @ replicate 125 0"] show ?thesis
    by (simp add: MAGIC_def)
qed

lemma fold_min_le: "fold min xs (x :: nat) \<le> x \<and> (\<forall>y\<in>set xs. fold min xs x \<le> y)"
proof (induction xs arbitrary: x)
  case Nil
  then show ?case by simp
next
  case (Cons y xs)
  then have "fold min xs (min y x) \<le> min y x" and "\<forall>z\<in>set xs. fold min xs (min y x) \<le> z"
    by blast+
  then show ?case by auto
qed

text \<open>
  A job's bytecode is the part of the de-obfuscated file that starts at the offset of the
  first directory entry of that name, lies inside the file, and never reaches into the
  bytecode of a job that starts later.
\<close>
theorem job_bytecode_slice:
  assumes "prg_job_bytecode p name = Some code"
  shows "\<exists>off. find (\<lambda>(n, _). n = name) (prg_job_offsets p) = Some (name, off)
     \<and> off + length code \<le> length (prg_deob p)
     \<and> code = take (length code) (drop off (prg_deob p))
     \<and> (\<forall>(n, off')\<in>set (prg_job_offsets p). off < off' \<longrightarrow> off + length code \<le> off')"
proof -
  obtain n off where f: "find (\<lambda>(n, _). n = name) (prg_job_offsets p) = Some (n, off)"
    using assms by (auto simp: prg_job_bytecode_def split: option.splits)
  then have n: "n = name" by (auto simp: find_Some_iff)
  let ?later = "filter (\<lambda>x. x > off) (map snd (prg_job_offsets p))"
  let ?stop = "case ?later of [] \<Rightarrow> length (prg_deob p) | x # xs \<Rightarrow> fold min xs x"
  have sl: "slice_opt (prg_deob p) off ?stop = Some code"
    using assms f by (simp add: prg_job_bytecode_def Let_def)
  have "?stop \<le> off'" if "(m, off') \<in> set (prg_job_offsets p)" "off < off'" for m off'
  proof -
    have "off' \<in> set ?later" using that by force
    then show ?thesis using fold_min_le by (cases ?later) auto
  qed
  with sl f n show ?thesis
    by (auto simp: slice_opt_Some_iff)
qed

theorem job_bytecode_slice_witness:
  "prg_job_bytecode \<lparr>prg_tables = [], prg_jobs = [[65], [66]], prg_deob = [1, 2, 3, 4, 5, 6],
      prg_job_offsets = [([65], 3), ([66], 1)]\<rparr> [66] = Some [2, 3]
   \<and> 1 + length [2, 3 :: u8] \<le> 3"
proof -
  let ?p = "\<lparr>prg_tables = [], prg_jobs = [[65], [66]], prg_deob = [1, 2, 3, 4, 5, 6],
      prg_job_offsets = [([65], 3), ([66], 1)]\<rparr>"
  have b: "prg_job_bytecode ?p [66] = Some [2, 3]" by code_simp
  from job_bytecode_slice [OF b] b show ?thesis by simp
qed

end
