(* ===== verification/Best_Opcode.thy ===== *)
theory Best_Opcode
  imports Prelude
begin

text \<open>
  The opcode table of \<open>crates/best/src/opcode.rs\<close>: mnemonic, class and jump flag of the 184
  opcodes \<open>0x00..=0xB7\<close>, in the order of their byte.
\<close>

datatype op_class =
    OpArith | OpControl | OpFlag | OpStack | OpStringOp | OpComm | OpResult | OpFloat
  | OpTable | OpParam | OpByteConv | OpMisc | OpUnimplemented

record op_info =
  opi_mnemonic :: string
  opi_class :: op_class
  opi_is_jump :: bool

definition opi :: "string \<Rightarrow> op_class \<Rightarrow> bool \<Rightarrow> op_info" where
  "opi mnemonic class is_jump =
     \<lparr>opi_mnemonic = mnemonic, opi_class = class, opi_is_jump = is_jump\<rparr>"

definition OPCODES :: "op_info list" where
  "OPCODES =
    [opi ''move'' OpArith False, opi ''clear'' OpArith False,
     opi ''comp'' OpArith False, opi ''subb'' OpArith False,
     opi ''adds'' OpArith False, opi ''mult'' OpArith False,
     opi ''divs'' OpArith False, opi ''and'' OpArith False,
     opi ''or'' OpArith False, opi ''xor'' OpArith False,
     opi ''not'' OpArith False, opi ''jump'' OpControl True,
     opi ''jtsr'' OpControl True, opi ''ret'' OpControl False,
     opi ''jc'' OpControl True, opi ''jae'' OpControl True,
     opi ''jz'' OpControl True, opi ''jnz'' OpControl True,
     opi ''jv'' OpControl True, opi ''jnv'' OpControl True,
     opi ''jmi'' OpControl True, opi ''jpl'' OpControl True,
     opi ''clrc'' OpFlag False, opi ''setc'' OpFlag False,
     opi ''asr'' OpFlag False, opi ''lsl'' OpFlag False,
     opi ''lsr'' OpFlag False, opi ''asl'' OpFlag False,
     opi ''nop'' OpMisc False, opi ''eoj'' OpMisc False,
     opi ''push'' OpStack False, opi ''pop'' OpStack False,
     opi ''scmp'' OpStringOp False, opi ''scat'' OpStringOp False,
     opi ''scut'' OpStringOp False, opi ''slen'' OpStringOp False,
     opi ''spaste'' OpStringOp False, opi ''serase'' OpStringOp False,
     opi ''xconnect'' OpComm False, opi ''xhangup'' OpComm False,
     opi ''xsetpar'' OpComm False, opi ''xawlen'' OpComm False,
     opi ''xsend'' OpComm False, opi ''xsendf'' OpComm False,
     opi ''xrequf'' OpComm False, opi ''xstopf'' OpComm False,
     opi ''xkeyb'' OpComm False, opi ''xstate'' OpComm False,
     opi ''xboot'' OpComm False, opi ''xreset'' OpComm False,
     opi ''xtype'' OpComm False, opi ''xvers'' OpComm False,
     opi ''ergb'' OpResult False, opi ''ergw'' OpResult False,
     opi ''ergd'' OpResult False, opi ''ergi'' OpResult False,
     opi ''ergr'' OpResult False, opi ''ergs'' OpResult False,
     opi ''a2flt'' OpFloat False, opi ''fadd'' OpFloat False,
     opi ''fsub'' OpFloat False, opi ''fmul'' OpFloat False,
     opi ''fdiv'' OpFloat False, opi ''ergy'' OpResult False,
     opi ''enewset'' OpResult False, opi ''etag'' OpResult True,
     opi ''xreps'' OpMisc False, opi ''gettmr'' OpMisc False,
     opi ''settmr'' OpMisc False, opi ''sett'' OpMisc False,
     opi ''clrt'' OpMisc False, opi ''jt'' OpMisc True,
     opi ''jnt'' OpMisc True, opi ''addc'' OpMisc False,
     opi ''subc'' OpMisc False, opi ''break'' OpMisc False,
     opi ''clrv'' OpMisc False, opi ''eerr'' OpMisc False,
     opi ''popf'' OpMisc False, opi ''pushf'' OpMisc False,
     opi ''atsp'' OpTable False, opi ''swap'' OpMisc False,
     opi ''setspc'' OpMisc False, opi ''srevrs'' OpMisc False,
     opi ''stoken'' OpMisc False, opi ''parb'' OpParam False,
     opi ''parw'' OpParam False, opi ''parl'' OpParam False,
     opi ''pars'' OpParam False, opi ''fclose'' OpMisc False,
     opi ''jg'' OpMisc True, opi ''jge'' OpMisc True,
     opi ''jl'' OpMisc True, opi ''jle'' OpMisc True,
     opi ''ja'' OpMisc True, opi ''jbe'' OpMisc True,
     opi ''fopen'' OpMisc False, opi ''fread'' OpMisc False,
     opi ''freadln'' OpMisc False, opi ''fseek'' OpMisc False,
     opi ''fseekln'' OpMisc False, opi ''ftell'' OpMisc False,
     opi ''ftellln'' OpMisc False, opi ''a2fix'' OpMisc False,
     opi ''fix2flt'' OpMisc False, opi ''parr'' OpParam False,
     opi ''test'' OpMisc False, opi ''wait'' OpMisc False,
     opi ''date'' OpMisc False, opi ''time'' OpMisc False,
     opi ''xbatt'' OpMisc False, opi ''tosp'' OpStack False,
     opi ''xdownl'' OpUnimplemented False, opi ''xgetport'' OpMisc False,
     opi ''xignit'' OpMisc False, opi ''xloopt'' OpMisc False,
     opi ''xprog'' OpMisc False, opi ''xraw'' OpMisc False,
     opi ''xsetport'' OpMisc False, opi ''xsireset'' OpMisc False,
     opi ''xstoptr'' OpUnimplemented False, opi ''fix2hex'' OpMisc False,
     opi ''fix2dez'' OpMisc False, opi ''tabset'' OpTable False,
     opi ''tabseek'' OpTable False, opi ''tabget'' OpTable False,
     opi ''strcat'' OpMisc False, opi ''pary'' OpParam False,
     opi ''parn'' OpParam False, opi ''ergc'' OpMisc False,
     opi ''ergl'' OpMisc False, opi ''tabline'' OpTable False,
     opi ''xsendr'' OpUnimplemented False, opi ''xrecv'' OpUnimplemented False,
     opi ''xinfo'' OpUnimplemented False, opi ''flt2a'' OpMisc False,
     opi ''setflt'' OpMisc False, opi ''cfgig'' OpMisc False,
     opi ''cfgsg'' OpMisc False, opi ''cfgis'' OpMisc False,
     opi ''a2y'' OpByteConv False, opi ''xparraw'' OpUnimplemented False,
     opi ''hex2y'' OpByteConv False, opi ''strcmp'' OpMisc False,
     opi ''strlen'' OpMisc False, opi ''y2bcd'' OpByteConv False,
     opi ''y2hex'' OpByteConv False, opi ''shmset'' OpMisc False,
     opi ''shmget'' OpMisc False, opi ''ergsysi'' OpMisc False,
     opi ''flt2fix'' OpMisc False, opi ''iupdate'' OpMisc False,
     opi ''irange'' OpMisc False, opi ''iincpos'' OpMisc False,
     opi ''tabseeku'' OpTable False, opi ''flt2y4'' OpMisc False,
     opi ''flt2y8'' OpMisc False, opi ''y42flt'' OpMisc False,
     opi ''y82flt'' OpMisc False, opi ''plink'' OpMisc False,
     opi ''pcall'' OpUnimplemented False, opi ''fcomp'' OpMisc False,
     opi ''plinkv'' OpMisc False, opi ''ppush'' OpMisc False,
     opi ''ppop'' OpMisc False, opi ''ppushflt'' OpMisc False,
     opi ''ppopflt'' OpMisc False, opi ''ppushy'' OpMisc False,
     opi ''ppopy'' OpMisc False, opi ''pjtsr'' OpMisc False,
     opi ''tabsetex'' OpTable False, opi ''ufix2dez'' OpMisc False,
     opi ''generr'' OpMisc False, opi ''ticks'' OpMisc False,
     opi ''waitex'' OpMisc False, opi ''xopen'' OpUnimplemented False,
     opi ''xclose'' OpUnimplemented False, opi ''xcloseex'' OpUnimplemented False,
     opi ''xswitch'' OpUnimplemented False, opi ''xsendex'' OpUnimplemented False,
     opi ''xrecvex'' OpUnimplemented False, opi ''ssize'' OpMisc False,
     opi ''tabcols'' OpTable False, opi ''tabrows'' OpTable False]"

definition info :: "u8 \<Rightarrow> op_info option" where
  "info byte = nth_opt OPCODES (unat byte)"

lemma length_OPCODES [simp]: "length OPCODES = 184"
  by (simp add: OPCODES_def)

text \<open>The bytes whose opcode the reference leaves without a handler.\<close>

definition unimplemented_bytes :: "u8 list" where
  "unimplemented_bytes =
     [0x70, 0x78, 0x84, 0x85, 0x86, 0x8D, 0xA0, 0xAF, 0xB0, 0xB1, 0xB2, 0xB3, 0xB4]"

definition is_unimplemented :: "u8 \<Rightarrow> bool" where
  "is_unimplemented byte \<longleftrightarrow> (case info byte of None \<Rightarrow> False | Some i \<Rightarrow> opi_class i = OpUnimplemented)"

lemma unimplemented_positions:
  "map (\<lambda>i. opi_class i = OpUnimplemented) OPCODES = map (\<lambda>n. of_nat n \<in> set unimplemented_bytes) [0..<184]"
  by code_simp

lemma is_unimplemented_iff:
  "is_unimplemented byte \<longleftrightarrow> byte \<in> set unimplemented_bytes"
proof (cases "unat byte < 184")
  case True
  then have "(map (\<lambda>i. opi_class i = OpUnimplemented) OPCODES) ! unat byte
      = (map (\<lambda>n. of_nat n \<in> set unimplemented_bytes) [0..<184]) ! unat byte"
    by (simp only: unimplemented_positions)
  with True show ?thesis by (simp add: is_unimplemented_def info_def nth_opt_def)
next
  case False
  then have "byte \<notin> set unimplemented_bytes"
    by (auto simp: unimplemented_bytes_def)
  with False show ?thesis by (simp add: is_unimplemented_def info_def nth_opt_def)
qed

end
