(* ===== verification/Best_Decode.thy ===== *)
theory Best_Decode
  imports Best_Opcode
begin

text \<open>
  The BEST/2 instruction decoder of \<open>crates/best/src/decode.rs\<close>. The \<open>Reader\<close> is the code and
  the position, threaded by \<open>bindR\<close>; an error leaves the decoder, and the reader with it.
\<close>

section \<open>Operands and instructions\<close>

definition EOJ :: u8 where "EOJ = 0x1D"

datatype addr_mode =
    MNone | RegS | RegAb | RegI | RegL | Imm8 | Imm16 | Imm32 | ImmStr | IdxImm | IdxReg
  | IdxRegImm | IdxImmLenImm | IdxImmLenReg | IdxRegLenImm | IdxRegLenReg

datatype reg_bank = BB | BI | BL | BS | BF

record reg_id =
  rid_bank :: reg_bank
  rid_idx :: u8

datatype index_arg = IxImm i64 | IxReg reg_id

datatype operand =
    OpNone
  | OpImm i64
  | OpStr bytes
  | OpReg reg_bank u8
  | OpIndexed reg_id index_arg "index_arg option"     \<comment> \<open>base, index, len\<close>

record op =
  op_byte :: u8
  op_mode_byte :: u8
  op_arg0 :: operand
  op_arg1 :: operand
  op_len :: nat
  op_offset :: nat

datatype decode_error =
    UnknownOpcode u8
  | Unimplemented string
  | BadRegister u8
  | Truncated

definition from_nibble :: "u8 \<Rightarrow> addr_mode" where
  "from_nibble nibble =
     [MNone, RegS, RegAb, RegI, RegL, Imm8, Imm16, Imm32, ImmStr, IdxImm, IdxReg, IdxRegImm,
      IdxImmLenImm, IdxImmLenReg, IdxRegLenImm, IdxRegLenReg] ! unat nibble"

section \<open>The reader\<close>

type_synonym 'a reader = "bytes \<Rightarrow> nat \<Rightarrow> decode_error + 'a \<times> nat"

definition bindR :: "'a reader \<Rightarrow> ('a \<Rightarrow> 'b reader) \<Rightarrow> 'b reader" where
  "bindR m k code pos = bindE (m code pos) (\<lambda>(x, pos'). k x code pos')"

definition returnR :: "'a \<Rightarrow> 'a reader" where
  "returnR x code pos = Inr (x, pos)"

text \<open>A result that does not touch the reader, with \<open>?\<close>.\<close>
definition liftR :: "decode_error + 'a \<Rightarrow> 'a reader" where
  "liftR r code pos = bindE r (\<lambda>x. Inr (x, pos))"

definition read_u8 :: "u8 reader" where
  "read_u8 code pos = bindE (ok_or (nth_opt code pos) Truncated) (\<lambda>byte. Inr (byte, pos + 1))"

definition read_bytes :: "nat \<Rightarrow> bytes reader" where
  "read_bytes n code pos =
     bindE (ok_or (slice_opt code pos (pos + n)) Truncated) (\<lambda>slice. Inr (slice, pos + n))"

definition read_u16_le :: "u16 reader" where
  "read_u16_le = bindR read_u8 (\<lambda>lo. bindR read_u8 (\<lambda>hi. returnR (be16 hi lo)))"

definition read_u32_le :: "u32 reader" where
  "read_u32_le =
     bindR read_u8 (\<lambda>b0. bindR read_u8 (\<lambda>b1. bindR read_u8 (\<lambda>b2. bindR read_u8 (\<lambda>b3.
       returnR (be32 b3 b2 b1 b0)))))"

definition register :: "u8 \<Rightarrow> decode_error + reg_id" where
  "register selector =
     (let rid = (\<lambda>bank idx. Inr \<lparr>rid_bank = bank, rid_idx = idx\<rparr>) in
      if selector \<le> 0x0F then rid BB selector
      else if 0x10 \<le> selector \<and> selector \<le> 0x17 then rid BI (selector - 0x10)
      else if 0x18 \<le> selector \<and> selector \<le> 0x1B then rid BL (selector - 0x18)
      else if 0x1C \<le> selector \<and> selector \<le> 0x23 then rid BS (selector - 0x1C)
      else if 0x24 \<le> selector \<and> selector \<le> 0x2B then rid BF (selector - 0x24)
      else if 0x2C \<le> selector \<and> selector \<le> 0x33 then rid BS (selector - 0x2C + 8)
      else if 0x80 \<le> selector \<and> selector \<le> 0x8F then rid BB (selector - 0x80 + 16)
      else if 0x90 \<le> selector \<and> selector \<le> 0x97 then rid BI (selector - 0x90 + 8)
      else if 0x98 \<le> selector \<and> selector \<le> 0x9B then rid BL (selector - 0x98 + 4)
      else Inl (BadRegister selector))"

definition read_register :: "reg_id reader" where
  "read_register = bindR read_u8 (\<lambda>selector. liftR (register selector))"

definition read_imm16 :: "i64 reader" where
  "read_imm16 = bindR read_u16_le (\<lambda>w. returnR (ucast w))"

definition read_ix :: "bool \<Rightarrow> index_arg reader" where
  "read_ix imm = (if imm then bindR read_imm16 (\<lambda>i. returnR (IxImm i))
                  else bindR read_register (\<lambda>r. returnR (IxReg r)))"

definition read_operand :: "addr_mode \<Rightarrow> operand reader" where
  "read_operand mode =
     (let plain = bindR read_register (\<lambda>r. returnR (OpReg (rid_bank r) (rid_idx r)));
          indexed = (\<lambda>imm. bindR read_register (\<lambda>base. bindR (read_ix imm) (\<lambda>index.
                       returnR (OpIndexed base index None))));
          indexed_len = (\<lambda>imm imm'. bindR read_register (\<lambda>base. bindR (read_ix imm) (\<lambda>index.
                       bindR (read_ix imm') (\<lambda>len. returnR (OpIndexed base index (Some len))))))
      in case mode of
        MNone \<Rightarrow> returnR OpNone
      | RegS \<Rightarrow> plain | RegAb \<Rightarrow> plain | RegI \<Rightarrow> plain | RegL \<Rightarrow> plain
      | Imm8 \<Rightarrow> bindR read_u8 (\<lambda>b. returnR (OpImm (ucast b)))
      | Imm16 \<Rightarrow> bindR read_imm16 (\<lambda>i. returnR (OpImm i))
      | Imm32 \<Rightarrow> bindR read_u32_le (\<lambda>w. returnR (OpImm (ucast w)))
      | ImmStr \<Rightarrow> bindR read_u16_le (\<lambda>n. bindR (read_bytes (unat n)) (\<lambda>s. returnR (OpStr s)))
      | IdxImm \<Rightarrow> indexed True
      | IdxReg \<Rightarrow> indexed False
      | IdxRegImm \<Rightarrow> indexed_len False True
      | IdxImmLenImm \<Rightarrow> indexed_len True True
      | IdxImmLenReg \<Rightarrow> indexed_len True False
      | IdxRegLenImm \<Rightarrow> indexed_len False True
      | IdxRegLenReg \<Rightarrow> indexed_len False False)"

definition decode_one :: "op reader" where
  "decode_one code pos =
     bindR read_u8 (\<lambda>byte.
     bindR (liftR (ok_or (info byte) (UnknownOpcode byte))) (\<lambda>opinfo.
     if opi_class opinfo = OpUnimplemented then liftR (Inl (Unimplemented (opi_mnemonic opinfo)))
     else
       bindR read_u8 (\<lambda>mode_byte.
       bindR (read_operand (from_nibble (drop_bit 4 mode_byte))) (\<lambda>arg0.
       bindR (read_operand (from_nibble (mode_byte AND 0x0F))) (\<lambda>arg1.
       \<lambda>code pos'.
         Inr (\<lparr>op_byte = byte, op_mode_byte = mode_byte, op_arg0 = arg0, op_arg1 = arg1,
               op_len = pos' - pos, op_offset = pos\<rparr>, pos')))))) code pos"

section \<open>The reader moves forward, inside the code\<close>

text \<open>
  \<open>reads P m\<close>: on success \<open>m\<close> leaves the position inside the code and not before where it
  started, and the value satisfies \<open>P\<close>.
\<close>

definition reads :: "('a \<Rightarrow> bool) \<Rightarrow> 'a reader \<Rightarrow> bool" where
  "reads P m \<longleftrightarrow> (\<forall>code pos x pos'. m code pos = Inr (x, pos') \<longrightarrow> pos \<le> length code \<longrightarrow>
      P x \<and> pos \<le> pos' \<and> pos' \<le> length code)"

named_theorems readsI

lemma reads_bindR:
  "reads Q m \<Longrightarrow> (\<And>x. Q x \<Longrightarrow> reads P (k x)) \<Longrightarrow> reads P (bindR m k)"
proof -
  assume m: "reads Q m" and k: "\<And>x. Q x \<Longrightarrow> reads P (k x)"
  {
    fix code pos y pos'
    assume "bindR m k code pos = Inr (y, pos')" and pos: "pos \<le> length code"
    then obtain x p where x: "m code pos = Inr (x, p)" and y: "k x code p = Inr (y, pos')"
      by (auto simp: bindR_def bindE_Inr_iff)
    from m x pos have 1: "Q x" "pos \<le> p" "p \<le> length code" by (auto simp: reads_def)
    from k [OF 1(1)] y 1(3) have "P y" "p \<le> pos'" "pos' \<le> length code" by (auto simp: reads_def)
    with 1(2) have "P y \<and> pos \<le> pos' \<and> pos' \<le> length code" by simp
  }
  then show ?thesis by (auto simp: reads_def)
qed

lemma reads_returnR [readsI]: "P x \<Longrightarrow> reads P (returnR x)"
  by (simp add: reads_def returnR_def)

lemma reads_liftR: "(\<And>x. r = Inr x \<Longrightarrow> P x) \<Longrightarrow> reads P (liftR r)"
  by (auto simp: reads_def liftR_def bindE_Inr_iff)

lemma reads_u8: "reads (\<lambda>_. True) read_u8"
  by (auto simp: reads_def read_u8_def bindE_Inr_iff ok_or_def nth_opt_def split: option.splits if_splits)

lemma reads_bytes: "reads (\<lambda>s. length s = n) (read_bytes n)"
  by (auto simp: reads_def read_bytes_def bindE_Inr_iff ok_or_def slice_opt_def
      split: option.splits if_splits)

lemma reads_u16_le: "reads (\<lambda>_. True) read_u16_le"
  unfolding read_u16_le_def by (intro reads_bindR [OF reads_u8] reads_returnR TrueI)

lemma reads_u32_le: "reads (\<lambda>_. True) read_u32_le"
  unfolding read_u32_le_def by (intro reads_bindR [OF reads_u8] reads_returnR TrueI)

text \<open>The registers the machine has: 32 bytes, 16 words, 8 longs, 16 strings, 8 floats.\<close>

definition bank_size :: "reg_bank \<Rightarrow> nat" where
  "bank_size bank = (case bank of BB \<Rightarrow> 32 | BI \<Rightarrow> 16 | BL \<Rightarrow> 8 | BS \<Rightarrow> 16 | BF \<Rightarrow> 8)"

definition reg_ok :: "reg_id \<Rightarrow> bool" where
  "reg_ok r \<longleftrightarrow> unat (rid_idx r) < bank_size (rid_bank r)"

definition ix_ok :: "index_arg \<Rightarrow> bool" where
  "ix_ok ix = (case ix of IxImm i \<Rightarrow> unat i < 2 ^ 16 | IxReg r \<Rightarrow> reg_ok r)"

definition operand_ok :: "operand \<Rightarrow> bool" where
  "operand_ok arg =
     (case arg of
        OpNone \<Rightarrow> True
      | OpImm i \<Rightarrow> unat i < 2 ^ 32
      | OpStr s \<Rightarrow> length s < 2 ^ 16
      | OpReg bank idx \<Rightarrow> unat idx < bank_size bank
      | OpIndexed base index len \<Rightarrow> reg_ok base \<and> ix_ok index \<and> pred_option ix_ok len)"

lemma register_ok: "register selector = Inr r \<Longrightarrow> reg_ok r"
  by (auto simp: register_def reg_ok_def bank_size_def Let_def unat_sub unat_word_ariths word_le_nat_alt
      split: if_splits)

lemma reads_register: "reads reg_ok read_register"
  unfolding read_register_def by (intro reads_bindR [OF reads_u8] reads_liftR register_ok)

lemma unat_u16_lt: "unat (ucast (w :: u16) :: i64) < 65536"
proof -
  have "unat w < 65536" by (rule order_less_le_trans [OF unsigned_less]) simp
  then show ?thesis by (simp add: unsigned_ucast_eq take_bit_nat_eq_self)
qed

lemma reads_imm16: "reads (\<lambda>i. unat i < 65536) read_imm16"
  unfolding read_imm16_def
  by (intro reads_bindR [OF reads_u16_le] reads_returnR unat_u16_lt)

lemma reads_ix: "reads ix_ok (read_ix imm)"
proof (cases imm)
  case True
  then show ?thesis
    unfolding read_ix_def
    by (simp add: reads_bindR [OF reads_imm16] reads_returnR ix_ok_def)
next
  case False
  then show ?thesis
    unfolding read_ix_def
    by (simp add: reads_bindR [OF reads_register] reads_returnR ix_ok_def)
qed


lemma unat_u8_lt: "unat (b :: u8) < 256"
  by (rule order_less_le_trans [OF unsigned_less]) simp

lemma unat_u32_lt: "unat (ucast (w :: u32) :: i64) < 2 ^ 32"
proof -
  have "unat w < 2 ^ 32" by (rule order_less_le_trans [OF unsigned_less]) simp
  then show ?thesis by (simp add: unsigned_ucast_eq take_bit_nat_eq_self)
qed

lemma reads_operand: "reads operand_ok (read_operand mode)"
proof -
  have plain: "reads operand_ok (bindR read_register (\<lambda>r. returnR (OpReg (rid_bank r) (rid_idx r))))"
    by (rule reads_bindR [OF reads_register], rule reads_returnR) (simp add: operand_ok_def reg_ok_def)
  have indexed: "reads operand_ok (bindR read_register (\<lambda>base. bindR (read_ix imm) (\<lambda>index.
      returnR (OpIndexed base index None))))" for imm
    by (rule reads_bindR [OF reads_register], rule reads_bindR [OF reads_ix], rule reads_returnR)
      (simp add: operand_ok_def)
  have indexed_len: "reads operand_ok (bindR read_register (\<lambda>base. bindR (read_ix imm) (\<lambda>index.
      bindR (read_ix imm') (\<lambda>len. returnR (OpIndexed base index (Some len))))))" for imm imm'
    by (rule reads_bindR [OF reads_register], rule reads_bindR [OF reads_ix],
        rule reads_bindR [OF reads_ix], rule reads_returnR)
      (simp add: operand_ok_def)
  have none: "reads operand_ok (returnR OpNone)"
    by (rule reads_returnR) (simp add: operand_ok_def)
  have imm8: "reads operand_ok (bindR read_u8 (\<lambda>b. returnR (OpImm (ucast b))))"
    by (rule reads_bindR [OF reads_u8], rule reads_returnR)
      (use unat_u8_lt in \<open>simp add: operand_ok_def unsigned_ucast_eq take_bit_nat_eq_self less_trans [OF unat_u8_lt]\<close>)
  have imm16: "reads operand_ok (bindR read_imm16 (\<lambda>i. returnR (OpImm i)))"
    by (rule reads_bindR [OF reads_imm16], rule reads_returnR) (simp add: operand_ok_def)
  have imm32: "reads operand_ok (bindR read_u32_le (\<lambda>w. returnR (OpImm (ucast w))))"
    by (rule reads_bindR [OF reads_u32_le], rule reads_returnR)
      (use unat_u32_lt in \<open>simp add: operand_ok_def\<close>)
  have str: "reads operand_ok (bindR read_u16_le (\<lambda>n. bindR (read_bytes (unat n)) (\<lambda>s. returnR (OpStr s))))"
    by (rule reads_bindR [OF reads_u16_le], rule reads_bindR [OF reads_bytes], rule reads_returnR)
      (simp add: operand_ok_def order_less_le_trans [OF unsigned_less])
  show ?thesis
    unfolding read_operand_def Let_def
    by (cases mode) (simp_all add: plain indexed indexed_len none imm8 imm16 imm32 str)
qed

text \<open>What one decoded instruction promises, relative to the code it was read from.\<close>

definition op_ok :: "bytes \<Rightarrow> op \<Rightarrow> bool" where
  "op_ok code op \<longleftrightarrow>
     2 \<le> op_len op \<and> op_offset op + op_len op \<le> length code
     \<and> op_byte op = code ! op_offset op \<and> op_mode_byte op = code ! (op_offset op + 1)
     \<and> unat (op_byte op) < 184 \<and> op_byte op \<notin> set unimplemented_bytes
     \<and> operand_ok (op_arg0 op) \<and> operand_ok (op_arg1 op)"

lemma decode_one_spec:
  assumes "decode_one code pos = Inr (op, pos')"
  shows "op_ok code op \<and> op_offset op = pos \<and> pos' = pos + op_len op"
proof -
  obtain opinfo where pos: "pos < length code" and i: "info (code ! pos) = Some opinfo"
    and cls: "opi_class opinfo \<noteq> OpUnimplemented"
    using assms
    by (auto simp: decode_one_def bindR_def bindE_Inr_iff read_u8_def ok_or_def nth_opt_def liftR_def
        split: option.splits if_splits)
  let ?mode = "code ! (pos + 1)"
  from assms pos i cls obtain arg0 p0 arg1 where pos1: "pos + 1 < length code"
    and 0: "read_operand (from_nibble (drop_bit 4 ?mode)) code (pos + 2) = Inr (arg0, p0)"
    and 1: "read_operand (from_nibble (?mode AND 0x0F)) code p0 = Inr (arg1, pos')"
    and op: "op = \<lparr>op_byte = code ! pos, op_mode_byte = ?mode, op_arg0 = arg0, op_arg1 = arg1,
               op_len = pos' - pos, op_offset = pos\<rparr>"
    by (auto simp: decode_one_def bindR_def bindE_Inr_iff read_u8_def ok_or_def nth_opt_def liftR_def
        split: option.splits if_splits)
  from reads_operand 0 pos1 have a0: "operand_ok arg0" "pos + 2 \<le> p0" "p0 \<le> length code"
    unfolding reads_def by (auto dest!: spec)
  from reads_operand 1 a0(3) have a1: "operand_ok arg1" "p0 \<le> pos'" "pos' \<le> length code"
    unfolding reads_def by (auto dest!: spec)
  have "unat (code ! pos) < 184" "\<not> is_unimplemented (code ! pos)"
    using i cls by (auto simp: info_def nth_opt_def is_unimplemented_def split: if_splits)
  with a0 a1 show ?thesis by (auto simp: op_ok_def op is_unimplemented_iff)
qed

section \<open>The job\<close>

function decode_loop :: "bytes \<Rightarrow> nat \<Rightarrow> bool \<Rightarrow> decode_error + op list" where
  "decode_loop code pos seen_eoj =
     (if pos < length code then
        (case decode_one code pos of
           Inr (op, pos') \<Rightarrow>
             map_sum id ((#) op) (decode_loop code pos' (seen_eoj \<or> op_byte op = EOJ))
         | Inl e \<Rightarrow> if seen_eoj then Inr [] else Inl e)
      else Inr [])"
  by pat_completeness auto
termination
  by (relation "measure (\<lambda>(code, pos, seen). length code - pos)")
    (auto dest!: decode_one_spec simp: op_ok_def)

declare decode_loop.simps [simp del]

definition decode_job :: "bytes \<Rightarrow> decode_error + op list" where
  "decode_job code = decode_loop code 0 False"


section \<open>What decoding yields\<close>

text \<open>\<open>decodes code pos ops\<close>: reading instruction after instruction from \<open>pos\<close> gives \<open>ops\<close>.\<close>

fun decodes :: "bytes \<Rightarrow> nat \<Rightarrow> op list \<Rightarrow> bool" where
  "decodes code pos [] \<longleftrightarrow> True"
| "decodes code pos (op # ops) \<longleftrightarrow>
     pos < length code \<and> decode_one code pos = Inr (op, pos + op_len op)
     \<and> decodes code (pos + op_len op) ops"

fun contiguous :: "nat \<Rightarrow> op list \<Rightarrow> bool" where
  "contiguous pos [] \<longleftrightarrow> True"
| "contiguous pos (op # ops) \<longleftrightarrow> op_offset op = pos \<and> contiguous (pos + op_len op) ops"

definition ops_end :: "nat \<Rightarrow> op list \<Rightarrow> nat" where
  "ops_end pos ops = pos + sum_list (map op_len ops)"

definition has_eoj :: "op list \<Rightarrow> bool" where
  "has_eoj ops \<longleftrightarrow> list_ex (\<lambda>op. op_byte op = EOJ) ops"

lemma ops_end_simps [simp]:
  "ops_end pos [] = pos"
  "ops_end pos (op # ops) = ops_end (pos + op_len op) ops"
  by (simp_all add: ops_end_def)

lemma has_eoj_simps [simp]:
  "\<not> has_eoj []"
  "has_eoj (op # ops) \<longleftrightarrow> op_byte op = EOJ \<or> has_eoj ops"
  by (simp_all add: has_eoj_def)

lemma decodes_contiguous: "decodes code pos ops \<Longrightarrow> contiguous pos ops \<and> list_all (op_ok code) ops"
proof (induction ops arbitrary: pos)
  case Nil
  then show ?case by simp
next
  case (Cons op ops)
  then have d: "decode_one code pos = Inr (op, pos + op_len op)" "decodes code (pos + op_len op) ops"
    by simp_all
  from Cons.IH [OF d(2)] decode_one_spec [OF d(1)] show ?case by simp
qed

lemma decodes_end: "decodes code pos ops \<Longrightarrow> pos \<le> length code \<Longrightarrow> ops_end pos ops \<le> length code"
proof (induction ops arbitrary: pos)
  case Nil
  then show ?case by simp
next
  case (Cons op ops)
  then have d: "decode_one code pos = Inr (op, pos + op_len op)" "decodes code (pos + op_len op) ops"
    by simp_all
  from decode_one_spec [OF d(1)] have "pos + op_len op \<le> length code" by (auto simp: op_ok_def)
  from Cons.IH [OF d(2) this] show ?case by simp
qed

text \<open>How a run of the loop ends: at the end of the code, or at an instruction that fails.\<close>

definition decode_stop :: "bytes \<Rightarrow> nat \<Rightarrow> op list \<Rightarrow> decode_error option \<Rightarrow> bool" where
  "decode_stop code pos ops err \<longleftrightarrow> decodes code pos ops
     \<and> (case err of
          None \<Rightarrow> length code \<le> ops_end pos ops
        | Some e \<Rightarrow> ops_end pos ops < length code \<and> decode_one code (ops_end pos ops) = Inl e)"

lemma decode_stop_end:
  "length code \<le> pos \<Longrightarrow> decode_stop code pos ops err \<longleftrightarrow> ops = [] \<and> err = None"
  by (cases ops) (auto simp: decode_stop_def split: option.splits)

lemma decode_stop_fail:
  assumes "pos < length code" "decode_one code pos = Inl e"
  shows "decode_stop code pos ops err \<longleftrightarrow> ops = [] \<and> err = Some e"
  using assms by (cases ops) (auto simp: decode_stop_def split: option.splits)

lemma decode_stop_Cons:
  assumes "pos < length code" "decode_one code pos = Inr (op, pos')"
  shows "decode_stop code pos ops err \<longleftrightarrow> (\<exists>rest. ops = op # rest \<and> decode_stop code pos' rest err)"
proof -
  have "pos' = pos + op_len op" using decode_one_spec [OF assms(2)] by simp
  with assms show ?thesis
    by (cases ops) (auto simp: decode_stop_def split: option.splits)
qed

lemma decode_stop_exists: "\<exists>ops err. decode_stop code pos ops err"
proof (induction "length code - pos" arbitrary: pos rule: less_induct)
  case less
  show ?case
  proof (cases "pos < length code")
    case False
    then have "decode_stop code pos [] None" by (simp add: decode_stop_end)
    then show ?thesis by blast
  next
    case True
    show ?thesis
    proof (cases "decode_one code pos")
      case (Inl e)
      then have "decode_stop code pos [] (Some e)" by (simp add: decode_stop_fail [OF True])
      then show ?thesis by blast
    next
      case (Inr r)
      then obtain op pos' where r: "decode_one code pos = Inr (op, pos')" by (cases r) auto
      then have "length code - pos' < length code - pos"
        using True decode_one_spec [OF r] unfolding op_ok_def by linarith
      from less [OF this] obtain ops err where "decode_stop code pos' ops err" by blast
      then have "decode_stop code pos (op # ops) err" by (simp add: decode_stop_Cons [OF True r])
      then show ?thesis by blast
    qed
  qed
qed

lemma decode_stop_unique:
  "decode_stop code pos ops err \<Longrightarrow> decode_stop code pos ops' err' \<Longrightarrow> ops' = ops \<and> err' = err"
proof (induction ops arbitrary: pos ops')
  case Nil
  then show ?case
    by (cases err; cases ops') (auto simp: decode_stop_def split: option.splits)
next
  case (Cons op ops)
  then have d: "pos < length code" "decode_one code pos = Inr (op, pos + op_len op)"
    by (auto simp: decode_stop_def)
  with Cons show ?case by (auto simp: decode_stop_Cons [OF d])
qed

lemma decode_loop_stop:
  assumes "decode_stop code pos ops err"
  shows "decode_loop code pos seen =
    (case err of None \<Rightarrow> Inr ops | Some e \<Rightarrow> if seen \<or> has_eoj ops then Inr ops else Inl e)"
  using assms
proof (induction ops arbitrary: pos seen)
  case Nil
  then show ?case
    by (subst decode_loop.simps) (auto simp: decode_stop_def split: option.splits)
next
  case (Cons op ops)
  then have d: "pos < length code" "decode_one code pos = Inr (op, pos + op_len op)"
    by (auto simp: decode_stop_def)
  with Cons.prems have "decode_stop code (pos + op_len op) ops err"
    by (simp add: decode_stop_Cons)
  from Cons.IH [OF this] d show ?case
    by (subst decode_loop.simps) (auto split: option.split)
qed

lemma decode_job_stop:
  assumes "decode_stop code 0 ops err"
  shows "decode_job code =
    (case err of None \<Rightarrow> Inr ops | Some e \<Rightarrow> if has_eoj ops then Inr ops else Inl e)"
  unfolding decode_job_def decode_loop_stop [OF assms] by (simp split: option.split)

lemma decode_job_cases:
  obtains ops err where "decode_stop code 0 ops err"
    and "decode_job code = (case err of None \<Rightarrow> Inr ops | Some e \<Rightarrow> if has_eoj ops then Inr ops else Inl e)"
  using decode_stop_exists [of code 0] decode_job_stop by blast

text \<open>
  C27. Decoding a job, exactly: there is one way to read instruction after instruction from offset
  0, which ends at the end of the code or at an instruction that fails. Its instructions are
  the result, unless it fails before any \<open>eoj\<close> was read; then that failure is the error.
\<close>
theorem decode_job_exact:
  "\<exists>ops err. decode_stop code 0 ops err
     \<and> (\<forall>ops' err'. decode_stop code 0 ops' err' \<longrightarrow> ops' = ops \<and> err' = err)
     \<and> decode_job code = (case err of None \<Rightarrow> Inr ops | Some e \<Rightarrow> if has_eoj ops then Inr ops else Inl e)"
  by (rule decode_job_cases [of code]) (use decode_stop_unique in blast)

theorem decode_job_exact_witness:
  "decode_job [0x1D, 0x00, 0xFF] = Inr [\<lparr>op_byte = 0x1D, op_mode_byte = 0, op_arg0 = OpNone,
      op_arg1 = OpNone, op_len = 2, op_offset = 0\<rparr>]
   \<and> (\<exists>ops err. decode_stop [0x1D, 0x00, 0xFF] 0 ops err \<and> length ops = 1 \<and> err = Some (UnknownOpcode 0xFF))"
proof -
  let ?code = "[0x1D, 0x00, 0xFF] :: bytes"
  let ?op = "\<lparr>op_byte = 0x1D, op_mode_byte = 0, op_arg0 = OpNone, op_arg1 = OpNone, op_len = 2, op_offset = 0\<rparr>"
  have st: "decode_stop ?code 0 [?op] (Some (UnknownOpcode 0xFF))" by code_simp
  from decode_job_exact [of ?code] st show ?thesis
    by (auto simp: EOJ_def intro!: exI [of _ "[?op]"] dest!: spec [of _ "[?op]"])
qed

lemma decode_job_ops:
  assumes "decode_job code = Inr ops"
  shows "decodes code 0 ops \<and> (ops_end 0 ops = length code \<or> has_eoj ops)"
proof (rule decode_job_cases [of code])
  fix ops' err
  assume "decode_stop code 0 ops' err"
    and "decode_job code = (case err of None \<Rightarrow> Inr ops' | Some e \<Rightarrow> if has_eoj ops' then Inr ops' else Inl e)"
  with assms decodes_end [of code 0 ops'] show ?thesis
    by (auto simp: decode_stop_def split: option.splits if_splits)
qed

text \<open>
  Every decoded instruction list is sound: the instructions follow one another without a gap
  from offset 0, each lies inside the code and starts with its own bytes, has an implemented
  opcode and only operands the machine can hold (registers inside their bank), and the list
  covers the whole code or contains an \<open>eoj\<close>.
\<close>
theorem decode_job_sound:
  assumes "decode_job code = Inr ops"
  shows "contiguous 0 ops \<and> list_all (op_ok code) ops \<and> ops_end 0 ops \<le> length code
    \<and> (ops_end 0 ops = length code \<or> has_eoj ops)"
  using decode_job_ops [OF assms] decodes_contiguous decodes_end [of code 0 ops] by auto

theorem decode_job_sound_witness:
  "\<exists>ops. decode_job [0x00, 0x25, 0x02, 0x07, 0x1D, 0x00, 0xFF] = Inr ops \<and> length ops = 2
     \<and> contiguous 0 ops \<and> ops_end 0 ops \<le> 7"
proof -
  have "map_sum id length (decode_job [0x00, 0x25, 0x02, 0x07, 0x1D, 0x00, 0xFF]) = Inr 2"
    by code_simp
  then obtain ops where o: "decode_job [0x00, 0x25, 0x02, 0x07, 0x1D, 0x00, 0xFF] = Inr ops" "length ops = 2"
    by (cases "decode_job [0x00, 0x25, 0x02, 0x07, 0x1D, 0x00, 0xFF]") auto
  with decode_job_sound [OF o(1)] show ?thesis by auto
qed


section \<open>The assembler\<close>

text \<open>
  The inverse of the decoder, as a specification of the binary format: the selector byte of a
  register, the bytes of an operand in a mode, and which operands a mode can hold.
\<close>

definition selector_of :: "reg_id \<Rightarrow> u8" where
  "selector_of r =
     (let i = rid_idx r in
      case rid_bank r of
        BB \<Rightarrow> if i < 16 then i else i + 0x70
      | BI \<Rightarrow> if i < 8 then i + 0x10 else i + 0x88
      | BL \<Rightarrow> if i < 4 then i + 0x18 else i + 0x94
      | BS \<Rightarrow> if i < 8 then i + 0x1C else i + 0x24
      | BF \<Rightarrow> i + 0x24)"

definition le16_bytes :: "i64 \<Rightarrow> bytes" where
  "le16_bytes i = rev (be16_bytes (ucast i))"

definition enc_ix :: "index_arg \<Rightarrow> bytes" where
  "enc_ix ix = (case ix of IxImm i \<Rightarrow> le16_bytes i | IxReg r \<Rightarrow> [selector_of r])"

definition enc_operand :: "addr_mode \<Rightarrow> operand \<Rightarrow> bytes" where
  "enc_operand mode arg =
     (case arg of
        OpNone \<Rightarrow> []
      | OpImm i \<Rightarrow> if mode = Imm8 then [ucast i] else if mode = Imm16 then le16_bytes i
                   else rev (be32_bytes (ucast i))
      | OpStr s \<Rightarrow> le16_bytes (of_nat (length s)) @ s
      | OpReg bank idx \<Rightarrow> [selector_of \<lparr>rid_bank = bank, rid_idx = idx\<rparr>]
      | OpIndexed base index len \<Rightarrow>
          selector_of base # enc_ix index @ (case len of None \<Rightarrow> [] | Some l \<Rightarrow> enc_ix l))"

definition ix_is :: "bool \<Rightarrow> index_arg \<Rightarrow> bool" where
  "ix_is imm ix \<longleftrightarrow> ix_ok ix \<and> (case ix of IxImm _ \<Rightarrow> imm | IxReg _ \<Rightarrow> \<not> imm)"

definition fits :: "addr_mode \<Rightarrow> operand \<Rightarrow> bool" where
  "fits mode arg =
     (case arg of
        OpNone \<Rightarrow> mode = MNone
      | OpImm i \<Rightarrow> (mode = Imm8 \<and> unat i < 2 ^ 8) \<or> (mode = Imm16 \<and> unat i < 2 ^ 16)
                   \<or> (mode = Imm32 \<and> unat i < 2 ^ 32)
      | OpStr s \<Rightarrow> mode = ImmStr \<and> length s < 2 ^ 16
      | OpReg bank idx \<Rightarrow> mode \<in> {RegS, RegAb, RegI, RegL} \<and> unat idx < bank_size bank
      | OpIndexed base index len \<Rightarrow>
          reg_ok base \<and>
          (case len of
             None \<Rightarrow> (mode = IdxImm \<and> ix_is True index) \<or> (mode = IdxReg \<and> ix_is False index)
           | Some l \<Rightarrow>
               (mode = IdxRegImm \<and> ix_is False index \<and> ix_is True l)
               \<or> (mode = IdxImmLenImm \<and> ix_is True index \<and> ix_is True l)
               \<or> (mode = IdxImmLenReg \<and> ix_is True index \<and> ix_is False l)
               \<or> (mode = IdxRegLenImm \<and> ix_is False index \<and> ix_is True l)
               \<or> (mode = IdxRegLenReg \<and> ix_is False index \<and> ix_is False l)))"

definition encode_op :: "op \<Rightarrow> bytes" where
  "encode_op op =
     op_byte op # op_mode_byte op
       # enc_operand (from_nibble (drop_bit 4 (op_mode_byte op))) (op_arg0 op)
       @ enc_operand (from_nibble (op_mode_byte op AND 0x0F)) (op_arg1 op)"

definition encodable :: "op \<Rightarrow> bool" where
  "encodable op \<longleftrightarrow> unat (op_byte op) < 184 \<and> op_byte op \<notin> set unimplemented_bytes
     \<and> fits (from_nibble (drop_bit 4 (op_mode_byte op))) (op_arg0 op)
     \<and> fits (from_nibble (op_mode_byte op AND 0x0F)) (op_arg1 op)
     \<and> op_len op = length (encode_op op)"

text \<open>\<open>parses m bs x\<close>: wherever \<open>bs\<close> stands, \<open>m\<close> reads it, all of it, as \<open>x\<close>.\<close>

definition parses :: "'a reader \<Rightarrow> bytes \<Rightarrow> 'a \<Rightarrow> bool" where
  "parses m bs x \<longleftrightarrow> (\<forall>pre suf. m (pre @ bs @ suf) (length pre) = Inr (x, length pre + length bs))"

lemma parses_bindR:
  assumes "parses m bs x" and "parses (k x) cs y"
  shows "parses (bindR m k) (bs @ cs) y"
  unfolding parses_def
proof (intro allI)
  fix pre suf
  have "m (pre @ bs @ (cs @ suf)) (length pre) = Inr (x, length pre + length bs)"
    using assms(1) unfolding parses_def by blast
  moreover have "k x ((pre @ bs) @ cs @ suf) (length (pre @ bs)) = Inr (y, length (pre @ bs) + length cs)"
    using assms(2) unfolding parses_def by blast
  ultimately show "bindR m k (pre @ (bs @ cs) @ suf) (length pre)
      = Inr (y, length pre + length (bs @ cs))"
    by (simp add: bindR_def add.assoc)
qed

lemma parses_returnR: "parses (returnR x) [] x"
  by (simp add: parses_def returnR_def)

lemma parses_bindR_returnR: "parses m bs x \<Longrightarrow> parses (bindR m (\<lambda>x. returnR (f x))) bs (f x)"
  using parses_bindR [where k = "\<lambda>x. returnR (f x)" and cs = "[]", OF _ parses_returnR] by simp

lemma parses_u8: "parses read_u8 [b] b"
  by (simp add: parses_def read_u8_def nth_opt_def)

lemma parses_bytes: "parses (read_bytes (length s)) s s"
  by (simp add: parses_def read_bytes_def slice_opt_def)

lemma parses_u16: "parses read_u16_le (rev (be16_bytes w)) w"
proof -
  have "parses read_u16_le ([ucast w] @ [ucast (drop_bit 8 w)] @ []) w"
    unfolding read_u16_le_def
    by (rule parses_bindR [OF parses_u8], rule parses_bindR [OF parses_u8])
      (simp add: parses_def returnR_def)
  then show ?thesis by (simp add: be16_bytes_def)
qed

lemma parses_u32: "parses read_u32_le (rev (be32_bytes w)) w"
proof -
  have "parses read_u32_le ([ucast w] @ [ucast (drop_bit 8 w)] @ [ucast (drop_bit 16 w)]
      @ [ucast (drop_bit 24 w)] @ []) w"
    unfolding read_u32_le_def
    by (rule parses_bindR [OF parses_u8], rule parses_bindR [OF parses_u8],
        rule parses_bindR [OF parses_u8], rule parses_bindR [OF parses_u8])
      (simp add: parses_def returnR_def)
  then show ?thesis by (simp add: be32_bytes_def)
qed


lemmas register_unfold = register_def selector_of_def reg_ok_def bank_size_def Let_def
  unat_sub unat_word_ariths word_le_nat_alt word_less_nat_alt

lemma selector_of_register: "register selector = Inr r \<Longrightarrow> selector_of r = selector"
  by (auto simp: register_unfold split: if_splits)

lemma register_selector_of: "reg_ok r \<Longrightarrow> register (selector_of r) = Inr r"
  by (cases r; cases "rid_bank r") (auto simp: register_unfold split: if_splits)

lemma register_BadRegister: "register selector = Inl e \<Longrightarrow> e = BadRegister selector"
  by (auto simp: register_def Let_def split: if_splits)

text \<open>
  The register selector table is a bijection onto the machine's registers: a selector byte
  resolves to a register exactly if that register exists and the byte is its selector, and a
  byte that is no selector is reported as itself.
\<close>
theorem register_bijection:
  "(register s = Inr r \<longleftrightarrow> reg_ok r \<and> selector_of r = s)
   \<and> (register s = Inl e \<longleftrightarrow> e = BadRegister s \<and> s \<notin> selector_of ` Collect reg_ok)"
proof
  show "register s = Inr r \<longleftrightarrow> reg_ok r \<and> selector_of r = s"
    using selector_of_register register_selector_of register_ok by blast
  show "register s = Inl e \<longleftrightarrow> e = BadRegister s \<and> s \<notin> selector_of ` Collect reg_ok"
  proof (cases "register s")
    case (Inl e')
    then have "s \<notin> selector_of ` Collect reg_ok" using register_selector_of by force
    with Inl register_BadRegister [OF Inl] show ?thesis by auto
  next
    case (Inr r')
    then have "s \<in> selector_of ` Collect reg_ok" using register_ok selector_of_register by force
    with Inr show ?thesis by simp
  qed
qed

lemma parses_register: "reg_ok r \<Longrightarrow> parses read_register [selector_of r] r"
proof -
  assume "reg_ok r"
  then have "parses (liftR (register (selector_of r))) [] r"
    by (simp add: register_selector_of parses_def liftR_def)
  from parses_bindR [OF parses_u8, of "\<lambda>s. liftR (register s)", OF this] show ?thesis
    by (simp add: read_register_def)
qed

lemma ucast_ucast_small:
  assumes "unat (i :: i64) < 2 ^ LENGTH('a)"
  shows "ucast (ucast i :: 'a::len word) = i"
proof -
  have i: "unat i < 2 ^ 64" by (rule order_less_le_trans [OF unsigned_less]) simp
  have "ucast (ucast i :: 'a word) = (of_nat (unat (ucast i :: 'a word)) :: i64)"
    by simp
  also have "unat (ucast i :: 'a word) = take_bit LENGTH('a) (unat i)"
    by (rule unsigned_ucast_eq)
  also have "\<dots> = unat i" using assms by (simp add: take_bit_nat_eq_self)
  finally show ?thesis by simp
qed

lemma parses_imm16: "unat i < 2 ^ 16 \<Longrightarrow> parses read_imm16 (le16_bytes i) i"
proof -
  assume "unat i < 2 ^ 16"
  then have "ucast (ucast i :: u16) = i" by (intro ucast_ucast_small) simp
  with parses_bindR_returnR [OF parses_u16, of "\<lambda>w. ucast w :: i64" "ucast i"] show ?thesis
    by (simp add: read_imm16_def le16_bytes_def)
qed

lemma parses_ix: "ix_is imm ix \<Longrightarrow> parses (read_ix imm) (enc_ix ix) ix"
  by (cases ix)
    (auto simp: ix_is_def ix_ok_def read_ix_def enc_ix_def
      intro!: parses_bindR_returnR parses_imm16 parses_register)

lemma parses_indexed:
  assumes "reg_ok base" "ix_is imm index"
  shows "parses (bindR read_register (\<lambda>base. bindR (read_ix imm) (\<lambda>index. returnR (OpIndexed base index None))))
    (selector_of base # enc_ix index) (OpIndexed base index None)"
proof -
  have "parses (bindR read_register (\<lambda>base. bindR (read_ix imm) (\<lambda>index. returnR (OpIndexed base index None))))
    ([selector_of base] @ enc_ix index) (OpIndexed base index None)"
    by (intro parses_bindR [OF parses_register [OF assms(1)]] parses_bindR_returnR parses_ix assms(2))
  then show ?thesis by simp
qed

lemma parses_indexed_len:
  assumes "reg_ok base" "ix_is imm index" "ix_is imm' len"
  shows "parses (bindR read_register (\<lambda>base. bindR (read_ix imm) (\<lambda>index. bindR (read_ix imm') (\<lambda>len.
      returnR (OpIndexed base index (Some len))))))
    (selector_of base # enc_ix index @ enc_ix len) (OpIndexed base index (Some len))"
proof -
  have "parses (bindR read_register (\<lambda>base. bindR (read_ix imm) (\<lambda>index. bindR (read_ix imm') (\<lambda>len.
      returnR (OpIndexed base index (Some len))))))
    ([selector_of base] @ enc_ix index @ enc_ix len) (OpIndexed base index (Some len))"
    by (intro parses_bindR [OF parses_register [OF assms(1)]] parses_bindR [OF parses_ix [OF assms(2)]]
        parses_bindR_returnR parses_ix assms(3))
  then show ?thesis by simp
qed

lemma parses_operand:
  assumes "fits mode arg"
  shows "parses (read_operand mode) (enc_operand mode arg) arg"
proof (cases arg)
  case OpNone
  with assms show ?thesis by (simp add: fits_def read_operand_def enc_operand_def parses_returnR Let_def)
next
  case (OpImm i)
  have "unat i < 2 ^ 8 \<Longrightarrow> ucast (ucast i :: u8) = i" "unat i < 2 ^ 32 \<Longrightarrow> ucast (ucast i :: u32) = i"
    by (intro ucast_ucast_small; simp)+
  with OpImm assms parses_bindR_returnR [OF parses_u8, of "\<lambda>b. OpImm (ucast b)" "ucast i"]
    parses_bindR_returnR [OF parses_u32, of "\<lambda>b. OpImm (ucast b)" "ucast i"]
    parses_bindR_returnR [OF parses_imm16, of i OpImm]
  show ?thesis by (auto simp: fits_def read_operand_def enc_operand_def Let_def)
next
  case (OpStr s)
  with assms have s: "mode = ImmStr" "length s < 65536" by (simp_all add: fits_def)
  then have n: "unat (ucast (word_of_nat (length s) :: i64) :: u16) = length s"
    by (simp add: unsigned_ucast_eq unat_of_nat take_bit_nat_eq_self)
  have "parses (bindR read_u16_le (\<lambda>n. bindR (read_bytes (unat n)) (\<lambda>s. returnR (OpStr s))))
      (le16_bytes (of_nat (length s)) @ s) (OpStr s)"
    unfolding le16_bytes_def
    by (rule parses_bindR [OF parses_u16]) (simp add: n parses_bindR_returnR parses_bytes)
  with OpStr s show ?thesis by (simp add: read_operand_def enc_operand_def Let_def)
next
  case (OpReg bank idx)
  with assms have r: "reg_ok \<lparr>rid_bank = bank, rid_idx = idx\<rparr>" "mode \<in> {RegS, RegAb, RegI, RegL}"
    by (simp_all add: fits_def reg_ok_def)
  from parses_bindR_returnR [OF parses_register [OF r(1)], of "\<lambda>r. OpReg (rid_bank r) (rid_idx r)"]
  show ?thesis using r(2) OpReg by (auto simp: read_operand_def enc_operand_def Let_def)
next
  case (OpIndexed base index len)
  with assms show ?thesis
    by (cases len)
      (auto simp: fits_def read_operand_def enc_operand_def Let_def
        intro: parses_indexed parses_indexed_len)
qed


lemma decode_one_encode:
  assumes "encodable op" and "op_offset op = length pre"
  shows "decode_one (pre @ encode_op op @ suf) (length pre) = Inr (op, length pre + op_len op)"
proof -
  let ?m0 = "from_nibble (drop_bit 4 (op_mode_byte op))"
  let ?m1 = "from_nibble (op_mode_byte op AND 0x0F)"
  let ?e0 = "enc_operand ?m0 (op_arg0 op)" and ?e1 = "enc_operand ?m1 (op_arg1 op)"
  let ?code = "pre @ encode_op op @ suf"
  let ?n = "length pre"
  have code: "?code = pre @ op_byte op # op_mode_byte op # ?e0 @ ?e1 @ suf"
    by (simp add: encode_op_def)
  from assms(1) have f: "fits ?m0 (op_arg0 op)" "fits ?m1 (op_arg1 op)"
    and len: "op_len op = 2 + length ?e0 + length ?e1"
    by (simp_all add: encodable_def encode_op_def)
  have b: "read_u8 ?code ?n = Inr (op_byte op, Suc ?n)"
    and m: "read_u8 ?code (Suc ?n) = Inr (op_mode_byte op, Suc (Suc ?n))"
    unfolding code by (simp_all add: read_u8_def nth_opt_def nth_append)
  have a0: "read_operand ?m0 ?code (Suc (Suc ?n)) = Inr (op_arg0 op, Suc (Suc (?n + length ?e0)))"
    using parses_operand [OF f(1), unfolded parses_def, rule_format, of "pre @ [op_byte op, op_mode_byte op]" "?e1 @ suf"]
    unfolding code by simp
  have a1: "read_operand ?m1 ?code (Suc (Suc (?n + length ?e0))) = Inr (op_arg1 op, ?n + op_len op)"
    using parses_operand [OF f(2), unfolded parses_def, rule_format, of "pre @ [op_byte op, op_mode_byte op] @ ?e0" suf]
    unfolding code by (simp add: len ac_simps)
  obtain i where i: "info (op_byte op) = Some i" "opi_class i \<noteq> OpUnimplemented"
    using assms(1) is_unimplemented_iff [of "op_byte op"]
    by (auto simp: encodable_def info_def nth_opt_def is_unimplemented_def)
  have "op = \<lparr>op_byte = op_byte op, op_mode_byte = op_mode_byte op, op_arg0 = op_arg0 op,
      op_arg1 = op_arg1 op, op_len = op_len op, op_offset = ?n\<rparr>"
    using assms(2) by (cases op) simp
  then show ?thesis
    unfolding decode_one_def bindR_def liftR_def
    by (simp add: b m a0 a1 i)
qed

lemma decodes_encode:
  assumes "contiguous (length pre) ops" and "list_all encodable ops"
  shows "decodes (pre @ concat (map encode_op ops)) (length pre) ops
    \<and> ops_end (length pre) ops = length pre + length (concat (map encode_op ops))"
  using assms
proof (induction ops arbitrary: pre)
  case Nil
  then show ?case by simp
next
  case (Cons op ops)
  let ?pre = "pre @ encode_op op"
  have l: "length pre + op_len op = length ?pre" and e: "encodable op"
    using Cons.prems by (simp_all add: encodable_def)
  have "decode_one (pre @ encode_op op @ concat (map encode_op ops)) (length pre)
      = Inr (op, length pre + op_len op)"
    using Cons.prems by (intro decode_one_encode) simp_all
  moreover have "decodes (?pre @ concat (map encode_op ops)) (length ?pre) ops
      \<and> ops_end (length ?pre) ops = length ?pre + length (concat (map encode_op ops))"
  proof (rule Cons.IH)
    show "contiguous (length ?pre) ops" using Cons.prems(1) unfolding contiguous.simps l by simp
    show "list_all encodable ops" using Cons.prems(2) by simp
  qed
  moreover have "0 < length (encode_op op)" by (simp add: encode_op_def)
  ultimately show ?case by (simp add: l add.assoc)
qed

text \<open>
  C26. Assembling and decoding round trip: every program of encodable instructions, placed one
  after the other from offset 0, is decoded back to exactly its instructions, for every
  opcode, addressing mode, register and operand value the format has.
\<close>
theorem decode_job_roundtrip:
  assumes "contiguous 0 ops" and "list_all encodable ops"
  shows "decode_job (concat (map encode_op ops)) = Inr ops"
proof -
  have "decode_stop (concat (map encode_op ops)) 0 ops None"
    using decodes_encode [of "[]" ops] assms by (simp add: decode_stop_def)
  from decode_job_stop [OF this] show ?thesis by simp
qed

definition demo_job :: "op list" where
  "demo_job =
     [\<lparr>op_byte = 0x00, op_mode_byte = 0x25, op_arg0 = OpReg BB 17, op_arg1 = OpImm 7,
       op_len = 4, op_offset = 0\<rparr>,
      \<lparr>op_byte = 0x00, op_mode_byte = 0x1D,
       op_arg0 = OpReg BS 9,
       op_arg1 = OpIndexed \<lparr>rid_bank = BS, rid_idx = 1\<rparr> (IxImm 0x0102) (Some (IxReg \<lparr>rid_bank = BL, rid_idx = 5\<rparr>)),
       op_len = 7, op_offset = 4\<rparr>]"

theorem decode_job_roundtrip_witness:
  "decode_job [0x00, 0x25, 0x81, 0x07, 0x00, 0x1D, 0x2D, 0x1D, 0x02, 0x01, 0x99] = Inr demo_job"
proof -
  have 2: "concat (map encode_op demo_job)
      = [0x00, 0x25, 0x81, 0x07, 0x00, 0x1D, 0x2D, 0x1D, 0x02, 0x01, 0x99]"
    by code_simp
  have 0: "contiguous 0 demo_job" by (simp add: demo_job_def)
  have 1: "list_all encodable demo_job"
    by (simp add: demo_job_def encodable_def fits_def from_nibble_def encode_op_def enc_operand_def
        enc_ix_def ix_is_def ix_ok_def reg_ok_def bank_size_def le16_bytes_def unimplemented_bytes_def)
  from decode_job_roundtrip [OF 0 1] show ?thesis unfolding 2 .
qed

end
