(* ===== verification/Float64.thy ===== *)
theory Float64
  imports Rust_Text
begin

text \<open>
  IEEE 754 doubles as Rust's \<open>f64\<close> has them, on their 64 bits. A finite double is an integer
  multiple of \<open>2 ^ -1074\<close>; every operation computes the exact rational result in that unit and
  rounds once, to nearest, ties to even.
\<close>

type_synonym f64 = "64 word"

section \<open>The encoding\<close>

definition f64_sign :: "f64 \<Rightarrow> bool" where
  "f64_sign w = bit w 63"

definition f64_exp :: "f64 \<Rightarrow> nat" where
  "f64_exp w = unat (drop_bit 52 w AND 0x7FF)"

definition f64_frac :: "f64 \<Rightarrow> nat" where
  "f64_frac w = unat (w AND 0xFFFFFFFFFFFFF)"

definition f64_is_finite :: "f64 \<Rightarrow> bool" where
  "f64_is_finite w \<longleftrightarrow> f64_exp w \<noteq> 0x7FF"

definition f64_is_nan :: "f64 \<Rightarrow> bool" where
  "f64_is_nan w \<longleftrightarrow> f64_exp w = 0x7FF \<and> f64_frac w \<noteq> 0"

definition f64_neg :: "f64 \<Rightarrow> f64" where
  "f64_neg w = w XOR 0x8000000000000000"

definition f64_abs :: "f64 \<Rightarrow> f64" where
  "f64_abs w = w AND 0x7FFFFFFFFFFFFFFF"

definition F64_NAN :: f64 where
  "F64_NAN = 0x7FF8000000000000"

definition f64_signed :: "bool \<Rightarrow> nat \<Rightarrow> f64" where
  "f64_signed s b = of_nat (if s then 2 ^ 63 + b else b)"

definition f64_inf :: "bool \<Rightarrow> f64" where
  "f64_inf s = f64_signed s (0x7FF * 2 ^ 52)"

text \<open>The magnitude and the value of a finite double, in units of \<open>2 ^ -1074\<close>.\<close>

definition f64_mag :: "f64 \<Rightarrow> nat" where
  "f64_mag w = (if f64_exp w = 0 then f64_frac w
                else (2 ^ 52 + f64_frac w) * 2 ^ (f64_exp w - 1))"

definition f64_val :: "f64 \<Rightarrow> int" where
  "f64_val w = (if f64_sign w then - int (f64_mag w) else int (f64_mag w))"

definition f64_one :: nat where
  "f64_one = 2 ^ 1074"

section \<open>Rounding\<close>

fun bitlen :: "nat \<Rightarrow> nat" where
  "bitlen n = (if n = 0 then 0 else Suc (bitlen (n div 2)))"

declare bitlen.simps [simp del]

definition round_half_even :: "nat \<Rightarrow> nat \<Rightarrow> nat" where
  "round_half_even n d =
     (let q = n div d; r = n mod d in
      if 2 * r < d \<or> (2 * r = d \<and> even q) then q else q + 1)"

text \<open>
  The double nearest to \<open>n / d\<close> units: with the quotient's \<open>k\<close> excess bits over 53 scaled away,
  the rounded quotient is the significand, and \<open>k * 2 ^ 52\<close> more than it is the encoding (for a
  subnormal too); from the encoding of infinity on it is infinity.
\<close>

definition f64_round :: "bool \<Rightarrow> nat \<Rightarrow> nat \<Rightarrow> f64" where
  "f64_round s n d =
     (let k = bitlen (n div d) - 53;
          b = k * 2 ^ 52 + round_half_even n (d * 2 ^ k)
      in f64_signed s (min b (0x7FF * 2 ^ 52)))"

definition f64_of_val :: "int \<Rightarrow> f64" where
  "f64_of_val i = f64_round (i < 0) (nat \<bar>i\<bar>) 1"

section \<open>Arithmetic\<close>

definition f64_add :: "f64 \<Rightarrow> f64 \<Rightarrow> f64" where
  "f64_add a b =
     (if f64_is_nan a \<or> f64_is_nan b then F64_NAN
      else if \<not> f64_is_finite a then
        (if \<not> f64_is_finite b \<and> f64_sign a \<noteq> f64_sign b then F64_NAN else a)
      else if \<not> f64_is_finite b then b
      else let i = f64_val a + f64_val b in
        if i = 0 then f64_signed (f64_sign a \<and> f64_sign b) 0 else f64_of_val i)"

definition f64_sub :: "f64 \<Rightarrow> f64 \<Rightarrow> f64" where
  "f64_sub a b = (if f64_is_nan b then F64_NAN else f64_add a (f64_neg b))"

definition f64_mul :: "f64 \<Rightarrow> f64 \<Rightarrow> f64" where
  "f64_mul a b =
     (let s = (f64_sign a \<noteq> f64_sign b) in
      if f64_is_nan a \<or> f64_is_nan b then F64_NAN
      else if \<not> f64_is_finite a \<or> \<not> f64_is_finite b then
        (if (f64_is_finite a \<and> f64_mag a = 0) \<or> (f64_is_finite b \<and> f64_mag b = 0) then F64_NAN
         else f64_inf s)
      else f64_round s (f64_mag a * f64_mag b) f64_one)"

definition f64_div :: "f64 \<Rightarrow> f64 \<Rightarrow> f64" where
  "f64_div a b =
     (let s = (f64_sign a \<noteq> f64_sign b) in
      if f64_is_nan a \<or> f64_is_nan b then F64_NAN
      else if \<not> f64_is_finite a then (if f64_is_finite b then f64_inf s else F64_NAN)
      else if \<not> f64_is_finite b then f64_signed s 0
      else if f64_mag b = 0 then (if f64_mag a = 0 then F64_NAN else f64_inf s)
      else f64_round s (f64_mag a * f64_one) (f64_mag b))"

text \<open>\<open>==\<close> and \<open><\<close>: an infinity is beyond every finite value, a NaN compares with nothing.\<close>

definition f64_key :: "f64 \<Rightarrow> int" where
  "f64_key w = (if f64_is_finite w then f64_val w
                else if f64_sign w then - (2 ^ 2200) else 2 ^ 2200)"

definition f64_eq :: "f64 \<Rightarrow> f64 \<Rightarrow> bool" where
  "f64_eq a b \<longleftrightarrow> \<not> f64_is_nan a \<and> \<not> f64_is_nan b \<and> f64_key a = f64_key b"

definition f64_lt :: "f64 \<Rightarrow> f64 \<Rightarrow> bool" where
  "f64_lt a b \<longleftrightarrow> \<not> f64_is_nan a \<and> \<not> f64_is_nan b \<and> f64_key a < f64_key b"

section \<open>Conversions\<close>

text \<open>\<open>f64::from\<close> of the integer types of at most 32 bits.\<close>

definition f64_of_int :: "int \<Rightarrow> f64" where
  "f64_of_int i = f64_round (i < 0) (nat \<bar>i\<bar> * f64_one) 1"

text \<open>\<open>as i64\<close>: toward zero, saturating, a NaN is 0.\<close>

definition f64_to_i64 :: "f64 \<Rightarrow> int" where
  "f64_to_i64 w =
     (if f64_is_nan w then 0
      else if \<not> f64_is_finite w then (if f64_sign w then - (2 ^ 63) else 2 ^ 63 - 1)
      else let q = int (f64_mag w div f64_one);
               i = (if f64_sign w then - q else q)
           in max (- (2 ^ 63)) (min (2 ^ 63 - 1) i))"

text \<open>\<open>f64::floor\<close> and \<open>f64::round\<close> (half away from zero).\<close>

definition f64_floor :: "f64 \<Rightarrow> f64" where
  "f64_floor w =
     (if \<not> f64_is_finite w then w
      else let i = f64_val w div int f64_one in
        if i = 0 then f64_signed (f64_sign w) 0 else f64_of_int i)"

definition f64_round_away :: "f64 \<Rightarrow> f64" where
  "f64_round_away w =
     (if \<not> f64_is_finite w then w
      else f64_round (f64_sign w) (((2 * f64_mag w + f64_one) div (2 * f64_one)) * f64_one) 1)"

text \<open>\<open>f32::from_bits\<close> widened to an \<open>f64\<close>; a NaN keeps its payload and becomes quiet.\<close>

definition f64_of_f32 :: "u32 \<Rightarrow> f64" where
  "f64_of_f32 w =
     (let s = bit w 31; e = unat (drop_bit 23 w AND 0xFF); f = unat (w AND 0x7FFFFF) in
      if e = 0xFF then
        (if f = 0 then f64_inf s
         else f64_signed s (0x7FF * 2 ^ 52) OR 0x0008000000000000 OR of_nat (f * 2 ^ 29))
      else
        let m = (if e = 0 then f else (2 ^ 23 + f) * 2 ^ (e - 1))
        in f64_round s (m * 2 ^ (1074 - 149)) 1)"

section \<open>Parsing\<close>

text \<open>
  \<open>str::parse::<f64>\<close>: an optional sign, then \<open>inf\<close>, \<open>infinity\<close> or \<open>nan\<close> in any case, or digits
  with an optional point (at least one digit) and an optional exponent. The value is the
  decimal rounded once.
\<close>

definition decimal_f64 :: "bool \<Rightarrow> nat \<Rightarrow> int \<Rightarrow> f64" where
  "decimal_f64 s m e =
     (if 0 \<le> e then f64_round s (m * 10 ^ nat e * f64_one) 1
      else f64_round s (m * f64_one) (10 ^ nat (- e)))"

definition parse_exponent :: "ustring \<Rightarrow> int option" where
  "parse_exponent t =
     (case t of
        [] \<Rightarrow> Some 0
      | c # cs \<Rightarrow>
          if c = 0x65 \<or> c = 0x45 then
            (let neg = (cs \<noteq> [] \<and> hd cs = 0x2D);
                 ds = (if cs \<noteq> [] \<and> (hd cs = 0x2D \<or> hd cs = 0x2B) then tl cs else cs)
             in if ds = [] then None
                else map_option (\<lambda>n. if neg then - int n else int n) (digits_value 10 0 ds))
          else None)"

definition parse_number :: "bool \<Rightarrow> ustring \<Rightarrow> f64 option" where
  "parse_number s t =
     (let whole = takeWhile is_ascii_digit t;
          t1 = dropWhile is_ascii_digit t;
          point = (t1 \<noteq> [] \<and> hd t1 = 0x2E);
          fraction = (if point then takeWhile is_ascii_digit (tl t1) else []);
          t2 = (if point then dropWhile is_ascii_digit (tl t1) else t1)
      in if whole = [] \<and> fraction = [] then None
         else case (digits_value 10 0 (whole @ fraction), parse_exponent t2) of
           (Some m, Some e) \<Rightarrow> Some (decimal_f64 s m (e - int (length fraction)))
         | _ \<Rightarrow> None)"

definition parse_f64 :: "ustring \<Rightarrow> f64 option" where
  "parse_f64 t =
     (let s = (t \<noteq> [] \<and> hd t = 0x2D);
          u = (if t \<noteq> [] \<and> (hd t = 0x2D \<or> hd t = 0x2B) then tl t else t);
          l = to_ascii_lowercase u
      in if l = ustr ''inf'' \<or> l = ustr ''infinity'' then Some (f64_inf s)
         else if l = ustr ''nan'' then Some F64_NAN
         else parse_number s u)"


section \<open>Exactness\<close>

lemma bitlen_0 [simp]: "bitlen 0 = 0"
  by (simp add: bitlen.simps)

lemma bitlen_bounds: "0 < n \<Longrightarrow> 2 ^ (bitlen n - 1) \<le> n \<and> n < 2 ^ bitlen n \<and> 0 < bitlen n"
proof (induction n rule: bitlen.induct)
  case (1 n)
  show ?case
  proof (cases "n div 2 = 0")
    case True
    then have "n = 1" using "1.prems" by auto
    then show ?thesis by (simp add: bitlen.simps)
  next
    case False
    then have IH: "2 ^ (bitlen (n div 2) - 1) \<le> n div 2" "n div 2 < 2 ^ bitlen (n div 2)" "0 < bitlen (n div 2)"
      using "1.IH" "1.prems" by auto
    then obtain j where j: "bitlen (n div 2) = Suc j" using gr0_conv_Suc by blast
    have "bitlen n = Suc (Suc j)" using "1.prems" j by (simp add: bitlen.simps [of n])
    moreover have "2 ^ Suc j \<le> n" "n < 2 ^ Suc (Suc j)" using IH(1,2) j by (simp_all add: less_mult_imp_div_less)
    ultimately show ?thesis by simp
  qed
qed

lemma bitlen_eqI: "2 ^ j \<le> n \<Longrightarrow> n < 2 ^ Suc j \<Longrightarrow> bitlen n = Suc j"
proof -
  assume a: "2 ^ j \<le> n" "n < 2 ^ Suc j"
  have "0 < (2 :: nat) ^ j" by simp
  with a(1) have "0 < n" by linarith
  note b = bitlen_bounds [OF this]
  have "(2 :: nat) ^ j < 2 ^ bitlen n" using a(1) b by linarith
  moreover have "(2 :: nat) ^ (bitlen n - 1) < 2 ^ Suc j" using a(2) b by linarith
  ultimately have "j < bitlen n" "bitlen n - 1 < Suc j" 
    by (simp_all only: power_strict_increasing_iff one_less_numeral_iff semiring_norm)
  then show ?thesis by simp
qed

lemma bitlen_le: "n < 2 ^ j \<Longrightarrow> bitlen n \<le> j"
proof (cases "n = 0")
  case False
  assume "n < 2 ^ j"
  moreover have "2 ^ (bitlen n - 1) \<le> n" "0 < bitlen n" using False bitlen_bounds [of n] by auto
  ultimately have "(2 :: nat) ^ (bitlen n - 1) < 2 ^ j" by linarith
  with \<open>0 < bitlen n\<close> show ?thesis by (simp add: power_strict_increasing_iff)
qed simp

lemma unat_f64_lt: "unat (w :: f64) < 2 ^ 64"
  by (rule order_less_le_trans [OF unsigned_less]) simp

lemma f64_exp_frac:
  "f64_exp w = (unat w div 2 ^ 52) mod 2 ^ 11" "f64_frac w = unat w mod 2 ^ 52"
proof -
  have "(0x7FF :: f64) = mask 11" "(0xFFFFFFFFFFFFF :: f64) = mask 52"
    by (simp_all add: mask_eq_exp_minus_1)
  then show "f64_exp w = (unat w div 2 ^ 52) mod 2 ^ 11" "f64_frac w = unat w mod 2 ^ 52"
    unfolding f64_exp_def f64_frac_def using unat_f64_lt [of w]
    by (simp_all only: flip: take_bit_eq_mask)
      (simp_all only: unsigned_take_bit_eq unsigned_drop_bit_eq, simp_all add: take_bit_eq_mod drop_bit_eq_div)
qed

lemma f64_sign_div: "f64_sign w \<longleftrightarrow> unat w div 2 ^ 63 = 1"
proof -
  have "bit w 63 = bit (unat w) 63" by (simp add: bit_unsigned_iff)
  then have "bit w 63 = odd (unat w div 2 ^ 63)" by (simp only: bit_iff_odd)
  moreover have "unat w div 2 ^ 63 < 2" using unat_f64_lt [of w] by (simp add: div_less_iff_less_mult)
  ultimately show ?thesis by (auto simp: f64_sign_def less_2_cases_iff)
qed

lemma unat_f64_signed: "b < 2 ^ 63 \<Longrightarrow> unat (f64_signed s b) = (if s then 2 ^ 63 + b else b)"
  by (simp add: f64_signed_def unat_of_nat)

lemma f64_signed_fields:
  assumes "b < 2 ^ 63"
  shows "f64_sign (f64_signed s b) = s" "f64_exp (f64_signed s b) = b div 2 ^ 52"
    "f64_frac (f64_signed s b) = b mod 2 ^ 52"
proof -
  have "(2 ^ 63 + b) div 2 ^ 63 = 1" "b div 2 ^ 63 = 0" using assms by simp_all
  then show "f64_sign (f64_signed s b) = s" by (simp add: f64_sign_div unat_f64_signed [OF assms])
  have p: "(2 :: nat) ^ 63 = 2 ^ 11 * 2 ^ 52" by simp
  have "b div 2 ^ 52 < 2 ^ 11" using assms unfolding p by (simp only: less_mult_imp_div_less)
  moreover have "(2 ^ 63 + b) div 2 ^ 52 = 2 ^ 11 + b div 2 ^ 52" unfolding p by simp
  ultimately show "f64_exp (f64_signed s b) = b div 2 ^ 52"
    by (simp only: f64_exp_frac unat_f64_signed [OF assms] split: if_split) simp
  have "(2 ^ 63 + b) mod 2 ^ 52 = b mod 2 ^ 52" unfolding p by (rule mod_mult_self3)
  then show "f64_frac (f64_signed s b) = b mod 2 ^ 52"
    by (simp only: f64_exp_frac unat_f64_signed [OF assms] split: if_split) simp
qed

text \<open>The magnitude of an encoding, and the encoding from sign and magnitude bits.\<close>

definition mag_of_bits :: "nat \<Rightarrow> nat" where
  "mag_of_bits b = (if b div 2 ^ 52 = 0 then b else (2 ^ 52 + b mod 2 ^ 52) * 2 ^ (b div 2 ^ 52 - 1))"

lemma f64_mag_signed: "b < 2 ^ 63 \<Longrightarrow> f64_mag (f64_signed s b) = mag_of_bits b"
  by (simp add: f64_mag_def mag_of_bits_def f64_signed_fields)

lemma quotient_cases: "q = 0 \<or> q = Suc 0 \<Longrightarrow> a = q * m + r \<Longrightarrow> a = (if q = 1 then m else 0) + r"
  by auto

lemma f64_eq_signed: "w = f64_signed (f64_sign w) (unat w mod 2 ^ 63)"
proof -
  have "unat w div 2 ^ 63 < 2" using unat_f64_lt [of w] by (simp add: div_less_iff_less_mult)
  then have "unat w = (if f64_sign w then 2 ^ 63 else 0) + unat w mod 2 ^ 63"
    unfolding f64_sign_div less_2_cases_iff
    by (intro quotient_cases div_mult_mod_eq [symmetric])
  then have "(if f64_sign w then 2 ^ 63 + unat w mod 2 ^ 63 else unat w mod 2 ^ 63) = unat w"
    by (simp split: if_splits)
  then have "f64_signed (f64_sign w) (unat w mod 2 ^ 63) = of_nat (unat w)"
    unfolding f64_signed_def by (rule arg_cong)
  then show ?thesis by simp
qed

lemma f64_finite_signed: "b < 0x7FF * 2 ^ 52 \<Longrightarrow> f64_is_finite (f64_signed s b)"
  by (simp add: f64_is_finite_def f64_signed_fields less_mult_imp_div_less nat_neq_iff)

lemma f64_finite_bits: "f64_is_finite w \<Longrightarrow> unat w mod 2 ^ 63 < 0x7FF * 2 ^ 52"
proof -
  assume f: "f64_is_finite w"
  let ?b = "unat w mod 2 ^ 63"
  have b: "?b < 2 ^ 63" by simp
  have "f64_exp w = ?b div 2 ^ 52" using f64_signed_fields(2) [OF b] f64_eq_signed [of w] by metis
  moreover have "?b div 2 ^ 52 < 2048" using b by (intro less_mult_imp_div_less) simp
  ultimately have "?b div 2 ^ 52 < 0x7FF" using f by (simp add: f64_is_finite_def)
  then show ?thesis by (simp add: div_less_iff_less_mult)
qed

lemma bitlen_53: "2 ^ 52 \<le> m \<Longrightarrow> m < 2 ^ 53 \<Longrightarrow> bitlen (m * 2 ^ k) = 53 + k"
proof -
  assume a: "2 ^ 52 \<le> m" "m < 2 ^ 53"
  have "2 ^ (52 + k) \<le> m * 2 ^ k" unfolding power_add using a(1) by (intro mult_right_mono) simp_all
  moreover have "m * 2 ^ k < 2 ^ Suc (52 + k)"
    using a(2) by (simp add: power_add)
  ultimately show ?thesis using bitlen_eqI [of "52 + k" "m * 2 ^ k"] by simp
qed

lemma round_half_even_exact: "0 < d \<Longrightarrow> round_half_even (q * d) d = q"
  by (simp add: round_half_even_def Let_def)

lemma f64_round_mag_of_bits:
  assumes "b < 0x7FF * 2 ^ 52"
  shows "f64_round s (mag_of_bits b) 1 = f64_signed s b"
proof (cases "b div 2 ^ 52 = 0")
  case True
  then have "b < 2 ^ 52" by (simp add: div_eq_0_iff)
  then have "bitlen b \<le> 53" using bitlen_le [of b 53] by simp
  with True assms round_half_even_exact [of 1 b] show ?thesis
    by (simp add: f64_round_def mag_of_bits_def Let_def)
next
  case False
  define e where "e = b div 2 ^ 52"
  define m where "m = 2 ^ 52 + b mod 2 ^ 52"
  have m: "2 ^ 52 \<le> m" "m < 2 ^ 53" by (simp_all add: m_def)
  have b: "(e - 1) * 2 ^ 52 + m = b"
    using False div_mult_mod_eq [of b "2 ^ 52"] by (simp add: e_def m_def diff_mult_distrib)
  have "bitlen (m * 2 ^ (e - 1)) = 53 + (e - 1)" using m by (rule bitlen_53)
  then have "f64_round s (m * 2 ^ (e - 1)) 1 = f64_signed s (min ((e - 1) * 2 ^ 52 + m) (0x7FF * 2 ^ 52))"
    using round_half_even_exact [of "2 ^ (e - 1)" m] by (simp add: f64_round_def Let_def)
  moreover have "mag_of_bits b = m * 2 ^ (e - 1)"
    using False by (simp add: mag_of_bits_def e_def m_def)
  ultimately show ?thesis using b assms by simp
qed

text \<open>Rounding the value of a finite double gives the double back.\<close>

lemma f64_round_exact:
  assumes "f64_is_finite w"
  shows "f64_round (f64_sign w) (f64_mag w) 1 = w"
proof -
  let ?b = "unat w mod 2 ^ 63"
  have "f64_mag w = mag_of_bits ?b"
    using f64_mag_signed [of ?b "f64_sign w"] f64_eq_signed [of w] by simp
  then show ?thesis
    using f64_round_mag_of_bits [OF f64_finite_bits [OF assms]] f64_eq_signed [of w] by simp
qed


text \<open>
  A magnitude of at most 53 significant bits, below the overflow threshold, is a double.
\<close>

lemma f64_round_representable:
  assumes "n = m * 2 ^ j" and "m < 2 ^ 53" and "j \<le> 2045"
  shows "f64_is_finite (f64_round s n 1) \<and> f64_mag (f64_round s n 1) = n \<and> f64_sign (f64_round s n 1) = s"
proof -
  have "\<exists>b. b < 0x7FF * 2 ^ 52 \<and> mag_of_bits b = n"
  proof (cases "n < 2 ^ 53")
    case True
    then have "n div 2 ^ 52 < 2" by (intro less_mult_imp_div_less) simp
    then consider "n div 2 ^ 52 = 0" | "n div 2 ^ 52 = 1" by linarith
    then have "mag_of_bits n = n"
    proof cases
      case 2
      then have "n = 2 ^ 52 + n mod 2 ^ 52"
        using quotient_cases [OF _ div_mult_mod_eq [symmetric], of n "2 ^ 52"] by simp
      with 2 show ?thesis by (simp add: mag_of_bits_def)
    qed (simp add: mag_of_bits_def)
    then show ?thesis using True by (intro exI [of _ n]) simp
  next
    case False
    define k where "k = bitlen n - 53"
    have n0: "0 < n" using False by (cases n) auto
    note bl = bitlen_bounds [OF n0]
    have "(2 :: nat) ^ 53 < 2 ^ bitlen n" using False bl by linarith
    then have b54: "53 < bitlen n" by (rule power_less_imp_less_exp [rotated]) simp
    then have kb: "bitlen n = 53 + k" by (simp add: k_def)
    have "n < 2 ^ (53 + j)" using assms(1,2) by (simp add: power_add)
    then have "bitlen n \<le> 53 + j" by (rule bitlen_le)
    with kb have kj: "k \<le> j" by simp
    then have "n = m * 2 ^ (j - k) * 2 ^ k" using assms(1) by (simp flip: power_add)
    then obtain q where q: "n = q * 2 ^ k" by blast
    have "2 ^ (52 + k) \<le> q * 2 ^ k" "q * 2 ^ k < 2 ^ (53 + k)" using bl kb q by simp_all
    then have q': "2 ^ 52 \<le> q" "q < 2 ^ 53" by (simp_all add: power_add)
    define b where "b = k * 2 ^ 52 + q"
    have "b div 2 ^ 52 = k + q div 2 ^ 52" "b mod 2 ^ 52 = q mod 2 ^ 52" by (simp_all add: b_def)
    moreover have "q div 2 ^ 52 = 1" "2 ^ 52 + q mod 2 ^ 52 = q"
    proof -
      have "q div 2 ^ 52 < 2" "1 \<le> q div 2 ^ 52"
        using q' by (simp_all add: less_mult_imp_div_less Suc_le_eq div_greater_zero_iff)
      then show "q div 2 ^ 52 = 1" by linarith
      with quotient_cases [OF _ div_mult_mod_eq [symmetric], of q "2 ^ 52"]
      show "2 ^ 52 + q mod 2 ^ 52 = q" by simp
    qed
    ultimately have "mag_of_bits b = n" by (simp add: mag_of_bits_def q)
    moreover have "b < 0x7FF * 2 ^ 52"
    proof -
      have "b < (k + 2) * 2 ^ 52" using q' by (simp add: b_def)
      also have "\<dots> \<le> 0x7FF * 2 ^ 52" using kj assms(3) by (intro mult_right_mono) simp_all
      finally show ?thesis .
    qed
    ultimately show ?thesis by blast
  qed
  then obtain b where b: "b < 0x7FF * 2 ^ 52" "mag_of_bits b = n" by blast
  then have "b < 2 ^ 63" by simp
  with b f64_round_mag_of_bits [OF b(1), of s] show ?thesis
    by (simp add: f64_finite_signed f64_mag_signed f64_signed_fields)
qed

lemma f64_of_int_exact:
  assumes "\<bar>i\<bar> < 2 ^ 53"
  shows "f64_is_finite (f64_of_int i) \<and> f64_val (f64_of_int i) = i * int f64_one"
proof -
  have "nat \<bar>i\<bar> < 2 ^ 53" using assms by (simp add: nat_less_iff)
  from f64_round_representable [OF refl this, of 1074 "i < 0"] show ?thesis
    by (auto simp: f64_of_int_def f64_val_def f64_one_def)
qed

lemma f64_to_i64_of_int:
  assumes "\<bar>i\<bar> < 2 ^ 53"
  shows "f64_to_i64 (f64_of_int i) = i"
proof -
  have "nat \<bar>i\<bar> < 2 ^ 53" using assms by (simp add: nat_less_iff)
  from f64_round_representable [OF refl this, of 1074 "i < 0"]
  have w: "f64_is_finite (f64_of_int i)" "f64_mag (f64_of_int i) = nat \<bar>i\<bar> * f64_one"
    "f64_sign (f64_of_int i) = (i < 0)"
    by (simp_all add: f64_of_int_def f64_one_def)
  have "0 < f64_one" by (simp add: f64_one_def)
  with w assms show ?thesis
    by (auto simp: f64_to_i64_def f64_is_nan_def f64_is_finite_def Let_def)
qed

end
