(* ===== verification/Best_Machine.thy ===== *)
theory Best_Machine
  imports Best_Decode Float64
begin

text \<open>
  The register and stack state of the BEST/2 machine, \<open>crates/best/src/machine.rs\<close>. The three
  integer banks are views into one file of 32 bytes. An \<open>i64\<close> is its 64 bits, so Rust's \<open>as\<close> casts
  are \<open>ucast\<close>; a \<open>usize\<close> index or length is the natural number of its (64-bit) word. The text of
  an \<open>Unsupported\<close> error is left out.
\<close>

definition ARRAY_MAX_SIZE :: nat where "ARRAY_MAX_SIZE = 1023"

record flags =
  fl_z :: bool
  fl_s :: bool
  fl_c :: bool
  fl_v :: bool

record machine =
  m_regs :: bytes
  m_s :: "bytes list"
  m_f :: "f64 list"
  m_flags :: flags
  m_call_stack :: "nat list"
  m_data_stack :: bytes                \<comment> \<open>the top is the last element\<close>
  m_pc :: nat
  m_trap_bit :: "u32 option"
  m_trap_mask :: u32

datatype vm_value = VInt i64 | VFloat f64 | VBytes bytes

datatype machine_error =
    OutOfRange reg_bank u8
  | IndexOutOfBounds nat nat           \<comment> \<open>index, len\<close>
  | MUnsupported

definition machine_new :: machine where
  "machine_new =
     \<lparr>m_regs = replicate 32 0, m_s = replicate 16 [], m_f = replicate 8 0,
      m_flags = \<lparr>fl_z = False, fl_s = False, fl_c = False, fl_v = False\<rparr>,
      m_call_stack = [], m_data_stack = [], m_pc = 0, m_trap_bit = None, m_trap_mask = 0\<rparr>"

section \<open>Registers\<close>

text \<open>\<open>copy_from_slice\<close> into a part of a buffer that is long enough.\<close>

definition put_slice :: "'a list \<Rightarrow> nat \<Rightarrow> 'a list \<Rightarrow> 'a list" where
  "put_slice xs off ys = take off xs @ ys @ drop (off + length ys) xs"

text \<open>\<open>Vec::resize\<close> to \<open>n\<close> elements and \<open>Vec::truncate\<close>.\<close>

definition grow :: "bytes \<Rightarrow> nat \<Rightarrow> bytes" where
  "grow xs n = (if length xs < n then xs @ replicate (n - length xs) 0 else xs)"

definition read_reg :: "machine \<Rightarrow> reg_bank \<Rightarrow> u8 \<Rightarrow> machine_error + vm_value" where
  "read_reg m bank idx =
     (let n = unat idx; oor = OutOfRange bank idx in
      case bank of
        BB \<Rightarrow> bindE (ok_or (nth_opt (m_regs m) n) oor) (\<lambda>b. Inr (VInt (ucast b)))
      | BI \<Rightarrow> bindE (ok_or (slice_opt (m_regs m) (2 * n) (2 * n + 2)) oor)
               (\<lambda>b. Inr (VInt (ucast (be16 (b ! 1) (b ! 0)))))
      | BL \<Rightarrow> bindE (ok_or (slice_opt (m_regs m) (4 * n) (4 * n + 4)) oor)
               (\<lambda>b. Inr (VInt (ucast (be32 (b ! 3) (b ! 2) (b ! 1) (b ! 0)))))
      | BS \<Rightarrow> bindE (ok_or (nth_opt (m_s m) n) oor) (\<lambda>b. Inr (VBytes b))
      | BF \<Rightarrow> bindE (ok_or (nth_opt (m_f m) n) oor) (\<lambda>x. Inr (VFloat x)))"

definition write_reg :: "machine \<Rightarrow> reg_bank \<Rightarrow> u8 \<Rightarrow> vm_value \<Rightarrow> machine_error + machine" where
  "write_reg m bank idx v =
     (let n = unat idx; oor = OutOfRange bank idx in
      case (bank, v) of
        (BB, VInt i) \<Rightarrow>
          if n < length (m_regs m) then Inr (m\<lparr>m_regs := (m_regs m)[n := ucast i]\<rparr>) else Inl oor
      | (BI, VInt i) \<Rightarrow>
          if 2 * n + 2 \<le> length (m_regs m)
          then Inr (m\<lparr>m_regs := put_slice (m_regs m) (2 * n) (rev (be16_bytes (ucast i)))\<rparr>) else Inl oor
      | (BL, VInt i) \<Rightarrow>
          if 4 * n + 4 \<le> length (m_regs m)
          then Inr (m\<lparr>m_regs := put_slice (m_regs m) (4 * n) (rev (be32_bytes (ucast i)))\<rparr>) else Inl oor
      | (BS, VBytes b) \<Rightarrow>
          if n < length (m_s m) then Inr (m\<lparr>m_s := (m_s m)[n := b]\<rparr>) else Inl oor
      | (BF, VFloat x) \<Rightarrow>
          if n < length (m_f m) then Inr (m\<lparr>m_f := (m_f m)[n := x]\<rparr>) else Inl oor
      | _ \<Rightarrow> Inl MUnsupported)"

definition resolve_index :: "machine \<Rightarrow> index_arg \<Rightarrow> machine_error + nat" where
  "resolve_index m arg =
     (case arg of
        IxImm v \<Rightarrow> Inr (unat v)
      | IxReg r \<Rightarrow>
          bindE (read_reg m (rid_bank r) (rid_idx r)) (\<lambda>v.
          case v of VInt i \<Rightarrow> Inr (unat i) | _ \<Rightarrow> Inl MUnsupported))"

section \<open>Operands\<close>

definition m_read :: "machine \<Rightarrow> operand \<Rightarrow> machine_error + vm_value" where
  "m_read m arg =
     (case arg of
        OpImm v \<Rightarrow> Inr (VInt v)
      | OpStr s \<Rightarrow> Inr (VBytes s)
      | OpReg bank idx \<Rightarrow> read_reg m bank idx
      | OpNone \<Rightarrow> Inl MUnsupported
      | OpIndexed base index len \<Rightarrow>
          bindE (if rid_bank base = BS
                 then ok_or (nth_opt (m_s m) (unat (rid_idx base))) (OutOfRange BS (rid_idx base))
                 else Inl MUnsupported) (\<lambda>data.
          bindE (resolve_index m index) (\<lambda>idx.
          case len of
            None \<Rightarrow>
              if idx + 1 > ARRAY_MAX_SIZE then Inl (IndexOutOfBounds idx 0)
              else Inr (VBytes (drop idx data))
          | Some l \<Rightarrow>
              bindE (resolve_index m l) (\<lambda>n.
              if idx + n > ARRAY_MAX_SIZE then Inl (IndexOutOfBounds idx n)
              else
                let part = take n (drop idx data)
                in Inr (VBytes (part @ replicate (n - length part) 0))))))"

text \<open>The low \<open>len\<close> bytes of an integer, little-endian: \<open>(v >> (i * 8)) as u8\<close>.\<close>

definition int_bytes :: "i64 \<Rightarrow> nat \<Rightarrow> bytes" where
  "int_bytes v len = map (\<lambda>i. ucast (signed_drop_bit (i * 8) v)) [0..<len]"

definition write_indexed :: "machine \<Rightarrow> operand \<Rightarrow> vm_value \<Rightarrow> nat \<Rightarrow> machine_error + machine" where
  "write_indexed m arg v len =
     (case arg of
        OpIndexed base index _ \<Rightarrow>
          if rid_bank base \<noteq> BS then Inl MUnsupported
          else
            bindE (case v of VInt i \<Rightarrow> Inr (int_bytes i len) | VBytes b \<Rightarrow> Inr b | VFloat _ \<Rightarrow> Inl MUnsupported) (\<lambda>bs.
            bindE (resolve_index m index) (\<lambda>idx.
            if idx + length bs > ARRAY_MAX_SIZE then Inl (IndexOutOfBounds idx (length bs))
            else
              bindE (ok_or (nth_opt (m_s m) (unat (rid_idx base))) (OutOfRange BS (rid_idx base))) (\<lambda>data.
              Inr (m\<lparr>m_s := (m_s m)[unat (rid_idx base) :=
                       put_slice (grow data (idx + length bs)) idx bs]\<rparr>))))
      | _ \<Rightarrow> Inl MUnsupported)"

definition m_write :: "machine \<Rightarrow> operand \<Rightarrow> vm_value \<Rightarrow> machine_error + machine" where
  "m_write m arg v =
     (case arg of
        OpReg bank idx \<Rightarrow> write_reg m bank idx v
      | OpNone \<Rightarrow> Inl MUnsupported
      | OpImm _ \<Rightarrow> Inl MUnsupported
      | OpStr _ \<Rightarrow> Inl MUnsupported
      | OpIndexed _ _ _ \<Rightarrow> write_indexed m arg v 1)"

definition swap_s_slice :: "machine \<Rightarrow> reg_id \<Rightarrow> nat \<Rightarrow> nat \<Rightarrow> machine_error + machine" where
  "swap_s_slice m base start len =
     (if rid_bank base \<noteq> BS then Inl MUnsupported
      else
        bindE (ok_or (nth_opt (m_s m) (unat (rid_idx base))) (OutOfRange BS (rid_idx base))) (\<lambda>data.
        let used = length data;
            data1 = grow data (start + len);
            data2 = put_slice data1 start (rev (take len (drop start data1)))
        in Inr (m\<lparr>m_s := (m_s m)[unat (rid_idx base) := take used data2]\<rparr>)))"


section \<open>The shape of the machine\<close>

definition machine_wf :: "machine \<Rightarrow> bool" where
  "machine_wf m \<longleftrightarrow> length (m_regs m) = 32 \<and> length (m_s m) = 16 \<and> length (m_f m) = 8"

text \<open>Registers named by an operand or index argument exist; nothing else is asked.\<close>

definition ix_regs :: "index_arg \<Rightarrow> bool" where
  "ix_regs ix = (case ix of IxImm _ \<Rightarrow> True | IxReg r \<Rightarrow> reg_ok r)"

definition operand_regs :: "operand \<Rightarrow> bool" where
  "operand_regs arg =
     (case arg of
        OpReg bank idx \<Rightarrow> unat idx < bank_size bank
      | OpIndexed base index len \<Rightarrow> reg_ok base \<and> ix_regs index \<and> pred_option ix_regs len
      | _ \<Rightarrow> True)"

lemma operand_ok_regs: "operand_ok arg \<Longrightarrow> operand_regs arg"
  by (cases arg)
    (auto simp: operand_ok_def operand_regs_def ix_ok_def ix_regs_def pred_option_def split: index_arg.splits)

definition in_range :: "machine_error \<Rightarrow> bool" where
  "in_range e \<longleftrightarrow> (case e of OutOfRange _ _ \<Rightarrow> False | _ \<Rightarrow> True)"

lemma in_range_simps [simp]:
  "\<not> in_range (OutOfRange b i)" "in_range (IndexOutOfBounds x y)" "in_range MUnsupported"
  by (simp_all add: in_range_def)

lemma machine_wf_new [simp]: "machine_wf machine_new"
  by (simp add: machine_wf_def machine_new_def)

lemma length_put_slice [simp]: "off + length ys \<le> length xs \<Longrightarrow> length (put_slice xs off ys) = length xs"
  by (simp add: put_slice_def)

lemma nth_put_slice:
  "off + length ys \<le> length xs \<Longrightarrow> i < length xs \<Longrightarrow>
     put_slice xs off ys ! i = (if off \<le> i \<and> i < off + length ys then ys ! (i - off) else xs ! i)"
  by (auto simp: put_slice_def nth_append min_def)

lemma length_grow [simp]: "length (grow xs n) = max (length xs) n"
  by (simp add: grow_def)

lemma nth_grow: "i < length xs \<Longrightarrow> grow xs n ! i = xs ! i"
  "length xs \<le> i \<Longrightarrow> i < n \<Longrightarrow> grow xs n ! i = 0"
  by (auto simp: grow_def nth_append)

lemma length_int_bytes [simp]: "length (int_bytes v n) = n"
  by (simp add: int_bytes_def)

lemma read_reg_ok:
  "machine_wf m \<Longrightarrow> unat idx < bank_size bank \<Longrightarrow> \<exists>v. read_reg m bank idx = Inr v"
  by (cases bank) (auto simp: machine_wf_def bank_size_def read_reg_def nth_opt_def slice_opt_def Let_def)

lemma resolve_index_post:
  assumes "machine_wf m" "ix_regs ix"
  shows "post in_range (\<lambda>_. True) (resolve_index m ix)"
proof (cases ix)
  case (IxReg r)
  with assms have "unat (rid_idx r) < bank_size (rid_bank r)" by (simp add: ix_regs_def reg_ok_def)
  from read_reg_ok [OF assms(1) this] obtain v where "read_reg m (rid_bank r) (rid_idx r) = Inr v" ..
  with IxReg show ?thesis by (simp add: resolve_index_def split: vm_value.split)
qed (simp add: resolve_index_def)

lemma nth_s_ok: "machine_wf m \<Longrightarrow> reg_ok r \<Longrightarrow> rid_bank r = BS \<Longrightarrow>
  nth_opt (m_s m) (unat (rid_idx r)) = Some (m_s m ! unat (rid_idx r))"
  by (simp add: machine_wf_def reg_ok_def bank_size_def nth_opt_def)

lemma m_read_post:
  assumes wf: "machine_wf m" and regs: "operand_regs arg"
  shows "post in_range (\<lambda>_. True) (m_read m arg)"
proof (cases arg)
  case (OpReg bank idx)
  with read_reg_ok [OF wf] regs show ?thesis by (force simp: m_read_def operand_regs_def)
next
  case (OpIndexed base index len)
  then have r: "reg_ok base" "ix_regs index" "pred_option ix_regs len"
    using regs by (simp_all add: operand_regs_def)
  show ?thesis
  proof (cases "rid_bank base = BS")
    case True
    note data = nth_s_ok [OF wf r(1) True]
    have ix: "post in_range (\<lambda>_. True) (bindE (resolve_index m l) k)"
      if "ix_regs l" "\<And>n. post in_range (\<lambda>_. True) (k n)"
      for l and k :: "nat \<Rightarrow> machine_error + vm_value"
      by (rule post_bindE [OF resolve_index_post [OF wf that(1)]]) (rule that(2))
    show ?thesis
    proof (cases len)
      case None
      then show ?thesis
        by (auto simp: m_read_def OpIndexed True data intro!: ix r(2))
    next
      case (Some l)
      then have "ix_regs l" using r(3) by simp
      then show ?thesis
        by (auto simp: m_read_def OpIndexed True data Some Let_def intro!: ix r(2))
    qed
  qed (simp add: m_read_def OpIndexed)
qed (simp_all add: m_read_def)

lemma write_reg_post:
  assumes wf: "machine_wf m" and "unat idx < bank_size bank"
  shows "post in_range machine_wf (write_reg m bank idx v)"
  using assms
  by (cases bank; cases v) (simp_all add: write_reg_def machine_wf_def bank_size_def Let_def)

lemma write_indexed_post:
  assumes wf: "machine_wf m" and regs: "operand_regs arg"
  shows "post in_range machine_wf (write_indexed m arg v n)"
proof (cases arg)
  case (OpIndexed base index len)
  then have r: "reg_ok base" "ix_regs index" using regs by (simp_all add: operand_regs_def)
  show ?thesis
  proof (cases "rid_bank base = BS")
    case True
    note data = nth_s_ok [OF wf r(1) True]
    have k: "post in_range machine_wf (bindE (resolve_index m index) (\<lambda>idx.
            if idx + length bs > ARRAY_MAX_SIZE then Inl (IndexOutOfBounds idx (length bs))
            else bindE (ok_or (nth_opt (m_s m) (unat (rid_idx base))) (OutOfRange BS (rid_idx base))) (\<lambda>data.
              Inr (m\<lparr>m_s := (m_s m)[unat (rid_idx base) :=
                       put_slice (grow data (idx + length bs)) idx bs]\<rparr>))))" for bs
      by (rule post_bindE [OF resolve_index_post [OF wf r(2)]])
        (use data wf in \<open>simp add: machine_wf_def\<close>)
    show ?thesis
      unfolding write_indexed_def OpIndexed operand.case True
      by (cases v) (simp_all only: vm_value.case bindE_simps post_simps in_range_simps simp_thms if_False k [unfolded True])
  qed (simp add: write_indexed_def OpIndexed)
qed (simp_all add: write_indexed_def)

lemma m_write_post:
  assumes wf: "machine_wf m" and regs: "operand_regs arg"
  shows "post in_range machine_wf (m_write m arg v)"
proof (cases arg)
  case (OpReg bank idx)
  with write_reg_post [OF wf] regs show ?thesis by (simp add: m_write_def operand_regs_def)
next
  case (OpIndexed base index len)
  with write_indexed_post [OF wf regs] show ?thesis by (simp add: m_write_def)
qed (simp_all add: m_write_def)

lemma swap_s_slice_post:
  assumes "machine_wf m" "reg_ok base"
  shows "post in_range machine_wf (swap_s_slice m base start len)"
  using assms nth_s_ok [OF assms] by (simp add: swap_s_slice_def machine_wf_def Let_def)


section \<open>The register file\<close>

text \<open>Where the integer registers lie: width and offset in bytes.\<close>

definition int_bank :: "reg_bank \<Rightarrow> bool" where
  "int_bank bank \<longleftrightarrow> bank = BB \<or> bank = BI \<or> bank = BL"

definition reg_width :: "reg_bank \<Rightarrow> nat" where
  "reg_width bank = (case bank of BB \<Rightarrow> 1 | BI \<Rightarrow> 2 | _ \<Rightarrow> 4)"

definition reg_off :: "reg_id \<Rightarrow> nat" where
  "reg_off r = reg_width (rid_bank r) * unat (rid_idx r)"

fun le_word :: "bytes \<Rightarrow> i64" where
  "le_word [] = 0"
| "le_word (b # bs) = ucast b OR push_bit 8 (le_word bs)"

lemma int_bytes_le:
  "int_bytes v 1 = [ucast v]" "int_bytes v 2 = rev (be16_bytes (ucast v))"
  "int_bytes v 4 = rev (be32_bytes (ucast v))"
  by (auto simp: int_bytes_def be16_bytes_def be32_bytes_def upt_rec bit_simps nth_Cons'
      intro!: bit_word_eqI)

lemma bit_u8_lt: "bit (b :: u8) k \<Longrightarrow> k < 8"
  using bit_imp_le_length [of b k] by simp

lemma bit_le_word: "bit (le_word bs) k \<longleftrightarrow> k < 64 \<and> k div 8 < length bs \<and> bit (bs ! (k div 8)) (k mod 8)"
proof (induction bs arbitrary: k)
  case Nil
  then show ?case by simp
next
  case (Cons b bs)
  show ?case
  proof (cases "k < 8")
    case True
    then show ?thesis by (auto simp: bit_simps)
  next
    case False
    then have "k div 8 = Suc ((k - 8) div 8)" "k mod 8 = (k - 8) mod 8"
      by (simp_all add: le_div_geq le_mod_geq)
    with False show ?thesis by (auto simp: bit_simps Cons.IH)
  qed
qed

lemma div_mod_8_add: "k < 8 \<Longrightarrow> (8 * j + k) div 8 = j" "k < 8 \<Longrightarrow> (8 * j + k) mod 8 = (k :: nat)"
  by simp_all

lemmas byte_position = div_mod_8_add [of _ 1, simplified] div_mod_8_add [of _ 2, simplified]
  div_mod_8_add [of _ 3, simplified]

lemma le_word_be:
  "ucast (be16 b a) = le_word [a, b]" "ucast (be32 d c b a) = le_word [a, b, c, d]"
proof -
  have beyond: "32 \<le> n \<Longrightarrow> \<not> n div 8 < 4" for n :: nat by (simp add: less_eq_div_iff_mult_less_eq not_less)
  show "ucast (be32 d c b a) = le_word [a, b, c, d]"
  proof (rule bit_word_eqI)
    fix n assume "n < LENGTH(64)"
    show "bit (ucast (be32 d c b a) :: i64) n = bit (le_word [a, b, c, d]) n"
    proof (cases "n < 32")
      case True
      then show ?thesis
        by (cases rule: u32_byte_cases) (simp_all add: be32_def bit_simps bit_le_word byte_position)
    next
      case False
      then show ?thesis using beyond [of n] bit_imp_le_length [of "be32 d c b a" n]
        by (auto simp: bit_simps bit_le_word simp del: le_word.simps)
    qed
  qed
  show "ucast (be16 b a) = le_word [a, b]"
  proof -
    have "bit (ucast (be16 b a) :: i64) n = bit (le_word [a, b]) n" for n
      using bit_u8_lt [of a n] bit_u8_lt [of b "n - 8"] by (auto simp: be16_def bit_simps)
    then show ?thesis by (auto intro: bit_word_eqI)
  qed
qed

text \<open>One description for the three banks: the bytes of a register, read and written.\<close>

definition reg_bytes :: "machine \<Rightarrow> reg_id \<Rightarrow> bytes" where
  "reg_bytes m r = take (reg_width (rid_bank r)) (drop (reg_off r) (m_regs m))"

lemma reg_fits:
  assumes "machine_wf m" "reg_ok r" "int_bank (rid_bank r)"
  shows "reg_off r + reg_width (rid_bank r) \<le> length (m_regs m)"
  using assms
  by (auto simp: machine_wf_def reg_ok_def bank_size_def int_bank_def reg_off_def reg_width_def)

lemma nth_drop_take_two: "2 \<le> length xs \<Longrightarrow> take 2 xs = [xs ! 0, xs ! 1]"
  by (cases xs; cases "tl xs") auto

lemma take_four: "4 \<le> length xs \<Longrightarrow> take 4 xs = [xs ! 0, xs ! 1, xs ! 2, xs ! 3]"
  by (auto simp: numeral_eq_Suc Suc_le_length_iff)

lemma read_reg_int:
  assumes "machine_wf m" "reg_ok r" "int_bank (rid_bank r)"
  shows "read_reg m (rid_bank r) (rid_idx r) = Inr (VInt (le_word (reg_bytes m r)))"
proof -
  let ?n = "unat (rid_idx r)"
  note fits = reg_fits [OF assms]
  from assms(3) consider "rid_bank r = BB" | "rid_bank r = BI" | "rid_bank r = BL"
    by (auto simp: int_bank_def)
  then show ?thesis
  proof cases
    case 1
    with fits have l: "?n < length (m_regs m)" by (simp add: reg_off_def reg_width_def)
    then have "take 1 (drop ?n (m_regs m)) = [m_regs m ! ?n]" by (simp add: take_Suc_conv_app_nth hd_drop_conv_nth take_Suc)
    with 1 l show ?thesis by (simp add: read_reg_def reg_bytes_def reg_off_def reg_width_def nth_opt_def Let_def)
  next
    case 2
    with fits have "2 * ?n + 2 \<le> length (m_regs m)" by (simp add: reg_off_def reg_width_def)
    with 2 show ?thesis
      by (simp add: read_reg_def reg_bytes_def reg_off_def reg_width_def slice_opt_def le_word_be
          nth_drop_take_two Let_def)
  next
    case 3
    with fits have "4 * ?n + 4 \<le> length (m_regs m)" by (simp add: reg_off_def reg_width_def)
    with 3 show ?thesis
      by (simp add: read_reg_def reg_bytes_def reg_off_def reg_width_def slice_opt_def le_word_be
          take_four Let_def)
  qed
qed

lemma write_reg_int:
  assumes "machine_wf m" "reg_ok r" "int_bank (rid_bank r)"
  shows "write_reg m (rid_bank r) (rid_idx r) (VInt v)
    = Inr (m\<lparr>m_regs := put_slice (m_regs m) (reg_off r) (int_bytes v (reg_width (rid_bank r)))\<rparr>)"
proof -
  let ?n = "unat (rid_idx r)"
  note fits = reg_fits [OF assms]
  from assms(3) consider "rid_bank r = BB" | "rid_bank r = BI" | "rid_bank r = BL"
    by (auto simp: int_bank_def)
  then show ?thesis
  proof cases
    case 1
    with fits have "?n < length (m_regs m)" by (simp add: reg_off_def reg_width_def)
    with 1 show ?thesis
      by (simp add: write_reg_def Let_def reg_off_def reg_width_def put_slice_def upd_conv_take_nth_drop
          int_bytes_le(1) [unfolded One_nat_def])
  next
    case 2
    with fits show ?thesis by (simp add: write_reg_def Let_def reg_off_def reg_width_def int_bytes_le(2))
  next
    case 3
    with fits show ?thesis by (simp add: write_reg_def Let_def reg_off_def reg_width_def int_bytes_le(3))
  qed
qed

lemma bit_int_bytes:
  "i < n \<Longrightarrow> k < 8 \<Longrightarrow> 8 * i + k < 64 \<Longrightarrow> bit (int_bytes v n ! i) k = bit v (8 * i + k)"
  by (auto simp: int_bytes_def bit_simps ac_simps)

lemma le_word_int_bytes: "n \<le> 8 \<Longrightarrow> le_word (int_bytes v n) = take_bit (8 * n) v"
proof (rule bit_word_eqI)
  fix k assume n: "n \<le> 8" and "k < LENGTH(64)"
  then have k: "k < 64" by simp
  have d: "8 * (k div 8) + k mod 8 = k" by simp
  have "k div 8 < n \<longleftrightarrow> k < 8 * n" by (simp add: div_less_iff_less_mult mult.commute)
  moreover have "k div 8 < n \<Longrightarrow> bit (int_bytes v n ! (k div 8)) (k mod 8) = bit v k"
    using bit_int_bytes [of "k div 8" n "k mod 8" v] k by (simp add: d)
  ultimately show "bit (le_word (int_bytes v n)) k = bit (take_bit (8 * n) v) k"
    using k by (auto simp: bit_le_word bit_simps)
qed


definition reg_disjoint :: "reg_id \<Rightarrow> reg_id \<Rightarrow> bool" where
  "reg_disjoint r r' \<longleftrightarrow> reg_off r + reg_width (rid_bank r) \<le> reg_off r'
     \<or> reg_off r' + reg_width (rid_bank r') \<le> reg_off r"

lemma reg_bytes_put_same:
  assumes "machine_wf m" "reg_ok r" "int_bank (rid_bank r)" "length ys = reg_width (rid_bank r)"
  shows "reg_bytes (m\<lparr>m_regs := put_slice (m_regs m) (reg_off r) ys\<rparr>) r = ys"
  using reg_fits [OF assms(1-3)] assms(4) by (simp add: reg_bytes_def put_slice_def)

lemma reg_bytes_put_disjoint:
  assumes wf: "machine_wf m" and r: "reg_ok r" "int_bank (rid_bank r)"
    and r': "reg_ok r'" "int_bank (rid_bank r')" "reg_disjoint r r'"
    and ys: "length ys = reg_width (rid_bank r)"
  shows "reg_bytes (m\<lparr>m_regs := put_slice (m_regs m) (reg_off r) ys\<rparr>) r' = reg_bytes m r'"
proof (rule nth_equalityI)
  note fits = reg_fits [OF wf r] reg_fits [OF wf r'(1,2)]
  show "length (reg_bytes (m\<lparr>m_regs := put_slice (m_regs m) (reg_off r) ys\<rparr>) r') = length (reg_bytes m r')"
    using fits ys by (simp add: reg_bytes_def)
  fix i assume "i < length (reg_bytes (m\<lparr>m_regs := put_slice (m_regs m) (reg_off r) ys\<rparr>) r')"
  with fits ys r'(3) show "reg_bytes (m\<lparr>m_regs := put_slice (m_regs m) (reg_off r) ys\<rparr>) r' ! i = reg_bytes m r' ! i"
    by (auto simp: reg_bytes_def nth_put_slice reg_disjoint_def)
qed

lemma write_reg_int_wf:
  assumes "machine_wf m" "reg_ok r" "int_bank (rid_bank r)"
  shows "machine_wf (m\<lparr>m_regs := put_slice (m_regs m) (reg_off r) (int_bytes v (reg_width (rid_bank r)))\<rparr>)"
  using assms(1) reg_fits [OF assms] by (simp add: machine_wf_def)

lemma reg_width_le: "reg_width bank \<le> 8"
  by (simp add: reg_width_def split: reg_bank.split)

lemma byte_in_register:
  assumes wf: "machine_wf m" and r: "reg_ok r" "int_bank (rid_bank r)" and k: "k < reg_width (rid_bank r)"
  shows "read_reg (m\<lparr>m_regs := put_slice (m_regs m) (reg_off r) (int_bytes v (reg_width (rid_bank r)))\<rparr>)
      BB (of_nat (reg_off r + k)) = Inr (VInt (take_bit 8 (drop_bit (8 * k) v)))"
proof -
  let ?w = "reg_width (rid_bank r)" and ?i = "reg_off r + k"
  note fits = reg_fits [OF wf r]
  have i: "?i < 32" using fits k wf by (simp add: machine_wf_def)
  then have u: "unat (of_nat ?i :: u8) = ?i" by (simp only: unat_of_nat) simp
  have "put_slice (m_regs m) (reg_off r) (int_bytes v ?w) ! ?i = int_bytes v ?w ! k"
    using fits k by (simp add: nth_put_slice)
  moreover have "ucast (int_bytes v ?w ! k) = take_bit 8 (drop_bit (8 * k) v)"
  proof (rule bit_word_eqI)
    fix n assume "n < LENGTH(64)"
    then have n: "n < 64" by simp
    have "k < 8" using k reg_width_le [of "rid_bank r"] by simp
    then show "bit (ucast (int_bytes v ?w ! k) :: i64) n = bit (take_bit 8 (drop_bit (8 * k) v)) n"
      using n k bit_int_bytes [of k ?w n v] bit_u8_lt [of "int_bytes v ?w ! k" n]
      by (cases "n < 8") (auto simp: bit_simps)
  qed
  moreover have "?i < length (put_slice (m_regs m) (reg_off r) (int_bytes v ?w))"
    using i fits wf by (simp add: machine_wf_def)
  ultimately show ?thesis by (simp add: read_reg_def nth_opt_def u Let_def del: of_nat_add)
qed

text \<open>
  The integer banks are overlapping little-endian views of one file. Writing an integer to an
  existing \<open>B\<close>, \<open>I\<close> or \<open>L\<close> register succeeds; the register then reads as the value truncated to
  its width, byte \<open>k\<close> of the value is in the byte register \<open>k\<close> places into it, and every
  integer register that does not overlap it is unchanged, as are the strings, the floats and the
  rest of the machine.
\<close>
theorem register_file:
  assumes "machine_wf m" and "reg_ok r" and "int_bank (rid_bank r)"
  shows "\<exists>m'. write_reg m (rid_bank r) (rid_idx r) (VInt v) = Inr m' \<and> machine_wf m'
     \<and> read_reg m' (rid_bank r) (rid_idx r) = Inr (VInt (take_bit (8 * reg_width (rid_bank r)) v))
     \<and> (\<forall>k < reg_width (rid_bank r). read_reg m' BB (of_nat (reg_off r + k))
           = Inr (VInt (take_bit 8 (drop_bit (8 * k) v))))
     \<and> (\<forall>r'. reg_ok r' \<and> int_bank (rid_bank r') \<and> reg_disjoint r r' \<longrightarrow>
           read_reg m' (rid_bank r') (rid_idx r') = read_reg m (rid_bank r') (rid_idx r'))
     \<and> m' = m\<lparr>m_regs := m_regs m'\<rparr>"
proof -
  let ?m' = "m\<lparr>m_regs := put_slice (m_regs m) (reg_off r) (int_bytes v (reg_width (rid_bank r)))\<rparr>"
  have wf: "machine_wf ?m'" by (rule write_reg_int_wf [OF assms])
  show ?thesis
    by (intro exI [of _ ?m'] conjI allI impI)
      (simp_all add: write_reg_int [OF assms] wf read_reg_int [OF wf] assms reg_bytes_put_same
        reg_bytes_put_disjoint le_word_int_bytes reg_width_le byte_in_register read_reg_int [OF assms(1)]
        del: of_nat_add)
qed

theorem register_file_witness:
  "\<exists>m'. write_reg machine_new BL 1 (VInt 0x11223344) = Inr m'
     \<and> read_reg m' BL 1 = Inr (VInt 0x11223344) \<and> read_reg m' BB 5 = Inr (VInt 0x33)"
proof -
  let ?r = "\<lparr>rid_bank = BL, rid_idx = 1\<rparr>"
  have r: "reg_ok ?r" "int_bank (rid_bank ?r)" "reg_off ?r + 1 = 5" "reg_width BL = 4"
    by (simp_all add: reg_ok_def bank_size_def int_bank_def reg_off_def reg_width_def)
  have v: "take_bit 32 (0x11223344 :: i64) = 0x11223344" "take_bit 8 (drop_bit 8 (0x11223344 :: i64)) = 0x33"
    by simp_all
  from register_file [OF machine_wf_new r(1,2), of "0x11223344"] r(3,4) v show ?thesis
    by (auto dest!: spec [of _ 1])
qed


section \<open>Indexed strings\<close>

lemma resolve_index_s [simp]:
  "length x = length (m_s m) \<Longrightarrow> resolve_index (m\<lparr>m_s := x\<rparr>) ix = resolve_index m ix"
  by (cases ix) (simp_all add: resolve_index_def read_reg_def Let_def nth_opt_def split: reg_bank.split)

lemma put_slice_grow_part:
  "take (length bs) (drop i (put_slice (grow xs (i + length bs)) i bs)) = bs"
  by (simp add: put_slice_def grow_def)

lemma nth_put_slice_grow:
  "j < max (length xs) (i + length bs) \<Longrightarrow> put_slice (grow xs (i + length bs)) i bs ! j =
     (if i \<le> j \<and> j < i + length bs then bs ! (j - i) else if j < length xs then xs ! j else 0)"
  by (simp add: nth_put_slice nth_grow)

text \<open>
  A store through an index: within the array limit it replaces exactly the bytes at
  \<open>i ..< i + n\<close> of the base string, growing it with zeros when it is shorter and never
  shrinking it, leaves every other part of the machine alone, and reads back as the bytes
  stored; beyond the limit it is an error and stores nothing.
\<close>
theorem indexed_store:
  assumes "machine_wf m" and "reg_ok base" and "rid_bank base = BS" and "resolve_index m index = Inr i"
  shows "if i + length bs \<le> ARRAY_MAX_SIZE
    then \<exists>m' data.
      write_indexed m (OpIndexed base index len) (VBytes bs) n = Inr m'
      \<and> m' = m\<lparr>m_s := (m_s m)[unat (rid_idx base) := data]\<rparr>
      \<and> length data = max (length (m_s m ! unat (rid_idx base))) (i + length bs)
      \<and> (\<forall>j < length data. data ! j =
            (if i \<le> j \<and> j < i + length bs then bs ! (j - i)
             else if j < length (m_s m ! unat (rid_idx base)) then m_s m ! unat (rid_idx base) ! j else 0))
      \<and> m_read m' (OpIndexed base index (Some (IxImm (of_nat (length bs))))) = Inr (VBytes bs)
    else write_indexed m (OpIndexed base index len) (VBytes bs) n = Inl (IndexOutOfBounds i (length bs))"
proof -
  let ?b = "unat (rid_idx base)" and ?d = "put_slice (grow (m_s m ! unat (rid_idx base)) (i + length bs)) i bs"
  note data = nth_s_ok [OF assms(1,2,3)]
  have b: "?b < length (m_s m)" using assms(1-3) by (simp add: machine_wf_def reg_ok_def bank_size_def)
  show ?thesis
  proof (cases "i + length bs \<le> ARRAY_MAX_SIZE")
    case True
    have "length bs < 2 ^ 64" using True by (simp add: ARRAY_MAX_SIZE_def)
    then have u: "unat (of_nat (length bs) :: i64) = length bs" by (simp add: unat_of_nat)
    have w: "write_indexed m (OpIndexed base index len) (VBytes bs) n = Inr (m\<lparr>m_s := (m_s m)[?b := ?d]\<rparr>)"
      using True data by (simp add: write_indexed_def assms(3,4))
    have r: "m_read (m\<lparr>m_s := (m_s m)[?b := ?d]\<rparr>) (OpIndexed base index (Some (IxImm (of_nat (length bs)))))
        = Inr (VBytes bs)"
      using True b by (simp add: m_read_def assms(3,4) nth_opt_def put_slice_grow_part
          resolve_index_def [of _ "IxImm _"] u)
    show ?thesis
      unfolding if_P [OF True]
      by (intro exI conjI, rule w, rule refl, simp, simp add: nth_put_slice_grow, rule r)
  next
    case False
    then show ?thesis by (simp add: write_indexed_def assms(3,4))
  qed
qed

theorem indexed_store_witness:
  "\<exists>m'. write_indexed machine_new (OpIndexed \<lparr>rid_bank = BS, rid_idx = 3\<rparr> (IxImm 2) None) (VBytes [7, 8]) 1 = Inr m'
     \<and> length (m_s m' ! 3) = 4 \<and> m_s m' ! 3 ! 3 = 8"
proof -
  have r: "resolve_index machine_new (IxImm 2) = Inr 2" by (simp add: resolve_index_def)
  have s: "length (m_s machine_new ! 3) = 0" "length (m_s machine_new) = 16"
    by (simp_all add: machine_new_def)
  from indexed_store [OF machine_wf_new _ _ r, of "\<lparr>rid_bank = BS, rid_idx = 3\<rparr>" "[7, 8]" None 1] s
  show ?thesis
    by (auto simp: reg_ok_def bank_size_def ARRAY_MAX_SIZE_def dest!: spec [of _ 3])
qed

end
