(* ===== verification/Best_Exec.thy ===== *)
theory Best_Exec
  imports Best_Machine
begin

text \<open>
  The executor of \<open>crates/best/src/exec.rs\<close>, first part: its errors and control flow, operand
  access with the error trap, the flag helpers, and the opcodes for moves, integer arithmetic,
  logic, shifts, branches, the data stack and the ECU exchange. A handler takes the machine and
  returns its result with the new machine; an error leaves the instruction, and nothing reads
  the machine after one (\<open>run_job\<close> drops it).
\<close>

section \<open>Results of an instruction\<close>

datatype flow =
    Next
  | Jumped
  | EndOfJob
  | Exchange bytes operand             \<comment> \<open>request, dest\<close>
  | Wait u32                           \<comment> \<open>seconds\<close>

datatype exec_error =
    ExUnimplemented string
  | ExMachine machine_error
  | InvalidOperand string
  | DivideByZero
  | StackUnderflow
  | Break
  | NonFinite string
  | BadFloatString ustring
  | TableNotSelected string
  | TableNotFound ustring
  | TableColumn string ustring
  | TableRow string
  | AtspStack
  | Trapped u32

type_synonym 'a vm = "machine \<Rightarrow> exec_error + 'a \<times> machine"

definition bindM :: "'a vm \<Rightarrow> ('a \<Rightarrow> 'b vm) \<Rightarrow> 'b vm" where
  "bindM f k m = bindE (f m) (\<lambda>(x, m'). k x m')"

definition thenM :: "'a vm \<Rightarrow> 'b vm \<Rightarrow> 'b vm" where
  "thenM f g = bindM f (\<lambda>_. g)"

definition returnM :: "'a \<Rightarrow> 'a vm" where
  "returnM x m = Inr (x, m)"

definition failM :: "exec_error \<Rightarrow> 'a vm" where
  "failM e m = Inl e"

text \<open>\<open>m.read(..)?\<close>, \<open>m.write(..)?\<close> and an error that does not touch the machine.\<close>

definition queryM :: "(machine \<Rightarrow> machine_error + 'a) \<Rightarrow> 'a vm" where
  "queryM f m = bindE (map_err ExMachine (f m)) (\<lambda>x. Inr (x, m))"

definition storeM :: "(machine \<Rightarrow> machine_error + machine) \<Rightarrow> unit vm" where
  "storeM f m = bindE (map_err ExMachine (f m)) (\<lambda>m'. Inr ((), m'))"

definition liftM :: "exec_error + 'a \<Rightarrow> 'a vm" where
  "liftM r m = bindE r (\<lambda>x. Inr (x, m))"

definition getM :: "(machine \<Rightarrow> 'a) \<Rightarrow> 'a vm" where
  "getM f m = Inr (f m, m)"

definition modifyM :: "(machine \<Rightarrow> machine) \<Rightarrow> unit vm" where
  "modifyM f m = Inr ((), f m)"

definition writeM :: "operand \<Rightarrow> vm_value \<Rightarrow> unit vm" where
  "writeM arg v = storeM (\<lambda>m. m_write m arg v)"

definition flagsM :: "(flags \<Rightarrow> flags) \<Rightarrow> unit vm" where
  "flagsM f = modifyM (\<lambda>m. m\<lparr>m_flags := f (m_flags m)\<rparr>)"

section \<open>The error trap\<close>

definition TRAP_BIT_UNMAPPED :: u32 where "TRAP_BIT_UNMAPPED = 0"
definition TRAP_BIT_NO_RESPONSE :: u32 where "TRAP_BIT_NO_RESPONSE = 19"

definition set_error :: "u32 \<Rightarrow> unit vm" where
  "set_error b m =
     (let m' = m\<lparr>m_trap_bit := Some b\<rparr> in
      if push_bit (unat b) 1 AND NOT (ucast (m_trap_mask m')) \<noteq> (0 :: u64) then Inl (Trapped b)
      else Inr ((), m'))"

section \<open>Widths and flags\<close>

definition arg_width :: "string \<Rightarrow> operand \<Rightarrow> exec_error + nat" where
  "arg_width mnemonic arg0 =
     (case arg0 of
        OpReg bank _ \<Rightarrow>
          (case bank of BB \<Rightarrow> Inr 1 | BI \<Rightarrow> Inr 2 | BL \<Rightarrow> Inr 4 | _ \<Rightarrow> Inl (InvalidOperand mnemonic))
      | _ \<Rightarrow> Inl (InvalidOperand mnemonic))"

definition arith_arg0_len :: "string \<Rightarrow> operand \<Rightarrow> exec_error + nat" where
  "arith_arg0_len mnemonic arg0 =
     (case arg0 of OpIndexed _ _ None \<Rightarrow> Inr 1 | _ \<Rightarrow> arg_width mnemonic arg0)"

definition masks :: "nat \<Rightarrow> u32 \<times> u32" where
  "masks len =
     (if len = 1 then (0x000000FF, 0x00000080)
      else if len = 2 then (0x0000FFFF, 0x00008000)
      else (0xFFFFFFFF, 0x80000000))"

definition update_zs :: "u32 \<Rightarrow> nat \<Rightarrow> flags \<Rightarrow> flags" where
  "update_zs v len f =
     (case masks len of (value_mask, sign_mask) \<Rightarrow>
        f\<lparr>fl_z := (v AND value_mask = 0), fl_s := (v AND sign_mask \<noteq> 0)\<rparr>)"

definition set_carry :: "u64 \<Rightarrow> nat \<Rightarrow> flags \<Rightarrow> flags" where
  "set_carry v len f =
     (let carry_mask = (if len = 1 then 0x00000100 else if len = 2 then 0x00010000 else 0x100000000)
      in f\<lparr>fl_c := (v AND carry_mask \<noteq> 0)\<rparr>)"

definition set_overflow :: "u32 \<Rightarrow> u32 \<Rightarrow> u32 \<Rightarrow> nat \<Rightarrow> flags \<Rightarrow> flags" where
  "set_overflow v0 v1 result len f =
     (let sign_mask = snd (masks len);
          s0 = v0 AND sign_mask; s1 = v1 AND sign_mask; sr = result AND sign_mask
      in f\<lparr>fl_v := (s0 = s1 \<and> s0 \<noteq> sr)\<rparr>)"

definition clear_all_flags :: "flags \<Rightarrow> flags" where
  "clear_all_flags f = f\<lparr>fl_c := False, fl_z := False, fl_s := False, fl_v := False\<rparr>"

section \<open>Operand access\<close>

definition read_source :: "operand \<Rightarrow> vm_value vm" where
  "read_source arg m =
     (case m_read m arg of
        Inr v \<Rightarrow> Inr (v, m)
      | Inl (IndexOutOfBounds _ _) \<Rightarrow> thenM (set_error TRAP_BIT_UNMAPPED) (returnM (VBytes [])) m
      | Inl e \<Rightarrow> Inl (ExMachine e))"

definition write_indexed_dest :: "operand \<Rightarrow> vm_value \<Rightarrow> nat \<Rightarrow> unit vm" where
  "write_indexed_dest arg v len m =
     (case write_indexed m arg v len of
        Inr m' \<Rightarrow> Inr ((), m')
      | Inl (IndexOutOfBounds _ _) \<Rightarrow> set_error TRAP_BIT_UNMAPPED m
      | Inl e \<Rightarrow> Inl (ExMachine e))"

text \<open>The first \<open>len\<close> bytes of a buffer, little-endian, missing ones zero.\<close>

definition bytes_le :: "bytes \<Rightarrow> nat \<Rightarrow> u32" where
  "bytes_le bs len =
     fold (\<lambda>i v. push_bit 8 v OR (case nth_opt bs i of None \<Rightarrow> 0 | Some b \<Rightarrow> ucast b)) (rev [0..<len]) 0"

definition read_int :: "string \<Rightarrow> operand \<Rightarrow> nat \<Rightarrow> u32 vm" where
  "read_int mnemonic arg len =
     bindM (read_source arg) (\<lambda>v.
     case v of
       VInt i \<Rightarrow> returnM (ucast i)
     | VBytes bs \<Rightarrow> returnM (bytes_le bs len)
     | VFloat _ \<Rightarrow> failM (InvalidOperand mnemonic))"

definition read_float :: "string \<Rightarrow> operand \<Rightarrow> f64 vm" where
  "read_float mnemonic arg =
     bindM (queryM (\<lambda>m. m_read m arg)) (\<lambda>v.
     case v of VFloat x \<Rightarrow> returnM x | _ \<Rightarrow> failM (InvalidOperand mnemonic))"

definition read_bytesM :: "string \<Rightarrow> operand \<Rightarrow> bytes vm" where
  "read_bytesM mnemonic arg =
     bindM (read_source arg) (\<lambda>v.
     case v of VBytes bs \<Rightarrow> returnM bs | _ \<Rightarrow> failM (InvalidOperand mnemonic))"

definition read_value_data :: "string \<Rightarrow> operand \<Rightarrow> u32 vm" where
  "read_value_data mnemonic arg =
     bindM (queryM (\<lambda>m. m_read m arg)) (\<lambda>v.
     case v of VInt i \<Rightarrow> returnM (ucast i) | _ \<Rightarrow> failM (InvalidOperand mnemonic))"

text \<open>An integer result: \<open>Value::Int(i64::from(v))\<close>.\<close>

definition write_u32 :: "operand \<Rightarrow> u32 \<Rightarrow> unit vm" where
  "write_u32 arg v = writeM arg (VInt (ucast v))"

section \<open>Moves\<close>

definition op_move :: "op \<Rightarrow> flow vm" where
  "op_move i =
     (case op_arg0 i of
        OpReg BS _ \<Rightarrow>
          bindM (read_bytesM ''move'' (op_arg1 i)) (\<lambda>source.
          bindM (read_bytesM ''move'' (op_arg0 i)) (\<lambda>dest.
          thenM (writeM (op_arg0 i) (VBytes (put_slice (grow dest (length source)) 0 source)))
            (thenM (flagsM clear_all_flags) (returnM Next))))
      | OpIndexed _ _ _ \<Rightarrow>
          bindM (read_source (op_arg1 i)) (\<lambda>v.
          case v of
            VInt x \<Rightarrow>
              thenM (write_indexed_dest (op_arg0 i) (VInt x) 1)
                (thenM (flagsM (\<lambda>f. update_zs (ucast x) 1 (f\<lparr>fl_c := False, fl_v := False\<rparr>))) (returnM Next))
          | VBytes bs \<Rightarrow>
              thenM (write_indexed_dest (op_arg0 i) (VBytes bs) 1)
                (thenM (flagsM clear_all_flags) (returnM Next))
          | VFloat _ \<Rightarrow> failM (InvalidOperand ''move''))
      | OpReg BF _ \<Rightarrow>
          bindM (read_source (op_arg1 i)) (\<lambda>v.
          case v of
            VFloat x \<Rightarrow> thenM (writeM (op_arg0 i) (VFloat x)) (thenM (flagsM clear_all_flags) (returnM Next))
          | _ \<Rightarrow> failM (InvalidOperand ''move''))
      | _ \<Rightarrow>
          bindM (liftM (arg_width ''move'' (op_arg0 i))) (\<lambda>len.
          bindM (read_int ''move'' (op_arg1 i) len) (\<lambda>v.
          thenM (write_u32 (op_arg0 i) v)
            (thenM (flagsM (\<lambda>f. update_zs v len (f\<lparr>fl_c := False, fl_v := False\<rparr>))) (returnM Next)))))"

definition op_swap :: "op \<Rightarrow> flow vm" where
  "op_swap i =
     (case op_arg0 i of
        OpIndexed base index (Some len_arg) \<Rightarrow>
          bindM (queryM (\<lambda>m. resolve_index m index)) (\<lambda>start.
          bindM (queryM (\<lambda>m. resolve_index m len_arg)) (\<lambda>len.
          if start + len > ARRAY_MAX_SIZE then thenM (set_error TRAP_BIT_UNMAPPED) (returnM Next)
          else thenM (storeM (\<lambda>m. swap_s_slice m base start len)) (returnM Next)))
      | _ \<Rightarrow> failM (InvalidOperand ''swap''))"

definition op_clear :: "op \<Rightarrow> flow vm" where
  "op_clear i =
     (case op_arg0 i of
        OpReg bank _ \<Rightarrow>
          (let zero = (case bank of BS \<Rightarrow> VBytes [] | BF \<Rightarrow> VFloat 0 | _ \<Rightarrow> VInt 0) in
           thenM (writeM (op_arg0 i) zero)
             (thenM (flagsM (\<lambda>f. f\<lparr>fl_c := False, fl_z := True, fl_s := False, fl_v := False\<rparr>)) (returnM Next)))
      | _ \<Rightarrow> failM (InvalidOperand ''clear''))"

section \<open>Arithmetic and logic\<close>

definition op_comp :: "op \<Rightarrow> flow vm" where
  "op_comp i =
     bindM (liftM (arith_arg0_len ''comp'' (op_arg0 i))) (\<lambda>len.
     bindM (read_int ''comp'' (op_arg0 i) len) (\<lambda>v0.
     bindM (read_int ''comp'' (op_arg1 i) len) (\<lambda>v1.
     let diff = ucast v0 - ucast v1 :: u64 in
     thenM (flagsM (\<lambda>f. set_carry diff len (set_overflow v0 (- v1) (ucast diff) len (update_zs (ucast diff) len f))))
       (returnM Next))))"

definition op_subb :: "op \<Rightarrow> flow vm" where
  "op_subb i =
     bindM (liftM (arg_width ''subb'' (op_arg0 i))) (\<lambda>len.
     bindM (read_int ''subb'' (op_arg0 i) len) (\<lambda>v0.
     bindM (read_int ''subb'' (op_arg1 i) len) (\<lambda>v1.
     let diff = ucast v0 - ucast v1 :: u64 in
     thenM (write_u32 (op_arg0 i) (ucast diff))
       (thenM (flagsM (\<lambda>f. set_carry diff len (set_overflow v0 (- v1) (ucast diff) len (update_zs (ucast diff) len f))))
         (returnM Next)))))"

definition op_adds :: "op \<Rightarrow> flow vm" where
  "op_adds i =
     bindM (liftM (arith_arg0_len ''adds'' (op_arg0 i))) (\<lambda>len.
     bindM (read_int ''adds'' (op_arg0 i) len) (\<lambda>v0.
     bindM (read_int ''adds'' (op_arg1 i) len) (\<lambda>v1.
     let sum = ucast v0 + ucast v1 :: u64 in
     thenM (case op_arg0 i of
              OpIndexed _ _ _ \<Rightarrow> write_indexed_dest (op_arg0 i) (VInt (ucast (ucast sum :: u32))) 1
            | _ \<Rightarrow> write_u32 (op_arg0 i) (ucast sum))
       (thenM (flagsM (\<lambda>f. set_carry sum len (set_overflow v0 v1 (ucast sum) len (update_zs (ucast sum) len f))))
         (returnM Next)))))"

text \<open>The second result of \<open>mult\<close> and \<open>divs\<close> goes to \<open>arg1\<close> if that is a register or indexed.\<close>

definition write_second :: "operand \<Rightarrow> u32 \<Rightarrow> nat \<Rightarrow> unit vm" where
  "write_second arg v len =
     (case arg of
        OpReg _ _ \<Rightarrow> write_u32 arg v
      | OpIndexed _ _ _ \<Rightarrow> write_indexed_dest arg (VInt (ucast v)) len
      | _ \<Rightarrow> returnM ())"

definition mult_result :: "nat \<Rightarrow> u32 \<Rightarrow> u32 \<Rightarrow> u32" where
  "mult_result len v0 v1 =
     (if len = 1 then scast (ucast v0 :: u8) * scast (ucast v1 :: u8)
      else if len = 2 then scast (ucast v0 :: u16) * scast (ucast v1 :: u16)
      else v0 * v1)"

definition op_mult :: "op \<Rightarrow> flow vm" where
  "op_mult i =
     bindM (liftM (arg_width ''mult'' (op_arg0 i))) (\<lambda>len.
     bindM (read_int ''mult'' (op_arg0 i) len) (\<lambda>v0.
     bindM (read_int ''mult'' (op_arg1 i) len) (\<lambda>v1.
     let result = mult_result len v0 v1 in
     thenM (write_u32 (op_arg0 i) result)
       (thenM (flagsM (\<lambda>f. update_zs result len (f\<lparr>fl_v := False\<rparr>)))
         (let result_high = ucast (drop_bit (len * 8) (ucast result :: u64)) in
          thenM (write_second (op_arg1 i) result_high len) (returnM Next))))))"

text \<open>\<open>i32::checked_div\<close> and \<open>checked_rem\<close>: truncating, \<open>None\<close> for 0 and for \<open>MIN / -1\<close>.\<close>

definition checked_div :: "u32 \<Rightarrow> u32 \<Rightarrow> u32 option" where
  "checked_div a b =
     (if b = 0 \<or> (sint a = - (2 ^ 31) \<and> sint b = - 1) then None
      else Some (of_int (sgn (sint a) * sgn (sint b) * (\<bar>sint a\<bar> div \<bar>sint b\<bar>))))"

definition checked_rem :: "u32 \<Rightarrow> u32 \<Rightarrow> u32 option" where
  "checked_rem a b =
     (if b = 0 \<or> (sint a = - (2 ^ 31) \<and> sint b = - 1) then None
      else Some (of_int (sgn (sint a) * (\<bar>sint a\<bar> mod \<bar>sint b\<bar>))))"

definition op_divs :: "op \<Rightarrow> flow vm" where
  "op_divs i =
     bindM (liftM (arg_width ''divs'' (op_arg0 i))) (\<lambda>len.
     bindM (read_int ''divs'' (op_arg0 i) len) (\<lambda>v0.
     bindM (read_int ''divs'' (op_arg1 i) len) (\<lambda>v1.
     bindM (liftM (ok_or (checked_div v0 v1) DivideByZero)) (\<lambda>quotient.
     bindM (liftM (ok_or (checked_rem v0 v1) DivideByZero)) (\<lambda>remainder.
     thenM (write_u32 (op_arg0 i) quotient)
       (thenM (flagsM (\<lambda>f. update_zs quotient len (f\<lparr>fl_v := False\<rparr>)))
         (thenM (write_second (op_arg1 i) remainder len) (returnM Next))))))))"

definition op_bitwise :: "string \<Rightarrow> (u32 \<Rightarrow> u32 \<Rightarrow> u32) \<Rightarrow> op \<Rightarrow> flow vm" where
  "op_bitwise mnemonic f i =
     bindM (liftM (arg_width mnemonic (op_arg0 i))) (\<lambda>len.
     bindM (read_int mnemonic (op_arg0 i) len) (\<lambda>v0.
     bindM (read_int mnemonic (op_arg1 i) len) (\<lambda>v1.
     thenM (write_u32 (op_arg0 i) (f v0 v1))
       (thenM (flagsM (\<lambda>fl. update_zs (f v0 v1) len (fl\<lparr>fl_v := False\<rparr>))) (returnM Next)))))"

definition op_not :: "op \<Rightarrow> flow vm" where
  "op_not i =
     bindM (liftM (arg_width ''not'' (op_arg0 i))) (\<lambda>len.
     bindM (read_int ''not'' (op_arg0 i) len) (\<lambda>v.
     thenM (write_u32 (op_arg0 i) (NOT v))
       (thenM (flagsM (\<lambda>f. update_zs (NOT v) len (f\<lparr>fl_v := False\<rparr>))) (returnM Next))))"

section \<open>Shifts\<close>

text \<open>
  The three shifts share their frame: the amount is an \<open>i32\<close>, a negative one changes nothing,
  zero clears carry, and a positive one gives a carry and a value.
\<close>

definition shift_frame ::
  "string \<Rightarrow> (nat \<Rightarrow> u32 \<Rightarrow> nat \<Rightarrow> bool) \<Rightarrow> (nat \<Rightarrow> u32 \<Rightarrow> nat \<Rightarrow> u32) \<Rightarrow> op \<Rightarrow> flow vm" where
  "shift_frame mnemonic carry result i =
     bindM (liftM (arg_width mnemonic (op_arg0 i))) (\<lambda>len.
     bindM (read_int mnemonic (op_arg0 i) len) (\<lambda>v0.
     bindM (read_int mnemonic (op_arg1 i) len) (\<lambda>amount.
     let shift = sint amount;
         v = (if shift \<le> 0 then v0 else result len v0 (nat shift)) in
     thenM (flagsM (\<lambda>f. if shift < 0 then f
                        else if shift = 0 then f\<lparr>fl_c := False\<rparr>
                        else f\<lparr>fl_c := carry len v0 (nat shift)\<rparr>))
       (thenM (write_u32 (op_arg0 i) v)
         (thenM (flagsM (\<lambda>f. update_zs v len (f\<lparr>fl_v := False\<rparr>))) (returnM Next))))))"

definition shl_carry :: "nat \<Rightarrow> u32 \<Rightarrow> nat \<Rightarrow> bool" where
  "shl_carry len v shift =
     (let bits = len * 8 in if shift > bits then False else v AND push_bit (bits - shift) 1 \<noteq> 0)"

definition shl_value :: "nat \<Rightarrow> u32 \<Rightarrow> nat \<Rightarrow> u32" where
  "shl_value len v shift = (if shift \<ge> len * 8 then 0 else push_bit shift v)"

definition op_shift_left :: "string \<Rightarrow> op \<Rightarrow> flow vm" where
  "op_shift_left mnemonic i = shift_frame mnemonic shl_carry shl_value i"

definition shr_carry :: "nat \<Rightarrow> u32 \<Rightarrow> nat \<Rightarrow> bool" where
  "shr_carry len v shift =
     (if shift > len * 8 then False else v AND push_bit (shift - 1) 1 \<noteq> 0)"

definition shr_value :: "nat \<Rightarrow> u32 \<Rightarrow> nat \<Rightarrow> u32" where
  "shr_value len v shift = (if shift \<ge> len * 8 then 0 else drop_bit shift v)"

definition op_lsr :: "op \<Rightarrow> flow vm" where
  "op_lsr i = shift_frame ''lsr'' shr_carry shr_value i"

definition asr_carry :: "nat \<Rightarrow> u32 \<Rightarrow> nat \<Rightarrow> bool" where
  "asr_carry len v shift =
     (if shift > len * 8 then v AND snd (masks len) \<noteq> 0 else v AND push_bit (shift - 1) 1 \<noteq> 0)"

definition asr_value :: "nat \<Rightarrow> u32 \<Rightarrow> nat \<Rightarrow> u32" where
  "asr_value len v shift =
     (if shift \<ge> len * 8 then (if v AND snd (masks len) \<noteq> 0 then 0xFFFFFFFF else 0)
      else if len = 1 then scast (signed_drop_bit shift (ucast v :: u8))
      else if len = 2 then scast (signed_drop_bit shift (ucast v :: u16))
      else signed_drop_bit shift v)"

definition op_asr :: "op \<Rightarrow> flow vm" where
  "op_asr i = shift_frame ''asr'' asr_carry asr_value i"

section \<open>Branches, traps and the data stack\<close>

definition branch :: "string \<Rightarrow> op \<Rightarrow> bool \<Rightarrow> flow vm" where
  "branch mnemonic i taken =
     (if \<not> taken then returnM Next
      else case op_arg0 i of
        OpImm raw \<Rightarrow>
          (let rel = ucast raw :: u32 in
           thenM (modifyM (\<lambda>m. m\<lparr>m_pc := unat (of_nat (m_pc m) + scast rel :: u64)\<rparr>)) (returnM Jumped))
      | _ \<Rightarrow> failM (InvalidOperand mnemonic))"

text \<open>A branch on a predicate of the flags.\<close>

definition branch_if :: "string \<Rightarrow> (flags \<Rightarrow> bool) \<Rightarrow> op \<Rightarrow> flow vm" where
  "branch_if mnemonic p i = bindM (getM (\<lambda>m. p (m_flags m))) (branch mnemonic i)"

definition trap_detected :: "op \<Rightarrow> bool vm" where
  "trap_detected i =
     bindM (case op_arg1 i of OpNone \<Rightarrow> returnM 0 | arg1 \<Rightarrow> read_value_data ''jt'' arg1) (\<lambda>test_bit.
     getM (\<lambda>m. case m_trap_bit m of
                 Some trap \<Rightarrow> if test_bit > 0 then trap = test_bit \<or> (trap = 0 \<and> test_bit = 32)
                              else trap \<ge> 0x40000000
               | None \<Rightarrow> False))"

definition op_gettmr :: "op \<Rightarrow> flow vm" where
  "op_gettmr i =
     bindM (liftM (arg_width ''gettmr'' (op_arg0 i))) (\<lambda>len.
     bindM (getM m_trap_mask) (\<lambda>tmask.
     thenM (write_u32 (op_arg0 i) tmask)
       (thenM (flagsM (update_zs tmask len)) (returnM Next))))"

definition op_settmr :: "op \<Rightarrow> flow vm" where
  "op_settmr i =
     bindM (read_value_data ''settmr'' (op_arg0 i)) (\<lambda>v.
     thenM (modifyM (\<lambda>m. m\<lparr>m_trap_mask := v\<rparr>)) (returnM Next))"

definition value_data_len :: "u8 \<Rightarrow> operand \<Rightarrow> string \<Rightarrow> exec_error + nat" where
  "value_data_len mode_nibble arg mnemonic =
     (case arg of
        OpReg bank _ \<Rightarrow>
          (case bank of BB \<Rightarrow> Inr 1 | BI \<Rightarrow> Inr 2 | BL \<Rightarrow> Inr 4 | _ \<Rightarrow> Inl (InvalidOperand mnemonic))
      | OpImm _ \<Rightarrow>
          if mode_nibble = 5 then Inr 1 else if mode_nibble = 6 then Inr 2
          else if mode_nibble = 7 then Inr 4 else Inl (InvalidOperand mnemonic)
      | _ \<Rightarrow> Inl (InvalidOperand mnemonic))"

definition op_push :: "op \<Rightarrow> flow vm" where
  "op_push i =
     bindM (liftM (value_data_len (drop_bit 4 (op_mode_byte i)) (op_arg0 i) ''push'')) (\<lambda>len.
     bindM (read_int ''push'' (op_arg0 i) len) (\<lambda>v.
     thenM (modifyM (\<lambda>m. m\<lparr>m_data_stack := m_data_stack m @ map (\<lambda>k. ucast (drop_bit (8 * k) v)) [0..<len]\<rparr>))
       (returnM Next)))"

text \<open>Bytes to a \<open>u32\<close>, the first one the most significant.\<close>

definition be_value :: "bytes \<Rightarrow> u32" where
  "be_value bs = fold (\<lambda>b v. push_bit 8 v OR ucast b) bs 0"

definition op_pop :: "op \<Rightarrow> flow vm" where
  "op_pop i =
     bindM (liftM (arg_width ''pop'' (op_arg0 i))) (\<lambda>len.
     bindM (getM m_data_stack) (\<lambda>stack.
     if length stack < len then failM StackUnderflow
     else
       let rest = length stack - len;
           v = be_value (rev (drop rest stack)) in
       thenM (modifyM (\<lambda>m. m\<lparr>m_data_stack := take rest stack\<rparr>))
         (thenM (write_u32 (op_arg0 i) v)
           (thenM (flagsM (\<lambda>f. update_zs v len (f\<lparr>fl_v := False\<rparr>))) (returnM Next)))))"

definition op_atsp :: "op \<Rightarrow> flow vm" where
  "op_atsp i =
     bindM (liftM (arg_width ''atsp'' (op_arg0 i))) (\<lambda>len.
     bindM (read_value_data ''atsp'' (op_arg1 i)) (\<lambda>p.
     let pos = unat p in
     bindM (getM m_data_stack) (\<lambda>stack.
     if length stack < len \<or> pos < len \<or> (pos - len) + len > length stack then failM AtspStack
     else
       let index = pos - len;
           v = be_value (map (\<lambda>k. stack ! (length stack - 1 - (index + k))) [0..<len]) in
       thenM (write_u32 (op_arg0 i) v) (thenM (flagsM (update_zs v len)) (returnM Next)))))"

definition op_break :: "flow vm" where
  "op_break = failM Break"

definition op_xsend :: "op \<Rightarrow> flow vm" where
  "op_xsend i =
     bindM (read_bytesM ''xsend'' (op_arg1 i)) (\<lambda>request. returnM (Exchange request (op_arg0 i)))"

end
