(* ===== verification/Best_Exec_Data.thy ===== *)
theory Best_Exec_Data
  imports Best_Exec Sgbd_Prg
begin

text \<open>
  The executor of \<open>crates/best/src/exec.rs\<close>, second part: floats, conversions between numbers,
  text and bytes, string buffers, the result store (\<open>crates/best/src/result.rs\<close>), the job's
  arguments and the table cursor.
\<close>

section \<open>Parameters\<close>

text \<open>
  What \<open>flt2a\<close> uses of the platform's math library and of Rust's shortest float formatting:
  \<open>f64::log10\<close>, \<open>powf\<close>, \<open>powi\<close> (whose precision Rust leaves to the platform) and \<open>Display\<close>.
\<close>

record float_env =
  fe_log10 :: "f64 \<Rightarrow> f64"
  fe_powf :: "f64 \<Rightarrow> f64 \<Rightarrow> f64"
  fe_powi :: "f64 \<Rightarrow> int \<Rightarrow> f64"
  fe_display :: "f64 \<Rightarrow> ustring"

section \<open>Text operands\<close>

definition read_string_op :: "string \<Rightarrow> operand \<Rightarrow> ustring vm" where
  "read_string_op mnemonic arg =
     bindM (read_bytesM mnemonic arg) (\<lambda>bs. returnM (cp1252_decode (takeWhile (\<lambda>b. b \<noteq> 0) bs)))"

definition terminated :: "ustring \<Rightarrow> bytes" where
  "terminated text =
     (let bs = cp1252_encode text in if bs \<noteq> [] \<and> last bs \<noteq> 0 then bs @ [0] else bs)"

definition write_string :: "operand \<Rightarrow> ustring \<Rightarrow> unit vm" where
  "write_string arg text = writeM arg (VBytes (terminated text))"

definition or_zero :: "int option \<Rightarrow> int" where
  "or_zero v = (case v of None \<Rightarrow> 0 | Some i \<Rightarrow> i)"

definition string_to_value :: "ustring \<Rightarrow> int" where
  "string_to_value number =
     (let trimmed = trim_end number in
      if trimmed = [] then 0
      else let lower = to_ascii_lowercase trimmed in
      case strip_prefix (ustr ''0x'') lower of
        Some hex \<Rightarrow>
          if hex \<noteq> [] \<and> is_ascii_hexdigit (hd hex) then or_zero (parse_i64 16 (drop 2 trimmed)) else 0
      | None \<Rightarrow>
      case strip_prefix (ustr ''0y'') lower of
        Some bn \<Rightarrow> or_zero (parse_i64 2 bn)
      | None \<Rightarrow>
          if lower = ustr ''-'' \<or> lower = ustr ''--'' then 0
          else if is_ascii_alphabetic (hd lower) then 0
          else or_zero (parse_i64 10 (takeWhile (\<lambda>c. c \<noteq> 0x2E \<and> c \<noteq> 0x2C) (trim_start trimmed))))"

fun hex_pairs :: "ustring list \<Rightarrow> bytes option" where
  "hex_pairs [] = Some []"
| "hex_pairs (p # ps) =
     (case (to_digit 16 (p ! 0), to_digit 16 (p ! 1)) of
        (Some hi, Some lo) \<Rightarrow> map_option ((#) (of_nat (hi * 16 + lo))) (hex_pairs ps)
      | _ \<Rightarrow> None)"

definition hex_to_bytes :: "ustring \<Rightarrow> bytes option" where
  "hex_to_bytes text = hex_pairs (chunks_exact 2 text)"

definition round_to_significant_digits :: "float_env \<Rightarrow> f64 \<Rightarrow> int \<Rightarrow> f64" where
  "round_to_significant_digits env v digits =
     (if f64_eq v 0 then 0
      else
        let ten = f64_of_int 10;
            scale = fe_powf env ten (f64_add (f64_floor (fe_log10 env (f64_abs v))) (f64_of_int 1));
            factor = fe_powi env ten digits
        in f64_div (f64_mul scale (f64_round_away (f64_mul (f64_div v scale) factor))) factor)"

definition bcd_nibble :: "u8 \<Rightarrow> nat" where
  "bcd_nibble nibble = (if nibble > 9 then 0x2A else 0x30 + unat nibble)"

definition hex_digit :: "u8 \<Rightarrow> nat" where
  "hex_digit nibble = digit_char (unat nibble)"

section \<open>Floats and conversions\<close>

definition FLOAT_PRECISION :: nat where "FLOAT_PRECISION = 4"

definition op_float_arith :: "string \<Rightarrow> (f64 \<Rightarrow> f64 \<Rightarrow> f64) \<Rightarrow> op \<Rightarrow> flow vm" where
  "op_float_arith mnemonic f i =
     bindM (read_float mnemonic (op_arg0 i)) (\<lambda>v0.
     bindM (read_float mnemonic (op_arg1 i)) (\<lambda>v1.
     if \<not> f64_is_finite (f v0 v1) then failM (NonFinite mnemonic)
     else thenM (writeM (op_arg0 i) (VFloat (f v0 v1))) (returnM Next)))"

definition op_fcomp :: "op \<Rightarrow> flow vm" where
  "op_fcomp i =
     bindM (read_float ''fcomp'' (op_arg0 i)) (\<lambda>v0.
     bindM (read_float ''fcomp'' (op_arg1 i)) (\<lambda>v1.
     thenM (flagsM (\<lambda>f. f\<lparr>fl_c := (fl_c f \<or> \<not> f64_is_finite (f64_sub v0 v1)),
                          fl_z := f64_eq v0 v1, fl_s := f64_lt v0 v1, fl_v := False\<rparr>))
       (returnM Next)))"

text \<open>\<open>text.replace(',', ".").trim().parse::<f64>()\<close>.\<close>

definition parse_decimal :: "ustring \<Rightarrow> f64 option" where
  "parse_decimal text = parse_f64 (trim (map (\<lambda>c. if c = 0x2C then 0x2E else c) text))"

definition op_a2flt :: "op \<Rightarrow> flow vm" where
  "op_a2flt i =
     bindM (read_string_op ''a2flt'' (op_arg1 i)) (\<lambda>text.
     case parse_decimal text of
       Some v \<Rightarrow> if f64_is_finite v then thenM (writeM (op_arg0 i) (VFloat v)) (returnM Next)
                 else failM (BadFloatString text)
     | None \<Rightarrow> failM (BadFloatString text))"

definition clamp_fix :: "int \<Rightarrow> int" where
  "clamp_fix v = (if v < - (2 ^ 31) then - (2 ^ 31) else if v > 2 ^ 31 - 1 then 0xFFFFFFFF else v)"

definition op_a2fix :: "op \<Rightarrow> flow vm" where
  "op_a2fix i =
     bindM (read_string_op ''a2fix'' (op_arg1 i)) (\<lambda>text.
     thenM (write_u32 (op_arg0 i) (of_int (clamp_fix (string_to_value text))))
       (thenM (flagsM (\<lambda>f. f\<lparr>fl_z := False, fl_s := False, fl_v := False\<rparr>)) (returnM Next)))"

definition sign_extend :: "nat \<Rightarrow> u32 \<Rightarrow> int" where
  "sign_extend len raw =
     (if len = 1 then sint (ucast raw :: u8) else if len = 2 then sint (ucast raw :: u16) else sint raw)"

definition op_fix2flt :: "op \<Rightarrow> flow vm" where
  "op_fix2flt i =
     bindM (liftM (arg_width ''fix2flt'' (op_arg1 i))) (\<lambda>len.
     bindM (read_int ''fix2flt'' (op_arg1 i) len) (\<lambda>raw.
     thenM (writeM (op_arg0 i) (VFloat (f64_of_int (sign_extend len raw)))) (returnM Next)))"

definition op_flt2fix :: "op \<Rightarrow> flow vm" where
  "op_flt2fix i =
     bindM (read_float ''flt2fix'' (op_arg1 i)) (\<lambda>v.
     if \<not> f64_is_finite v then failM (NonFinite ''flt2fix'')
     else
       let result = of_int (f64_to_i64 v) in
       thenM (write_u32 (op_arg0 i) result)
         (thenM (flagsM (\<lambda>f. update_zs result 4 (f\<lparr>fl_v := False\<rparr>))) (returnM Next)))"

text \<open>The text up to and including its \<open>n\<close>-th digit, or all of it.\<close>

fun cut_digits :: "nat \<Rightarrow> ustring \<Rightarrow> ustring" where
  "cut_digits n [] = []"
| "cut_digits n (c # cs) =
     c # (if is_ascii_digit c then (if n \<le> 1 then [] else cut_digits (n - 1) cs) else cut_digits n cs)"

definition op_flt2a :: "float_env \<Rightarrow> op \<Rightarrow> flow vm" where
  "op_flt2a env i =
     bindM (read_float ''flt2a'' (op_arg1 i)) (\<lambda>v.
     if \<not> f64_is_finite v then failM (NonFinite ''flt2a'')
     else
       let formatted = fe_display env (round_to_significant_digits env v (int FLOAT_PRECISION)) in
       thenM (write_string (op_arg0 i) (cut_digits FLOAT_PRECISION formatted)) (returnM Next))"

text \<open>\<open>a2y\<close>: the tokens of a field, with whether the scan goes on, and the fields.\<close>

fun a2y_tokens :: "ustring list \<Rightarrow> bytes \<times> bool" where
  "a2y_tokens [] = ([], True)"
| "a2y_tokens (t # ts) =
     (if t = [] then a2y_tokens ts
      else case parse_u8 16 t of
        None \<Rightarrow> ([], False)
      | Some b \<Rightarrow> (case a2y_tokens ts of (bs, go) \<Rightarrow> (of_int b # bs, go)))"

fun a2y_fields :: "ustring list \<Rightarrow> bytes" where
  "a2y_fields [] = []"
| "a2y_fields (f # fs) =
     (if trim f = [] then replicate (length f + 1) 0 @ a2y_fields fs
      else case a2y_tokens (split_on (\<lambda>c. c = 0x20) (trim f)) of
        (bs, go) \<Rightarrow> bs @ (if go then a2y_fields fs else []))"

definition a2y_char :: "nat \<Rightarrow> bool" where
  "a2y_char c \<longleftrightarrow> is_ascii_digit c \<or> (0x61 \<le> c \<and> c \<le> 0x66) \<or> c = 0x20 \<or> c = 0x3B \<or> c = 0x2C"

definition a2y :: "ustring \<Rightarrow> bytes" where
  "a2y text =
     (if text = [] then []
      else a2y_fields (split_on (\<lambda>c. c = 0x2C \<or> c = 0x3B) (takeWhile (\<lambda>c. a2y_char (ascii_lower c)) text)))"

definition op_a2y :: "op \<Rightarrow> flow vm" where
  "op_a2y i =
     bindM (read_string_op ''a2y'' (op_arg1 i)) (\<lambda>text.
     thenM (writeM (op_arg0 i) (VBytes (a2y text))) (returnM Next))"

definition op_hex2y :: "op \<Rightarrow> flow vm" where
  "op_hex2y i =
     bindM (read_string_op ''hex2y'' (op_arg1 i)) (\<lambda>text.
     case (case hex_to_bytes text of None \<Rightarrow> ([], True) | Some b \<Rightarrow> (b, False)) of
       (bs, bad) \<Rightarrow>
         thenM (writeM (op_arg0 i) (VBytes bs)) (thenM (flagsM (\<lambda>f. f\<lparr>fl_c := bad\<rparr>)) (returnM Next)))"

definition nibble_text :: "(u8 \<Rightarrow> nat) \<Rightarrow> bytes \<Rightarrow> ustring" where
  "nibble_text digit bs = concat (map (\<lambda>b. [digit (drop_bit 4 b), digit (b AND 0x0F)]) bs)"

definition op_y2bcd :: "op \<Rightarrow> flow vm" where
  "op_y2bcd i =
     bindM (read_bytesM ''y2bcd'' (op_arg1 i)) (\<lambda>bs.
     thenM (write_string (op_arg0 i) (nibble_text bcd_nibble bs)) (returnM Next))"

definition op_y2hex :: "op \<Rightarrow> flow vm" where
  "op_y2hex i =
     bindM (read_bytesM ''y2hex'' (op_arg1 i)) (\<lambda>bs.
     thenM (write_string (op_arg0 i) (nibble_text hex_digit bs)) (returnM Next))"

definition op_y_to_flt :: "string \<Rightarrow> op \<Rightarrow> nat \<Rightarrow> flow vm" where
  "op_y_to_flt mnemonic i width =
     bindM (read_bytesM mnemonic (op_arg1 i)) (\<lambda>bs.
     if length bs < width then failM (InvalidOperand mnemonic)
     else
       let v = (if width = 4 then f64_of_f32 (ucast (le_word (take 4 bs))) else le_word (take 8 bs)) in
       thenM (writeM (op_arg0 i) (VFloat v)) (returnM Next))"

definition data_len :: "string \<Rightarrow> operand \<Rightarrow> u32 vm" where
  "data_len mnemonic arg =
     (case arg of
        OpReg BB _ \<Rightarrow> returnM 1
      | OpReg BI _ \<Rightarrow> returnM 2
      | OpReg BL _ \<Rightarrow> returnM 4
      | OpReg BS _ \<Rightarrow>
          bindM (queryM (\<lambda>m. m_read m arg)) (\<lambda>v.
          case v of VBytes bs \<Rightarrow> returnM (of_nat (length bs)) | _ \<Rightarrow> failM (InvalidOperand mnemonic))
      | OpStr _ \<Rightarrow>
          bindM (queryM (\<lambda>m. m_read m arg)) (\<lambda>v.
          case v of VBytes bs \<Rightarrow> returnM (of_nat (length bs)) | _ \<Rightarrow> failM (InvalidOperand mnemonic))
      | _ \<Rightarrow> failM (InvalidOperand mnemonic))"

text \<open>\<open>fix2dez\<close> (\<open>hex\<close> false) and \<open>fix2hex\<close>.\<close>

definition fix2_text :: "bool \<Rightarrow> nat \<Rightarrow> u32 \<Rightarrow> ustring" where
  "fix2_text hex len raw =
     (if hex then ustr ''0x'' @ fmt_hex (2 * len) (unat raw) else fmt_int (sign_extend len raw))"

definition op_fix2 :: "string \<Rightarrow> bool \<Rightarrow> op \<Rightarrow> flow vm" where
  "op_fix2 mnemonic hex i =
     bindM (case op_arg1 i of
              OpReg bank _ \<Rightarrow>
                if bank = BB \<or> bank = BI \<or> bank = BL
                then bindM (data_len mnemonic (op_arg1 i)) (\<lambda>n. returnM (unat n)) else returnM 1
            | OpImm _ \<Rightarrow> liftM (value_data_len (op_mode_byte i AND 0x0F) (op_arg1 i) mnemonic)
            | _ \<Rightarrow> returnM 1) (\<lambda>len.
     bindM (read_int mnemonic (op_arg1 i) len) (\<lambda>raw.
     if len = 1 \<or> len = 2 \<or> len = 4
     then thenM (write_string (op_arg0 i) (fix2_text hex len raw)) (returnM Next)
     else failM (InvalidOperand mnemonic)))"

section \<open>String buffers\<close>

definition indexed_base_and_start :: "string \<Rightarrow> operand \<Rightarrow> (reg_id \<times> u32) vm" where
  "indexed_base_and_start mnemonic arg =
     (case arg of
        OpIndexed base index None \<Rightarrow>
          bindM (case index of
                   IxImm v \<Rightarrow> returnM (ucast v)
                 | IxReg r \<Rightarrow> read_value_data mnemonic (OpReg (rid_bank r) (rid_idx r))) (\<lambda>start.
          returnM (base, start))
      | _ \<Rightarrow> failM (InvalidOperand mnemonic))"

definition op_scmp :: "op \<Rightarrow> flow vm" where
  "op_scmp i =
     bindM (read_bytesM ''scmp'' (op_arg0 i)) (\<lambda>a.
     bindM (read_bytesM ''scmp'' (op_arg1 i)) (\<lambda>b.
     thenM (flagsM (\<lambda>f. f\<lparr>fl_z := (a = b)\<rparr>)) (returnM Next)))"

definition op_scat :: "op \<Rightarrow> flow vm" where
  "op_scat i =
     bindM (read_bytesM ''scat'' (op_arg0 i)) (\<lambda>a.
     bindM (read_bytesM ''scat'' (op_arg1 i)) (\<lambda>b.
     thenM (writeM (op_arg0 i) (VBytes (a @ b))) (returnM Next)))"

definition op_scut :: "op \<Rightarrow> flow vm" where
  "op_scut i =
     bindM (read_bytesM ''scut'' (op_arg0 i)) (\<lambda>data.
     bindM (read_value_data ''scut'' (op_arg1 i)) (\<lambda>n.
     let len = unat n;
         result = (if len > length data then [] else take (length data - len) data) in
     thenM (writeM (op_arg0 i) (VBytes result)) (returnM Next)))"

definition op_slen :: "op \<Rightarrow> flow vm" where
  "op_slen i =
     bindM (liftM (arg_width ''slen'' (op_arg0 i))) (\<lambda>width.
     bindM (data_len ''slen'' (op_arg1 i)) (\<lambda>v.
     thenM (write_u32 (op_arg0 i) v)
       (thenM (flagsM (\<lambda>f. update_zs v width (f\<lparr>fl_v := False\<rparr>))) (returnM Next))))"

definition op_spaste :: "op \<Rightarrow> flow vm" where
  "op_spaste i =
     bindM (indexed_base_and_start ''spaste'' (op_arg0 i)) (\<lambda>(base, st).
     let base_op = OpReg (rid_bank base) (rid_idx base) in
     bindM (read_bytesM ''spaste'' base_op) (\<lambda>dest.
     bindM (read_bytesM ''spaste'' (op_arg1 i)) (\<lambda>source.
     let start = unat st in
     if start < length dest
     then thenM (writeM base_op (VBytes (take start dest @ source @ drop start dest))) (returnM Next)
     else returnM Next)))"

definition op_serase :: "op \<Rightarrow> flow vm" where
  "op_serase i =
     bindM (indexed_base_and_start ''serase'' (op_arg0 i)) (\<lambda>(base, st).
     let base_op = OpReg (rid_bank base) (rid_idx base) in
     bindM (read_bytesM ''serase'' base_op) (\<lambda>data.
     bindM (read_value_data ''serase'' (op_arg1 i)) (\<lambda>n.
     let start = unat st; stop = start + unat n;
         result = map snd (filter (\<lambda>(k, b). k < start \<or> k \<ge> stop) (enumerate 0 data)) in
     thenM (writeM base_op (VBytes result)) (returnM Next))))"

definition op_strcat :: "op \<Rightarrow> flow vm" where
  "op_strcat i =
     bindM (read_string_op ''strcat'' (op_arg0 i)) (\<lambda>s.
     bindM (read_string_op ''strcat'' (op_arg1 i)) (\<lambda>t.
     thenM (write_string (op_arg0 i) (s @ t)) (returnM Next)))"

definition op_strcmp :: "op \<Rightarrow> flow vm" where
  "op_strcmp i =
     bindM (read_string_op ''strcmp'' (op_arg0 i)) (\<lambda>a.
     bindM (read_string_op ''strcmp'' (op_arg1 i)) (\<lambda>b.
     thenM (flagsM (\<lambda>f. f\<lparr>fl_z := (a \<noteq> b)\<rparr>)) (returnM Next)))"

definition op_strlen :: "op \<Rightarrow> flow vm" where
  "op_strlen i =
     bindM (liftM (arg_width ''strlen'' (op_arg0 i))) (\<lambda>width.
     bindM (read_string_op ''strlen'' (op_arg1 i)) (\<lambda>s.
     let v = of_nat (length s) in
     thenM (write_u32 (op_arg0 i) v)
       (thenM (flagsM (\<lambda>f. update_zs v width (f\<lparr>fl_v := False\<rparr>))) (returnM Next))))"

end
