(* ===== verification/Best_Exec_Ctx.thy ===== *)
theory Best_Exec_Ctx
  imports Best_Exec_Data
begin

text \<open>
  The executor of \<open>crates/best/src/exec.rs\<close>, third part: the opcodes that reach outside the
  machine. The result sets of \<open>crates/best/src/result.rs\<close>, the job's arguments and the table
  cursor live in the execution context, which these handlers take and return beside the
  machine.
\<close>

section \<open>Result sets\<close>

datatype result_data =
    RByte u8
  | RWord u16
  | RDword u32
  | RInt i64
  | RReal f64
  | RText ustring
  | RBinary bytes

text \<open>The sets in order; the last one is the current set.\<close>

type_synonym result_set = "(ustring \<times> result_data) list list"

definition rs_new :: result_set where
  "rs_new = [[]]"

definition rs_current :: "result_set \<Rightarrow> (ustring \<times> result_data) list" where
  "rs_current rs = last rs"

definition rs_push_named :: "ustring \<Rightarrow> result_data \<Rightarrow> result_set \<Rightarrow> result_set" where
  "rs_push_named name v rs = butlast rs @ [last rs @ [(name, v)]]"

definition rs_new_set :: "result_set \<Rightarrow> result_set" where
  "rs_new_set rs = rs @ [[]]"

definition rs_get :: "result_set \<Rightarrow> ustring \<Rightarrow> result_data option" where
  "rs_get rs name = map_option snd (find (\<lambda>(n, _). n = name) (rs_current rs))"

definition rs_sets_len :: "result_set \<Rightarrow> nat" where
  "rs_sets_len rs = length rs"

section \<open>The execution context\<close>

record exec_ctx =
  x_results :: result_set
  x_args :: bytes
  x_tables :: "table list"
  x_current_table :: "nat option"
  x_current_row :: "nat option"

type_synonym ctx_vm = "exec_ctx \<Rightarrow> (flow \<times> exec_ctx) vm"

definition doneX :: "exec_ctx \<Rightarrow> (flow \<times> exec_ctx) vm" where
  "doneX ctx = returnM (Next, ctx)"

section \<open>Storing results\<close>

definition push_result :: "ustring \<Rightarrow> result_data \<Rightarrow> ctx_vm" where
  "push_result name v ctx = doneX (ctx\<lparr>x_results := rs_push_named name v (x_results ctx)\<rparr>)"

text \<open>
  The integer results: the name, then \<open>arg1\<close> read at the width of the opcode and cast to the
  type of the result.
\<close>

definition op_erg_int :: "string \<Rightarrow> nat \<Rightarrow> (u32 \<Rightarrow> result_data) \<Rightarrow> op \<Rightarrow> ctx_vm" where
  "op_erg_int mnemonic len cast i ctx =
     bindM (read_string_op mnemonic (op_arg0 i)) (\<lambda>name.
     bindM (read_int mnemonic (op_arg1 i) len) (\<lambda>v. push_result name (cast v) ctx))"

definition op_ergb :: "op \<Rightarrow> ctx_vm" where
  "op_ergb = op_erg_int ''ergb'' 1 (\<lambda>v. RByte (ucast v))"

definition op_ergw :: "op \<Rightarrow> ctx_vm" where
  "op_ergw = op_erg_int ''ergw'' 2 (\<lambda>v. RWord (ucast v))"

definition op_ergd :: "op \<Rightarrow> ctx_vm" where
  "op_ergd = op_erg_int ''ergd'' 4 RDword"

definition op_ergi :: "op \<Rightarrow> ctx_vm" where
  "op_ergi = op_erg_int ''ergi'' 2 (\<lambda>v. RInt (scast (ucast v :: u16)))"

definition op_ergc :: "op \<Rightarrow> ctx_vm" where
  "op_ergc = op_erg_int ''ergc'' 1 (\<lambda>v. RInt (scast (ucast v :: u8)))"

definition op_ergl :: "op \<Rightarrow> ctx_vm" where
  "op_ergl = op_erg_int ''ergl'' 4 (\<lambda>v. RInt (scast v))"

definition op_ergr :: "op \<Rightarrow> ctx_vm" where
  "op_ergr i ctx =
     bindM (read_string_op ''ergr'' (op_arg0 i)) (\<lambda>name.
     bindM (read_float ''ergr'' (op_arg1 i)) (\<lambda>v. push_result name (RReal v) ctx))"

definition op_ergs :: "op \<Rightarrow> ctx_vm" where
  "op_ergs i ctx =
     bindM (read_string_op ''ergs'' (op_arg0 i)) (\<lambda>name.
     bindM (read_string_op ''ergs'' (op_arg1 i)) (\<lambda>v. push_result name (RText v) ctx))"

definition op_ergy :: "op \<Rightarrow> ctx_vm" where
  "op_ergy i ctx =
     bindM (read_string_op ''ergy'' (op_arg0 i)) (\<lambda>name.
     bindM (read_bytesM ''ergy'' (op_arg1 i)) (\<lambda>v. push_result name (RBinary v) ctx))"

definition op_enewset :: ctx_vm where
  "op_enewset ctx =
     doneX (if rs_current (x_results ctx) \<noteq> [] then ctx\<lparr>x_results := rs_new_set (x_results ctx)\<rparr> else ctx)"

definition op_etag :: "flow vm" where
  "op_etag = returnM Next"

section \<open>Job arguments\<close>

definition arg_strings :: "bytes \<Rightarrow> ustring list" where
  "arg_strings args = (if args = [] then [] else split_on (\<lambda>c. c = 0x3B) (map unat args))"

definition string_to_float :: "ustring \<Rightarrow> f64" where
  "string_to_float number =
     (if \<not> list_all (\<lambda>c. c < 0x80) number then 0
      else case parse_decimal number of None \<Rightarrow> 0 | Some v \<Rightarrow> v)"

text \<open>The non-empty argument at a 1-based position.\<close>

definition arg_field :: "bytes \<Rightarrow> u32 \<Rightarrow> ustring option" where
  "arg_field args pos =
     (case nth_opt (arg_strings args) (unat (pos - 1)) of
        Some field \<Rightarrow> if field \<noteq> [] then Some field else None
      | None \<Rightarrow> None)"

definition op_parl :: "op \<Rightarrow> exec_ctx \<Rightarrow> flow vm" where
  "op_parl i ctx =
     bindM (read_value_data ''parl'' (op_arg1 i)) (\<lambda>pos.
     let field = arg_field (x_args ctx) pos;
         result = (case field of None \<Rightarrow> 0 | Some f \<Rightarrow> of_int (string_to_value f)) in
     thenM (write_u32 (op_arg0 i) result)
       (thenM (flagsM (\<lambda>f. f\<lparr>fl_z := (field = None), fl_c := False, fl_s := False, fl_v := False\<rparr>)) (returnM Next)))"

definition op_parr :: "op \<Rightarrow> exec_ctx \<Rightarrow> flow vm" where
  "op_parr i ctx =
     bindM (read_value_data ''parr'' (op_arg1 i)) (\<lambda>pos.
     let field = arg_field (x_args ctx) pos;
         result = (case field of None \<Rightarrow> 0 | Some f \<Rightarrow> string_to_float f) in
     thenM (writeM (op_arg0 i) (VFloat result))
       (thenM (flagsM (\<lambda>f. f\<lparr>fl_z := (field = None), fl_c := False, fl_s := False, fl_v := False\<rparr>)) (returnM Next)))"

definition op_pars :: "op \<Rightarrow> exec_ctx \<Rightarrow> flow vm" where
  "op_pars i ctx =
     bindM (read_value_data ''pars'' (op_arg1 i)) (\<lambda>pos.
     let result = (case arg_field (x_args ctx) pos of None \<Rightarrow> [] | Some f \<Rightarrow> f) in
     thenM (write_string (op_arg0 i) result)
       (thenM (flagsM (\<lambda>f. f\<lparr>fl_z := (result = [])\<rparr>)) (returnM Next)))"

definition op_pary :: "op \<Rightarrow> exec_ctx \<Rightarrow> flow vm" where
  "op_pary i ctx =
     thenM (writeM (op_arg0 i) (VBytes (x_args ctx)))
       (thenM (flagsM (\<lambda>f. f\<lparr>fl_z := (x_args ctx = [])\<rparr>)) (returnM Next))"

definition op_parn :: "op \<Rightarrow> exec_ctx \<Rightarrow> flow vm" where
  "op_parn i ctx =
     bindM (liftM (arg_width ''parn'' (op_arg0 i))) (\<lambda>width.
     let count = of_nat (length (arg_strings (x_args ctx))) in
     thenM (write_u32 (op_arg0 i) count)
       (thenM (flagsM (\<lambda>f. update_zs count width (f\<lparr>fl_v := False\<rparr>))) (returnM Next)))"

section \<open>The table cursor\<close>

definition current_table_opt :: "exec_ctx \<Rightarrow> table option" where
  "current_table_opt ctx =
     (case x_current_table ctx of None \<Rightarrow> None | Some t \<Rightarrow> nth_opt (x_tables ctx) t)"

definition selected_table :: "exec_ctx \<Rightarrow> string \<Rightarrow> table vm" where
  "selected_table ctx mnemonic = liftM (ok_or (current_table_opt ctx) (TableNotSelected mnemonic))"

definition table_index :: "table list \<Rightarrow> ustring \<Rightarrow> nat option" where
  "table_index tables name = position (\<lambda>t. eq_ignore_ascii_case (tbl_name t) name) tables"

definition column_index :: "ustring list \<Rightarrow> ustring \<Rightarrow> nat option" where
  "column_index columns name = position (\<lambda>c. eq_ignore_ascii_case c name) columns"

definition op_tabset :: "op \<Rightarrow> ctx_vm" where
  "op_tabset i ctx =
     bindM (read_string_op ''tabset'' (op_arg0 i)) (\<lambda>name.
     case table_index (x_tables ctx) name of
       None \<Rightarrow> failM (TableNotFound name)
     | Some idx \<Rightarrow>
         let ctx' = (if x_current_table ctx \<noteq> Some idx then ctx\<lparr>x_current_row := None\<rparr> else ctx)
         in doneX (ctx'\<lparr>x_current_table := Some idx\<rparr>))"

definition seek_result :: "string \<Rightarrow> nat \<Rightarrow> nat option \<Rightarrow> ctx_vm" where
  "seek_result mnemonic rows hit ctx =
     (case hit of
        Some r \<Rightarrow> thenM (flagsM (\<lambda>f. f\<lparr>fl_z := False\<rparr>)) (doneX (ctx\<lparr>x_current_row := Some r\<rparr>))
      | None \<Rightarrow>
          if rows = 0 then failM (TableRow mnemonic)
          else thenM (flagsM (\<lambda>f. f\<lparr>fl_z := True\<rparr>)) (doneX (ctx\<lparr>x_current_row := Some (rows - 1)\<rparr>)))"

definition cell_match :: "nat \<Rightarrow> (ustring \<Rightarrow> bool) \<Rightarrow> ustring list \<Rightarrow> bool" where
  "cell_match col p row = (case nth_opt row col of None \<Rightarrow> False | Some cell \<Rightarrow> p cell)"

definition op_tabseek :: "op \<Rightarrow> ctx_vm" where
  "op_tabseek i ctx =
     bindM (selected_table ctx ''tabseek'') (\<lambda>table.
     bindM (read_string_op ''tabseek'' (op_arg0 i)) (\<lambda>column.
     bindM (read_string_op ''tabseek'' (op_arg1 i)) (\<lambda>key.
     bindM (liftM (ok_or (column_index (tbl_columns table) column) (TableColumn ''tabseek'' column))) (\<lambda>col.
     seek_result ''tabseek'' (length (tbl_rows table))
       (position (cell_match col (\<lambda>cell. eq_ignore_ascii_case cell key)) (tbl_rows table)) ctx))))"

definition op_tabseeku :: "op \<Rightarrow> ctx_vm" where
  "op_tabseeku i ctx =
     bindM (selected_table ctx ''tabseeku'') (\<lambda>table.
     bindM (read_string_op ''tabseeku'' (op_arg0 i)) (\<lambda>column.
     bindM (read_value_data ''tabseeku'' (op_arg1 i)) (\<lambda>key.
     bindM (liftM (ok_or (column_index (tbl_columns table) column) (TableColumn ''tabseeku'' column))) (\<lambda>col.
     seek_result ''tabseeku'' (length (tbl_rows table))
       (position (cell_match col (\<lambda>cell. of_int (string_to_value cell) = key)) (tbl_rows table)) ctx))))"

definition op_tabget :: "op \<Rightarrow> exec_ctx \<Rightarrow> flow vm" where
  "op_tabget i ctx =
     bindM (selected_table ctx ''tabget'') (\<lambda>table.
     bindM (read_string_op ''tabget'' (op_arg1 i)) (\<lambda>column.
     bindM (liftM (ok_or (column_index (tbl_columns table) column) (TableColumn ''tabget'' column))) (\<lambda>col.
     bindM (case x_current_row ctx of
              None \<Rightarrow> returnM []
            | Some r \<Rightarrow>
                liftM (ok_or (case nth_opt (tbl_rows table) r of None \<Rightarrow> None | Some row \<Rightarrow> nth_opt row col)
                         (TableRow ''tabget''))) (\<lambda>entry.
     thenM (write_string (op_arg0 i) entry) (returnM Next)))))"

definition op_tabline :: "op \<Rightarrow> ctx_vm" where
  "op_tabline i ctx =
     bindM (selected_table ctx ''tabline'') (\<lambda>table.
     let rows = length (tbl_rows table) in
     bindM (read_value_data ''tabline'' (op_arg0 i)) (\<lambda>v.
     let line = unat v in
     if rows = 0 then failM (TableRow ''tabline'')
     else case (if line \<ge> rows then (rows - 1, False) else (line, True)) of (row, found) \<Rightarrow>
       thenM (flagsM (\<lambda>f. f\<lparr>fl_z := \<not> found\<rparr>)) (doneX (ctx\<lparr>x_current_row := Some row\<rparr>))))"

definition op_tabcols :: "op \<Rightarrow> exec_ctx \<Rightarrow> flow vm" where
  "op_tabcols i ctx =
     thenM (write_u32 (op_arg0 i)
              (case current_table_opt ctx of None \<Rightarrow> 0 | Some t \<Rightarrow> of_nat (length (tbl_columns t))))
       (returnM Next)"

definition op_tabrows :: "op \<Rightarrow> exec_ctx \<Rightarrow> flow vm" where
  "op_tabrows i ctx =
     thenM (write_u32 (op_arg0 i)
              (case current_table_opt ctx of None \<Rightarrow> 0 | Some t \<Rightarrow> of_nat (length (tbl_rows t)) + 1))
       (returnM Next)"

end
