(* ===== verification/Best_Step.thy ===== *)
theory Best_Step
  imports Best_Exec_Ctx
begin

text \<open>
  One instruction: \<open>step\<close> of \<open>crates/best/src/exec.rs\<close>, with the folding of \<open>IdxRegImm\<close>
  operands and the dispatch on the opcode byte.
\<close>

section \<open>Folding\<close>

definition fold_increment :: "machine \<Rightarrow> operand \<Rightarrow> exec_error + operand" where
  "fold_increment m arg =
     (case arg of
        OpIndexed base index (Some increment) \<Rightarrow>
          map_err ExMachine
            (bindE (resolve_index m index) (\<lambda>a.
             bindE (resolve_index m increment) (\<lambda>b.
             Inr (OpIndexed base (IxImm (of_nat (a + b))) None))))
      | _ \<Rightarrow> Inr arg)"

definition fold_index_increments :: "machine \<Rightarrow> op \<Rightarrow> exec_error + op" where
  "fold_index_increments m i =
     bindE (if drop_bit 4 (op_mode_byte i) = 11
            then bindE (fold_increment m (op_arg0 i)) (\<lambda>a. Inr (i\<lparr>op_arg0 := a\<rparr>)) else Inr i) (\<lambda>i.
     if op_mode_byte i AND 0x0F = 11
     then bindE (fold_increment m (op_arg1 i)) (\<lambda>a. Inr (i\<lparr>op_arg1 := a\<rparr>)) else Inr i)"

section \<open>Dispatch\<close>

text \<open>The opcodes that touch the machine only, by their byte.\<close>

definition machine_op :: "float_env \<Rightarrow> op \<Rightarrow> flow vm option" where
  "machine_op env i =
     (let b = op_byte i in
      if b = 0x00 then Some (op_move i)
      else if b = 0x01 then Some (op_clear i)
      else if b = 0x02 then Some (op_comp i)
      else if b = 0x03 then Some (op_subb i)
      else if b = 0x04 then Some (op_adds i)
      else if b = 0x05 then Some (op_mult i)
      else if b = 0x06 then Some (op_divs i)
      else if b = 0x07 then Some (op_bitwise ''and'' (AND) i)
      else if b = 0x08 then Some (op_bitwise ''or'' (OR) i)
      else if b = 0x09 then Some (op_bitwise ''xor'' (XOR) i)
      else if b = 0x0A then Some (op_not i)
      else if b = 0x0B then Some (branch ''jump'' i True)
      else if b = 0x0E then Some (branch_if ''jc'' fl_c i)
      else if b = 0x0F then Some (branch_if ''jae'' (\<lambda>f. \<not> fl_c f) i)
      else if b = 0x10 then Some (branch_if ''jz'' fl_z i)
      else if b = 0x11 then Some (branch_if ''jnz'' (\<lambda>f. \<not> fl_z f) i)
      else if b = 0x12 then Some (branch_if ''jv'' fl_v i)
      else if b = 0x13 then Some (branch_if ''jnv'' (\<lambda>f. \<not> fl_v f) i)
      else if b = 0x14 then Some (branch_if ''jmi'' fl_s i)
      else if b = 0x15 then Some (branch_if ''jpl'' (\<lambda>f. \<not> fl_s f) i)
      else if b = 0x16 then Some (thenM (flagsM (\<lambda>f. f\<lparr>fl_c := False\<rparr>)) (returnM Next))
      else if b = 0x17 then Some (thenM (flagsM (\<lambda>f. f\<lparr>fl_c := True\<rparr>)) (returnM Next))
      else if b = 0x18 then Some (op_asr i)
      else if b = 0x19 then Some (op_shift_left ''lsl'' i)
      else if b = 0x1A then Some (op_lsr i)
      else if b = 0x1B then Some (op_shift_left ''asl'' i)
      else if b = 0x1C then Some (returnM Next)
      else if b = 0x1D then Some (returnM EndOfJob)
      else if b = 0x1E then Some (op_push i)
      else if b = 0x1F then Some (op_pop i)
      else if b = 0x43 then Some (op_gettmr i)
      else if b = 0x44 then Some (op_settmr i)
      else if b = 0x46 then Some (thenM (modifyM (\<lambda>m. m\<lparr>m_trap_bit := None\<rparr>)) (returnM Next))
      else if b = 0x47 then Some (bindM (trap_detected i) (branch ''jt'' i))
      else if b = 0x48 then Some (bindM (trap_detected i) (\<lambda>t. branch ''jnt'' i (\<not> t)))
      else if b = 0x4B then Some op_break
      else if b = 0x5A then Some (branch_if ''jg'' (\<lambda>f. fl_s f = fl_v f \<and> \<not> fl_z f) i)
      else if b = 0x5B then Some (branch_if ''jge'' (\<lambda>f. fl_z f \<or> fl_s f = fl_v f) i)
      else if b = 0x5C then Some (branch_if ''jl'' (\<lambda>f. \<not> fl_z f \<and> fl_s f \<noteq> fl_v f) i)
      else if b = 0x5D then Some (branch_if ''jle'' (\<lambda>f. fl_s f \<noteq> fl_v f \<or> fl_z f) i)
      else if b = 0x5E then Some (branch_if ''ja'' (\<lambda>f. \<not> fl_c f \<and> \<not> fl_z f) i)
      else if b = 0x5F then Some (branch_if ''jbe'' (\<lambda>f. fl_c f \<or> fl_z f) i)
      else if b = 0x3A then Some (op_a2flt i)
      else if b = 0x3B then Some (op_float_arith ''fadd'' f64_add i)
      else if b = 0x3C then Some (op_float_arith ''fsub'' f64_sub i)
      else if b = 0x3D then Some (op_float_arith ''fmul'' f64_mul i)
      else if b = 0x3E then Some (op_float_arith ''fdiv'' f64_div i)
      else if b = 0x67 then Some (op_a2fix i)
      else if b = 0x68 then Some (op_fix2flt i)
      else if b = 0x87 then Some (op_flt2a env i)
      else if b = 0x8C then Some (op_a2y i)
      else if b = 0x8E then Some (op_hex2y i)
      else if b = 0x91 then Some (op_y2bcd i)
      else if b = 0x92 then Some (op_y2hex i)
      else if b = 0x96 then Some (op_flt2fix i)
      else if b = 0x9D then Some (op_y_to_flt ''y42flt'' i 4)
      else if b = 0x9E then Some (op_y_to_flt ''y82flt'' i 8)
      else if b = 0xA1 then Some (op_fcomp i)
      else if b = 0x6B then Some (bindM (read_value_data ''wait'' (op_arg0 i)) (\<lambda>s. returnM (Wait s)))
      else if b = 0x79 then Some (op_fix2 ''fix2hex'' True i)
      else if b = 0x7A then Some (op_fix2 ''fix2dez'' False i)
      else if b = 0x20 then Some (op_scmp i)
      else if b = 0x21 then Some (op_scat i)
      else if b = 0x22 then Some (op_scut i)
      else if b = 0x23 then Some (op_slen i)
      else if b = 0x24 then Some (op_spaste i)
      else if b = 0x25 then Some (op_serase i)
      else if b = 0x7E then Some (op_strcat i)
      else if b = 0x8F then Some (op_strcmp i)
      else if b = 0x90 then Some (op_strlen i)
      else if b = 0x51 then Some (op_swap i)
      else if b = 0x41 then Some op_etag
      else if b = 0x50 then Some (op_atsp i)
      else if b = 0x2A then Some (op_xsend i)
      else if b = 0x2C then Some (failM (ExUnimplemented ''xrequf''))
      else None)"

text \<open>The opcodes that only read the context.\<close>

definition reader_op :: "op \<Rightarrow> (exec_ctx \<Rightarrow> flow vm) option" where
  "reader_op i =
     (let b = op_byte i in
      if 0x55 \<le> b \<and> b \<le> 0x57 then Some (op_parl i)
      else if b = 0x58 then Some (op_pars i)
      else if b = 0x69 then Some (op_parr i)
      else if b = 0x7F then Some (op_pary i)
      else if b = 0x80 then Some (op_parn i)
      else if b = 0x7D then Some (op_tabget i)
      else if b = 0xB6 then Some (op_tabcols i)
      else if b = 0xB7 then Some (op_tabrows i)
      else None)"

text \<open>The opcodes that change the context.\<close>

definition context_op :: "op \<Rightarrow> ctx_vm option" where
  "context_op i =
     (let b = op_byte i in
      if b = 0x34 then Some (op_ergb i)
      else if b = 0x35 then Some (op_ergw i)
      else if b = 0x36 then Some (op_ergd i)
      else if b = 0x37 then Some (op_ergi i)
      else if b = 0x38 then Some (op_ergr i)
      else if b = 0x39 then Some (op_ergs i)
      else if b = 0x3F then Some (op_ergy i)
      else if b = 0x81 then Some (op_ergc i)
      else if b = 0x82 then Some (op_ergl i)
      else if b = 0x40 then Some op_enewset
      else if b = 0x7B then Some (op_tabset i)
      else if b = 0x7C then Some (op_tabseek i)
      else if b = 0x83 then Some (op_tabline i)
      else if b = 0x9A then Some (op_tabseeku i)
      else None)"

definition dispatch :: "float_env \<Rightarrow> op \<Rightarrow> ctx_vm" where
  "dispatch env i ctx =
     (case machine_op env i of
        Some h \<Rightarrow> bindM h (\<lambda>fl. returnM (fl, ctx))
      | None \<Rightarrow>
      case reader_op i of
        Some h \<Rightarrow> bindM (h ctx) (\<lambda>fl. returnM (fl, ctx))
      | None \<Rightarrow>
      case context_op i of
        Some h \<Rightarrow> h ctx
      | None \<Rightarrow>
          failM (ExUnimplemented
            (case info (op_byte i) of None \<Rightarrow> ''<unknown>'' | Some entry \<Rightarrow> opi_mnemonic entry)))"

definition step :: "float_env \<Rightarrow> op \<Rightarrow> ctx_vm" where
  "step env i ctx m =
     (let m1 = m\<lparr>m_pc := op_offset i + op_len i\<rparr> in
      bindE (fold_index_increments m1 i) (\<lambda>i'. dispatch env i' ctx m1))"

end
