(* ===== verification/Best_Invariant.thy ===== *)
theory Best_Invariant
  imports Best_Step
begin

text \<open>
  What every instruction keeps, whatever it does: the shape of the machine, the program counter
  (unless it branches), the table cursor and the result sets; and the errors it can have.
\<close>

section \<open>A calculus for handlers\<close>

text \<open>
  An execution error that is not a register past its bank: decoded operands never cause one.
\<close>

definition ex_in_range :: "exec_error \<Rightarrow> bool" where
  "ex_in_range e \<longleftrightarrow> (case e of ExMachine me \<Rightarrow> in_range me | _ \<Rightarrow> True)"

lemma ex_in_range_simps [simp]:
  "ex_in_range (ExMachine me) = in_range me"
  "ex_in_range (ExUnimplemented s)" "ex_in_range (InvalidOperand s)" "ex_in_range DivideByZero"
  "ex_in_range StackUnderflow" "ex_in_range Break" "ex_in_range (NonFinite s)"
  "ex_in_range (BadFloatString t)" "ex_in_range (TableNotSelected s)" "ex_in_range (TableNotFound t)"
  "ex_in_range (TableColumn s t)" "ex_in_range (TableRow s)" "ex_in_range AtspStack"
  "ex_in_range (Trapped b)"
  by (simp_all add: ex_in_range_def)

text \<open>
  \<open>ends R f\<close>: from a well-formed machine, \<open>f\<close> ends well-formed, with \<open>R\<close> between the program
  counter before, the value, and the program counter after; or it ends with an error in range.
  A \<open>calm\<close> computation leaves the program counter alone; so does a \<open>straight\<close> handler, which never
  branches, and a \<open>contextual\<close> one, which also keeps a property of the context; any other
  handler (\<open>handles\<close>) leaves it alone unless it branches.
\<close>

definition ends :: "(nat \<Rightarrow> 'a \<Rightarrow> nat \<Rightarrow> bool) \<Rightarrow> 'a vm \<Rightarrow> bool" where
  "ends R f \<longleftrightarrow> (\<forall>m. machine_wf m \<longrightarrow>
     post ex_in_range (\<lambda>(x, m'). machine_wf m' \<and> R (m_pc m) x (m_pc m')) (f m))"

definition flow_ok :: "flow \<Rightarrow> bool" where
  "flow_ok fl \<longleftrightarrow> (case fl of Exchange _ dest \<Rightarrow> operand_regs dest | _ \<Rightarrow> True)"

abbreviation calm :: "'a vm \<Rightarrow> bool" where
  "calm \<equiv> ends (\<lambda>p x q. q = p)"

abbreviation handles :: "flow vm \<Rightarrow> bool" where
  "handles \<equiv> ends (\<lambda>p fl q. flow_ok fl \<and> (q = p \<or> fl = Jumped))"

abbreviation straight :: "flow vm \<Rightarrow> bool" where
  "straight \<equiv> ends (\<lambda>p fl q. flow_ok fl \<and> fl \<noteq> Jumped \<and> q = p)"

abbreviation contextual :: "(exec_ctx \<Rightarrow> bool) \<Rightarrow> (flow \<times> exec_ctx) vm \<Rightarrow> bool" where
  "contextual P \<equiv> ends (\<lambda>p r q. flow_ok (fst r) \<and> fst r \<noteq> Jumped \<and> P (snd r) \<and> q = p)"

named_theorems calm_intros

lemma flow_ok_simps [simp]:
  "flow_ok Next" "flow_ok Jumped" "flow_ok EndOfJob" "flow_ok (Wait s)"
  "flow_ok (Exchange r d) = operand_regs d"
  by (simp_all add: flow_ok_def)

lemma endsI:
  "(\<And>m. machine_wf m \<Longrightarrow> post ex_in_range (\<lambda>(x, m'). machine_wf m' \<and> R (m_pc m) x (m_pc m')) (f m)) \<Longrightarrow> ends R f"
  by (simp add: ends_def)

lemma endsD:
  "ends R f \<Longrightarrow> machine_wf m \<Longrightarrow> post ex_in_range (\<lambda>(x, m'). machine_wf m' \<and> R (m_pc m) x (m_pc m')) (f m)"
  by (simp add: ends_def)

text \<open>A calm step in front of anything.\<close>

lemma ends_bindM [calm_intros]:
  assumes "calm f" and "\<And>x. ends R (g x)"
  shows "ends R (bindM f g)"
proof (rule endsI)
  fix m assume wf: "machine_wf m"
  show "post ex_in_range (\<lambda>(x, m'). machine_wf m' \<and> R (m_pc m) x (m_pc m')) (bindM f g m)"
    unfolding bindM_def
  proof (rule post_bindE [OF endsD [OF assms(1) wf]], clarify)
    fix x m' assume "machine_wf m'" and pc: "m_pc m' = m_pc m"
    from endsD [OF assms(2) this(1)] show
      "post ex_in_range (\<lambda>(x, m'). machine_wf m' \<and> R (m_pc m) x (m_pc m')) (g x m')"
      unfolding pc .
  qed
qed

lemma ends_thenM [calm_intros]: "calm f \<Longrightarrow> ends R g \<Longrightarrow> ends R (thenM f g)"
  unfolding thenM_def by (rule ends_bindM)

lemma ends_returnM [calm_intros]: "(\<And>p. R p x p) \<Longrightarrow> ends R (returnM x)"
  by (simp add: ends_def returnM_def)

lemma ends_doneX [calm_intros]: "(\<And>p. R p (Next, ctx) p) \<Longrightarrow> ends R (doneX ctx)"
  unfolding doneX_def by (rule ends_returnM)

lemma ends_failM [calm_intros]: "ex_in_range e \<Longrightarrow> ends R (failM e)"
  by (simp add: ends_def failM_def)

lemma ends_mono: "ends R f \<Longrightarrow> (\<And>p x q. R p x q \<Longrightarrow> R' p x q) \<Longrightarrow> ends R' f"
  unfolding ends_def by (fastforce elim: post_mono)

lemma straight_handles: "straight h \<Longrightarrow> handles h"
  by (erule ends_mono) auto

text \<open>A handler that does not change the context, in a run.\<close>

lemma ends_lift: "ends R h \<Longrightarrow> ends (\<lambda>p r q. R p (fst r) q \<and> snd r = ctx) (bindM h (\<lambda>fl. returnM (fl, ctx)))"
  unfolding ends_def bindM_def
  by (intro allI impI, rule post_bindE, blast) (auto simp: returnM_def)

lemma calm_liftM [calm_intros]: "post ex_in_range (\<lambda>_. True) r \<Longrightarrow> calm (liftM r)"
  by (cases r) (auto simp: ends_def liftM_def)

lemma calm_getM [calm_intros]: "calm (getM f)"
  by (simp add: ends_def getM_def)

lemma calm_flagsM [calm_intros]: "calm (flagsM f)"
  by (simp add: ends_def flagsM_def modifyM_def machine_wf_def)

lemma calm_queryM [calm_intros]:
  assumes "\<And>m. machine_wf m \<Longrightarrow> post in_range (\<lambda>_. True) (f m)"
  shows "calm (queryM f)"
proof (rule endsI)
  fix m assume wf: "machine_wf m"
  from assms [OF wf] wf show "post ex_in_range (\<lambda>(x, m'). machine_wf m' \<and> m_pc m' = m_pc m) (queryM f m)"
    by (cases "f m") (simp_all add: queryM_def)
qed

text \<open>Case distinctions inside handlers.\<close>

lemma ends_if [calm_intros]: "(c \<Longrightarrow> ends R f) \<Longrightarrow> (\<not> c \<Longrightarrow> ends R g) \<Longrightarrow> ends R (if c then f else g)"
  by simp

lemma ends_Let [calm_intros]: "(\<And>x. ends R (h x)) \<Longrightarrow> ends R (Let v h)"
  by (simp add: Let_def)

lemma ends_value [calm_intros]:
  "(\<And>i. ends R (f i)) \<Longrightarrow> (\<And>x. ends R (g x)) \<Longrightarrow> (\<And>b. ends R (h b)) \<Longrightarrow>
     ends R (case v of VInt i \<Rightarrow> f i | VFloat x \<Rightarrow> g x | VBytes b \<Rightarrow> h b)"
  by (cases v) auto

lemma ends_option [calm_intros]:
  "ends R f \<Longrightarrow> (\<And>x. v = Some x \<Longrightarrow> ends R (g x)) \<Longrightarrow> ends R (case v of None \<Rightarrow> f | Some x \<Rightarrow> g x)"
  by (cases v) auto

lemma ends_pair [calm_intros]: "(\<And>x y. p = (x, y) \<Longrightarrow> ends R (h x y)) \<Longrightarrow> ends R (case p of (x, y) \<Rightarrow> h x y)"
  by (cases p) simp

section \<open>The primitives\<close>

lemma calm_storeM:
  assumes "\<And>m. machine_wf m \<Longrightarrow> post in_range machine_wf (f m)"
    and "\<And>m m'. f m = Inr m' \<Longrightarrow> m_pc m' = m_pc m"
  shows "calm (storeM f)"
proof (rule endsI)
  fix m assume "machine_wf m"
  from assms(1) [OF this] assms(2) [of m] show
    "post ex_in_range (\<lambda>(x, m'). machine_wf m' \<and> m_pc m' = m_pc m) (storeM f m)"
    by (cases "f m") (auto simp: storeM_def)
qed

lemma write_reg_pc: "write_reg m bank idx v = Inr m' \<Longrightarrow> m_pc m' = m_pc m"
  by (auto simp: write_reg_def Let_def split: reg_bank.splits vm_value.splits if_splits)

lemma write_indexed_pc: "write_indexed m arg v n = Inr m' \<Longrightarrow> m_pc m' = m_pc m"
  by (auto simp: write_indexed_def bindE_Inr_iff split: operand.splits if_splits)

lemma m_write_pc: "m_write m arg v = Inr m' \<Longrightarrow> m_pc m' = m_pc m"
  by (auto simp: m_write_def dest: write_reg_pc write_indexed_pc split: operand.splits)

lemma swap_s_slice_pc: "swap_s_slice m base start n = Inr m' \<Longrightarrow> m_pc m' = m_pc m"
  by (auto simp: swap_s_slice_def bindE_Inr_iff Let_def split: if_splits)

lemma calm_writeM [calm_intros]: "operand_regs arg \<Longrightarrow> calm (writeM arg v)"
  unfolding writeM_def by (intro calm_storeM m_write_post) (auto dest: m_write_pc)

lemma calm_write_u32 [calm_intros]: "operand_regs arg \<Longrightarrow> calm (write_u32 arg v)"
  unfolding write_u32_def by (rule calm_writeM)

lemma calm_set_error [calm_intros]: "calm (set_error b)"
  by (simp add: ends_def set_error_def Let_def machine_wf_def)

lemma calm_m_read [calm_intros]: "operand_regs arg \<Longrightarrow> calm (queryM (\<lambda>m. m_read m arg))"
  by (intro calm_queryM m_read_post)

lemma calm_read_source [calm_intros]: "operand_regs arg \<Longrightarrow> calm (read_source arg)"
proof (rule endsI)
  fix m assume regs: "operand_regs arg" and wf: "machine_wf m"
  have e: "calm (thenM (set_error TRAP_BIT_UNMAPPED) (returnM (VBytes [])))"
    by (intro calm_intros refl)
  from m_read_post [OF wf regs] e wf show
    "post ex_in_range (\<lambda>(x, m'). machine_wf m' \<and> m_pc m' = m_pc m) (read_source arg m)"
    unfolding ends_def
    by (cases "m_read m arg") (auto simp: read_source_def split: machine_error.splits)
qed

lemma calm_write_indexed_dest [calm_intros]:
  "operand_regs arg \<Longrightarrow> calm (write_indexed_dest arg v n)"
proof (rule endsI)
  fix m assume regs: "operand_regs arg" and wf: "machine_wf m"
  from write_indexed_post [OF wf regs, of v n] calm_set_error [of TRAP_BIT_UNMAPPED] wf
  show "post ex_in_range (\<lambda>(x, m'). machine_wf m' \<and> m_pc m' = m_pc m) (write_indexed_dest arg v n m)"
    unfolding ends_def
    by (cases "write_indexed m arg v n")
      (auto simp: write_indexed_dest_def dest: write_indexed_pc split: machine_error.splits)
qed

lemma calm_reads [calm_intros]:
  assumes "operand_regs arg"
  shows "calm (read_int mn arg n)" "calm (read_float mn arg)" "calm (read_bytesM mn arg)"
    "calm (read_value_data mn arg)"
  unfolding read_int_def read_float_def read_bytesM_def read_value_data_def
  by (intro calm_intros assms; simp)+

lemma calm_read_string_op [calm_intros]: "operand_regs arg \<Longrightarrow> calm (read_string_op mn arg)"
  unfolding read_string_op_def by (intro calm_intros refl)

lemma calm_write_string [calm_intros]: "operand_regs arg \<Longrightarrow> calm (write_string arg t)"
  unfolding write_string_def by (rule calm_writeM)

lemma calm_write_second [calm_intros]: "operand_regs arg \<Longrightarrow> calm (write_second arg v n)"
  by (cases arg) (auto simp: write_second_def intro!: calm_intros)

lemma width_posts [calm_intros]:
  "post ex_in_range (\<lambda>_. True) (arg_width mn arg)"
  "post ex_in_range (\<lambda>_. True) (arith_arg0_len mn arg)"
  "post ex_in_range (\<lambda>_. True) (value_data_len nib arg mn)"
  by (auto simp: arith_arg0_len_def arg_width_def value_data_len_def
      split: operand.split reg_bank.split option.split)

lemma ok_or_post [calm_intros]: "ex_in_range e \<Longrightarrow> post ex_in_range (\<lambda>_. True) (ok_or x e)"
  by (simp add: post_ok_or split: option.split)

lemma calm_data_len [calm_intros]:
  assumes "operand_regs arg"
  shows "calm (data_len mn arg)"
proof -
  have "calm (bindM (queryM (\<lambda>m. m_read m arg)) (\<lambda>v.
      case v of VBytes bs \<Rightarrow> returnM (of_nat (length bs) :: u32) | _ \<Rightarrow> failM (InvalidOperand mn)))"
    by (intro calm_intros assms) simp_all
  then show ?thesis
    by (auto simp: data_len_def split: operand.split reg_bank.split intro!: calm_intros)
qed

lemma machine_wf_simps [simp]:
  "machine_wf (m\<lparr>m_pc := p\<rparr>) = machine_wf m" "machine_wf (m\<lparr>m_flags := f\<rparr>) = machine_wf m"
  "machine_wf (m\<lparr>m_data_stack := s\<rparr>) = machine_wf m" "machine_wf (m\<lparr>m_trap_mask := w\<rparr>) = machine_wf m"
  "machine_wf (m\<lparr>m_trap_bit := t\<rparr>) = machine_wf m"
  by (simp_all add: machine_wf_def)

lemma calm_modifyM [calm_intros]:
  "calm (modifyM (\<lambda>m. m\<lparr>m_data_stack := s m\<rparr>))" "calm (modifyM (\<lambda>m. m\<lparr>m_trap_mask := w\<rparr>))"
  "calm (modifyM (\<lambda>m. m\<lparr>m_trap_bit := t\<rparr>))"
  by (simp_all add: ends_def modifyM_def)

section \<open>The handlers on the machine\<close>

lemma handles_branch: "handles (branch mn i taken)"
  by (auto simp: branch_def thenM_def bindM_def modifyM_def returnM_def failM_def ends_def
      split: operand.split)

lemma handles_branch_if: "handles (branch_if mn p i)"
  unfolding branch_if_def by (intro calm_intros handles_branch)

text \<open>The instruction's operands name existing registers.\<close>

definition op_regs :: "op \<Rightarrow> bool" where
  "op_regs i \<longleftrightarrow> operand_regs (op_arg0 i) \<and> operand_regs (op_arg1 i)"

lemma op_regsD: "op_regs i \<Longrightarrow> operand_regs (op_arg0 i)" "op_regs i \<Longrightarrow> operand_regs (op_arg1 i)"
  by (simp_all add: op_regs_def)

lemma straight_op_move: "op_regs i \<Longrightarrow> straight (op_move i)"
  using op_regsD [of i]
  by (cases "op_arg0 i"; (rule reg_bank.exhaust)?)
    (auto simp: op_move_def intro!: calm_intros split: reg_bank.split)

lemma straight_op_swap: "op_regs i \<Longrightarrow> straight (op_swap i)"
  using op_regsD(1) [of i]
  by (auto simp: op_swap_def operand_regs_def
      intro!: calm_intros calm_storeM resolve_index_post swap_s_slice_post dest: swap_s_slice_pc
      split: operand.split option.split)

lemma straight_op_clear: "op_regs i \<Longrightarrow> straight (op_clear i)"
  using op_regsD(1) [of i] by (auto simp: op_clear_def intro!: calm_intros split: operand.split)

lemma straight_arith:
  assumes "op_regs i"
  shows "straight (op_comp i)" "straight (op_subb i)" "straight (op_mult i)" "straight (op_divs i)"
    "straight (op_bitwise mn f i)" "straight (op_not i)"
  unfolding op_comp_def op_subb_def op_mult_def op_divs_def op_bitwise_def op_not_def
  by (intro calm_intros op_regsD [OF assms]; simp)+

lemma straight_op_adds:
  assumes "op_regs i"
  shows "straight (op_adds i)"
proof -
  have "calm (case op_arg0 i of OpIndexed _ _ _ \<Rightarrow> write_indexed_dest (op_arg0 i) (VInt (ucast v)) 1
      | _ \<Rightarrow> write_u32 (op_arg0 i) v)" for v
    using op_regsD(1) [OF assms] by (auto intro!: calm_intros split: operand.split)
  then show ?thesis
    unfolding op_adds_def by (intro calm_intros op_regsD [OF assms]; simp)
qed

lemma straight_shift: "op_regs i \<Longrightarrow> straight (shift_frame mn c r i)"
  unfolding shift_frame_def by (intro calm_intros op_regsD; simp)

lemma calm_trap_detected [calm_intros]: "op_regs i \<Longrightarrow> calm (trap_detected i)"
  using op_regsD(2) [of i]
  by (auto simp: trap_detected_def intro!: calm_intros split: operand.split)

lemma straight_stack:
  assumes "op_regs i"
  shows "straight (op_gettmr i)" "straight (op_settmr i)" "straight (op_push i)" "straight (op_pop i)"
    "straight (op_atsp i)" "straight op_break" "straight (op_xsend i)"
  unfolding op_gettmr_def op_settmr_def op_push_def op_pop_def op_atsp_def op_break_def op_xsend_def
  by (intro calm_intros op_regsD [OF assms]; simp add: op_regsD [OF assms])+

lemmas straight_core = straight_op_move straight_op_swap straight_op_clear straight_arith straight_op_adds
  straight_shift straight_stack

lemma straight_floats:
  assumes "op_regs i"
  shows "straight (op_float_arith mn f i)" "straight (op_fcomp i)" "straight (op_a2flt i)"
    "straight (op_a2fix i)" "straight (op_fix2flt i)" "straight (op_flt2fix i)" "straight (op_flt2a env i)"
    "straight (op_a2y i)" "straight (op_hex2y i)" "straight (op_y2bcd i)" "straight (op_y2hex i)"
    "straight (op_y_to_flt mn i n)"
  unfolding op_float_arith_def op_fcomp_def op_a2flt_def op_a2fix_def op_fix2flt_def op_flt2fix_def
    op_flt2a_def op_a2y_def op_hex2y_def op_y2bcd_def op_y2hex_def op_y_to_flt_def
  by (intro calm_intros op_regsD [OF assms]; simp)+

lemma straight_op_fix2: "op_regs i \<Longrightarrow> straight (op_fix2 mn hex i)"
  unfolding op_fix2_def
  by (rule ends_bindM) (use op_regsD [of i] in \<open>auto intro!: calm_intros split: operand.split\<close>)

lemma calm_indexed_base_and_start:
  "operand_regs arg \<Longrightarrow> calm (indexed_base_and_start mn arg)"
  by (auto simp: indexed_base_and_start_def operand_regs_def ix_regs_def reg_ok_def
      intro!: calm_intros split: operand.split option.split index_arg.split)

lemma bindM_failM [simp]: "bindM (failM e) k = failM e"
  by (auto simp: bindM_def failM_def)

lemma bindM_returnM [simp]: "bindM (returnM x) k = k x"
  by (auto simp: bindM_def returnM_def)

lemma bindM_assoc: "bindM (bindM f g) k = bindM f (\<lambda>x. bindM (g x) k)"
proof
  fix m show "bindM (bindM f g) k m = bindM f (\<lambda>x. bindM (g x) k) m"
    by (cases "f m") (auto simp: bindM_def split: prod.split)
qed

text \<open>A buffer operation on an indexed operand names its base register.\<close>

lemma straight_indexed_base:
  assumes "operand_regs arg"
    and "\<And>base st. operand_regs (OpReg (rid_bank base) (rid_idx base)) \<Longrightarrow> straight (k (base, st))"
  shows "straight (bindM (indexed_base_and_start mn arg) k)"
proof (cases arg)
  case (OpIndexed base index len)
  then have r: "operand_regs (OpReg (rid_bank base) (rid_idx base))" "ix_regs index"
    using assms(1) by (simp_all add: operand_regs_def reg_ok_def)
  have ix: "calm (case index of IxImm v \<Rightarrow> returnM (ucast v)
      | IxReg r \<Rightarrow> read_value_data mn (OpReg (rid_bank r) (rid_idx r)))"
    using r(2) by (auto simp: ix_regs_def reg_ok_def operand_regs_def intro!: calm_intros split: index_arg.split)
  show ?thesis
    by (cases len)
      (auto simp: OpIndexed indexed_base_and_start_def bindM_assoc intro!: calm_intros ix assms(2) r(1))
qed (auto simp: indexed_base_and_start_def intro!: calm_intros)

lemma straight_buffers:
  assumes "op_regs i"
  shows "straight (op_scmp i)" "straight (op_scat i)" "straight (op_scut i)" "straight (op_slen i)"
    "straight (op_strcat i)" "straight (op_strcmp i)" "straight (op_strlen i)"
  unfolding op_scmp_def op_scat_def op_scut_def op_slen_def op_strcat_def op_strcmp_def op_strlen_def
  by (intro calm_intros op_regsD [OF assms]; simp)+

lemma straight_pastes:
  assumes "op_regs i"
  shows "straight (op_spaste i)" "straight (op_serase i)"
  unfolding op_spaste_def op_serase_def Let_def
  by (intro straight_indexed_base op_regsD [OF assms]; unfold prod.case fst_conv snd_conv;
      intro calm_intros op_regsD [OF assms]; simp)+

lemma straight_op_etag: "straight op_etag"
  unfolding op_etag_def by (intro calm_intros) simp

lemmas straight_data = straight_floats straight_op_fix2 straight_buffers straight_pastes

section \<open>The execution context\<close>

text \<open>
  A context between instructions: there is a current result set, no set before it is empty, the
  cursor is on a table of the file and on a row of that table.
\<close>

definition results_wf :: "result_set \<Rightarrow> bool" where
  "results_wf rs \<longleftrightarrow> rs \<noteq> [] \<and> [] \<notin> set (butlast rs)"

definition cursor_wf :: "exec_ctx \<Rightarrow> bool" where
  "cursor_wf ctx \<longleftrightarrow>
     pred_option (\<lambda>t. t < length (x_tables ctx)) (x_current_table ctx)
     \<and> pred_option (\<lambda>r. \<exists>table. current_table_opt ctx = Some table \<and> r < length (tbl_rows table))
         (x_current_row ctx)"

definition ctx_wf :: "exec_ctx \<Rightarrow> bool" where
  "ctx_wf ctx \<longleftrightarrow> results_wf (x_results ctx) \<and> cursor_wf ctx"

text \<open>The tables and arguments of a run never change.\<close>

definition ctx_step :: "exec_ctx \<Rightarrow> exec_ctx \<Rightarrow> bool" where
  "ctx_step ctx ctx' \<longleftrightarrow> ctx_wf ctx' \<and> x_tables ctx' = x_tables ctx \<and> x_args ctx' = x_args ctx"

lemma ctx_step_refl: "ctx_wf ctx \<Longrightarrow> ctx_step ctx ctx"
  by (simp add: ctx_step_def)

lemma results_wf_push: "results_wf rs \<Longrightarrow> results_wf (rs_push_named name v rs)"
  by (simp add: results_wf_def rs_push_named_def)

lemma results_wf_new_set: "results_wf rs \<Longrightarrow> rs_current rs \<noteq> [] \<Longrightarrow> results_wf (rs_new_set rs)"
  by (cases rs rule: rev_cases) (auto simp: results_wf_def rs_new_set_def rs_current_def butlast_append)

lemma current_table_opt_simps [simp]:
  "current_table_opt (ctx\<lparr>x_current_row := r\<rparr>) = current_table_opt ctx"
  "current_table_opt (ctx\<lparr>x_results := rs\<rparr>) = current_table_opt ctx"
  by (simp_all add: current_table_opt_def cong: option.case_cong)

lemma ctx_step_results:
  "ctx_wf ctx \<Longrightarrow> results_wf rs \<Longrightarrow> ctx_step ctx (ctx\<lparr>x_results := rs\<rparr>)"
  by (simp add: ctx_step_def ctx_wf_def cursor_wf_def)

lemma ctx_step_row:
  "ctx_wf ctx \<Longrightarrow> current_table_opt ctx = Some table \<Longrightarrow> r < length (tbl_rows table) \<Longrightarrow>
     ctx_step ctx (ctx\<lparr>x_current_row := Some r\<rparr>)"
  by (simp add: ctx_step_def ctx_wf_def cursor_wf_def)

lemma ctx_step_table:
  assumes "ctx_wf ctx" and "t < length (x_tables ctx)"
  shows "ctx_step ctx ((if x_current_table ctx \<noteq> Some t then ctx\<lparr>x_current_row := None\<rparr> else ctx)
    \<lparr>x_current_table := Some t\<rparr>)"
  using assms by (auto simp: ctx_step_def ctx_wf_def cursor_wf_def current_table_opt_def)

text \<open>A lookup that must succeed: what follows knows its result.\<close>

lemma ends_ok_or:
  "ex_in_range e \<Longrightarrow> (\<And>x. v = Some x \<Longrightarrow> ends R (k x)) \<Longrightarrow> ends R (bindM (liftM (ok_or v e)) k)"
  by (cases v) (auto simp: ends_def liftM_def bindM_def)

lemma contextual_selected:
  "(\<And>table. current_table_opt ctx = Some table \<Longrightarrow> ends R (k table)) \<Longrightarrow> ends R (bindM (selected_table ctx mn) k)"
  unfolding selected_table_def by (rule ends_ok_or) simp_all

lemma contextual_push_result [calm_intros]: "ctx_wf ctx \<Longrightarrow> contextual (ctx_step ctx) (push_result name v ctx)"
  unfolding push_result_def
  by (intro calm_intros) (simp add: ctx_step_results results_wf_push ctx_wf_def)

lemma contextual_erg_int:
  "op_regs i \<Longrightarrow> ctx_wf ctx \<Longrightarrow> contextual (ctx_step ctx) (op_erg_int mn n f i ctx)"
  unfolding op_erg_int_def by (intro calm_intros op_regsD)

lemma contextual_ergs:
  assumes "op_regs i" "ctx_wf ctx"
  shows "contextual (ctx_step ctx) (op_ergb i ctx)" "contextual (ctx_step ctx) (op_ergw i ctx)"
    "contextual (ctx_step ctx) (op_ergd i ctx)" "contextual (ctx_step ctx) (op_ergi i ctx)"
    "contextual (ctx_step ctx) (op_ergc i ctx)" "contextual (ctx_step ctx) (op_ergl i ctx)"
    "contextual (ctx_step ctx) (op_ergr i ctx)" "contextual (ctx_step ctx) (op_ergs i ctx)"
    "contextual (ctx_step ctx) (op_ergy i ctx)"
  unfolding op_ergb_def op_ergw_def op_ergd_def op_ergi_def op_ergc_def op_ergl_def
  using contextual_erg_int [OF assms]
  by (simp_all only:) (unfold op_ergr_def op_ergs_def op_ergy_def, (intro calm_intros op_regsD [OF assms(1)] assms(2))+)

lemma contextual_enewset: "ctx_wf ctx \<Longrightarrow> contextual (ctx_step ctx) (op_enewset ctx)"
  unfolding op_enewset_def
  by (intro calm_intros) (simp add: ctx_step_refl ctx_step_results results_wf_new_set ctx_wf_def)

lemma position_less: "position p xs = Some k \<Longrightarrow> k < length xs"
  by (simp add: position_Some)

lemma contextual_seek:
  assumes "ctx_wf ctx" and "current_table_opt ctx = Some table"
    and "\<And>r. hit = Some r \<Longrightarrow> r < length (tbl_rows table)"
  shows "contextual (ctx_step ctx) (seek_result mn (length (tbl_rows table)) hit ctx)"
  unfolding seek_result_def
  by (cases hit) (auto intro!: calm_intros ctx_step_row [OF assms(1,2)] dest: assms(3))

lemma contextual_tables:
  assumes "op_regs i" "ctx_wf ctx"
  shows "contextual (ctx_step ctx) (op_tabset i ctx)" "contextual (ctx_step ctx) (op_tabseek i ctx)"
    "contextual (ctx_step ctx) (op_tabseeku i ctx)" "contextual (ctx_step ctx) (op_tabline i ctx)"
proof -
  show "contextual (ctx_step ctx) (op_tabset i ctx)"
    unfolding op_tabset_def Let_def
    by (intro calm_intros op_regsD [OF assms(1)])
      (simp_all add: table_index_def ctx_step_table [OF assms(2) position_less] split del: if_split)
  show "contextual (ctx_step ctx) (op_tabseek i ctx)"
    unfolding op_tabseek_def
    by (intro contextual_selected contextual_seek assms(2) calm_intros op_regsD [OF assms(1)])
      (auto intro: position_less)
  show "contextual (ctx_step ctx) (op_tabseeku i ctx)"
    unfolding op_tabseeku_def
    by (intro contextual_selected contextual_seek assms(2) calm_intros op_regsD [OF assms(1)])
      (auto intro: position_less)
  show "contextual (ctx_step ctx) (op_tabline i ctx)"
    unfolding op_tabline_def Let_def
    by (intro contextual_selected calm_intros op_regsD [OF assms(1)])
      (auto simp: ctx_step_row [OF assms(2)] split: if_splits)
qed

lemma straight_readers:
  assumes "op_regs i"
  shows "straight (op_parl i ctx)" "straight (op_pars i ctx)" "straight (op_parr i ctx)" "straight (op_pary i ctx)"
    "straight (op_parn i ctx)" "straight (op_tabget i ctx)" "straight (op_tabcols i ctx)" "straight (op_tabrows i ctx)"
  unfolding op_parl_def op_pars_def op_parr_def op_pary_def op_parn_def op_tabget_def op_tabcols_def
    op_tabrows_def selected_table_def
  by (intro calm_intros op_regsD [OF assms]; simp)+

section \<open>The whole instruction\<close>

lemma pred_option_ifI: "(c \<Longrightarrow> pred_option P a) \<Longrightarrow> pred_option P b \<Longrightarrow> pred_option P (if c then a else b)"
  by simp

lemma pred_option_SomeI: "P x \<Longrightarrow> pred_option P (Some x)"
  by simp

lemma pred_option_NoneI: "pred_option P None"
  by simp

lemmas dispatch_intros = pred_option_ifI pred_option_SomeI pred_option_NoneI

text \<open>The opcodes that may branch: the jumps on flags, comparisons and traps.\<close>

definition branch_bytes :: "u8 list" where
  "branch_bytes = [0x0B, 0x0E, 0x0F, 0x10, 0x11, 0x12, 0x13, 0x14, 0x15, 0x47, 0x48,
     0x5A, 0x5B, 0x5C, 0x5D, 0x5E, 0x5F]"

definition settles :: "op \<Rightarrow> flow vm \<Rightarrow> bool" where
  "settles i h \<longleftrightarrow> handles h \<and> (op_byte i \<in> set branch_bytes \<or> straight h)"

lemma settles_straight: "straight h \<Longrightarrow> settles i h"
  using straight_handles by (auto simp: settles_def)

lemma settles_branches:
  assumes "op_byte i \<in> set branch_bytes"
  shows "settles i (branch mn i taken)" "settles i (branch_if mn p i)"
    "op_regs i \<Longrightarrow> settles i (bindM (trap_detected i) (\<lambda>t. branch mn i (f t)))"
  using assms by (simp_all add: settles_def handles_branch handles_branch_if ends_bindM calm_trap_detected)

lemma settles_machine_op:
  assumes "op_regs i"
  shows "pred_option (settles i) (machine_op env i)"
proof -
  note ops = straight_core [OF assms] straight_data [OF assms]
  show ?thesis
    unfolding machine_op_def Let_def op_asr_def op_lsr_def op_shift_left_def
    by (intro dispatch_intros ops [THEN settles_straight] straight_op_etag [THEN settles_straight]
          settles_branches assms)
      ((simp add: branch_bytes_def; fail)
        | (rule settles_straight, intro calm_intros op_regsD [OF assms]; simp))+
qed

lemma straight_reader_op: "op_regs i \<Longrightarrow> pred_option (\<lambda>h. straight (h ctx)) (reader_op i)"
  unfolding reader_op_def Let_def by (intro dispatch_intros straight_readers)

lemma contextual_context_op:
  "op_regs i \<Longrightarrow> ctx_wf ctx \<Longrightarrow> pred_option (\<lambda>h. contextual (ctx_step ctx) (h ctx)) (context_op i)"
  unfolding context_op_def Let_def
  by (intro dispatch_intros contextual_ergs contextual_enewset contextual_tables)

text \<open>What an instruction does to the program counter and the context, with its control flow.\<close>

definition step_rel :: "op \<Rightarrow> exec_ctx \<Rightarrow> nat \<Rightarrow> flow \<times> exec_ctx \<Rightarrow> nat \<Rightarrow> bool" where
  "step_rel i ctx p r q \<longleftrightarrow> flow_ok (fst r) \<and> ctx_step ctx (snd r)
     \<and> (q = p \<or> fst r = Jumped) \<and> (fst r = Jumped \<longrightarrow> op_byte i \<in> set branch_bytes)"

lemma ends_dispatch:
  assumes "op_regs i" and "ctx_wf ctx"
  shows "ends (step_rel i ctx) (dispatch env i ctx)"
proof (cases "machine_op env i")
  case (Some h)
  then have h: "settles i h" using settles_machine_op [OF assms(1), of env] by simp
  have d: "dispatch env i ctx = bindM h (\<lambda>fl. returnM (fl, ctx))" by (simp add: dispatch_def Some)
  show ?thesis
  proof (cases "op_byte i \<in> set branch_bytes")
    case True
    with h have "handles h" by (simp add: settles_def)
    from ends_lift [OF this, of ctx] show ?thesis
      unfolding d by (rule ends_mono) (auto simp: step_rel_def True ctx_step_refl assms(2))
  next
    case False
    with h have "straight h" by (simp add: settles_def)
    from ends_lift [OF this, of ctx] show ?thesis
      unfolding d by (rule ends_mono) (auto simp: step_rel_def ctx_step_refl assms(2))
  qed
next
  case None
  have r: "ends (step_rel i ctx) (bindM h (\<lambda>fl. returnM (fl, ctx)))" if "straight h" for h
    by (rule ends_mono [OF ends_lift [OF that, of ctx]]) (auto simp: step_rel_def ctx_step_refl assms(2))
  have c: "ends (step_rel i ctx) h" if "contextual (ctx_step ctx) h" for h
    by (rule ends_mono [OF that]) (auto simp: step_rel_def)
  show ?thesis
    using straight_reader_op [OF assms(1), of ctx] contextual_context_op [OF assms]
    by (cases "reader_op i"; cases "context_op i") (simp_all add: dispatch_def None r c ends_failM)
qed

lemma fold_increment_regs:
  assumes "machine_wf m" and "operand_regs arg"
  shows "post ex_in_range operand_regs (fold_increment m arg)"
proof (cases arg)
  case (OpIndexed base index len)
  then have r: "ix_regs index" "pred_option ix_regs len" "reg_ok base"
    using assms(2) by (simp_all add: operand_regs_def)
  show ?thesis
  proof (cases len)
    case (Some l)
    with resolve_index_post [OF assms(1) r(1)] resolve_index_post [OF assms(1), of l] r(2,3) OpIndexed
    show ?thesis
      by (cases "resolve_index m index"; cases "resolve_index m l")
        (auto simp: fold_increment_def operand_regs_def ix_regs_def)
  qed (use assms(2) OpIndexed in \<open>simp add: fold_increment_def\<close>)
qed (use assms(2) in \<open>simp_all add: fold_increment_def\<close>)

lemma fold_index_regs:
  assumes "machine_wf m" and "op_regs i"
  shows "post ex_in_range op_regs (fold_index_increments m i)"
proof -
  note f = fold_increment_regs [OF assms(1)]
  show ?thesis
    using f [OF op_regsD(1) [OF assms(2)]] f [OF op_regsD(2) [OF assms(2)]] assms(2)
    by (cases "fold_increment m (op_arg0 i)"; cases "fold_increment m (op_arg1 i)")
      (auto simp: fold_index_increments_def op_regs_def)
qed

lemma fold_index_byte: "fold_index_increments m i = Inr i' \<Longrightarrow> op_byte i' = op_byte i"
  by (auto simp: fold_index_increments_def bindE_Inr_iff split: if_splits)

lemma step_post:
  assumes "op_regs i" and "machine_wf m" and "ctx_wf ctx"
  shows "post ex_in_range (\<lambda>(r, m'). machine_wf m' \<and> step_rel i ctx (op_offset i + op_len i) r (m_pc m'))
    (step env i ctx m)"
proof -
  let ?m = "m\<lparr>m_pc := op_offset i + op_len i\<rparr>"
  have wf: "machine_wf ?m" using assms(2) by simp
  show ?thesis
  proof (cases "fold_index_increments ?m i")
    case (Inl e)
    with fold_index_regs [OF wf assms(1)] show ?thesis by (simp add: step_def Let_def)
  next
    case (Inr i')
    with fold_index_regs [OF wf assms(1)] have i': "op_regs i'" by simp
    have "step_rel i' ctx = step_rel i ctx"
      by (intro ext) (simp add: step_rel_def fold_index_byte [OF Inr])
    with endsD [OF ends_dispatch [OF i' assms(3)] wf, of env] Inr show ?thesis
      by (simp add: step_def Let_def)
  qed
qed

lemma op_ok_regs: "op_ok code i \<Longrightarrow> op_regs i"
  by (simp add: op_ok_def op_regs_def operand_ok_regs)

lemma ctx_wf_start:
  "ctx_wf \<lparr>x_results = rs_new, x_args = args, x_tables = tables, x_current_table = None, x_current_row = None\<rparr>"
  by (simp add: ctx_wf_def results_wf_def cursor_wf_def rs_new_def)

text \<open>
  C18. One instruction is safe. An instruction the decoder accepted, run on a well-formed machine
  and context, never names a register that does not exist: it ends with some other error, or in
  a well-formed machine and context with the tables and arguments of the run unchanged. Unless
  it is one of the branch opcodes and branches, the program counter is then the offset right
  behind it, and a result set left behind is not empty and the cursor is on a row of the
  current table.
\<close>
theorem step_safe:
  assumes "op_ok code i" and "machine_wf m" and "ctx_wf ctx"
  shows "case step env i ctx m of
      Inl e \<Rightarrow> \<forall>bank idx. e \<noteq> ExMachine (OutOfRange bank idx)
    | Inr ((fl, ctx'), m') \<Rightarrow>
        machine_wf m' \<and> ctx_wf ctx' \<and> x_tables ctx' = x_tables ctx \<and> x_args ctx' = x_args ctx
        \<and> (if fl = Jumped then op_byte i \<in> set branch_bytes else m_pc m' = op_offset i + op_len i)"
  using step_post [OF op_ok_regs [OF assms(1)] assms(2,3), of env]
  by (auto simp: post_def step_rel_def ctx_step_def split: sum.splits)

theorem step_safe_witness:
  "\<forall>env. \<exists>m'. step env \<lparr>op_byte = 0x0B, op_mode_byte = 0x70, op_arg0 = OpImm 4, op_arg1 = OpNone,
       op_len = 6, op_offset = 0\<rparr>
     \<lparr>x_results = rs_new, x_args = [], x_tables = [], x_current_table = None, x_current_row = None\<rparr> machine_new
     = Inr ((Jumped, \<lparr>x_results = rs_new, x_args = [], x_tables = [], x_current_table = None,
         x_current_row = None\<rparr>), m') \<and> m_pc m' = 10 \<and> machine_wf m'"
proof
  fix env
  let ?i = "\<lparr>op_byte = 0x0B, op_mode_byte = 0x70, op_arg0 = OpImm 4, op_arg1 = OpNone, op_len = 6, op_offset = 0\<rparr>"
  let ?ctx = "\<lparr>x_results = rs_new, x_args = [], x_tables = [], x_current_table = None, x_current_row = None\<rparr>"
  have i: "op_ok [0x0B, 0x70, 4, 0, 0, 0] ?i"
    by (simp add: op_ok_def operand_ok_def unimplemented_bytes_def)
  have s: "step env ?i ?ctx machine_new = Inr ((Jumped, ?ctx), machine_new\<lparr>m_pc := 10\<rparr>)"
    by (simp add: step_def fold_index_increments_def dispatch_def machine_op_def branch_def thenM_def bindM_def
        modifyM_def returnM_def machine_new_def)
  from step_safe [OF i machine_wf_new ctx_wf_start [of "[]" "[]"], of env] s show
    "\<exists>m'. step env ?i ?ctx machine_new = Inr ((Jumped, ?ctx), m') \<and> m_pc m' = 10 \<and> machine_wf m'"
    by simp
qed

end
