(* ===== verification/Best_Telegram.thy ===== *)
theory Best_Telegram
  imports Prelude
begin

text \<open>
  The BMW-FAST telegram codec of \<open>crates/best/src/telegram.rs\<close>: the three length forms, the
  additive checksum, the strict and the checksum-lenient decoder and the peek at the service
  byte the gate classifies by. Telegram lengths are \<open>usize\<close> values of at most 65542, kept as
  naturals; the debug-only precondition of \<open>encode\<close> (at most 65535 payload bytes) is a
  hypothesis where it matters.
\<close>

record telegram =
  tel_target :: u8
  tel_source :: u8
  tel_uds :: bytes

datatype telegram_error =
    TelTooShort
  | TelBadLength nat nat              \<comment> \<open>declared, actual\<close>
  | TelBadChecksum u8 u8              \<comment> \<open>expected, found\<close>

definition checksum :: "bytes \<Rightarrow> u8" where
  "checksum bs = fold (\<lambda>b sum. sum + b) bs 0"

text \<open>The three branches of \<open>encode\<close> that push the header, by the payload length \<open>n\<close>.\<close>

definition telegram_header :: "u8 \<Rightarrow> u8 \<Rightarrow> nat \<Rightarrow> bytes" where
  "telegram_header target source n =
     (if n \<le> 0x3F then [0x80 OR of_nat (n AND 0x3F), target, source]
      else if n \<le> 0xFF then [0x80, target, source, of_nat (n AND 0xFF)]
      else [0x80, target, source, 0x00, of_nat (drop_bit 8 n AND 0xFF), of_nat (n AND 0xFF)])"

definition telegram_encode :: "u8 \<Rightarrow> u8 \<Rightarrow> bytes \<Rightarrow> bytes" where
  "telegram_encode target source uds =
     (let frame = telegram_header target source (length uds) @ uds
      in frame @ [checksum frame])"

definition header_and_length :: "bytes \<Rightarrow> telegram_error + nat \<times> nat" where
  "header_and_length frame =
     bindE (ok_or (nth_opt frame 0) TelTooShort) (\<lambda>fmt.
     let short_len = unat (fmt AND 0x3F) in
     if short_len \<noteq> 0 then Inr (3, short_len + 3)
     else
       bindE (ok_or (nth_opt frame 3) TelTooShort) (\<lambda>len_byte.
       if len_byte = 0 then
         bindE (ok_or (nth_opt frame 4) TelTooShort) (\<lambda>hi.
         bindE (ok_or (nth_opt frame 5) TelTooShort) (\<lambda>lo.
         Inr (6, push_bit 8 (unat hi) + unat lo + 6)))
       else Inr (4, unat len_byte + 4)))"

text \<open>\<open>frame[data_offset..tel_length]\<close>, with the two address bytes.\<close>

definition telegram_slice :: "bytes \<Rightarrow> nat \<Rightarrow> nat \<Rightarrow> telegram" where
  "telegram_slice frame data_offset tel_length =
     \<lparr>tel_target = frame ! 1, tel_source = frame ! 2,
      tel_uds = take (tel_length - data_offset) (drop data_offset frame)\<rparr>"

definition telegram_decode :: "bytes \<Rightarrow> telegram_error + telegram" where
  "telegram_decode frame =
     bindE (header_and_length frame) (\<lambda>(data_offset, tel_length).
     let full_len = tel_length + 1 in
     if length frame < full_len then Inl (TelBadLength full_len (length frame))
     else
       let expected = checksum (take tel_length frame);
           found = frame ! tel_length
       in if expected \<noteq> found then Inl (TelBadChecksum expected found)
          else Inr (telegram_slice frame data_offset tel_length))"

definition decode_request :: "bytes \<Rightarrow> telegram_error + telegram" where
  "decode_request frame =
     bindE (header_and_length frame) (\<lambda>(data_offset, tel_length).
     if length frame < tel_length then Inl (TelBadLength tel_length (length frame))
     else Inr (telegram_slice frame data_offset tel_length))"

definition peek_sid :: "bytes \<Rightarrow> u8 option" where
  "peek_sid frame =
     (case header_and_length frame of
        Inl _ \<Rightarrow> None
      | Inr (data_offset, _) \<Rightarrow> nth_opt frame data_offset)"

section \<open>The checksum\<close>

lemma fold_add_acc: "fold (\<lambda>b sum. sum + b) bs (a :: u8) = a + checksum bs"
proof (induction bs arbitrary: a)
  case Nil
  then show ?case by (simp add: checksum_def)
next
  case (Cons b bs)
  show ?case using Cons [of "a + b"] Cons [of b] by (simp add: checksum_def add.assoc)
qed

lemma checksum_simps [simp]:
  "checksum [] = 0"
  "checksum (b # bs) = b + checksum bs"
  using fold_add_acc [of bs b] by (simp_all add: checksum_def)

lemma checksum_append [simp]: "checksum (xs @ ys) = checksum xs + checksum ys"
  by (induction xs) (simp_all add: add.assoc)

lemma checksum_update:
  "k < length bs \<Longrightarrow> checksum (bs[k := b]) = checksum bs - bs ! k + b"
proof (induction bs arbitrary: k)
  case Nil
  then show ?case by simp
next
  case (Cons x xs)
  then show ?case by (cases k) (simp_all add: algebra_simps)
qed

section \<open>The length header\<close>

lemma header_and_length_bounds:
  assumes "header_and_length frame = Inr (off, len)"
  shows "3 \<le> off \<and> off \<le> len \<and> 4 \<le> len \<and> off \<le> 6 \<and> len \<le> off + 65535 \<and> (off \<noteq> 6 \<longrightarrow> off < len)"
proof -
  have u: "unat (b :: u8) < 256" for b using unsigned_less [of b] by simp
  have pos: "b \<noteq> 0 \<Longrightarrow> 0 < unat b" for b :: u8 by (simp add: unat_gt_0)
  show ?thesis
    using assms u [of "frame ! 3"] u [of "frame ! 4"] u [of "frame ! 5"]
      u [of "(frame ! 0) AND 0x3F"] pos [of "frame ! 3"]
    by (auto simp: header_and_length_def bindE_Inr_iff ok_or_def Let_def nth_opt_def push_bit_eq_mult
        split: option.splits if_splits)
qed

lemma and_3F: "(w :: u8) AND 0x3F = take_bit 6 w"
  by (simp add: take_bit_eq_mask mask_eq_exp_minus_1)

lemma short_fmt:
  assumes "n \<le> 0x3F"
  shows "unat ((0x80 OR of_nat (n AND 0x3F) :: u8) AND 0x3F) = n"
proof -
  have n: "n AND 63 = n"
    using assms take_bit_nat_eq_self [of n 6] by (simp add: take_bit_eq_mask mask_eq_exp_minus_1)
  have "(0x80 OR of_nat n :: u8) AND 0x3F = take_bit 6 (of_nat n)"
    by (simp add: bit.conj_disj_distrib2 and_3F)
  also have "unat \<dots> = n"
    using assms by (simp add: unsigned_take_bit_eq unat_of_nat take_bit_nat_eq_self)
  finally show ?thesis by (simp add: n)
qed

lemma nat_and_FF: "(n :: nat) AND 0xFF = n mod 256"
  using take_bit_eq_mask [of 8 n] by (simp add: mask_eq_exp_minus_1 take_bit_eq_mod)

lemma length_telegram_header:
  "length (telegram_header t s n) = (if n \<le> 0x3F then 3 else if n \<le> 0xFF then 4 else 6)"
  by (simp add: telegram_header_def)

text \<open>The header declares what it was built from, except for the length zero.\<close>

lemma header_and_length_header:
  assumes "0 < n" "n \<le> 65535"
  shows "header_and_length (telegram_header t s n @ rest)
    = Inr (length (telegram_header t s n), length (telegram_header t s n) + n)"
proof -
  consider "n \<le> 63" | "63 < n" "n \<le> 255" | "255 < n" by linarith
  then show ?thesis
  proof cases
    case 1
    then show ?thesis
      using short_fmt [of n] assms(1) by (simp add: telegram_header_def header_and_length_def Let_def)
  next
    case 2
    then have "n AND 255 = n" by (simp add: nat_and_FF)
    moreover have "unat (word_of_nat n :: u8) = n" using 2 by (simp add: unat_of_nat)
    ultimately show ?thesis
      using 2 by (auto simp: telegram_header_def header_and_length_def Let_def dest: arg_cong [where f = unat])
  next
    case 3
    have "drop_bit 8 n AND 255 = n div 256"
      using assms(2) by (simp add: nat_and_FF drop_bit_eq_div less_mult_imp_div_less)
    moreover have "unat (word_of_nat (n div 256) :: u8) = n div 256"
      using assms(2) by (simp add: unat_of_nat less_mult_imp_div_less)
    moreover have "unat (word_of_nat (n mod 256) :: u8) = n mod 256"
      by (simp add: unat_of_nat)
    ultimately show ?thesis
      using 3 by (simp add: telegram_header_def header_and_length_def Let_def nat_and_FF push_bit_eq_mult)
  qed
qed

lemma telegram_header_addresses [simp]:
  "(telegram_header t s n @ rest) ! 1 = t" "(telegram_header t s n @ rest) ! 2 = s"
  "(telegram_header t s n @ rest) ! Suc 0 = t"
  by (simp_all add: telegram_header_def)

lemma telegram_slice_header:
  "telegram_slice (telegram_header t s n @ uds @ rest) (length (telegram_header t s n))
     (length (telegram_header t s n) + length uds) = \<lparr>tel_target = t, tel_source = s, tel_uds = uds\<rparr>"
  by (simp add: telegram_slice_def)

lemma telegram_decode_frame:
  assumes "0 < length uds" "length uds \<le> 65535"
  shows "telegram_decode (telegram_header t s (length uds) @ uds @ [c]) =
    (let e = checksum (telegram_header t s (length uds) @ uds)
     in if e \<noteq> c then Inl (TelBadChecksum e c)
        else Inr \<lparr>tel_target = t, tel_source = s, tel_uds = uds\<rparr>)"
proof -
  let ?h = "telegram_header t s (length uds)"
  have "(?h @ uds @ [c]) ! (length ?h + length uds) = c"
    by (metis append.assoc length_append nth_append_length)
  then show ?thesis
    using telegram_slice_header [of t s "length uds" uds "[c]"]
    by (simp add: telegram_decode_def header_and_length_header [OF assms] Let_def)
qed

lemma decode_request_frame:
  assumes "0 < length uds" "length uds \<le> 65535"
  shows "decode_request (telegram_header t s (length uds) @ uds @ rest)
    = Inr \<lparr>tel_target = t, tel_source = s, tel_uds = uds\<rparr>"
  using telegram_slice_header [of t s "length uds" uds rest]
  by (simp add: decode_request_def header_and_length_header [OF assms])

lemma telegram_decode_encode_empty:
  "\<exists>e. telegram_decode (telegram_encode t s []) = Inl e"
proof -
  have u: "unat (b :: u8) < 256" for b using unsigned_less [of b] by simp
  have "b \<noteq> 0 \<Longrightarrow> 0 < unat b" for b :: u8 by (simp add: unat_gt_0)
  then show ?thesis
    by (auto simp: telegram_encode_def telegram_header_def telegram_decode_def header_and_length_def
        Let_def)
qed

lemma telegram_decode_encode:
  "uds \<noteq> [] \<Longrightarrow> length uds \<le> 65535 \<Longrightarrow>
     telegram_decode (telegram_encode t s uds) = Inr \<lparr>tel_target = t, tel_source = s, tel_uds = uds\<rparr>"
  using telegram_decode_frame [of uds t s] by (simp add: telegram_encode_def Let_def)

text \<open>
  The telegram codec round trip, exact: for every payload the format can carry, decoding
  what \<open>encode\<close> built gives the addresses and the payload back if and only if the payload is not
  empty. An empty payload gets a format byte whose length bits are zero, which the decoder
  reads as the mark of a long form, and is never decoded.
\<close>
theorem telegram_roundtrip:
  assumes "length uds \<le> 65535"
  shows "telegram_decode (telegram_encode t s uds) = Inr \<lparr>tel_target = t, tel_source = s, tel_uds = uds\<rparr>
     \<longleftrightarrow> uds \<noteq> []"
proof (cases "uds = []")
  case True
  then show ?thesis using telegram_decode_encode_empty [of t s] by auto
next
  case False
  with telegram_decode_encode [of uds t s] assms show ?thesis by simp
qed

theorem telegram_roundtrip_witness:
  "telegram_decode (telegram_encode 0x12 0xF1 [0x22, 0x45, 0x17])
     = Inr \<lparr>tel_target = 0x12, tel_source = 0xF1, tel_uds = [0x22, 0x45, 0x17]\<rparr>
   \<and> telegram_decode (telegram_encode 0x12 0xF1 [])
     \<noteq> Inr \<lparr>tel_target = 0x12, tel_source = 0xF1, tel_uds = []\<rparr>"
  using telegram_roundtrip [of "[0x22, 0x45, 0x17]" "0x12" "0xF1"] telegram_roundtrip [of "[]" "0x12" "0xF1"]
  by simp

text \<open>
  The additive checksum catches every corruption of a single payload byte: replace one byte
  of the payload of a telegram by a different one and the decoder reports a bad checksum.
\<close>
theorem telegram_checksum_detects:
  assumes "length uds \<le> 65535" and "k < length uds" and "b \<noteq> uds ! k"
    and frame: "frame = telegram_encode t s uds"
  shows "\<exists>expected found. telegram_decode (frame[length frame - 1 - length uds + k := b])
     = Inl (TelBadChecksum expected found)"
proof -
  let ?h = "telegram_header t s (length uds)"
  let ?c = "checksum (?h @ uds)"
  have f: "frame = ?h @ uds @ [?c]" by (simp add: frame telegram_encode_def Let_def)
  then have len: "length frame = length ?h + length uds + 1" by simp
  have upd: "frame[length frame - 1 - length uds + k := b] = ?h @ uds[k := b] @ [?c]"
    unfolding len using assms(2) by (simp add: f list_update_append)
  have ne: "checksum (?h @ uds[k := b]) = ?c - uds ! k + b"
    using assms(2) by (simp add: checksum_update)
  have "?c - uds ! k + b \<noteq> ?c" using assms(3) by simp
  moreover have "0 < length (uds[k := b])" using assms(2) by auto
  ultimately show ?thesis
    using telegram_decode_frame [of "uds[k := b]" t s ?c] assms(1) ne
    unfolding upd by (simp add: Let_def)
qed

theorem telegram_checksum_detects_witness:
  "\<exists>expected found. telegram_decode [0x82, 0x12, 0xF1, 0x22, 0x46, 0xEC]
     = Inl (TelBadChecksum expected found)"
proof -
  have "telegram_encode 0x12 0xF1 [0x22, 0x45] = [0x82, 0x12, 0xF1, 0x22, 0x45, 0xEC]" by code_simp
  then show ?thesis
    using telegram_checksum_detects [of "[0x22, 0x45]" 1 "0x46" _ "0x12" "0xF1"] by simp
qed

lemma peek_sid_decode_request:
  assumes "decode_request frame = Inr tel"
  shows "(tel_uds tel \<noteq> [] \<and> peek_sid frame = Some (hd (tel_uds tel)))
     \<or> (tel_uds tel = [] \<and> header_and_length frame = Inr (6, 6))"
proof -
  obtain off len where h: "header_and_length frame = Inr (off, len)"
    and l: "len \<le> length frame" and tel: "tel = telegram_slice frame off len"
    using assms by (auto simp: decode_request_def bindE_Inr_iff split: if_splits)
  note b = header_and_length_bounds [OF h]
  show ?thesis
  proof (cases "off < len")
    case True
    then have "off < length frame" using l by simp
    then obtain x xs where "drop off frame = x # xs" "frame ! off = x"
      by (metis Cons_nth_drop_Suc)
    with True l h \<open>off < length frame\<close> show ?thesis
      by (auto simp: tel telegram_slice_def peek_sid_def nth_opt_def take_Cons')
  next
    case False
    with b have "off = 6" "len = 6" by auto
    then show ?thesis by (simp add: tel telegram_slice_def h)
  qed
qed

text \<open>
  What the gate classifies is what the bridge sends: when the request decoder accepts a
  telegram, its service byte is the byte \<open>peek_sid\<close> returned, unless the decoded payload is
  empty (a long form that declares length zero), where the peeked byte is one the decoder
  leaves out.
\<close>
theorem peek_agrees_with_decode:
  assumes "decode_request frame = Inr tel"
  shows "(tel_uds tel \<noteq> [] \<and> peek_sid frame = Some (hd (tel_uds tel)))
     \<or> (tel_uds tel = [] \<and> header_and_length frame = Inr (6, 6))"
  using peek_sid_decode_request [OF assms] .

theorem peek_agrees_with_decode_witness:
  "decode_request [0x83, 0x12, 0xF1, 0x22, 0x45, 0x17]
     = Inr \<lparr>tel_target = 0x12, tel_source = 0xF1, tel_uds = [0x22, 0x45, 0x17]\<rparr>
   \<and> peek_sid [0x83, 0x12, 0xF1, 0x22, 0x45, 0x17] = Some 0x22"
proof -
  have d: "decode_request [0x83, 0x12, 0xF1, 0x22, 0x45, 0x17]
     = Inr \<lparr>tel_target = 0x12, tel_source = 0xF1, tel_uds = [0x22, 0x45, 0x17]\<rparr>" by code_simp
  with peek_agrees_with_decode [OF d] show ?thesis by simp
qed

end
