(* ===== verification/Best_Exchange.thy ===== *)
theory Best_Exchange
  imports Best_Telegram
begin

text \<open>
  The exchange stack a BEST/2 job transmits through: \<open>crates/best/src/exchange.rs\<close> (the
  \<open>UdsExchange\<close> seam and its offline mock), \<open>bridge.rs\<close> (telegrams onto bare UDS) and \<open>gate.rs\<close>
  (the service gate, the outermost layer). An \<open>async fn request(&self, ..)\<close> is a function that
  also takes and returns the state \<open>'s\<close> of what is behind it, the car included; each layer
  awaits the inner one before it goes on, so the calls of one stack are sequential.
\<close>

datatype exchange_error =
    Unexpected bytes
  | Refused u8 bytes                  \<comment> \<open>sid, frame\<close>
  | Transport ustring

type_synonym 's exchange = "u8 \<Rightarrow> bytes \<Rightarrow> 's \<Rightarrow> (exchange_error + bytes) \<times> 's"

section \<open>The offline mock\<close>

type_synonym mock_exchange = "bytes \<rightharpoonup> bytes"

definition mock_new :: mock_exchange where
  "mock_new = Map.empty"

definition mock_on :: "mock_exchange \<Rightarrow> bytes \<Rightarrow> bytes \<Rightarrow> mock_exchange" where
  "mock_on m request response = m(request \<mapsto> response)"

definition mock_request :: "mock_exchange \<Rightarrow> 's exchange" where
  "mock_request m target uds s = (ok_or (m uds) (Unexpected uds), s)"

section \<open>The bridge\<close>

definition telegram_request :: "'s exchange \<Rightarrow> 's exchange" where
  "telegram_request call target frame s =
     (case decode_request frame of
        Inl _ \<Rightarrow> (Inl (Unexpected frame), s)
      | Inr decoded \<Rightarrow>
          if tel_target decoded \<noteq> target then (Inl (Unexpected frame), s)
          else (case call target (tel_uds decoded) s of
                  (Inl e, s') \<Rightarrow> (Inl e, s')
                | (Inr response, s') \<Rightarrow> (Inr (telegram_encode 0xF1 target response), s')))"

section \<open>The gate\<close>

datatype policy = ReadOnly | ConfirmedWrite

datatype sid_class = Pass | Gated | RefuseAlways

definition classify :: "u8 \<Rightarrow> sid_class" where
  "classify sid =
     (if sid = 0x10 \<or> sid = 0x3E \<or> sid = 0x22 \<or> sid = 0x2C \<or> sid = 0x19 then Pass
      else if 0x34 \<le> sid \<and> sid \<le> 0x37 then RefuseAlways
      else Gated)"

definition gated_request :: "policy \<Rightarrow> 's exchange \<Rightarrow> 's exchange" where
  "gated_request policy inner target frame s =
     (case peek_sid frame of
        None \<Rightarrow> (Inl (Unexpected frame), s)
      | Some sid \<Rightarrow>
          (case (policy, classify sid) of
             (_, RefuseAlways) \<Rightarrow> (Inl (Refused sid frame), s)
           | (_, Pass) \<Rightarrow> inner target frame s
           | (ConfirmedWrite, Gated) \<Rightarrow> inner target frame s
           | (ReadOnly, Gated) \<Rightarrow> (Inl (Refused sid frame), s)))"

text \<open>The live stack: the gate around the bridge around a bare transport.\<close>

definition live_request :: "policy \<Rightarrow> 's exchange \<Rightarrow> 's exchange" where
  "live_request policy call = gated_request policy (telegram_request call)"

section \<open>What the layers promise\<close>

text \<open>
  What a policy admits, from the text of the specification: the session plumbing and the reads
  under \<open>ReadOnly\<close>, everything but flashing under \<open>ConfirmedWrite\<close>.
\<close>

definition policy_admits :: "policy \<Rightarrow> u8 \<Rightarrow> bool" where
  "policy_admits policy sid \<longleftrightarrow>
     (case policy of
        ReadOnly \<Rightarrow> sid \<in> {0x10, 0x3E, 0x22, 0x2C, 0x19}
      | ConfirmedWrite \<Rightarrow> sid \<notin> {0x34, 0x35, 0x36, 0x37})"

text \<open>What a policy lets a bare transport see: an empty payload or an admitted service.\<close>

definition policy_payload :: "policy \<Rightarrow> bytes \<Rightarrow> bool" where
  "policy_payload policy uds \<longleftrightarrow> uds = [] \<or> policy_admits policy (hd uds)"

lemma u8_flashing: "0x34 \<le> sid \<and> sid \<le> 0x37 \<longleftrightarrow> sid \<in> {0x34, 0x35, 0x36, 0x37 :: u8}"
proof
  assume "0x34 \<le> sid \<and> sid \<le> 0x37"
  then have "0x34 \<le> unat sid" "unat sid \<le> 0x37" by (simp_all add: word_le_nat_alt)
  then have "unat sid \<in> {0x34, 0x35, 0x36, 0x37}" by auto
  then have "unat sid = unat (0x34 :: u8) \<or> unat sid = unat (0x35 :: u8)
      \<or> unat sid = unat (0x36 :: u8) \<or> unat sid = unat (0x37 :: u8)" by auto
  then show "sid \<in> {0x34, 0x35, 0x36, 0x37}" by (simp only: word_unat_eq_iff [symmetric]) auto
qed auto

lemma gated_request_cases:
  "gated_request policy inner target frame s =
     (case peek_sid frame of
        None \<Rightarrow> (Inl (Unexpected frame), s)
      | Some sid \<Rightarrow> if policy_admits policy sid then inner target frame s
                   else (Inl (Refused sid frame), s))"
  using u8_flashing
  by (auto simp: gated_request_def policy_admits_def classify_def
      split: option.split policy.split sid_class.split)

text \<open>
  The contract of an exchange: an invariant of the world behind it that no request breaks,
  whatever the frame is. Its clients are the runs of the engine.
\<close>

locale uds_exchange =
  fixes request :: "u8 \<Rightarrow> bytes \<Rightarrow> 's \<Rightarrow> (exchange_error + bytes) \<times> 's"
    and inv :: "'s \<Rightarrow> bool"
  assumes request_keeps: "inv s \<Longrightarrow> inv (snd (request target frame s))"

text \<open>
  The contract of a bare transport: the invariant is kept by the calls whose payload is
  acceptable. Wrapped by the bridge and the gate it becomes an exchange, if the policy admits
  only acceptable payloads.
\<close>

locale gated_transport =
  fixes call :: "u8 \<Rightarrow> bytes \<Rightarrow> 's \<Rightarrow> (exchange_error + bytes) \<times> 's"
    and inv :: "'s \<Rightarrow> bool"
    and policy :: policy
  assumes call_keeps: "inv s \<Longrightarrow> policy_payload policy uds \<Longrightarrow> inv (snd (call target uds s))"
begin

lemma bridge_keeps:
  assumes "inv s" and "peek_sid frame = Some sid" and "policy_admits policy sid"
  shows "inv (snd (telegram_request call target frame s))"
proof (cases "decode_request frame")
  case (Inl e)
  with assms(1) show ?thesis by (simp add: telegram_request_def)
next
  case (Inr tel)
  have "policy_payload policy (tel_uds tel)"
    using peek_sid_decode_request [OF Inr] assms(2,3) by (auto simp: policy_payload_def)
  from call_keeps [OF assms(1) this] Inr assms(1) show ?thesis
    by (auto simp: telegram_request_def split: prod.split sum.split) (metis snd_conv)+
qed

lemma gate_keeps: "inv s \<Longrightarrow> inv (snd (live_request policy call target frame s))"
  by (auto simp: live_request_def gated_request_cases bridge_keeps split: option.split)

end

sublocale gated_transport \<subseteq> uds_exchange "live_request policy call" inv
  by unfold_locales (rule gate_keeps)

section \<open>The instrumented transport\<close>

text \<open>
  Any bare transport, with a record of what reached it: the target and the payload of each
  call, in order.
\<close>

definition logged :: "'s exchange \<Rightarrow> ((u8 \<times> bytes) list \<times> 's) exchange" where
  "logged call target uds ls =
     (case ls of (log, s) \<Rightarrow>
        case call target uds s of (r, s') \<Rightarrow> (r, (log @ [(target, uds)], s')))"

definition log_admitted :: "policy \<Rightarrow> (u8 \<times> bytes) list \<times> 's \<Rightarrow> bool" where
  "log_admitted policy ls \<longleftrightarrow> list_all (\<lambda>(target, uds). policy_payload policy uds) (fst ls)"

interpretation live: gated_transport "logged call" "log_admitted policy" policy for call policy
  by unfold_locales (auto simp: logged_def log_admitted_def split: prod.split)

text \<open>The requests of a job, one after the other, the answers ignored.\<close>

definition request_all :: "'s exchange \<Rightarrow> (u8 \<times> bytes) list \<Rightarrow> 's \<Rightarrow> 's" where
  "request_all request reqs s = fold (\<lambda>(target, frame) s. snd (request target frame s)) reqs s"

context uds_exchange
begin

lemma request_all_keeps: "inv s \<Longrightarrow> inv (request_all request reqs s)"
  by (induction reqs arbitrary: s) (auto simp: request_all_def request_keeps)

end

lemma policy_payload_flashing:
  "policy_payload policy uds \<Longrightarrow> uds = [] \<or> hd uds \<notin> {0x34, 0x35, 0x36, 0x37}"
  by (auto simp: policy_payload_def policy_admits_def split: policy.splits)

text \<open>
  The gate is exact: a frame without a service byte is an error, a service the policy does
  not admit is refused with the state behind the gate untouched, and an admitted one is
  handed to the inner exchange unchanged. Flashing is admitted by no policy.
\<close>
theorem gate_exact:
  "gated_request policy inner target frame s =
     (case peek_sid frame of
        None \<Rightarrow> (Inl (Unexpected frame), s)
      | Some sid \<Rightarrow> if policy_admits policy sid then inner target frame s
                   else (Inl (Refused sid frame), s))
   \<and> list_all (\<lambda>sid. \<not> policy_admits policy sid) [0x34, 0x35, 0x36, 0x37]"
  by (simp add: gated_request_cases) (simp add: policy_admits_def split: policy.split)

text \<open>
  End to end through the live stack, whatever frames a job builds, in whatever number and
  order, and whatever the car answers: every payload that reached the bare transport is
  empty or starts with a service the policy admits, and no flashing service ever reaches it.
\<close>
theorem live_stack_safe:
  "let log = fst (request_all (live_request policy (logged call)) reqs ([], s)) in
     list_all (\<lambda>(target, uds). policy_payload policy uds) log
     \<and> filter (\<lambda>(target, uds). uds \<noteq> [] \<and> hd uds \<in> {0x34, 0x35, 0x36, 0x37}) log = []"
proof -
  have l: "log_admitted policy (request_all (live_request policy (logged call)) reqs ([], s))"
    by (rule live.request_all_keeps) (simp add: log_admitted_def)
  show ?thesis
    using policy_payload_flashing l
    by (fastforce simp: Let_def log_admitted_def filter_empty_conv list_all_iff)
qed

text \<open>
  The bridge is faithful in both directions: for the telegram a job builds for the ECU
  \<open>target\<close>, with or without its checksum byte, the transport is called once with exactly that
  ECU and payload, and a non-empty answer comes back as a telegram that decodes to it,
  addressed to the tester \<open>0xF1\<close> from that ECU. A telegram addressed elsewhere is an error and
  is not sent.
\<close>
theorem bridge_faithful:
  assumes "uds \<noteq> []" and "length uds \<le> 65535"
    and frame: "frame = telegram_header target source (length uds) @ uds @ rest"
    and call: "call target uds s = (r, s')"
  shows "telegram_request call target frame s = (map_sum id (telegram_encode 0xF1 target) r, s')
    \<and> (other = target \<or> telegram_request call other frame s = (Inl (Unexpected frame), s))
    \<and> (\<forall>response. r = Inr response \<and> response \<noteq> [] \<and> length response \<le> 65535 \<longrightarrow>
         telegram_decode (telegram_encode 0xF1 target response)
           = Inr \<lparr>tel_target = 0xF1, tel_source = target, tel_uds = response\<rparr>)"
proof -
  have d: "decode_request frame = Inr \<lparr>tel_target = target, tel_source = source, tel_uds = uds\<rparr>"
    unfolding frame using assms(1,2) by (intro decode_request_frame) auto
  show ?thesis
    using call by (auto simp: telegram_request_def d telegram_decode_encode split: sum.split)
qed

theorem bridge_faithful_witness:
  "telegram_request (\<lambda>t u n. (Inr (0x62 # u), n + 1)) 0x12 [0x82, 0x12, 0xF1, 0x22, 0x45] (0 :: nat)
     = (Inr [0x83, 0xF1, 0x12, 0x62, 0x22, 0x45, 0x4F], 1)"
proof -
  have f: "[0x82, 0x12, 0xF1, 0x22, 0x45] = telegram_header 0x12 0xF1 (length [0x22, 0x45 :: u8]) @ [0x22, 0x45] @ []"
    by code_simp
  have e: "telegram_encode 0xF1 0x12 [0x62, 0x22, 0x45] = [0x83, 0xF1, 0x12, 0x62, 0x22, 0x45, 0x4F]"
    by code_simp
  let ?call = "\<lambda>t u n. (Inr (0x62 # u), n + 1) :: (exchange_error + bytes) \<times> nat"
  have c: "?call 0x12 [0x22, 0x45] 0 = (Inr [0x62, 0x22, 0x45], 1)" by simp
  from bridge_faithful [where call = ?call and s = 0, OF _ _ f c, of 0] e show ?thesis by simp
qed

text \<open>
  The mock answers exactly what was registered last for a request, whatever the target, and
  an unregistered request is an error that carries it.
\<close>
theorem mock_exact:
  "mock_request (mock_on m request response) target uds s =
     (if uds = request then (Inr response, s) else mock_request m target uds s)
   \<and> mock_request mock_new target uds s = (Inl (Unexpected uds), s)"
  by (simp add: mock_request_def mock_on_def mock_new_def)

end
