(* ===== verification/Best_Engine.thy ===== *)
theory Best_Engine
  imports Best_Invariant Best_Exchange
begin

text \<open>
  The job engine, \<open>crates/best/src/engine.rs\<close>: decoding a job of a container and running it to its
  result sets, with the exchange and the pause between two instructions. The exchange is a
  function of the world behind it (see \<open>Best_Exchange\<close>), and so is \<open>tokio::time::sleep\<close>. The loop
  over \<open>0..MAX_INSTRUCTIONS\<close> is a recursion on the iterations left.
\<close>

definition MAX_INSTRUCTIONS :: nat where "MAX_INSTRUCTIONS = 2000000"

datatype run_error =
    JobNotFound ustring
  | RunDecode decode_error
  | RunExec exec_error
  | RunExchange exchange_error
  | RunSgbd sgbd_error
  | BadPc nat
  | LoopBound nat

section \<open>The run loop\<close>

text \<open>\<open>Offset \<rightarrow> index\<close>: a later instruction at the same offset would replace an earlier one.\<close>

definition op_index :: "op list \<Rightarrow> nat \<Rightarrow> op option" where
  "op_index ops = map_of (rev (map (\<lambda>i. (op_offset i, i)) ops))"

record 's run =
  r_machine :: machine
  r_ctx :: exec_ctx
  r_world :: 's

text \<open>What an iteration leaves: an error, the end of the job, or the state to go on with.\<close>

datatype 's progress =
    Failed run_error 's
  | Finished result_set 's
  | Running "'s run"

definition write_response :: "operand \<Rightarrow> bytes \<Rightarrow> machine \<Rightarrow> exec_ctx \<Rightarrow> 's \<Rightarrow> 's progress" where
  "write_response dest response m ctx s =
     (case m_write m dest (VBytes response) of
        Inl e \<Rightarrow> Failed (RunExec (ExMachine e)) s
      | Inr m' \<Rightarrow> Running \<lparr>r_machine = m', r_ctx = ctx, r_world = s\<rparr>)"

definition do_exchange ::
  "'s exchange \<Rightarrow> u8 \<Rightarrow> bytes \<Rightarrow> operand \<Rightarrow> machine \<Rightarrow> exec_ctx \<Rightarrow> 's \<Rightarrow> 's progress" where
  "do_exchange call target request dest m ctx s =
     (case call target request s of
        (Inr response, s') \<Rightarrow> write_response dest response m ctx s'
      | (Inl e, s') \<Rightarrow>
          (case set_error TRAP_BIT_NO_RESPONSE m of
             Inl _ \<Rightarrow> Failed (RunExchange e) s'
           | Inr (_, m') \<Rightarrow> write_response dest [] m' ctx s'))"

definition iterate ::
  "float_env \<Rightarrow> 's exchange \<Rightarrow> (u32 \<Rightarrow> 's \<Rightarrow> 's) \<Rightarrow> u8 \<Rightarrow> op list \<Rightarrow> 's run \<Rightarrow> 's progress" where
  "iterate env call sleep target ops st =
     (let m = r_machine st; s = r_world st in
      case op_index ops (m_pc m) of
        None \<Rightarrow> Failed (BadPc (m_pc m)) s
      | Some i \<Rightarrow>
          (case step env i (r_ctx st) m of
             Inl e \<Rightarrow> Failed (RunExec e) s
           | Inr ((fl, ctx), m') \<Rightarrow>
               (case fl of
                  Next \<Rightarrow> Running \<lparr>r_machine = m', r_ctx = ctx, r_world = s\<rparr>
                | Jumped \<Rightarrow> Running \<lparr>r_machine = m', r_ctx = ctx, r_world = s\<rparr>
                | EndOfJob \<Rightarrow> Finished (x_results ctx) s
                | Exchange request dest \<Rightarrow> do_exchange call target request dest m' ctx s
                | Wait seconds \<Rightarrow> Running \<lparr>r_machine = m', r_ctx = ctx, r_world = sleep seconds s\<rparr>)))"

fun run_loop ::
  "nat \<Rightarrow> float_env \<Rightarrow> 's exchange \<Rightarrow> (u32 \<Rightarrow> 's \<Rightarrow> 's) \<Rightarrow> u8 \<Rightarrow> op list \<Rightarrow> 's run
     \<Rightarrow> (run_error + result_set) \<times> 's" where
  "run_loop 0 env call sleep target ops st = (Inl (LoopBound MAX_INSTRUCTIONS), r_world st)"
| "run_loop (Suc n) env call sleep target ops st =
     (case iterate env call sleep target ops st of
        Failed e s \<Rightarrow> (Inl e, s)
      | Finished rs s \<Rightarrow> (Inr rs, s)
      | Running st' \<Rightarrow> run_loop n env call sleep target ops st')"

definition start_run :: "prg \<Rightarrow> bytes \<Rightarrow> 's \<Rightarrow> 's run" where
  "start_run p args s =
     \<lparr>r_machine = machine_new,
      r_ctx = \<lparr>x_results = rs_new, x_args = args, x_tables = prg_tables p,
               x_current_table = None, x_current_row = None\<rparr>,
      r_world = s\<rparr>"

definition run_job ::
  "float_env \<Rightarrow> prg \<Rightarrow> ustring \<Rightarrow> u8 \<Rightarrow> bytes \<Rightarrow> 's exchange \<Rightarrow> (u32 \<Rightarrow> 's \<Rightarrow> 's) \<Rightarrow> 's
     \<Rightarrow> (run_error + result_set) \<times> 's" where
  "run_job env p name target args call sleep s =
     (case prg_job_bytecode p name of
        None \<Rightarrow> (Inl (JobNotFound name), s)
      | Some code \<Rightarrow>
          (case decode_job code of
             Inl e \<Rightarrow> (Inl (RunDecode e), s)
           | Inr ops \<Rightarrow> run_loop MAX_INSTRUCTIONS env call sleep target ops (start_run p args s)))"

text \<open>\<open>Ecu::open\<close> after the file is read: parse it, or report the container's error.\<close>

definition ecu_open :: "bytes \<Rightarrow> run_error + prg" where
  "ecu_open file = map_err RunSgbd (prg_parse file)"


section \<open>What every iteration keeps\<close>

definition run_ok :: "table list \<Rightarrow> bytes \<Rightarrow> 's run \<Rightarrow> bool" where
  "run_ok tables args st \<longleftrightarrow> machine_wf (r_machine st) \<and> ctx_wf (r_ctx st)
     \<and> x_tables (r_ctx st) = tables \<and> x_args (r_ctx st) = args"

definition loop_error :: "run_error \<Rightarrow> bool" where
  "loop_error e \<longleftrightarrow>
     (case e of RunExec x \<Rightarrow> ex_in_range x | RunExchange _ \<Rightarrow> True | BadPc _ \<Rightarrow> True | _ \<Rightarrow> False)"

definition progress_ok :: "table list \<Rightarrow> bytes \<Rightarrow> 's progress \<Rightarrow> bool" where
  "progress_ok tables args r \<longleftrightarrow>
     (case r of
        Failed e _ \<Rightarrow> loop_error e
      | Finished rs _ \<Rightarrow> results_wf rs
      | Running st \<Rightarrow> run_ok tables args st)"

lemma op_index_set: "op_index ops pc = Some i \<Longrightarrow> i \<in> set ops \<and> op_offset i = pc"
  unfolding op_index_def by (drule map_of_SomeD) auto

lemma write_response_ok:
  assumes "machine_wf m" "ctx_wf ctx" "operand_regs dest"
  shows "progress_ok (x_tables ctx) (x_args ctx) (write_response dest response m ctx s)"
  using m_write_post [OF assms(1,3), of "VBytes response"] assms(2)
  by (auto simp: write_response_def progress_ok_def loop_error_def run_ok_def split: sum.split)

lemma set_error_wf: "set_error b m = Inr (u, m') \<Longrightarrow> machine_wf m \<Longrightarrow> machine_wf m'"
  by (auto simp: set_error_def Let_def split: if_splits)

lemma do_exchange_ok:
  assumes "machine_wf m" "ctx_wf ctx" "operand_regs dest"
  shows "progress_ok (x_tables ctx) (x_args ctx) (do_exchange call target request dest m ctx s)"
  using write_response_ok [OF assms] write_response_ok [OF set_error_wf [OF _ assms(1)] assms(2,3)]
  by (auto simp: do_exchange_def split: prod.split sum.split) (auto simp: progress_ok_def loop_error_def)

lemma iterate_ok:
  assumes ops: "list_all op_regs ops" and st: "run_ok tables args st"
  shows "progress_ok tables args (iterate env call sleep target ops st)"
proof (cases "op_index ops (m_pc (r_machine st))")
  case None
  then show ?thesis by (simp add: iterate_def Let_def progress_ok_def loop_error_def)
next
  case (Some i)
  have i: "op_regs i" using op_index_set [OF Some] ops by (auto simp: list_all_iff)
  have wf: "machine_wf (r_machine st)" "ctx_wf (r_ctx st)" using st by (auto simp: run_ok_def)
  note post = step_post [OF i wf, of env]
  show ?thesis
  proof (cases "step env i (r_ctx st) (r_machine st)")
    case (Inl e)
    with post Some show ?thesis by (simp add: iterate_def Let_def progress_ok_def loop_error_def)
  next
    case (Inr res)
    obtain fl ctx m' where r: "res = ((fl, ctx), m')" by (metis prod.exhaust)
    have w: "machine_wf m'" "flow_ok fl" "ctx_wf ctx" "x_tables ctx = tables" "x_args ctx = args"
      using post st unfolding Inr r by (auto simp: step_rel_def ctx_step_def run_ok_def)
    show ?thesis
    proof (cases fl)
      case (Exchange request dest)
      with do_exchange_ok [OF w(1,3), of dest call target request "r_world st"] w Inr r Some
      show ?thesis by (simp add: iterate_def Let_def)
    qed (use w Inr r Some in \<open>simp_all add: iterate_def Let_def progress_ok_def run_ok_def ctx_wf_def\<close>)
  qed
qed

lemma run_loop_ok:
  assumes "list_all op_regs ops" and "run_ok tables args st"
  shows "case fst (run_loop n env call sleep target ops st) of
      Inl e \<Rightarrow> loop_error e \<or> e = LoopBound MAX_INSTRUCTIONS
    | Inr rs \<Rightarrow> results_wf rs"
  using assms(2)
proof (induction n arbitrary: st)
  case (Suc n)
  with iterate_ok [OF assms(1) Suc.prems, of env call sleep target] show ?case
    by (auto simp: progress_ok_def split: progress.split)
qed simp

lemma run_ok_start: "run_ok (prg_tables p) args (start_run p args s)"
  by (simp add: run_ok_def start_run_def ctx_wf_start)

lemma decode_job_regs: "decode_job code = Inr ops \<Longrightarrow> list_all op_regs ops"
  using decode_job_ops [of code ops] decodes_contiguous [of code 0 ops]
  by (auto simp: list_all_iff op_ok_regs)

text \<open>
  C23. The errors of a run. Whatever the container, the job name, the arguments and the answers of
  the car: the job is missing exactly when the container has no code under that name, decoding
  fails exactly when that code does not decode, and otherwise the run ends with its result sets,
  of which none but the last is empty, or with an executor, exchange, program-counter or bound
  error; no run ever names a register the machine does not have.
\<close>
theorem run_job_outcome:
  "let r = fst (run_job env p name target args call sleep s) in
     (case prg_job_bytecode p name of
        None \<Rightarrow> r = Inl (JobNotFound name)
      | Some code \<Rightarrow>
          (case decode_job code of
             Inl e \<Rightarrow> r = Inl (RunDecode e)
           | Inr ops \<Rightarrow>
               (case r of
                  Inr rs \<Rightarrow> rs \<noteq> [] \<and> [] \<notin> set (butlast rs)
                | Inl (RunExec e) \<Rightarrow> \<not> (\<exists>bank idx. e = ExMachine (OutOfRange bank idx))
                | Inl e \<Rightarrow> (\<exists>x. e = RunExchange x) \<or> (\<exists>pc. e = BadPc pc) \<or> e = LoopBound 2000000)))"
proof (cases "prg_job_bytecode p name")
  case (Some code)
  show ?thesis
  proof (cases "decode_job code")
    case (Inr ops)
    define r where "r = fst (run_loop MAX_INSTRUCTIONS env call sleep target ops (start_run p args s))"
    have "case r of Inl e \<Rightarrow> loop_error e \<or> e = LoopBound MAX_INSTRUCTIONS | Inr rs \<Rightarrow> results_wf rs"
      unfolding r_def by (rule run_loop_ok [OF decode_job_regs [OF Inr] run_ok_start])
    then have "case r of Inr rs \<Rightarrow> rs \<noteq> [] \<and> [] \<notin> set (butlast rs)
        | Inl (RunExec e) \<Rightarrow> \<not> (\<exists>bank idx. e = ExMachine (OutOfRange bank idx))
        | Inl e \<Rightarrow> (\<exists>x. e = RunExchange x) \<or> (\<exists>pc. e = BadPc pc) \<or> e = LoopBound 2000000"
      by (cases r; cases "projl r") (auto simp: loop_error_def MAX_INSTRUCTIONS_def results_wf_def)
    then show ?thesis
      by (simp only: run_job_def Some Inr option.case sum.case Let_def r_def [symmetric])
  qed (simp add: run_job_def Some)
qed (simp add: run_job_def)

section \<open>What every run keeps of the world\<close>

context uds_exchange
begin

lemma iterate_world:
  assumes "\<And>n s. inv s \<Longrightarrow> inv (sleep n s)" and "inv (r_world st)"
  shows "case iterate env request sleep target ops st of
      Failed e s \<Rightarrow> inv s | Finished rs s \<Rightarrow> inv s | Running st' \<Rightarrow> inv (r_world st')"
proof -
  have w: "case write_response dest response m ctx s of
      Failed e s \<Rightarrow> inv s | Finished rs s \<Rightarrow> inv s | Running st' \<Rightarrow> inv (r_world st')"
    if "inv s" for dest response m ctx s
    using that by (auto simp: write_response_def split: sum.split)
  have x: "case do_exchange request target frame dest m ctx (r_world st) of
      Failed e s \<Rightarrow> inv s | Finished rs s \<Rightarrow> inv s | Running st' \<Rightarrow> inv (r_world st')"
    for frame dest m ctx
    using request_keeps [OF assms(2), of target frame]
    by (cases "request target frame (r_world st)")
      (auto simp: do_exchange_def w split: sum.split)
  show ?thesis
    using assms x by (auto simp: iterate_def Let_def split: option.split sum.split flow.split)
qed

lemma run_loop_world:
  assumes "\<And>n s. inv s \<Longrightarrow> inv (sleep n s)" and "inv (r_world st)"
  shows "inv (snd (run_loop n env request sleep target ops st))"
  using assms(2)
proof (induction n arbitrary: st)
  case (Suc n)
  with iterate_world [where sleep = sleep, OF assms(1) Suc.prems, of env target ops] show ?case
    by (cases "iterate env request sleep target ops st") auto
qed simp

lemma run_job_world:
  assumes "\<And>n s. inv s \<Longrightarrow> inv (sleep n s)" and "inv s"
  shows "inv (snd (run_job env p name target args request sleep s))"
  using assms(2) run_loop_world [where sleep = sleep, OF assms(1), of "start_run p args s"]
  by (auto simp: run_job_def start_run_def split: option.split sum.split)

end

text \<open>
  C5. The safety of running a job on a car. Whatever the container, its bytecode, the arguments and
  the answers, running a job through the gate and the bridge sends the transport only empty
  payloads or services the policy admits, and never a flashing service.
\<close>
theorem run_job_gated:
  "let log = fst (snd (run_job env p name target args (live_request policy (logged call))
       (\<lambda>n (log, s). (log, sleep n s)) ([], s))) in
     list_all (\<lambda>(t, uds). policy_payload policy uds) log
     \<and> filter (\<lambda>(t, uds). uds \<noteq> [] \<and> hd uds \<in> {0x34, 0x35, 0x36, 0x37}) log = []"
proof -
  have l: "log_admitted policy (snd (run_job env p name target args (live_request policy (logged call))
       (\<lambda>n (log, s). (log, sleep n s)) ([], s)))"
    by (rule live.run_job_world) (auto simp: log_admitted_def)
  show ?thesis
    using policy_payload_flashing l
    by (fastforce simp: Let_def log_admitted_def filter_empty_conv list_all_iff)
qed

section \<open>The bound\<close>

text \<open>
  The unbounded semantics of a job: \<open>run_steps k st st'\<close> if \<open>k\<close> iterations from \<open>st\<close> all go on and
  reach \<open>st'\<close>.
\<close>

inductive run_steps ::
  "float_env \<Rightarrow> 's exchange \<Rightarrow> (u32 \<Rightarrow> 's \<Rightarrow> 's) \<Rightarrow> u8 \<Rightarrow> op list \<Rightarrow> nat \<Rightarrow> 's run \<Rightarrow> 's run \<Rightarrow> bool"
  for env call sleep target ops where
  stay: "run_steps env call sleep target ops 0 st st"
| go_on: "iterate env call sleep target ops st = Running st1 \<Longrightarrow>
     run_steps env call sleep target ops k st1 st2 \<Longrightarrow>
     run_steps env call sleep target ops (Suc k) st st2"

inductive_cases run_steps_0E: "run_steps env call sleep target ops 0 st st2"
inductive_cases run_steps_SucE: "run_steps env call sleep target ops (Suc k) st st2"
inductive_simps run_steps_0: "run_steps env call sleep target ops 0 st st2"
inductive_simps run_steps_Suc: "run_steps env call sleep target ops (Suc k) st st2"

lemma run_steps_det:
  "run_steps env call sleep target ops k st st1 \<Longrightarrow> run_steps env call sleep target ops k st st2 \<Longrightarrow> st1 = st2"
  by (induction rule: run_steps.induct) (auto simp: run_steps_0 run_steps_Suc)

lemma iterate_not_bound [simp]: "iterate env call sleep target ops st \<noteq> Failed (LoopBound n) s"
  by (auto simp: iterate_def Let_def do_exchange_def write_response_def
      split: option.split sum.split flow.split prod.split)

text \<open>How a bounded run relates to the unbounded one.\<close>

lemma run_loop_bound:
  "run_loop n env call sleep target ops st = (Inl (LoopBound MAX_INSTRUCTIONS), s) \<longleftrightarrow>
     (\<exists>st'. run_steps env call sleep target ops n st st' \<and> r_world st' = s)"
proof (induction n arbitrary: st)
  case (Suc n)
  then show ?case
    by (cases "iterate env call sleep target ops st") (auto simp: run_steps_Suc)
qed (auto simp: run_steps_0)

lemma run_loop_finished:
  "run_loop n env call sleep target ops st = (Inr rs, s) \<longleftrightarrow>
     (\<exists>k < n. \<exists>st'. run_steps env call sleep target ops k st st'
        \<and> iterate env call sleep target ops st' = Finished rs s)"
proof (induction n arbitrary: st)
  case (Suc n)
  have split: "(\<exists>k < Suc n. P k) \<longleftrightarrow> P 0 \<or> (\<exists>k < n. P (Suc k))" for P :: "nat \<Rightarrow> bool"
    by (metis less_Suc_eq_0_disj)
  show ?case
    unfolding split
    by (cases "iterate env call sleep target ops st") (auto simp: run_steps_0 run_steps_Suc Suc.IH)
qed simp

lemma run_loop_failed:
  assumes "e \<noteq> LoopBound MAX_INSTRUCTIONS"
  shows "run_loop n env call sleep target ops st = (Inl e, s) \<longleftrightarrow>
     (\<exists>k < n. \<exists>st'. run_steps env call sleep target ops k st st'
        \<and> iterate env call sleep target ops st' = Failed e s)"
proof (induction n arbitrary: st)
  case (Suc n)
  have split: "(\<exists>k < Suc n. P k) \<longleftrightarrow> P 0 \<or> (\<exists>k < n. P (Suc k))" for P :: "nat \<Rightarrow> bool"
    by (metis less_Suc_eq_0_disj)
  show ?case
    unfolding split
    by (cases "iterate env call sleep target ops st") (auto simp: run_steps_0 run_steps_Suc Suc.IH)
qed (use assms in simp)

text \<open>
  C13. The run loop against its unbounded meaning. For a job that decodes, the run returns results
  exactly when the unbounded execution from the fresh machine reaches its \<open>eoj\<close> within the first
  2000000 instructions, with the results and the world it has there; and it reports the bound
  exactly when all of the first 2000000 instructions go on.
\<close>
theorem run_job_refines:
  assumes "prg_job_bytecode p name = Some code" and "decode_job code = Inr ops"
  shows "(run_job env p name target args call sleep s = (Inr rs, s') \<longleftrightarrow>
       (\<exists>k < 2000000. \<exists>st. run_steps env call sleep target ops k (start_run p args s) st
          \<and> iterate env call sleep target ops st = Finished rs s'))
    \<and> (run_job env p name target args call sleep s = (Inl (LoopBound 2000000), s') \<longleftrightarrow>
       (\<exists>st. run_steps env call sleep target ops 2000000 (start_run p args s) st \<and> r_world st = s'))"
proof -
  let ?st = "start_run p args s"
  have j: "run_job env p name target args call sleep s
      = run_loop MAX_INSTRUCTIONS env call sleep target ops ?st"
    by (simp add: run_job_def assms)
  show ?thesis
    unfolding j run_loop_bound [of MAX_INSTRUCTIONS, unfolded MAX_INSTRUCTIONS_def, symmetric]
      run_loop_finished [of MAX_INSTRUCTIONS, unfolded MAX_INSTRUCTIONS_def, symmetric]
    by (simp add: MAX_INSTRUCTIONS_def)
qed

text \<open>The smallest container of a job that ends at once, for the witnesses.\<close>

definition tiny_prg :: prg where
  "tiny_prg = \<lparr>prg_tables = [], prg_jobs = [ustr ''J''], prg_deob = [0x1D, 0x00],
     prg_job_offsets = [(ustr ''J'', 0)]\<rparr>"

definition eoj_op :: op where
  "eoj_op = \<lparr>op_byte = 0x1D, op_mode_byte = 0, op_arg0 = OpNone, op_arg1 = OpNone, op_len = 2, op_offset = 0\<rparr>"

lemma tiny_prg_code: "prg_job_bytecode tiny_prg (ustr ''J'') = Some [0x1D, 0x00]"
  by code_simp

lemma tiny_prg_ops: "decode_job [0x1D, 0x00] = Inr [eoj_op]"
  by code_simp

lemma step_eoj:
  "fold_index_increments (m\<lparr>m_pc := op_offset i + op_len i\<rparr>) i = Inr i' \<Longrightarrow> op_byte i = 0x1D \<Longrightarrow>
     step env i ctx m = Inr ((EndOfJob, ctx), m\<lparr>m_pc := op_offset i + op_len i\<rparr>)"
  using fold_index_byte [of _ i i']
  by (simp add: step_def Let_def dispatch_def machine_op_def bindM_def returnM_def)

lemma iterate_tiny:
  "iterate env call sleep target [eoj_op] (start_run p args s) = Finished rs_new s"
  by (simp add: iterate_def op_index_def start_run_def machine_new_def eoj_op_def
      step_eoj fold_index_increments_def Let_def)

theorem run_job_refines_witness:
  "\<forall>env. run_job env tiny_prg (ustr ''J'') 0x12 [] (mock_request mock_new) (\<lambda>_ s. s) () = (Inr [[]], ())"
proof
  fix env
  have "run_steps env (mock_request mock_new) (\<lambda>_ s. s) 0x12 [eoj_op] 0 (start_run tiny_prg [] ()) (start_run tiny_prg [] ())"
    by (rule stay)
  with iterate_tiny [of env "mock_request mock_new" "\<lambda>_ s. s" "0x12" tiny_prg "[]" "()"]
  show "run_job env tiny_prg (ustr ''J'') 0x12 [] (mock_request mock_new) (\<lambda>_ s. s) () = (Inr [[]], ())"
    by (intro run_job_refines [OF tiny_prg_code tiny_prg_ops, THEN conjunct1, THEN iffD2] exI [of _ 0]
        exI [of _ "start_run tiny_prg [] ()"] conjI)
      (simp_all add: rs_new_def)
qed

section \<open>Jobs without branches\<close>

lemma contiguous_append:
  "contiguous pos (xs @ ys) \<longleftrightarrow> contiguous pos xs \<and> contiguous (ops_end pos xs) ys"
  by (induction xs arbitrary: pos) auto

lemma contiguous_offset_ge: "contiguous pos ops \<Longrightarrow> i \<in> set ops \<Longrightarrow> pos \<le> op_offset i"
  by (induction ops arbitrary: pos) (auto dest: add_leD1)

lemma contiguous_offset_less:
  "contiguous pos ops \<Longrightarrow> i \<in> set ops \<Longrightarrow> 0 < op_len i \<Longrightarrow> op_offset i < ops_end pos ops"
  by (induction ops arbitrary: pos) (auto simp: ops_end_def, fastforce)

text \<open>The instruction at the program counter is the one of the list that starts there.\<close>

lemma op_index_at:
  assumes "contiguous 0 (pre @ i # rest)" and "\<forall>j \<in> set (pre @ i # rest). 0 < op_len j"
  shows "op_index (pre @ i # rest) (op_offset i) = Some i"
proof -
  have c: "op_offset i = ops_end 0 pre" "contiguous (ops_end 0 pre + op_len i) rest"
    using assms(1) by (auto simp: contiguous_append)
  have rest: "op_offset j \<noteq> op_offset i" if "j \<in> set rest" for j
    using contiguous_offset_ge [OF c(2) that] c(1) assms(2) by auto
  then have "map_of (rev (map (\<lambda>i. (op_offset i, i)) rest)) (op_offset i) = None"
    by (auto simp: map_of_eq_None_iff dest!: sym [of "op_offset i"])
  then show ?thesis by (simp add: op_index_def map_add_def)
qed

text \<open>A straight instruction leaves the loop at the next offset, or ends it.\<close>

definition pc_next :: "op \<Rightarrow> 's progress \<Rightarrow> bool" where
  "pc_next i r \<longleftrightarrow>
     (case r of
        Failed e _ \<Rightarrow> (\<exists>x. e = RunExec x) \<or> (\<exists>x. e = RunExchange x)
      | Finished _ _ \<Rightarrow> True
      | Running st \<Rightarrow> m_pc (r_machine st) = op_offset i + op_len i \<and> op_byte i \<noteq> 0x1D)"

lemma set_error_pc: "set_error b m = Inr (u, m') \<Longrightarrow> m_pc m' = m_pc m"
  by (auto simp: set_error_def Let_def split: if_splits)

lemma write_response_pc:
  "m_pc m = op_offset i + op_len i \<Longrightarrow> op_byte i \<noteq> 0x1D \<Longrightarrow> pc_next i (write_response dest response m ctx s)"
  by (auto simp: write_response_def pc_next_def dest: m_write_pc split: sum.split)

lemma do_exchange_pc:
  "m_pc m = op_offset i + op_len i \<Longrightarrow> op_byte i \<noteq> 0x1D \<Longrightarrow>
     pc_next i (do_exchange call target request dest m ctx s)"
  by (auto simp: do_exchange_def write_response_pc dest!: set_error_pc split: prod.split sum.split)
    (simp_all add: pc_next_def write_response_pc)

lemma iterate_straight:
  assumes i: "op_index ops (m_pc (r_machine st)) = Some i" "op_regs i" "op_byte i \<notin> set branch_bytes"
    and st: "run_ok tables args st"
  shows "pc_next i (iterate env call sleep target ops st)"
proof -
  let ?m = "r_machine st" and ?ctx = "r_ctx st"
  have wf: "machine_wf ?m" "ctx_wf ?ctx" using st by (auto simp: run_ok_def)
  show ?thesis
  proof (cases "step env i ?ctx ?m")
    case (Inl e)
    then show ?thesis by (simp add: iterate_def i(1) Let_def pc_next_def)
  next
    case (Inr res)
    obtain fl ctx m' where r: "res = ((fl, ctx), m')" by (metis prod.exhaust)
    have pc: "m_pc m' = op_offset i + op_len i" "fl \<noteq> Jumped"
      using step_post [OF i(2) wf, of env] i(3) unfolding Inr r by (auto simp: step_rel_def)
    have eoj: "op_byte i = 0x1D \<Longrightarrow> fl = EndOfJob"
      using Inr r step_eoj [where m = ?m and i = i] by (cases "fold_index_increments (?m\<lparr>m_pc := op_offset i + op_len i\<rparr>) i")
        (auto simp: step_def Let_def)
    have it: "iterate env call sleep target ops st =
        (case fl of
           EndOfJob \<Rightarrow> Finished (x_results ctx) (r_world st)
         | Exchange request dest \<Rightarrow> do_exchange call target request dest m' ctx (r_world st)
         | Wait n \<Rightarrow> Running \<lparr>r_machine = m', r_ctx = ctx, r_world = sleep n (r_world st)\<rparr>
         | _ \<Rightarrow> Running \<lparr>r_machine = m', r_ctx = ctx, r_world = r_world st\<rparr>)"
      by (simp add: iterate_def i(1) Let_def Inr r split: flow.split)
    show ?thesis
    proof (cases fl)
      case (Exchange request dest)
      with eoj have "op_byte i \<noteq> 0x1D" by blast
      with it Exchange do_exchange_pc [of m' i, OF pc(1)] show ?thesis by simp
    qed (use it pc eoj in \<open>auto simp: pc_next_def\<close>)
  qed
qed

lemma straight_run:
  assumes "contiguous 0 (pre @ rest)" and "list_all op_regs (pre @ rest)"
    and "\<forall>j \<in> set (pre @ rest). 0 < op_len j \<and> op_byte j \<notin> set branch_bytes"
    and "\<exists>j \<in> set rest. op_byte j = 0x1D" and "length rest \<le> n"
    and "run_ok tables args st" and "m_pc (r_machine st) = ops_end 0 pre"
  shows "case fst (run_loop n env call sleep target (pre @ rest) st) of
      Inl e \<Rightarrow> (\<exists>x. e = RunExec x) \<or> (\<exists>x. e = RunExchange x)
    | Inr _ \<Rightarrow> True"
  using assms
proof (induction rest arbitrary: pre st n)
  case (Cons i rest)
  obtain n' where n: "n = Suc n'" "length rest \<le> n'" using Cons.prems(5) by (cases n) auto
  have off: "op_offset i = ops_end 0 pre" using Cons.prems(1) by (simp add: contiguous_append)
  have at: "op_index (pre @ i # rest) (m_pc (r_machine st)) = Some i"
    using op_index_at [OF Cons.prems(1)] Cons.prems(3) unfolding Cons.prems(7) off [symmetric] by blast
  have regs: "op_regs i" "op_byte i \<notin> set branch_bytes" using Cons.prems(2,3) by auto
  note p = iterate_straight [OF at regs Cons.prems(6), of env call sleep target]
  note ok = iterate_ok [OF Cons.prems(2,6), of env call sleep target]
  show ?case
  proof (cases "iterate env call sleep target (pre @ i # rest) st")
    case (Running st')
    have st': "run_ok tables args st'" using ok by (simp add: Running progress_ok_def)
    have pc: "m_pc (r_machine st') = ops_end 0 (pre @ [i])" "op_byte i \<noteq> 0x1D"
      using p by (simp_all add: Running pc_next_def off ops_end_def)
    from Cons.IH [of "pre @ [i]" n' st'] Cons.prems n(2) st' pc show ?thesis
      by (auto simp: n(1) Running)
  qed (use p in \<open>auto simp: n(1) pc_next_def\<close>)
qed simp

text \<open>
  C35. A job without branches always ends: if the code decodes to instructions none of which is a
  branch opcode, one of them an \<open>eoj\<close>, and no more of them than the bound, then whatever the
  car answers the run returns results or stops on an executor or exchange error; it neither
  runs into the bound nor leaves the instructions.
\<close>
theorem branch_free_terminates:
  assumes "prg_job_bytecode p name = Some code" and "decode_job code = Inr ops"
    and "list_all (\<lambda>i. op_byte i \<notin> set branch_bytes) ops" and "has_eoj ops" and "length ops \<le> 2000000"
  shows "case fst (run_job env p name target args call sleep s) of
      Inl e \<Rightarrow> (\<exists>x. e = RunExec x) \<or> (\<exists>x. e = RunExchange x)
    | Inr _ \<Rightarrow> True"
proof -
  have d: "contiguous 0 ops" "list_all (op_ok code) ops"
    using decode_job_ops [OF assms(2)] decodes_contiguous by auto
  have len: "\<forall>j \<in> set ops. 0 < op_len j \<and> op_byte j \<notin> set branch_bytes"
    using d(2) assms(3) by (auto simp: list_all_iff op_ok_def)
  have eoj: "\<exists>j \<in> set ops. op_byte j = 0x1D" using assms(4) by (auto simp: has_eoj_def EOJ_def list_ex_iff)
  have pc: "m_pc (r_machine (start_run p args s)) = ops_end 0 []" by (simp add: start_run_def machine_new_def)
  show ?thesis
    using straight_run [of "[]" ops, OF _ _ _ eoj assms(5) run_ok_start pc]
      d(1) decode_job_regs [OF assms(2)] len
    by (simp add: run_job_def assms(1,2) MAX_INSTRUCTIONS_def)
qed

theorem branch_free_terminates_witness:
  "\<forall>env. fst (run_job env tiny_prg (ustr ''J'') 0x12 [] (mock_request mock_new) (\<lambda>_ s. s) ()) \<noteq> Inl (LoopBound 2000000)"
proof
  fix env
  from branch_free_terminates [OF tiny_prg_code tiny_prg_ops, of env "0x12" "[]" "mock_request mock_new" "\<lambda>_ s. s" "()"]
  show "fst (run_job env tiny_prg (ustr ''J'') 0x12 [] (mock_request mock_new) (\<lambda>_ s. s) ()) \<noteq> Inl (LoopBound 2000000)"
    by (auto simp: eoj_op_def branch_bytes_def has_eoj_def EOJ_def split: sum.splits)
qed

section \<open>The exchange of a job\<close>

lemma single_bit_clear: "n < 32 \<Longrightarrow> (push_bit n 1 AND NOT (ucast (w :: u32)) \<noteq> (0 :: u64)) \<longleftrightarrow> \<not> bit w n"
  by (subst bit_eq_iff) (auto simp: bit_simps)

lemma set_error_cases:
  "unat b < 32 \<Longrightarrow> set_error b m =
     (if bit (m_trap_mask m) (unat b) then Inr ((), m\<lparr>m_trap_bit := Some b\<rparr>) else Inl (Trapped b))"
  unfolding set_error_def Let_def by (simp only: machine.simps single_bit_clear) simp

lemma write_s:
  "machine_wf m \<Longrightarrow> unat d < 16 \<Longrightarrow> m_write m (OpReg BS d) (VBytes b) = Inr (m\<lparr>m_s := (m_s m)[unat d := b]\<rparr>)"
  by (simp add: m_write_def write_reg_def Let_def machine_wf_def)

lemma read_s:
  "machine_wf m \<Longrightarrow> unat r < 16 \<Longrightarrow> m_read m (OpReg BS r) = Inr (VBytes (m_s m ! unat r))"
  by (simp add: m_read_def read_reg_def nth_opt_def Let_def machine_wf_def)

lemma step_xsend:
  assumes "op_byte i = 0x2A" "drop_bit 4 (op_mode_byte i) \<noteq> 11" "op_mode_byte i AND 0x0F \<noteq> 11"
    and "op_arg1 i = OpReg BS r" "unat r < 16" "machine_wf m"
  shows "step env i ctx m
    = Inr ((Exchange (m_s m ! unat r) (op_arg0 i), ctx), m\<lparr>m_pc := op_offset i + op_len i\<rparr>)"
  using assms(6) read_s [of "m\<lparr>m_pc := op_offset i + op_len i\<rparr>" r]
  by (simp add: step_def Let_def fold_index_increments_def dispatch_def machine_op_def assms(1-5)
      op_xsend_def read_bytesM_def read_source_def bindM_def returnM_def)

text \<open>
  An exchange of a job, \<open>xsend\<close> between two string registers: the frame in the source register
  is sent once to the ECU of the run, and an answer replaces the destination register with
  nothing else of the machine changed but the program counter. If the exchange fails, a job
  that masks the no-response trap (bit 19) goes on with an empty answer and the trap set, and
  one that does not ends with the error of the exchange itself.
\<close>
theorem xsend_exchange:
  assumes "op_index ops (m_pc (r_machine st)) = Some i" and "op_byte i = 0x2A"
    and "drop_bit 4 (op_mode_byte i) \<noteq> 11" and "op_mode_byte i AND 0x0F \<noteq> 11"
    and "op_arg0 i = OpReg BS d" and "op_arg1 i = OpReg BS r" and "unat d < 16" and "unat r < 16"
    and "machine_wf (r_machine st)"
  shows "iterate env call sleep target ops st =
    (let m = (r_machine st)\<lparr>m_pc := op_offset i + op_len i\<rparr>;
         answer = (\<lambda>b. m\<lparr>m_s := (m_s m)[unat d := b]\<rparr>)
     in case call target (m_s m ! unat r) (r_world st) of
          (Inr response, s) \<Rightarrow> Running \<lparr>r_machine = answer response, r_ctx = r_ctx st, r_world = s\<rparr>
        | (Inl e, s) \<Rightarrow>
            if bit (m_trap_mask m) 19
            then Running \<lparr>r_machine = (answer [])\<lparr>m_trap_bit := Some 19\<rparr>, r_ctx = r_ctx st, r_world = s\<rparr>
            else Failed (RunExchange e) s)"
  using assms(9)
  by (simp add: iterate_def assms(1-8) step_xsend Let_def do_exchange_def write_response_def write_s
      set_error_cases TRAP_BIT_NO_RESPONSE_def split: prod.split sum.split)

theorem xsend_exchange_witness:
  "\<forall>env ctx. iterate env (mock_request (mock_on mock_new [0x82, 0x12, 0xF1] [0x99])) (\<lambda>_ s. s) 0x12
      [\<lparr>op_byte = 0x2A, op_mode_byte = 0x11, op_arg0 = OpReg BS 3, op_arg1 = OpReg BS 1, op_len = 4, op_offset = 0\<rparr>]
      \<lparr>r_machine = machine_new\<lparr>m_s := (m_s machine_new)[1 := [0x82, 0x12, 0xF1]]\<rparr>, r_ctx = ctx, r_world = ()\<rparr>
    = Running \<lparr>r_machine = machine_new\<lparr>m_s := (m_s machine_new)[1 := [0x82, 0x12, 0xF1], 3 := [0x99]], m_pc := 4\<rparr>,
        r_ctx = ctx, r_world = ()\<rparr>"
proof (intro allI)
  fix env ctx
  let ?i = "\<lparr>op_byte = 0x2A, op_mode_byte = 0x11, op_arg0 = OpReg BS 3, op_arg1 = OpReg BS 1, op_len = 4, op_offset = 0\<rparr>"
  let ?m = "machine_new\<lparr>m_s := (m_s machine_new)[1 := [0x82, 0x12, 0xF1]]\<rparr>"
  let ?st = "\<lparr>r_machine = ?m, r_ctx = ctx, r_world = ()\<rparr>"
  have ix: "op_index [?i] (m_pc (r_machine ?st)) = Some ?i"
    by (simp add: op_index_def machine_new_def)
  have wf: "machine_wf (r_machine ?st)" by (simp add: machine_wf_def machine_new_def)
  have s: "m_s ?m ! 1 = [0x82, 0x12, 0xF1]" by (simp add: machine_new_def)
  from xsend_exchange [OF ix _ _ _ _ _ _ _ wf, of 3 1 env "mock_request (mock_on mock_new [0x82, 0x12, 0xF1] [0x99])"
      "\<lambda>_ s. s" "0x12"] s
  show "iterate env (mock_request (mock_on mock_new [0x82, 0x12, 0xF1] [0x99])) (\<lambda>_ s. s) 0x12 [?i] ?st
    = Running \<lparr>r_machine = machine_new\<lparr>m_s := (m_s machine_new)[1 := [0x82, 0x12, 0xF1], 3 := [0x99]], m_pc := 4\<rparr>,
        r_ctx = ctx, r_world = ()\<rparr>"
    by (simp add: mock_request_def mock_on_def)
qed

end
