(* ===== verification/Best_Laws.thy ===== *)
theory Best_Laws
  imports Best_Invariant
begin

text \<open>
  What the arithmetic, the comparisons, the shifts and the data stack of the executor compute,
  as numbers: the flags against the integers the operands stand for.
\<close>

section \<open>Masks as bits\<close>

text \<open>The three operand widths in bytes.\<close>

definition widths :: "nat list" where
  "widths = [1, 2, 4]"

lemma widths_cases: "len \<in> set widths \<Longrightarrow> (len = 1 \<Longrightarrow> P) \<Longrightarrow> (len = 2 \<Longrightarrow> P) \<Longrightarrow> (len = 4 \<Longrightarrow> P) \<Longrightarrow> P"
  by (auto simp: widths_def)

lemma and_bit: "(v :: 'a::len word) AND 2 ^ k = (if bit v k then 2 ^ k else 0)"
  by (rule bit_word_eqI) (auto simp: bit_simps)

lemma masks_bits:
  "len \<in> set widths \<Longrightarrow> snd (masks len) = 2 ^ (8 * len - 1) \<and> fst (masks len) = mask (8 * len)"
  by (erule widths_cases) (simp_all add: masks_def mask_numeral)

lemma widths_bits: "len \<in> set widths \<Longrightarrow> 8 * len - 1 < 32 \<and> 8 * len < 64 \<and> 0 < len"
  by (auto simp: widths_def)

lemma sign_mask_nonzero: "len \<in> set widths \<Longrightarrow> 2 ^ (8 * len - 1) \<noteq> (0 :: u32)"
  using widths_bits [of len] by simp

lemma sign_mask_bit:
  assumes "len \<in> set widths"
  shows "v AND snd (masks len) \<noteq> 0 \<longleftrightarrow> bit v (8 * len - 1)"
  using sign_mask_nonzero [OF assms] by (simp add: masks_bits [OF assms] and_bit)

lemma sign_mask_eq:
  assumes "len \<in> set widths"
  shows "(v AND snd (masks len) = w AND snd (masks len)) \<longleftrightarrow> (bit v (8 * len - 1) \<longleftrightarrow> bit w (8 * len - 1))"
  using sign_mask_nonzero [OF assms] by (auto simp: masks_bits [OF assms] and_bit split: if_splits)

lemma value_mask_zero: "len \<in> set widths \<Longrightarrow> v AND fst (masks len) = 0 \<longleftrightarrow> take_bit (8 * len) v = 0"
  by (simp add: masks_bits take_bit_eq_mask)

lemma carry_mask_bit:
  "len \<in> set widths \<Longrightarrow> fl_c (set_carry v len f) \<longleftrightarrow> bit v (8 * len)"
  by (erule widths_cases)
    (simp_all add: set_carry_def Let_def bit_iff_and_push_bit_not_eq_0)

lemma update_zs_masks:
  "fl_z (update_zs v len f) \<longleftrightarrow> v AND fst (masks len) = 0"
  "fl_s (update_zs v len f) \<longleftrightarrow> v AND snd (masks len) \<noteq> 0"
  by (simp_all add: update_zs_def split: prod.split)

lemma flag_values:
  assumes "len \<in> set widths"
  shows "fl_z (update_zs v len f) \<longleftrightarrow> take_bit (8 * len) v = 0"
    and "fl_s (update_zs v len f) \<longleftrightarrow> bit v (8 * len - 1)"
    and "fl_v (set_overflow v0 v1 r len f) \<longleftrightarrow>
      (bit v0 (8 * len - 1) \<longleftrightarrow> bit v1 (8 * len - 1)) \<and> (bit v0 (8 * len - 1) \<longleftrightarrow> \<not> bit r (8 * len - 1))"
  using sign_mask_eq [OF assms, of v0 r] sign_mask_eq [OF assms, of v0 v1]
    sign_mask_bit [OF assms, of v] value_mask_zero [OF assms, of v]
  by (auto simp: update_zs_masks set_overflow_def Let_def)

lemma flag_frames [simp]:
  "fl_c (update_zs v len f) = fl_c f" "fl_v (update_zs v len f) = fl_v f"
  "fl_z (set_overflow v0 v1 r len f) = fl_z f" "fl_s (set_overflow v0 v1 r len f) = fl_s f"
  "fl_c (set_overflow v0 v1 r len f) = fl_c f"
  "fl_z (set_carry w len f) = fl_z f" "fl_s (set_carry w len f) = fl_s f" "fl_v (set_carry w len f) = fl_v f"
  by (simp_all add: update_zs_def set_overflow_def set_carry_def Let_def split: prod.split)

section \<open>Bits of small integers\<close>

lemma odd_div_window:
  fixes x P :: int
  assumes "0 < P" and "- (2 * P) \<le> x" and "x < 2 * P"
  shows "odd (x div P) \<longleftrightarrow> P \<le> x \<or> (- P \<le> x \<and> x < 0)"
proof -
  consider "P \<le> x" | "0 \<le> x" "x < P" | "- P \<le> x" "x < 0" | "x < - P" by linarith
  then show ?thesis
  proof cases
    case 1
    then have "x div P = 1" using assms by (intro int_div_pos_eq [of _ _ _ "x - P"]) auto
    then show ?thesis using 1 by simp
  next
    case 2
    then show ?thesis by (simp add: div_pos_pos_trivial)
  next
    case 3
    then have "x div P = - 1" using assms by (intro int_div_pos_eq [of _ _ _ "x + P"]) auto
    then show ?thesis using 3 by simp
  next
    case 4
    then have "x div P = - 2" using assms by (intro int_div_pos_eq [of _ _ _ "x + 2 * P"]) auto
    then show ?thesis using 4 assms(1) by simp
  qed
qed

lemma bit_word_of_int: "k < LENGTH('a) \<Longrightarrow> bit (word_of_int x :: 'a::len word) k \<longleftrightarrow> odd (x div 2 ^ k)"
  by (simp add: bit_word_of_int_iff flip: bit_iff_odd)

text \<open>The sign bit of an integer of at most twice the range of the width.\<close>

lemma bit_sign_window:
  assumes "len \<in> set widths" and "- (2 ^ (8 * len)) \<le> x" and "x < 2 ^ (8 * len)"
  shows "bit (word_of_int x :: u32) (8 * len - 1) \<longleftrightarrow>
    2 ^ (8 * len - 1) \<le> x \<or> (- (2 ^ (8 * len - 1)) \<le> x \<and> x < 0)"
proof -
  have p: "(2 :: int) * 2 ^ (8 * len - 1) = 2 ^ (8 * len)"
    using widths_bits [OF assms(1)] by (simp flip: power_Suc)
  show ?thesis
    using odd_div_window [of "2 ^ (8 * len - 1)" x] assms p widths_bits [OF assms(1)]
    by (simp add: bit_word_of_int)
qed

lemma bit_borrow_window:
  assumes "len \<in> set widths" and "- (2 ^ (8 * len)) \<le> x" and "x < 2 * 2 ^ (8 * len)"
  shows "bit (word_of_int x :: u64) (8 * len) \<longleftrightarrow> x < 0 \<or> 2 ^ (8 * len) \<le> x"
  using odd_div_window [of "2 ^ (8 * len)" x] assms widths_bits [OF assms(1)]
  by (auto simp: bit_word_of_int)

text \<open>A value that fits a width, read with a sign.\<close>

definition fits_width :: "nat \<Rightarrow> u32 \<Rightarrow> bool" where
  "fits_width len v \<longleftrightarrow> uint v < 2 ^ (8 * len)"

lemma sint_if:
  "sint (w :: 'a::len word) = (if uint w < 2 ^ (LENGTH('a) - 1) then uint w else uint w - 2 ^ LENGTH('a))"
proof -
  let ?n = "LENGTH('a) - 1"
  have n: "LENGTH('a) = Suc ?n" by simp
  have u: "0 \<le> uint w" "uint w < 2 * 2 ^ ?n" using uint_bounded [of w] by (simp_all flip: power_Suc)
  have "bit (uint w) ?n \<longleftrightarrow> 2 ^ ?n \<le> uint w"
    using odd_div_window [of "2 ^ ?n" "uint w"] u by (auto simp: bit_iff_odd)
  moreover have "sint w = take_bit (Suc ?n) (uint w) - 2 ^ Suc ?n * of_bool (bit (uint w) ?n)"
    unfolding sint_uint by (simp add: signed_take_bit_eq_take_bit_minus del: n)
  moreover have "take_bit (Suc ?n) (uint w) = uint w"
    using u by (intro take_bit_int_eq_self) (simp_all flip: power_Suc)
  ultimately show ?thesis by (auto simp flip: power_Suc)
qed

lemma uint_ucast_fits: "uint v < 2 ^ LENGTH('b) \<Longrightarrow> uint (ucast (v :: 'a::len word) :: 'b::len word) = uint v"
  by (simp add: unsigned_ucast_eq take_bit_int_eq_self)

lemma sign_extend_if:
  assumes "len \<in> set widths" and "fits_width len v"
  shows "sign_extend len v = (if uint v < 2 ^ (8 * len - 1) then uint v else uint v - 2 ^ (8 * len))"
  using assms(1)
proof (rule widths_cases)
  assume l: "len = 1"
  with assms(2) show ?thesis
    by (simp add: sign_extend_def fits_width_def sint_if uint_ucast_fits)
next
  assume l: "len = 2"
  with assms(2) show ?thesis
    by (simp add: sign_extend_def fits_width_def sint_if uint_ucast_fits)
next
  assume l: "len = 4"
  then show ?thesis by (simp add: sign_extend_def sint_if)
qed

section \<open>Flags of additions and subtractions\<close>

lemma words_down: "(ucast (word_of_int x :: u64) :: u32) = word_of_int x"
  by (rule bit_word_eqI) (simp add: bit_simps bit_word_of_int_iff)

lemma words_of_operands:
  fixes v0 v1 :: u32
  shows "(ucast v0 - ucast v1 :: u64) = word_of_int (uint v0 - uint v1)"
    "(ucast (ucast v0 - ucast v1 :: u64) :: u32) = word_of_int (uint v0 - uint v1)"
    "(ucast v0 + ucast v1 :: u64) = word_of_int (uint v0 + uint v1)"
    "(ucast (ucast v0 + ucast v1 :: u64) :: u32) = word_of_int (uint v0 + uint v1)"
    "- v1 = word_of_int (- uint v1)" "v0 = word_of_int (uint v0)"
proof -
  have up: "(ucast v :: u64) = word_of_int (uint v)" for v :: u32
    by (simp add: unsigned_of_int)
  show s: "(ucast v0 - ucast v1 :: u64) = word_of_int (uint v0 - uint v1)"
    and a: "(ucast v0 + ucast v1 :: u64) = word_of_int (uint v0 + uint v1)"
    by (simp_all only: up of_int_diff of_int_add)
  show "(ucast (ucast v0 - ucast v1 :: u64) :: u32) = word_of_int (uint v0 - uint v1)"
    "(ucast (ucast v0 + ucast v1 :: u64) :: u32) = word_of_int (uint v0 + uint v1)"
    by (simp_all only: s a words_down)
qed simp_all

lemma take_bit_zero:
  assumes "len \<in> set widths"
  shows "take_bit (8 * len) (word_of_int x :: u32) = 0 \<longleftrightarrow> 2 ^ (8 * len) dvd x"
proof -
  have "take_bit (8 * len) (word_of_int x :: u32) = word_of_int (take_bit (8 * len) x)"
    by (rule bit_word_eqI) (auto simp: bit_simps bit_word_of_int_iff)
  moreover have "(word_of_int (take_bit (8 * len) x) :: u32) = 0 \<longleftrightarrow> take_bit (8 * len) x = 0"
    using assms by (rule widths_cases) (simp_all add: word_of_int_eq_0_iff take_bit_eq_mod, simp_all add: dvd_eq_mod_eq_0)
  ultimately show ?thesis by (simp add: take_bit_eq_0_iff)
qed

definition add_flags :: "nat \<Rightarrow> u32 \<Rightarrow> u32 \<Rightarrow> flags \<Rightarrow> flags" where
  "add_flags len v0 v1 f =
     (let sum = ucast v0 + ucast v1 :: u64 in
      set_carry sum len (set_overflow v0 v1 (ucast sum) len (update_zs (ucast sum) len f)))"

definition sub_flags :: "nat \<Rightarrow> u32 \<Rightarrow> u32 \<Rightarrow> flags \<Rightarrow> flags" where
  "sub_flags len v0 v1 f =
     (let diff = ucast v0 - ucast v1 :: u64 in
      set_carry diff len (set_overflow v0 (- v1) (ucast diff) len (update_zs (ucast diff) len f)))"

lemma window_dvd:
  fixes x n :: int
  assumes "- n < x" and "x < 2 * n" and "0 < n"
  shows "n dvd x \<longleftrightarrow> x = 0 \<or> x = n"
proof
  assume "n dvd x"
  then obtain k where k: "x = n * k" by (auto simp: dvd_def)
  have "- 1 < k" "k < 2"
    using assms k mult_less_cancel_left_pos [of n "- 1" k] mult_less_cancel_left_pos [of n k 2]
    by (simp_all add: mult.commute)
  then have "k = 0 \<or> k = 1" by auto
  then show "x = 0 \<or> x = n" by (auto simp: k)
qed auto

text \<open>The sign and overflow rules of a difference and a sum, for operands of a width with half range \<open>P\<close>.\<close>

definition neg_window :: "int \<Rightarrow> int \<Rightarrow> bool" where
  "neg_window P x \<longleftrightarrow> P \<le> x \<or> (- P \<le> x \<and> x < 0)"

definition signed_of :: "int \<Rightarrow> int \<Rightarrow> int" where
  "signed_of P a = (if a < P then a else a - 2 * P)"

lemma sub_window:
  fixes a b P :: int
  assumes "0 \<le> a" "a < 2 * P" "0 \<le> b" "b < 2 * P"
  shows "(neg_window P (a - b) \<noteq>
      ((neg_window P a \<longleftrightarrow> neg_window P (- b)) \<and> (neg_window P a \<longleftrightarrow> \<not> neg_window P (a - b)))) \<longleftrightarrow>
    signed_of P b = - P \<or> signed_of P a < signed_of P b"
proof -
  have n: "neg_window P a \<longleftrightarrow> P \<le> a" "neg_window P (- b) \<longleftrightarrow> 0 < b \<and> b \<le> P"
    using assms by (auto simp: neg_window_def)
  show ?thesis
    unfolding n
  proof (cases "P \<le> a")
    case True
    then show "(neg_window P (a - b) \<noteq> ((P \<le> a \<longleftrightarrow> 0 < b \<and> b \<le> P) \<and> (P \<le> a \<longleftrightarrow> \<not> neg_window P (a - b)))) \<longleftrightarrow>
        signed_of P b = - P \<or> signed_of P a < signed_of P b"
      using assms by (cases "b < P") (auto simp: neg_window_def signed_of_def)
  next
    case False
    then show "(neg_window P (a - b) \<noteq> ((P \<le> a \<longleftrightarrow> 0 < b \<and> b \<le> P) \<and> (P \<le> a \<longleftrightarrow> \<not> neg_window P (a - b)))) \<longleftrightarrow>
        signed_of P b = - P \<or> signed_of P a < signed_of P b"
      using assms by (cases "b < P") (auto simp: neg_window_def signed_of_def)
  qed
qed

lemma signed_of_ge: "0 \<le> a \<Longrightarrow> a < 2 * P \<Longrightarrow> - P \<le> signed_of P a"
  by (auto simp: signed_of_def)

lemma signed_of_inj:
  fixes a b P :: int
  assumes "0 \<le> a" "a < 2 * P" "0 \<le> b" "b < 2 * P"
  shows "a = b \<longleftrightarrow> signed_of P a = signed_of P b"
  using assms by (auto simp: signed_of_def split: if_splits)

lemma add_window:
  fixes a b P :: int
  assumes "0 \<le> a" "a < 2 * P" "0 \<le> b" "b < 2 * P"
  shows "((neg_window P a \<longleftrightarrow> neg_window P b)
      \<and> (neg_window P a \<longleftrightarrow> \<not> ((P \<le> a + b \<and> a + b < 2 * P) \<or> 3 * P \<le> a + b))) \<longleftrightarrow>
    \<not> (- P \<le> signed_of P a + signed_of P b \<and> signed_of P a + signed_of P b < P)"
proof -
  have n: "neg_window P a \<longleftrightarrow> P \<le> a" "neg_window P b \<longleftrightarrow> P \<le> b"
    using assms by (auto simp: neg_window_def)
  show ?thesis
    unfolding n using assms by (cases "a < P"; cases "b < P") (auto simp: signed_of_def)
qed

text \<open>Two operands that fit a width, and half the range of the width.\<close>

definition operand_pair :: "nat \<Rightarrow> u32 \<Rightarrow> u32 \<Rightarrow> int \<Rightarrow> bool" where
  "operand_pair len v0 v1 P \<longleftrightarrow>
     len \<in> set widths \<and> fits_width len v0 \<and> fits_width len v1 \<and> P = 2 ^ (8 * len - 1)"

lemma operand_pairI:
  "len \<in> set widths \<Longrightarrow> fits_width len v0 \<Longrightarrow> fits_width len v1 \<Longrightarrow> operand_pair len v0 v1 (2 ^ (8 * len - 1))"
  by (simp add: operand_pair_def)

lemma operand_pairD:
  assumes "operand_pair len v0 v1 P"
  shows "len \<in> set widths" "fits_width len v0" "fits_width len v1" "P = 2 ^ (8 * len - 1)"
  using assms by (simp_all add: operand_pair_def)

lemma two_P:
  assumes "operand_pair len v0 v1 P"
  shows "2 ^ (8 * len) = 2 * P" "0 < P"
  using widths_bits [OF operand_pairD(1) [OF assms]]
  by (simp_all add: operand_pairD(4) [OF assms] flip: power_Suc)

lemma operand_bounds:
  assumes "operand_pair len v0 v1 P"
  shows "0 \<le> uint v0" "uint v0 < 2 * P" "0 \<le> uint v1" "uint v1 < 2 * P"
  using operand_pairD(2,3) [OF assms] by (simp_all add: fits_width_def two_P [OF assms])

lemma operand_signs:
  assumes "operand_pair len v0 v1 P"
  shows "sign_extend len v0 = signed_of P (uint v0)" "sign_extend len v1 = signed_of P (uint v1)"
  by (simp_all only: sign_extend_if [OF operand_pairD(1,2) [OF assms]]
      sign_extend_if [OF operand_pairD(1,3) [OF assms]] two_P [OF assms] operand_pairD(4) [OF assms] signed_of_def)

lemma sign_window:
  assumes "operand_pair len v0 v1 P" and "- (2 * P) \<le> x" and "x < 2 * P"
  shows "bit (word_of_int x :: u32) (8 * len - 1) \<longleftrightarrow> neg_window P x"
  using bit_sign_window [OF operand_pairD(1) [OF assms(1)], of x] assms(2,3)
  unfolding two_P(1) [OF assms(1)] operand_pairD(4) [OF assms(1), symmetric] neg_window_def by blast

lemma operand_sign:
  assumes "operand_pair len v0 v1 P"
  shows "bit v0 (8 * len - 1) \<longleftrightarrow> neg_window P (uint v0)" "bit v1 (8 * len - 1) \<longleftrightarrow> neg_window P (uint v1)"
  using sign_window [OF assms, of "uint v0"] sign_window [OF assms, of "uint v1"] operand_bounds [OF assms]
  by simp_all

lemma sub_flag_facts:
  assumes o: "operand_pair len v0 v1 P"
  shows "fl_z (sub_flags len v0 v1 f) \<longleftrightarrow> v0 = v1"
    and "fl_c (sub_flags len v0 v1 f) \<longleftrightarrow> uint v0 < uint v1"
    and "(fl_s (sub_flags len v0 v1 f) \<noteq> fl_v (sub_flags len v0 v1 f)) \<longleftrightarrow>
      sign_extend len v1 = - P \<or> sign_extend len v0 < sign_extend len v1"
proof -
  note len = operand_pairD(1) [OF o] and b = operand_bounds [OF o] and P = two_P [OF o]
  have d: "- (2 * P) \<le> uint v0 - uint v1" "uint v0 - uint v1 < 2 * P" "- (2 * P) \<le> - uint v1" "- uint v1 < 2 * P"
    using b P(2) by linarith+
  have z: "fl_z (sub_flags len v0 v1 f) \<longleftrightarrow> 2 * P dvd uint v0 - uint v1"
    unfolding sub_flags_def Let_def flag_frames flag_values [OF len] words_of_operands(1) words_down
      take_bit_zero [OF len] P(1) ..
  show "fl_z (sub_flags len v0 v1 f) \<longleftrightarrow> v0 = v1"
    unfolding z word_uint_eq_iff using window_dvd [of "2 * P" "uint v0 - uint v1"] b P(2) by simp
  show "fl_c (sub_flags len v0 v1 f) \<longleftrightarrow> uint v0 < uint v1"
    unfolding sub_flags_def Let_def words_of_operands(1) carry_mask_bit [OF len]
    using bit_borrow_window [OF len, of "uint v0 - uint v1"] d P by simp
  have s: "fl_s (sub_flags len v0 v1 f) \<longleftrightarrow> neg_window P (uint v0 - uint v1)"
    unfolding sub_flags_def Let_def words_of_operands(1) words_down flag_frames flag_values [OF len]
    by (rule sign_window [OF o d(1,2)])
  have v: "fl_v (sub_flags len v0 v1 f) \<longleftrightarrow>
      (neg_window P (uint v0) \<longleftrightarrow> neg_window P (- uint v1))
      \<and> (neg_window P (uint v0) \<longleftrightarrow> \<not> neg_window P (uint v0 - uint v1))"
    unfolding sub_flags_def Let_def words_of_operands(1) words_down flag_frames flag_values [OF len]
      operand_sign(1) [OF o] sign_window [OF o d(1,2)]
    using sign_window [OF o d(3,4)] by simp
  show "(fl_s (sub_flags len v0 v1 f) \<noteq> fl_v (sub_flags len v0 v1 f)) \<longleftrightarrow>
     sign_extend len v1 = - P \<or> sign_extend len v0 < sign_extend len v1"
    unfolding s v operand_signs [OF o] by (rule sub_window [OF b])
qed

lemma operands_eq:
  assumes "operand_pair len v0 v1 P"
  shows "v0 = v1 \<longleftrightarrow> sign_extend len v0 = sign_extend len v1"
  unfolding operand_signs [OF assms] word_uint_eq_iff by (rule signed_of_inj [OF operand_bounds [OF assms]])

lemma sum_window:
  assumes o: "operand_pair len v0 v1 P" and "0 \<le> x" and "x < 4 * P"
  shows "bit (word_of_int x :: u32) (8 * len - 1) \<longleftrightarrow> (P \<le> x \<and> x < 2 * P) \<or> 3 * P \<le> x"
proof (cases "x < 2 * P")
  case True
  with sign_window [OF o, of x] assms(2) two_P(2) [OF o] show ?thesis by (auto simp: neg_window_def)
next
  case False
  have k: "8 * len - 1 < LENGTH(32)" using widths_bits [OF operand_pairD(1) [OF o]] by simp
  have "(x - 2 * P) div P = x div P - 2"
    using two_P(2) [OF o] div_mult_self1 [of P x "- 2"] by (simp add: algebra_simps)
  then have "bit (word_of_int x :: u32) (8 * len - 1) \<longleftrightarrow> bit (word_of_int (x - 2 * P) :: u32) (8 * len - 1)"
    unfolding bit_word_of_int [OF k] operand_pairD(4) [OF o, symmetric] by simp
  with False sign_window [OF o, of "x - 2 * P"] assms(3) two_P(2) [OF o] show ?thesis
    by (auto simp: neg_window_def)
qed

lemma add_flag_facts:
  assumes o: "operand_pair len v0 v1 P"
  shows "fl_z (add_flags len v0 v1 f) \<longleftrightarrow> uint v0 + uint v1 = 0 \<or> uint v0 + uint v1 = 2 * P"
    and "fl_c (add_flags len v0 v1 f) \<longleftrightarrow> 2 * P \<le> uint v0 + uint v1"
    and "fl_s (add_flags len v0 v1 f) \<longleftrightarrow> (P \<le> uint v0 + uint v1 \<and> uint v0 + uint v1 < 2 * P) \<or> 3 * P \<le> uint v0 + uint v1"
    and "fl_v (add_flags len v0 v1 f) \<longleftrightarrow>
      \<not> (- P \<le> sign_extend len v0 + sign_extend len v1 \<and> sign_extend len v0 + sign_extend len v1 < P)"
proof -
  note len = operand_pairD(1) [OF o] and b = operand_bounds [OF o] and P = two_P [OF o]
  have d: "0 \<le> uint v0 + uint v1" "uint v0 + uint v1 < 4 * P" using b P(2) by linarith+
  have z: "fl_z (add_flags len v0 v1 f) \<longleftrightarrow> 2 * P dvd uint v0 + uint v1"
    unfolding add_flags_def Let_def flag_frames flag_values [OF len] words_of_operands(3) words_down
      take_bit_zero [OF len] P(1) ..
  show "fl_z (add_flags len v0 v1 f) \<longleftrightarrow> uint v0 + uint v1 = 0 \<or> uint v0 + uint v1 = 2 * P"
    unfolding z using window_dvd [of "2 * P" "uint v0 + uint v1"] d P(2) by linarith
  show "fl_c (add_flags len v0 v1 f) \<longleftrightarrow> 2 * P \<le> uint v0 + uint v1"
    unfolding add_flags_def Let_def words_of_operands(3) carry_mask_bit [OF len]
    using bit_borrow_window [OF len, of "uint v0 + uint v1"] d P by simp
  show "fl_s (add_flags len v0 v1 f) \<longleftrightarrow> (P \<le> uint v0 + uint v1 \<and> uint v0 + uint v1 < 2 * P) \<or> 3 * P \<le> uint v0 + uint v1"
    unfolding add_flags_def Let_def words_of_operands(3) words_down flag_frames flag_values [OF len]
    by (rule sum_window [OF o d])
  have v: "fl_v (add_flags len v0 v1 f) \<longleftrightarrow>
      (neg_window P (uint v0) \<longleftrightarrow> neg_window P (uint v1))
      \<and> (neg_window P (uint v0) \<longleftrightarrow> \<not> ((P \<le> uint v0 + uint v1 \<and> uint v0 + uint v1 < 2 * P) \<or> 3 * P \<le> uint v0 + uint v1))"
    unfolding add_flags_def Let_def words_of_operands(3) words_down flag_frames flag_values [OF len]
      operand_sign [OF o] sum_window [OF o d] ..
  show "fl_v (add_flags len v0 v1 f) \<longleftrightarrow>
     \<not> (- P \<le> sign_extend len v0 + sign_extend len v1 \<and> sign_extend len v0 + sign_extend len v1 < P)"
    unfolding v operand_signs [OF o] by (rule add_window [OF b])
qed

section \<open>Registers as operands\<close>

text \<open>The value of an integer register as the arithmetic reads it.\<close>

definition reg_value :: "machine \<Rightarrow> reg_id \<Rightarrow> u32" where
  "reg_value m r = ucast (le_word (reg_bytes m r))"

definition reg_op :: "reg_id \<Rightarrow> operand" where
  "reg_op r = OpReg (rid_bank r) (rid_idx r)"

definition int_reg :: "reg_id \<Rightarrow> bool" where
  "int_reg r \<longleftrightarrow> reg_ok r \<and> int_bank (rid_bank r)"

lemma uint_le_word: "length bs \<le> 8 \<Longrightarrow> uint (le_word bs) < 2 ^ (8 * length bs)"
proof -
  assume l: "length bs \<le> 8"
  have "le_word bs = take_bit (8 * length bs) (le_word bs)"
    by (rule bit_word_eqI) (auto simp: bit_le_word bit_simps less_mult_imp_div_less)
  then have "uint (le_word bs) = take_bit (8 * length bs) (uint (le_word bs))"
    by (metis unsigned_take_bit_eq)
  then show ?thesis by (metis take_bit_int_less_exp)
qed

lemma reg_bytes_length: "machine_wf m \<Longrightarrow> int_reg r \<Longrightarrow> length (reg_bytes m r) = reg_width (rid_bank r)"
  using reg_fits [of m r] by (simp add: reg_bytes_def int_reg_def)

lemma reg_width_widths: "int_reg r \<Longrightarrow> reg_width (rid_bank r) \<in> set widths"
  by (auto simp: int_reg_def int_bank_def reg_width_def widths_def)

lemma reg_value_fits:
  assumes "machine_wf m" and "int_reg r"
  shows "fits_width (reg_width (rid_bank r)) (reg_value m r)"
proof -
  have l: "length (reg_bytes m r) = reg_width (rid_bank r)" by (rule reg_bytes_length [OF assms])
  have w: "reg_width (rid_bank r) \<le> 4" by (simp add: reg_width_def split: reg_bank.split)
  have u: "uint (le_word (reg_bytes m r)) < 2 ^ (8 * reg_width (rid_bank r))"
    using uint_le_word [of "reg_bytes m r"] l w by simp
  have "uint (ucast (le_word (reg_bytes m r)) :: u32) \<le> uint (le_word (reg_bytes m r))"
    by (simp add: unsigned_ucast_eq take_bit_int_less_eq_self_iff)
  with u show ?thesis by (simp add: fits_width_def reg_value_def)
qed

lemma read_int_reg:
  assumes "machine_wf m" and "int_reg r"
  shows "read_int mn (reg_op r) n m = Inr (reg_value m r, m)"
  using read_reg_int [of m r] assms
  by (simp add: read_int_def read_source_def m_read_def reg_op_def bindM_def returnM_def reg_value_def int_reg_def)

lemma arg_width_reg:
  assumes "int_reg r"
  shows "arg_width mn (reg_op r) = Inr (reg_width (rid_bank r))"
    "arith_arg0_len mn (reg_op r) = Inr (reg_width (rid_bank r))"
  using assms
  by (auto simp: arg_width_def arith_arg0_len_def reg_op_def int_reg_def int_bank_def reg_width_def)

text \<open>A run of \<open>bindM\<close> and its companions, for a machine at hand.\<close>

lemma vm_run:
  "f m = Inr (x, m') \<Longrightarrow> bindM f k m = k x m'"
  "f m = Inr (x, m') \<Longrightarrow> thenM f g m = g m'"
  "liftM (Inr y) m = Inr (y, m)" "flagsM h m = Inr ((), m\<lparr>m_flags := h (m_flags m)\<rparr>)"
  "returnM y m = Inr (y, m)" "getM q m = Inr (q m, m)"
  by (simp_all add: bindM_def thenM_def liftM_def flagsM_def modifyM_def returnM_def getM_def)

lemma op_comp_run:
  assumes "machine_wf m" and "int_reg r0" and "int_reg r1"
    and "op_arg0 i = reg_op r0" and "op_arg1 i = reg_op r1"
  shows "op_comp i m = Inr (Next, m\<lparr>m_flags :=
    sub_flags (reg_width (rid_bank r0)) (reg_value m r0) (reg_value m r1) (m_flags m)\<rparr>)"
  by (simp add: op_comp_def assms vm_run read_int_reg arg_width_reg Let_def sub_flags_def)

text \<open>
  The relation each conditional jump is meant to decide after a \<open>comp\<close>, on the operands read
  without and with a sign.
\<close>

definition comp_jumps :: "u8 list" where
  "comp_jumps = [0x0E, 0x0F, 0x10, 0x11, 0x5A, 0x5B, 0x5C, 0x5D, 0x5E, 0x5F]"

definition signed_jumps :: "u8 list" where
  "signed_jumps = [0x5A, 0x5B, 0x5C, 0x5D]"

definition jump_relation :: "u8 \<Rightarrow> int \<Rightarrow> int \<Rightarrow> int \<Rightarrow> int \<Rightarrow> bool" where
  "jump_relation b u0 u1 s0 s1 \<longleftrightarrow>
     (if b = 0x0E then u0 < u1 else if b = 0x0F then u1 \<le> u0
      else if b = 0x10 then u0 = u1 else if b = 0x11 then u0 \<noteq> u1
      else if b = 0x5A then s1 < s0 else if b = 0x5B then s1 \<le> s0
      else if b = 0x5C then s0 < s1 else if b = 0x5D then s0 \<le> s1
      else if b = 0x5E then u1 < u0 else u0 \<le> u1)"

lemma branch_taken:
  "op_arg0 j = OpImm d \<Longrightarrow>
     \<exists>m'. branch mn j taken m = Inr (if taken then Jumped else Next, m')"
  by (simp add: branch_def thenM_def bindM_def modifyM_def returnM_def)

definition jump_flags :: "u8 \<Rightarrow> flags \<Rightarrow> bool" where
  "jump_flags b f \<longleftrightarrow>
     (if b = 0x0E then fl_c f else if b = 0x0F then \<not> fl_c f
      else if b = 0x10 then fl_z f else if b = 0x11 then \<not> fl_z f
      else if b = 0x5A then fl_s f = fl_v f \<and> \<not> fl_z f else if b = 0x5B then fl_z f \<or> fl_s f = fl_v f
      else if b = 0x5C then \<not> fl_z f \<and> fl_s f \<noteq> fl_v f else if b = 0x5D then fl_s f \<noteq> fl_v f \<or> fl_z f
      else if b = 0x5E then \<not> fl_c f \<and> \<not> fl_z f else fl_c f \<or> fl_z f)"

lemma jump_flags_bytes:
  "jump_flags 0x0E = fl_c" "jump_flags 0x0F = (\<lambda>f. \<not> fl_c f)"
  "jump_flags 0x10 = fl_z" "jump_flags 0x11 = (\<lambda>f. \<not> fl_z f)"
  "jump_flags 0x5A = (\<lambda>f. fl_s f = fl_v f \<and> \<not> fl_z f)" "jump_flags 0x5B = (\<lambda>f. fl_z f \<or> fl_s f = fl_v f)"
  "jump_flags 0x5C = (\<lambda>f. \<not> fl_z f \<and> fl_s f \<noteq> fl_v f)" "jump_flags 0x5D = (\<lambda>f. fl_s f \<noteq> fl_v f \<or> fl_z f)"
  "jump_flags 0x5E = (\<lambda>f. \<not> fl_c f \<and> \<not> fl_z f)" "jump_flags 0x5F = (\<lambda>f. fl_c f \<or> fl_z f)"
  by (rule ext, simp add: jump_flags_def)+

lemma dispatch_lift: "machine_op env i = Some h \<Longrightarrow> dispatch env i ctx = bindM h (\<lambda>fl. returnM (fl, ctx))"
  by (simp add: dispatch_def)

lemma branch_if_run:
  assumes "op_arg0 j = OpImm d"
  shows "\<exists>m'. bindM (branch_if mn p j) (\<lambda>fl. returnM (fl, ctx)) m
    = Inr ((if p (m_flags m) then Jumped else Next, ctx), m')"
proof -
  obtain m' where "branch mn j (p (m_flags m)) m = Inr (if p (m_flags m) then Jumped else Next, m')"
    using branch_taken [OF assms] by blast
  then have "branch_if mn p j m = Inr (if p (m_flags m) then Jumped else Next, m')"
    by (simp add: branch_if_def vm_run)
  then show ?thesis by (simp add: bindM_def returnM_def)
qed

lemma dispatch_jump:
  assumes "op_byte j \<in> set comp_jumps" and "op_arg0 j = OpImm d"
  shows "\<exists>m'. dispatch env j ctx m
    = Inr ((if jump_flags (op_byte j) (m_flags m) then Jumped else Next, ctx), m')"
proof -
  from assms(1) have "\<exists>mn. machine_op env j = Some (branch_if mn (jump_flags (op_byte j)) j)"
    unfolding comp_jumps_def list.set insert_iff empty_iff simp_thms
    by (elim disjE) (simp_all add: machine_op_def Let_def jump_flags_bytes, (rule exI, rule refl)+)
  then obtain mn where "machine_op env j = Some (branch_if mn (jump_flags (op_byte j)) j)" ..
  show ?thesis
    unfolding dispatch_lift [OF \<open>machine_op env j = _\<close>] by (rule branch_if_run [OF assms(2)])
qed

lemma jump_flags_relation:
  assumes "b \<in> set comp_jumps" and z: "fl_z f \<longleftrightarrow> u0 = u1" and c: "fl_c f \<longleftrightarrow> u0 < u1"
    and sv: "b \<in> set signed_jumps \<Longrightarrow> (fl_s f \<noteq> fl_v f) \<longleftrightarrow> s0 < s1" and eq: "u0 = u1 \<longleftrightarrow> s0 = s1"
  shows "jump_flags b f \<longleftrightarrow> jump_relation b u0 u1 s0 s1"
proof (cases "b \<in> set signed_jumps")
  case True
  with sv [OF True] z eq show ?thesis
    unfolding signed_jumps_def list.set insert_iff empty_iff simp_thms
    by (elim disjE) (simp_all add: jump_flags_def jump_relation_def, (linarith | blast | argo)+)
next
  case False
  with assms(1) z c show ?thesis
    unfolding signed_jumps_def comp_jumps_def list.set insert_iff empty_iff simp_thms
    by (elim disjE) (simp_all add: jump_flags_def jump_relation_def, linarith+)
qed

lemma dispatch_comp:
  assumes "machine_wf m" and "int_reg r0" and "int_reg r1"
    and "op_byte i = 0x02" and "op_arg0 i = reg_op r0" and "op_arg1 i = reg_op r1"
  shows "dispatch env i ctx m = Inr ((Next, ctx), m\<lparr>m_flags :=
    sub_flags (reg_width (rid_bank r0)) (reg_value m r0) (reg_value m r1) (m_flags m)\<rparr>)"
proof -
  have "machine_op env i = Some (op_comp i)" by (simp add: machine_op_def assms(4))
  from dispatch_lift [OF this] show ?thesis
    by (simp add: op_comp_run [OF assms(1-3,5,6)] vm_run)
qed

text \<open>
  C36. A comparison and a conditional jump together decide the relation the jump is named after:
  after \<open>comp\<close> of two registers of one integer bank, each of the unsigned jumps \<open>jc jae jz jnz ja
  jbe\<close> branches exactly when its relation holds of the values read unsigned, and each of the
  signed jumps \<open>jg jge jl jle\<close> exactly when its relation holds of the values read with a sign,
  unless the second value is the least one of the width. The comparison changes nothing but
  the flags.
\<close>
theorem comp_jump_decides:
  assumes "machine_wf m" and "int_reg r0" and "int_reg r1" and "rid_bank r1 = rid_bank r0"
    and "op_byte i = 0x02" and "op_arg0 i = reg_op r0" and "op_arg1 i = reg_op r1"
    and "op_byte j \<in> set comp_jumps" and "op_arg0 j = OpImm d"
    and "len = reg_width (rid_bank r0)"
    and "op_byte j \<in> set signed_jumps \<Longrightarrow> sign_extend len (reg_value m r1) \<noteq> - (2 ^ (8 * len - 1))"
  shows "\<exists>f m'. dispatch env i ctx m = Inr ((Next, ctx), m\<lparr>m_flags := f\<rparr>)
    \<and> dispatch env j ctx (m\<lparr>m_flags := f\<rparr>)
        = Inr ((if jump_relation (op_byte j) (uint (reg_value m r0)) (uint (reg_value m r1))
                    (sign_extend len (reg_value m r0)) (sign_extend len (reg_value m r1))
                then Jumped else Next, ctx), m')"
proof -
  let ?f = "sub_flags len (reg_value m r0) (reg_value m r1) (m_flags m)"
  have len: "len \<in> set widths" unfolding assms(10) by (rule reg_width_widths [OF assms(2)])
  have fits: "fits_width len (reg_value m r0)" "fits_width len (reg_value m r1)"
    using reg_value_fits [OF assms(1,2)] reg_value_fits [OF assms(1,3)] assms(4,10) by simp_all
  note facts = sub_flag_facts [OF operand_pairI [OF len fits], of "m_flags m"]
  have eq: "reg_value m r0 = reg_value m r1 \<longleftrightarrow> sign_extend len (reg_value m r0) = sign_extend len (reg_value m r1)"
    by (rule operands_eq [OF operand_pairI [OF len fits]])
  have rel: "jump_flags (op_byte j) ?f \<longleftrightarrow> jump_relation (op_byte j) (uint (reg_value m r0)) (uint (reg_value m r1))
      (sign_extend len (reg_value m r0)) (sign_extend len (reg_value m r1))"
  proof (rule jump_flags_relation [OF assms(8) facts(1) [unfolded word_uint_eq_iff] facts(2) _
      eq [unfolded word_uint_eq_iff]])
    assume "op_byte j \<in> set signed_jumps"
    from assms(11) [OF this] facts(3) show "(fl_s ?f \<noteq> fl_v ?f) \<longleftrightarrow>
        sign_extend len (reg_value m r0) < sign_extend len (reg_value m r1)" by blast
  qed
  have m: "m_flags (m\<lparr>m_flags := ?f\<rparr>) = ?f" by simp
  obtain m' where j: "dispatch env j ctx (m\<lparr>m_flags := ?f\<rparr>)
      = Inr ((if jump_flags (op_byte j) ?f then Jumped else Next, ctx), m')"
    using dispatch_jump [OF assms(8,9), of env ctx "m\<lparr>m_flags := ?f\<rparr>"] unfolding m ..
  show ?thesis
    by (intro exI conjI) (rule dispatch_comp [OF assms(1-3,5-7), folded assms(10)], rule j [unfolded rel])
qed

text \<open>A machine that holds 5 and 3 in two word registers, for the witnesses.\<close>

definition demo_machine :: machine where
  "demo_machine = machine_new\<lparr>m_regs := [5, 0, 3, 0] @ replicate 28 0\<rparr>"

definition demo_reg :: "u8 \<Rightarrow> reg_id" where
  "demo_reg k = \<lparr>rid_bank = BI, rid_idx = k\<rparr>"

lemma demo_facts:
  "machine_wf demo_machine" "int_reg (demo_reg 0)" "int_reg (demo_reg 1)"
  "reg_value demo_machine (demo_reg 0) = 5" "reg_value demo_machine (demo_reg 1) = 3"
  "rid_bank (demo_reg k) = BI" "reg_width BI = 2"
  by (simp_all add: demo_machine_def demo_reg_def machine_wf_def machine_new_def int_reg_def reg_ok_def
      bank_size_def int_bank_def reg_value_def reg_bytes_def reg_width_def reg_off_def)

theorem comp_jump_decides_witness:
  "\<forall>env ctx. \<exists>f m'. dispatch env
       \<lparr>op_byte = 0x02, op_mode_byte = 0x22, op_arg0 = reg_op (demo_reg 0), op_arg1 = reg_op (demo_reg 1),
        op_len = 4, op_offset = 0\<rparr> ctx demo_machine = Inr ((Next, ctx), demo_machine\<lparr>m_flags := f\<rparr>)
     \<and> dispatch env
       \<lparr>op_byte = 0x5A, op_mode_byte = 0x70, op_arg0 = OpImm 8, op_arg1 = OpNone, op_len = 6, op_offset = 4\<rparr>
       ctx (demo_machine\<lparr>m_flags := f\<rparr>) = Inr ((Jumped, ctx), m')"
proof (intro allI)
  fix env ctx
  let ?i = "\<lparr>op_byte = 0x02, op_mode_byte = 0x22, op_arg0 = reg_op (demo_reg 0), op_arg1 = reg_op (demo_reg 1),
        op_len = 4, op_offset = 0\<rparr>"
  let ?j = "\<lparr>op_byte = 0x5A, op_mode_byte = 0x70, op_arg0 = OpImm 8, op_arg1 = OpNone, op_len = 6, op_offset = 4\<rparr>"
  have "\<exists>f m'. dispatch env ?i ctx demo_machine = Inr ((Next, ctx), demo_machine\<lparr>m_flags := f\<rparr>)
    \<and> dispatch env ?j ctx (demo_machine\<lparr>m_flags := f\<rparr>)
        = Inr ((if jump_relation (op_byte ?j) (uint (reg_value demo_machine (demo_reg 0)))
                    (uint (reg_value demo_machine (demo_reg 1)))
                    (sign_extend 2 (reg_value demo_machine (demo_reg 0)))
                    (sign_extend 2 (reg_value demo_machine (demo_reg 1)))
                then Jumped else Next, ctx), m')"
    by (rule comp_jump_decides [OF demo_facts(1-3)])
      (simp_all add: demo_facts comp_jumps_def signed_jumps_def sign_extend_def)
  then show "\<exists>f m'. dispatch env ?i ctx demo_machine = Inr ((Next, ctx), demo_machine\<lparr>m_flags := f\<rparr>)
     \<and> dispatch env ?j ctx (demo_machine\<lparr>m_flags := f\<rparr>) = Inr ((Jumped, ctx), m')"
    by (simp add: demo_facts jump_relation_def sign_extend_def)
qed

text \<open>
  The least value as the second operand defeats the signed comparison: the overflow rule
  negates the second operand, and the negation of the least value is itself. After such a
  \<open>comp\<close>, \<open>jl\<close> branches for every first operand that differs, although none is less.
\<close>
theorem comp_jl_least:
  assumes "machine_wf m" and "int_reg r0" and "int_reg r1" and "rid_bank r1 = rid_bank r0"
    and "op_byte i = 0x02" and "op_arg0 i = reg_op r0" and "op_arg1 i = reg_op r1"
    and "op_byte j = 0x5C" and "op_arg0 j = OpImm d"
    and "len = reg_width (rid_bank r0)"
    and "sign_extend len (reg_value m r1) = - (2 ^ (8 * len - 1))"
  shows "\<exists>f m'. dispatch env i ctx m = Inr ((Next, ctx), m\<lparr>m_flags := f\<rparr>)
    \<and> dispatch env j ctx (m\<lparr>m_flags := f\<rparr>)
        = Inr ((if reg_value m r0 \<noteq> reg_value m r1 then Jumped else Next, ctx), m')
    \<and> \<not> sign_extend len (reg_value m r0) < sign_extend len (reg_value m r1)"
proof -
  let ?f = "sub_flags len (reg_value m r0) (reg_value m r1) (m_flags m)"
  have len: "len \<in> set widths" unfolding assms(10) by (rule reg_width_widths [OF assms(2)])
  have fits: "fits_width len (reg_value m r0)" "fits_width len (reg_value m r1)"
    using reg_value_fits [OF assms(1,2)] reg_value_fits [OF assms(1,3)] assms(4,10) by simp_all
  note facts = sub_flag_facts [OF operand_pairI [OF len fits], of "m_flags m"]
  have fl: "jump_flags (op_byte j) ?f \<longleftrightarrow> reg_value m r0 \<noteq> reg_value m r1"
    using facts(1,3) assms(11) by (simp add: assms(8) jump_flags_bytes)
  have j0: "op_byte j \<in> set comp_jumps" by (simp add: assms(8) comp_jumps_def)
  have m: "m_flags (m\<lparr>m_flags := ?f\<rparr>) = ?f" by simp
  obtain m' where j: "dispatch env j ctx (m\<lparr>m_flags := ?f\<rparr>)
      = Inr ((if jump_flags (op_byte j) ?f then Jumped else Next, ctx), m')"
    using dispatch_jump [OF j0 assms(9), of env ctx "m\<lparr>m_flags := ?f\<rparr>"] unfolding m ..
  have least: "\<not> sign_extend len (reg_value m r0) < sign_extend len (reg_value m r1)"
    using signed_of_ge [OF operand_bounds(1,2) [OF operand_pairI [OF len fits]]]
    unfolding operand_signs(1) [OF operand_pairI [OF len fits]] assms(11) by simp
  show ?thesis
    by (intro exI conjI) (rule dispatch_comp [OF assms(1-3,5-7), folded assms(10)], rule j [unfolded fl], rule least)
qed

definition least_machine :: machine where
  "least_machine = machine_new\<lparr>m_regs := [1, 0, 0, 0x80] @ replicate 28 0\<rparr>"

theorem comp_jl_least_witness:
  "\<exists>m. \<forall>env ctx. \<exists>f m'. reg_value m (demo_reg 0) = 1 \<and> reg_value m (demo_reg 1) = 0x8000
     \<and> dispatch env
       \<lparr>op_byte = 0x02, op_mode_byte = 0x22, op_arg0 = reg_op (demo_reg 0), op_arg1 = reg_op (demo_reg 1),
        op_len = 4, op_offset = 0\<rparr> ctx m = Inr ((Next, ctx), m\<lparr>m_flags := f\<rparr>)
     \<and> dispatch env
       \<lparr>op_byte = 0x5C, op_mode_byte = 0x70, op_arg0 = OpImm 8, op_arg1 = OpNone, op_len = 6, op_offset = 4\<rparr>
       ctx (m\<lparr>m_flags := f\<rparr>) = Inr ((Jumped, ctx), m')"
proof (rule exI [of _ least_machine], intro allI)
  fix env ctx
  let ?m = "least_machine"
  let ?i = "\<lparr>op_byte = 0x02, op_mode_byte = 0x22, op_arg0 = reg_op (demo_reg 0), op_arg1 = reg_op (demo_reg 1),
        op_len = 4, op_offset = 0\<rparr>"
  let ?j = "\<lparr>op_byte = 0x5C, op_mode_byte = 0x70, op_arg0 = OpImm 8, op_arg1 = OpNone, op_len = 6, op_offset = 4\<rparr>"
  have m: "machine_wf ?m" "reg_value ?m (demo_reg 0) = 1" "reg_value ?m (demo_reg 1) = 0x8000"
    by (simp_all add: least_machine_def machine_wf_def machine_new_def demo_reg_def reg_value_def reg_bytes_def
        reg_off_def reg_width_def)
  have "\<exists>f m'. dispatch env ?i ctx ?m = Inr ((Next, ctx), ?m\<lparr>m_flags := f\<rparr>)
    \<and> dispatch env ?j ctx (?m\<lparr>m_flags := f\<rparr>)
        = Inr ((if reg_value ?m (demo_reg 0) \<noteq> reg_value ?m (demo_reg 1) then Jumped else Next, ctx), m')
    \<and> \<not> sign_extend 2 (reg_value ?m (demo_reg 0)) < sign_extend 2 (reg_value ?m (demo_reg 1))"
    by (rule comp_jl_least [OF m(1) demo_facts(2,3)]) (simp_all add: demo_facts m sign_extend_def)
  then show "\<exists>f m'. reg_value ?m (demo_reg 0) = 1 \<and> reg_value ?m (demo_reg 1) = 0x8000
     \<and> dispatch env ?i ctx ?m = Inr ((Next, ctx), ?m\<lparr>m_flags := f\<rparr>)
     \<and> dispatch env ?j ctx (?m\<lparr>m_flags := f\<rparr>) = Inr ((Jumped, ctx), m')"
    by (auto simp: m)
qed

section \<open>Sums and differences\<close>

lemma write_u32_reg:
  assumes "machine_wf m" and "int_reg r"
  shows "\<exists>regs. write_u32 (reg_op r) v m = Inr ((), m\<lparr>m_regs := regs\<rparr>)
    \<and> machine_wf (m\<lparr>m_regs := regs\<rparr>)
    \<and> reg_value (m\<lparr>m_regs := regs\<rparr>) r = take_bit (8 * reg_width (rid_bank r)) v"
proof -
  have r: "reg_ok r" "int_bank (rid_bank r)" using assms(2) by (simp_all add: int_reg_def)
  let ?regs = "put_slice (m_regs m) (reg_off r) (int_bytes (ucast v) (reg_width (rid_bank r)))"
  have t: "ucast (take_bit n (ucast v :: i64)) = take_bit n v" for n
    by (rule bit_word_eqI) (auto simp: bit_simps)
  have "write_u32 (reg_op r) v m = Inr ((), m\<lparr>m_regs := ?regs\<rparr>)"
    using write_reg_int [OF assms(1) r, of "ucast v"]
    by (simp add: write_u32_def writeM_def storeM_def m_write_def reg_op_def)
  moreover have "reg_value (m\<lparr>m_regs := ?regs\<rparr>) r = take_bit (8 * reg_width (rid_bank r)) v"
    by (simp add: reg_value_def reg_bytes_put_same [OF assms(1) r] le_word_int_bytes reg_width_le t)
  ultimately show ?thesis using write_reg_int_wf [OF assms(1) r, of "ucast v"] by blast
qed

lemma op_adds_run:
  assumes "machine_wf m" and "int_reg r0" and "int_reg r1" and "op_arg0 i = reg_op r0" and "op_arg1 i = reg_op r1"
    and "write_u32 (reg_op r0) (word_of_int (uint (reg_value m r0) + uint (reg_value m r1))) m = Inr ((), m')"
  shows "op_adds i m = Inr (Next, m'\<lparr>m_flags :=
    add_flags (reg_width (rid_bank r0)) (reg_value m r0) (reg_value m r1) (m_flags m')\<rparr>)"
proof -
  have w: "(case op_arg0 i of OpIndexed _ _ _ \<Rightarrow> x | _ \<Rightarrow> write_u32 (op_arg0 i) v) = write_u32 (reg_op r0) v" for x v
    by (simp add: assms(4) reg_op_def)
  show ?thesis
    using assms(6) unfolding op_adds_def w
    by (simp add: assms(1-5) vm_run read_int_reg arg_width_reg Let_def words_of_operands(3) words_down
        add_flags_def del: of_int_add)
qed

lemma op_subb_run:
  assumes "machine_wf m" and "int_reg r0" and "int_reg r1" and "op_arg0 i = reg_op r0" and "op_arg1 i = reg_op r1"
    and "write_u32 (reg_op r0) (word_of_int (uint (reg_value m r0) - uint (reg_value m r1))) m = Inr ((), m')"
  shows "op_subb i m = Inr (Next, m'\<lparr>m_flags :=
    sub_flags (reg_width (rid_bank r0)) (reg_value m r0) (reg_value m r1) (m_flags m')\<rparr>)"
  using assms(6)
  by (simp add: op_subb_def assms(1-5) vm_run read_int_reg arg_width_reg Let_def words_of_operands(1) words_down
      sub_flags_def del: of_int_diff)

lemma uint_truncated:
  assumes "len \<in> set widths"
  shows "uint (take_bit (8 * len) (word_of_int x :: u32)) = x mod 2 ^ (8 * len)"
proof -
  have "8 * len \<le> 32" using assms by (auto simp: widths_def)
  moreover have "uint (take_bit (8 * len) (word_of_int x :: u32)) = take_bit (8 * len) (uint (word_of_int x :: u32))"
    by (rule unsigned_take_bit_eq)
  moreover have "uint (word_of_int x :: u32) = take_bit 32 x"
    unfolding uint_word_of_int by (simp add: take_bit_eq_mod)
  ultimately show ?thesis by (simp add: min_def flip: take_bit_eq_mod)
qed

text \<open>
  Addition and subtraction are exact modulo the width of the register: \<open>adds\<close> and \<open>subb\<close> of
  two registers of one integer bank leave the sum and the difference of the unsigned values
  modulo \<open>2 ^ (8 * len)\<close> in the first and touch nothing but it and the flags; carry says that
  the unsigned result left the range (a borrow for \<open>subb\<close>), overflow after \<open>adds\<close> that the
  signed one did, and zero that the result is zero.
\<close>
theorem adds_subb_exact:
  assumes "machine_wf m" and "int_reg r0" and "int_reg r1" and "rid_bank r1 = rid_bank r0"
    and "op_arg0 i = reg_op r0" and "op_arg1 i = reg_op r1" and "len = reg_width (rid_bank r0)"
  shows "(\<exists>regs f. op_adds i m = Inr (Next, m\<lparr>m_regs := regs, m_flags := f\<rparr>)
       \<and> uint (reg_value (m\<lparr>m_regs := regs\<rparr>) r0)
           = (uint (reg_value m r0) + uint (reg_value m r1)) mod 2 ^ (8 * len)
       \<and> (fl_c f \<longleftrightarrow> uint (reg_value m r0) + uint (reg_value m r1) \<ge> 2 ^ (8 * len))
       \<and> (fl_v f \<longleftrightarrow> sign_extend len (reg_value m r0) + sign_extend len (reg_value m r1)
           \<notin> {- (2 ^ (8 * len - 1)) ..< 2 ^ (8 * len - 1)})
       \<and> (fl_z f \<longleftrightarrow> reg_value (m\<lparr>m_regs := regs\<rparr>) r0 = 0))
    \<and> (\<exists>regs f. op_subb i m = Inr (Next, m\<lparr>m_regs := regs, m_flags := f\<rparr>)
       \<and> uint (reg_value (m\<lparr>m_regs := regs\<rparr>) r0)
           = (uint (reg_value m r0) - uint (reg_value m r1)) mod 2 ^ (8 * len)
       \<and> (fl_c f \<longleftrightarrow> uint (reg_value m r0) < uint (reg_value m r1))
       \<and> (fl_z f \<longleftrightarrow> reg_value m r0 = reg_value m r1))"
proof (intro conjI)
  let ?a = "uint (reg_value m r0)" and ?b = "uint (reg_value m r1)"
  have len: "len \<in> set widths" unfolding assms(7) by (rule reg_width_widths [OF assms(2)])
  have fits: "fits_width len (reg_value m r0)" "fits_width len (reg_value m r1)"
    using reg_value_fits [OF assms(1,2)] reg_value_fits [OF assms(1,3)] assms(4,7) by simp_all
  note add = add_flag_facts [OF operand_pairI [OF len fits], of "m_flags m"]
  note sub = sub_flag_facts [OF operand_pairI [OF len fits], of "m_flags m"]
  note P = two_P [OF operand_pairI [OF len fits]] and bounds = operand_bounds [OF operand_pairI [OF len fits]]
  show "\<exists>regs f. op_adds i m = Inr (Next, m\<lparr>m_regs := regs, m_flags := f\<rparr>)
       \<and> uint (reg_value (m\<lparr>m_regs := regs\<rparr>) r0) = (?a + ?b) mod 2 ^ (8 * len)
       \<and> (fl_c f \<longleftrightarrow> ?a + ?b \<ge> 2 ^ (8 * len))
       \<and> (fl_v f \<longleftrightarrow> sign_extend len (reg_value m r0) + sign_extend len (reg_value m r1)
           \<notin> {- (2 ^ (8 * len - 1)) ..< 2 ^ (8 * len - 1)})
       \<and> (fl_z f \<longleftrightarrow> reg_value (m\<lparr>m_regs := regs\<rparr>) r0 = 0)"
  proof -
    obtain regs where w: "write_u32 (reg_op r0) (word_of_int (?a + ?b)) m = Inr ((), m\<lparr>m_regs := regs\<rparr>)"
      and v: "reg_value (m\<lparr>m_regs := regs\<rparr>) r0 = take_bit (8 * len) (word_of_int (?a + ?b))"
      using write_u32_reg [OF assms(1,2)] assms(7) by metis
    have u: "uint (reg_value (m\<lparr>m_regs := regs\<rparr>) r0) = (?a + ?b) mod 2 ^ (8 * len)"
      unfolding v by (rule uint_truncated [OF len])
    have z: "reg_value (m\<lparr>m_regs := regs\<rparr>) r0 = 0 \<longleftrightarrow> ?a + ?b = 0 \<or> ?a + ?b = 2 * 2 ^ (8 * len - 1)"
      unfolding v take_bit_zero [OF len] P(1) using window_dvd [of "2 * 2 ^ (8 * len - 1)" "?a + ?b"] bounds P(2)
      by linarith
    have r: "op_adds i m = Inr (Next, m\<lparr>m_regs := regs,
        m_flags := add_flags len (reg_value m r0) (reg_value m r1) (m_flags m)\<rparr>)"
      using op_adds_run [OF assms(1-3,5,6) w] assms(7) by simp
    show ?thesis
      by (intro exI conjI) (rule r, rule u, simp add: add(2) P(1), simp add: add(4) not_le not_less, simp only: z add(1))
  qed
  show "\<exists>regs f. op_subb i m = Inr (Next, m\<lparr>m_regs := regs, m_flags := f\<rparr>)
       \<and> uint (reg_value (m\<lparr>m_regs := regs\<rparr>) r0) = (?a - ?b) mod 2 ^ (8 * len)
       \<and> (fl_c f \<longleftrightarrow> ?a < ?b) \<and> (fl_z f \<longleftrightarrow> reg_value m r0 = reg_value m r1)"
  proof -
    obtain regs where w: "write_u32 (reg_op r0) (word_of_int (?a - ?b)) m = Inr ((), m\<lparr>m_regs := regs\<rparr>)"
      and v: "reg_value (m\<lparr>m_regs := regs\<rparr>) r0 = take_bit (8 * len) (word_of_int (?a - ?b))"
      using write_u32_reg [OF assms(1,2)] assms(7) by metis
    have u: "uint (reg_value (m\<lparr>m_regs := regs\<rparr>) r0) = (?a - ?b) mod 2 ^ (8 * len)"
      unfolding v by (rule uint_truncated [OF len])
    have r: "op_subb i m = Inr (Next, m\<lparr>m_regs := regs,
        m_flags := sub_flags len (reg_value m r0) (reg_value m r1) (m_flags m)\<rparr>)"
      using op_subb_run [OF assms(1-3,5,6) w] assms(7) by simp
    show ?thesis
      by (intro exI conjI) (rule r, rule u, rule sub(2), rule sub(1))
  qed
qed

definition demo_op :: op where
  "demo_op = \<lparr>op_byte = 0x04, op_mode_byte = 0x22, op_arg0 = reg_op (demo_reg 0),
     op_arg1 = reg_op (demo_reg 1), op_len = 4, op_offset = 0\<rparr>"

theorem adds_subb_exact_witness:
  "(\<exists>regs f. op_adds demo_op demo_machine = Inr (Next, demo_machine\<lparr>m_regs := regs, m_flags := f\<rparr>)
      \<and> uint (reg_value (demo_machine\<lparr>m_regs := regs\<rparr>) (demo_reg 0)) = 8 \<and> \<not> fl_c f)
   \<and> (\<exists>regs f. op_subb demo_op demo_machine = Inr (Next, demo_machine\<lparr>m_regs := regs, m_flags := f\<rparr>)
      \<and> uint (reg_value (demo_machine\<lparr>m_regs := regs\<rparr>) (demo_reg 0)) = 2 \<and> \<not> fl_c f)"
proof -
  have o: "op_arg0 demo_op = reg_op (demo_reg 0)" "op_arg1 demo_op = reg_op (demo_reg 1)"
    by (simp_all add: demo_op_def)
  have b: "rid_bank (demo_reg 1) = rid_bank (demo_reg 0)" "2 = reg_width (rid_bank (demo_reg 0))"
    by (simp_all add: demo_facts)
  note x = adds_subb_exact [OF demo_facts(1-3) b(1) o b(2)]
  from x [THEN conjunct1] x [THEN conjunct2] show ?thesis
    by (auto simp: demo_facts)
qed

section \<open>The data stack\<close>

lemma be_value_rev: "be_value (rev bs) = ucast (le_word bs)"
proof (induction bs)
  case (Cons b bs)
  have "be_value (rev (b # bs)) = push_bit 8 (be_value (rev bs)) OR ucast b" by (simp add: be_value_def)
  also have "\<dots> = ucast (le_word (b # bs))"
    unfolding Cons.IH by (rule bit_word_eqI) (auto simp: bit_simps)
  finally show ?case .
qed (simp add: be_value_def)

text \<open>The bytes \<open>push\<close> lays down, least significant first.\<close>

lemma push_bytes: "map (\<lambda>k. ucast (drop_bit (8 * k) v)) [0..<len] = int_bytes (ucast (v :: u32)) len"
  unfolding int_bytes_def
  by (rule map_cong [OF refl], rule bit_word_eqI) (auto simp: bit_simps ac_simps dest: bit_imp_le_length)

lemma be_value_push_bytes:
  assumes "len \<in> set widths" and "fits_width len v"
  shows "be_value (rev (map (\<lambda>k. ucast (drop_bit (8 * k) v)) [0..<len])) = v"
proof -
  have "len \<le> 8" using assms(1) by (auto simp: widths_def)
  then have "be_value (rev (map (\<lambda>k. ucast (drop_bit (8 * k) v)) [0..<len])) = ucast (take_bit (8 * len) (ucast v :: i64))"
    unfolding push_bytes be_value_rev by (simp add: le_word_int_bytes)
  also have "\<dots> = take_bit (8 * len) v" by (rule bit_word_eqI) (auto simp: bit_simps)
  also have "\<dots> = v"
    using assms(2) by (simp add: word_uint_eq_iff unsigned_take_bit_eq take_bit_int_eq_self fits_width_def)
  finally show ?thesis .
qed

lemma value_data_len_reg: "int_reg r \<Longrightarrow> value_data_len nib (reg_op r) mn = Inr (reg_width (rid_bank r))"
  by (auto simp: value_data_len_def reg_op_def int_reg_def int_bank_def reg_width_def)

lemma modifyM_run: "modifyM f m = Inr ((), f m)"
  by (simp add: modifyM_def)

lemma op_push_run:
  assumes "machine_wf m" and "int_reg r" and "op_arg0 i = reg_op r"
  shows "op_push i m = Inr (Next, m\<lparr>m_data_stack :=
    m_data_stack m @ int_bytes (ucast (reg_value m r)) (reg_width (rid_bank r))\<rparr>)"
  by (simp add: op_push_def assms vm_run value_data_len_reg read_int_reg modifyM_run push_bytes)

text \<open>
  The data stack is a stack: pushing an integer register and popping into a register of the
  same bank succeeds from any machine, moves exactly the value, and leaves the stack as it was,
  whatever lies below; zero and sign are those of the value, overflow is cleared and the rest
  of the machine is untouched. Popping more than the stack holds is an error.
\<close>
theorem push_pop_roundtrip:
  assumes "machine_wf m" and "int_reg r0" and "int_reg r1" and "rid_bank r1 = rid_bank r0"
    and "op_arg0 i = reg_op r0" and "op_arg0 j = reg_op r1"
  shows "(\<exists>m1 regs f. op_push i m = Inr (Next, m1)
      \<and> op_pop j m1 = Inr (Next, m\<lparr>m_regs := regs, m_flags := f\<rparr>)
      \<and> reg_value (m\<lparr>m_regs := regs\<rparr>) r1 = reg_value m r0
      \<and> (fl_z f \<longleftrightarrow> reg_value m r0 = 0)
      \<and> (fl_s f \<longleftrightarrow> sign_extend (reg_width (rid_bank r0)) (reg_value m r0) < 0)
      \<and> \<not> fl_v f \<and> fl_c f = fl_c (m_flags m))
    \<and> (if length (m_data_stack m) < reg_width (rid_bank r1) then op_pop j m = Inl StackUnderflow
       else \<exists>m2. op_pop j m = Inr (Next, m2))"
proof (intro conjI)
  let ?len = "reg_width (rid_bank r0)" and ?v = "reg_value m r0"
  have len: "?len \<in> set widths" by (rule reg_width_widths [OF assms(2)])
  have fits: "fits_width ?len ?v" by (rule reg_value_fits [OF assms(1,2)])
  let ?m1 = "m\<lparr>m_data_stack := m_data_stack m @ int_bytes (ucast ?v) ?len\<rparr>"
  have wf1: "machine_wf ?m1" using assms(1) by simp
  have be: "be_value (rev (int_bytes (ucast ?v) ?len)) = ?v"
    using be_value_push_bytes [OF len fits] unfolding push_bytes .
  obtain regs where w: "write_u32 (reg_op r1) ?v m = Inr ((), m\<lparr>m_regs := regs\<rparr>)"
    and v: "reg_value (m\<lparr>m_regs := regs\<rparr>) r1 = take_bit (8 * ?len) ?v"
    using write_u32_reg [OF assms(1,3)] assms(4) by metis
  have tv: "take_bit (8 * ?len) ?v = ?v"
    using fits by (simp add: word_uint_eq_iff unsigned_take_bit_eq take_bit_int_eq_self fits_width_def)
  let ?f = "update_zs ?v ?len ((m_flags m)\<lparr>fl_v := False\<rparr>)"
  have restore: "?m1\<lparr>m_data_stack := m_data_stack m\<rparr> = m" by simp
  have pop: "op_pop j ?m1 = Inr (Next, m\<lparr>m_regs := regs, m_flags := ?f\<rparr>)"
    using w by (simp add: op_pop_def assms(3,4,6) vm_run arg_width_reg modifyM_run Let_def be)
  have s: "fl_s ?f \<longleftrightarrow> sign_extend ?len ?v < 0"
    using operand_sign(1) [OF operand_pairI [OF len fits fits]] operand_bounds(1,2) [OF operand_pairI [OF len fits fits]] two_P [OF operand_pairI [OF len fits fits]]
    by (simp add: flag_values [OF len] operand_signs(1) [OF operand_pairI [OF len fits fits]] signed_of_def neg_window_def)
  show "\<exists>m1 regs f. op_push i m = Inr (Next, m1)
      \<and> op_pop j m1 = Inr (Next, m\<lparr>m_regs := regs, m_flags := f\<rparr>)
      \<and> reg_value (m\<lparr>m_regs := regs\<rparr>) r1 = ?v \<and> (fl_z f \<longleftrightarrow> ?v = 0)
      \<and> (fl_s f \<longleftrightarrow> sign_extend ?len ?v < 0) \<and> \<not> fl_v f \<and> fl_c f = fl_c (m_flags m)"
    by (intro exI conjI)
      (rule op_push_run [OF assms(1,2,5)], rule pop, simp add: v tv, simp add: flag_values(1) [OF len] tv,
       rule s, simp, simp)
  show "if length (m_data_stack m) < reg_width (rid_bank r1) then op_pop j m = Inl StackUnderflow
       else \<exists>m2. op_pop j m = Inr (Next, m2)"
  proof (cases "length (m_data_stack m) < reg_width (rid_bank r1)")
    case True
    then show ?thesis by (simp add: op_pop_def assms(3,6) vm_run arg_width_reg failM_def)
  next
    case False
    let ?rest = "length (m_data_stack m) - reg_width (rid_bank r1)"
    let ?m = "m\<lparr>m_data_stack := take ?rest (m_data_stack m)\<rparr>"
    have "machine_wf ?m" using assms(1) by simp
    from write_u32_reg [OF this assms(3), of "be_value (rev (drop ?rest (m_data_stack m)))"] False
    show ?thesis by (auto simp: op_pop_def assms(3,6) vm_run arg_width_reg modifyM_run Let_def)
  qed
qed

theorem push_pop_roundtrip_witness:
  "(\<exists>m1 regs f. op_push demo_op demo_machine = Inr (Next, m1)
      \<and> op_pop (demo_op\<lparr>op_arg0 := reg_op (demo_reg 1)\<rparr>) m1 = Inr (Next, demo_machine\<lparr>m_regs := regs, m_flags := f\<rparr>)
      \<and> reg_value (demo_machine\<lparr>m_regs := regs\<rparr>) (demo_reg 1) = 5)"
proof -
  have o: "op_arg0 demo_op = reg_op (demo_reg 0)" "op_arg0 (demo_op\<lparr>op_arg0 := reg_op (demo_reg 1)\<rparr>) = reg_op (demo_reg 1)"
    by (simp_all add: demo_op_def)
  have b: "rid_bank (demo_reg 1) = rid_bank (demo_reg 0)" by (simp add: demo_facts)
  from push_pop_roundtrip [OF demo_facts(1-3) b o, THEN conjunct1] show ?thesis
    by (auto simp: demo_facts)
qed

end
