(* ===== verification/Client_Session.thy ===== *)
theory Client_Session
  imports Hsfz_Frame Uds_Nrc Uds_Request Uds_Decode Rust_Text
begin

text \<open>
  The demultiplexed session of \<open>crates/client/src/session.rs\<close> and the error type of
  \<open>crates/client/src/error.rs\<close>. One connection carries requests to many ECUs: the reader task
  routes each frame to the request pending for its source address, the keepalive task writes
  \<open>3E 80\<close>, and any number of request futures run at once.

  The concurrency is explicit. Each lock section, each completed write and each wake-up of a
  waiter is one event; \<open>session_event\<close> says what an event does to the shared state, and a run
  is any sequence of events, so every interleaving of the tasks is one. A request future is an
  entry of \<open>ss_requests\<close>; its index stands for the identity of its channel, and its inbox is
  the receiving half. An event that is not enabled changes nothing.
\<close>

section \<open>Errors\<close>

datatype client_error =
    CHsfz hsfz_error
  | CUds uds_error
  | CNegative u8 nrc                        \<comment> \<open>sid, nrc\<close>
  | CNoLinkLocalInterface
  | CNoGatewayFound u32                     \<comment> \<open>the IPv4 address bound to\<close>
  | CAmbiguousGateway nat
  | CNoMeasurementRead
  | CUnexpectedDid u16 u16                  \<comment> \<open>requested, got\<close>
  | CConnectionClosed
  | CRequestInFlight u8

section \<open>State\<close>

definition MAX_PENDING_TICKS :: u32 where "MAX_PENDING_TICKS = 10"

datatype delivery = Final "client_error + bytes" | Pending

record pending_req =
  pr_sid :: u8
  pr_generation :: u64
  pr_tx :: nat                              \<comment> \<open>the channel: an index of \<open>ss_requests\<close>\<close>

type_synonym pending = "u8 \<rightharpoonup> pending_req"

text \<open>
  Where a request future is: before its registration, registered, awaiting its answer, on its
  way out with the guard still alive (\<open>None\<close>: the future was dropped), or gone.
\<close>

datatype request_phase =
    Issued
  | Registered
  | Awaiting u32                            \<comment> \<open>pending ticks so far\<close>
  | Leaving "(client_error + bytes) option"
  | Left "(client_error + bytes) option"

record request =
  rq_target :: u8
  rq_uds :: bytes
  rq_sid :: u8
  rq_generation :: u64
  rq_inbox :: "delivery list"
  rq_phase :: request_phase

record session =
  ss_source :: u8
  ss_gateway :: u8
  ss_pending :: pending
  ss_next_generation :: u64
  ss_requests :: "request list"
  ss_wire :: "hsfz_frame list"              \<comment> \<open>the frames written whole, in order\<close>
  ss_reader :: bool                         \<comment> \<open>the reader task is running\<close>
  ss_keepalive :: bool                      \<comment> \<open>the keepalive task is running\<close>

definition session_open :: "u8 \<Rightarrow> u8 \<Rightarrow> session" where
  "session_open source gateway =
     \<lparr>ss_source = source, ss_gateway = gateway, ss_pending = Map.empty, ss_next_generation = 0,
      ss_requests = [], ss_wire = [], ss_reader = True, ss_keepalive = True\<rparr>"

section \<open>The reader\<close>

text \<open>
  Sending on a channel appends to the inbox at its other end. A send to a future that is gone
  fails, and the code ignores that; nothing reads that inbox any rest.
\<close>

definition send :: "nat \<Rightarrow> delivery \<Rightarrow> request list \<Rightarrow> request list" where
  "send tx d rs = rs[tx := (rs ! tx)\<lparr>rq_inbox := rq_inbox (rs ! tx) @ [d]\<rparr>]"

text \<open>Take the slot of an address out and deliver its final outcome.\<close>

definition finish :: "u8 \<Rightarrow> pending_req \<Rightarrow> client_error + bytes \<Rightarrow> session \<Rightarrow> session" where
  "finish src r outcome s =
     s\<lparr>ss_pending := (ss_pending s)(src := None),
       ss_requests := send (pr_tx r) (Final outcome) (ss_requests s)\<rparr>"

definition route_frame :: "hsfz_frame \<Rightarrow> session \<Rightarrow> session" where
  "route_frame frame s =
     (if hf_control frame \<noteq> control_DIAGNOSTIC then s
      else case hf_addr frame of None \<Rightarrow> s
      | Some (src, _) \<Rightarrow>
     (case ss_pending s src of None \<Rightarrow> s
      | Some r \<Rightarrow>
     (let request_sid = pr_sid r;
          expected_positive = positive_response_sid request_sid;
          payload = hf_payload frame
      in case payload of [] \<Rightarrow> s
         | byte # _ \<Rightarrow>
             if byte = expected_positive then finish src r (Inr payload) s
             else if byte = sid_NEGATIVE_RESPONSE then
               (if nth_opt payload 1 \<noteq> Some request_sid then s
                else let nrc = (case nth_opt payload 2 of None \<Rightarrow> 0 | Some n \<Rightarrow> n) in
                if nrc = NRC_RESPONSE_PENDING
                then s\<lparr>ss_requests := send (pr_tx r) Pending (ss_requests s)\<rparr>
                else finish src r (Inl (CNegative request_sid (nrc_from nrc))) s)
             else s)))"

text \<open>A channel is closed when no slot holds its sending half: the map has 256 possible keys.\<close>

definition chan_closed :: "nat \<Rightarrow> session \<Rightarrow> bool" where
  "chan_closed i s \<longleftrightarrow> list_all (\<lambda>t. case ss_pending s t of None \<Rightarrow> True | Some r \<Rightarrow> pr_tx r \<noteq> i)
     (map word_of_nat [0..<256])"

text \<open>The end of the reader: every slot is drained, each waiter told.\<close>

definition drain :: "session \<Rightarrow> session" where
  "drain s =
     s\<lparr>ss_pending := Map.empty, ss_reader := False,
       ss_requests := map (\<lambda>i. if chan_closed i s then ss_requests s ! i
                               else (ss_requests s ! i)
                                 \<lparr>rq_inbox := rq_inbox (ss_requests s ! i) @ [Final (Inl CConnectionClosed)]\<rparr>)
                          [0..<length (ss_requests s)]\<rparr>"

section \<open>A request\<close>

definition set_phase :: "nat \<Rightarrow> request_phase \<Rightarrow> session \<Rightarrow> session" where
  "set_phase i p s = s\<lparr>ss_requests := (ss_requests s)[i := (ss_requests s ! i)\<lparr>rq_phase := p\<rparr>]\<rparr>"

text \<open>The first lines of \<open>request_with_timeout\<close>: the service id, the generation, the channel.\<close>

definition issue :: "u8 \<Rightarrow> bytes \<Rightarrow> session \<Rightarrow> session" where
  "issue target uds s =
     s\<lparr>ss_next_generation := ss_next_generation s + 1,
       ss_requests := ss_requests s @
         [\<lparr>rq_target = target, rq_uds = uds, rq_sid = (case uds of [] \<Rightarrow> 0 | b # _ \<Rightarrow> b),
           rq_generation = ss_next_generation s, rq_inbox = [], rq_phase = Issued\<rparr>]\<rparr>"

text \<open>The registration, under the lock.\<close>

definition register_slot :: "nat \<Rightarrow> session \<Rightarrow> session" where
  "register_slot i s =
     (let rq = ss_requests s ! i; target = rq_target rq in
      if ss_pending s target \<noteq> None
      then set_phase i (Left (Some (Inl (CRequestInFlight target)))) s
      else set_phase i Registered
             (s\<lparr>ss_pending := (ss_pending s)(target \<mapsto>
                 \<lparr>pr_sid = rq_sid rq, pr_generation = rq_generation rq, pr_tx = i\<rparr>)\<rparr>))"

text \<open>The write of the frame: \<open>None\<close> when the socket took it, else the error of the transport.\<close>

definition write_request :: "nat \<Rightarrow> hsfz_error option \<Rightarrow> session \<Rightarrow> session" where
  "write_request i result s =
     (let rq = ss_requests s ! i in
      case result of
        Some e \<Rightarrow> set_phase i (Leaving (Some (Inl (CHsfz e)))) s
      | None \<Rightarrow> set_phase i (Awaiting 0)
          (s\<lparr>ss_wire := ss_wire s @ [hsfz_diagnostic (ss_source s) (rq_target rq) (rq_uds rq)]\<rparr>))"

text \<open>
  One turn of the waiting loop. A message that is there is received before the deadline is
  looked at; without one the waiter wakes because the channel closed or the deadline passed.
\<close>

definition wake :: "nat \<Rightarrow> u32 \<Rightarrow> session \<Rightarrow> session" where
  "wake i ticks s =
     (let rq = ss_requests s ! i in
      case rq_inbox rq of
        Final result # rest \<Rightarrow>
          set_phase i (Leaving (Some result))
            (s\<lparr>ss_requests := (ss_requests s)[i := rq\<lparr>rq_inbox := rest\<rparr>]\<rparr>)
      | Pending # rest \<Rightarrow>
          (let ticks' = ticks + 1 in
           set_phase i (if ticks' > MAX_PENDING_TICKS
                        then Leaving (Some (Inl (CHsfz HsfzReadTimeout))) else Awaiting ticks')
             (s\<lparr>ss_requests := (ss_requests s)[i := rq\<lparr>rq_inbox := rest\<rparr>]\<rparr>))
      | [] \<Rightarrow>
          set_phase i (Leaving (Some (Inl (if chan_closed i s then CConnectionClosed
                                           else CHsfz HsfzReadTimeout)))) s)"

text \<open>\<open>SlotGuard::drop\<close>: only a slot of the own generation is removed.\<close>

definition drop_guard :: "nat \<Rightarrow> session \<Rightarrow> session" where
  "drop_guard i s =
     (let rq = ss_requests s ! i; target = rq_target rq in
      case ss_pending s target of
        Some r \<Rightarrow> if pr_generation r = rq_generation rq
                  then s\<lparr>ss_pending := (ss_pending s)(target := None)\<rparr> else s
      | None \<Rightarrow> s)"

section \<open>Events\<close>

datatype session_ev =
    Issue u8 bytes
  | Register nat
  | Write nat "hsfz_error option"
  | Wake nat
  | Cancel nat
  | DropGuard nat
  | Incoming hsfz_frame
  | ReaderEnds
  | KeepaliveTick bool                      \<comment> \<open>the write of \<open>3E 80\<close> succeeded\<close>

definition session_event :: "session_ev \<Rightarrow> session \<Rightarrow> session" where
  "session_event ev s =
     (case ev of
        Issue target uds \<Rightarrow> issue target uds s
      | Register i \<Rightarrow>
          if i < length (ss_requests s) \<and> rq_phase (ss_requests s ! i) = Issued
          then register_slot i s else s
      | Write i result \<Rightarrow>
          if i < length (ss_requests s) \<and> rq_phase (ss_requests s ! i) = Registered
          then write_request i result s else s
      | Wake i \<Rightarrow>
          if i < length (ss_requests s)
          then (case rq_phase (ss_requests s ! i) of Awaiting n \<Rightarrow> wake i n s | _ \<Rightarrow> s) else s
      | Cancel i \<Rightarrow>
          if i < length (ss_requests s)
          then (case rq_phase (ss_requests s ! i) of
                  Registered \<Rightarrow> set_phase i (Leaving None) s
                | Awaiting _ \<Rightarrow> set_phase i (Leaving None) s
                | _ \<Rightarrow> s) else s
      | DropGuard i \<Rightarrow>
          if i < length (ss_requests s)
          then (case rq_phase (ss_requests s ! i) of
                  Leaving r \<Rightarrow> set_phase i (Left r) (drop_guard i s) | _ \<Rightarrow> s) else s
      | Incoming frame \<Rightarrow> if ss_reader s then route_frame frame s else s
      | ReaderEnds \<Rightarrow> if ss_reader s then drain s else s
      | KeepaliveTick ok \<Rightarrow>
          if \<not> ss_keepalive s then s
          else if ok then s\<lparr>ss_wire := ss_wire s @
                 [hsfz_diagnostic (ss_source s) (ss_gateway s) tester_present_suppressed]\<rparr>
          else s\<lparr>ss_keepalive := False\<rparr>)"

definition session_run :: "session_ev list \<Rightarrow> session \<Rightarrow> session" where
  "session_run evs s = fold session_event evs s"

lemma session_run_simps [simp]:
  "session_run [] s = s"
  "session_run (ev # evs) s = session_run evs (session_event ev s)"
  "session_run (evs @ [ev]) s = session_event ev (session_run evs s)"
  by (simp_all add: session_run_def)

text \<open>The trace line of a frame: its bytes in upper-case hexadecimal, separated by spaces.\<close>

fun hex_frame :: "bytes \<Rightarrow> ustring" where
  "hex_frame [] = []"
| "hex_frame [b] = fmt_hex 2 (unat b)"
| "hex_frame (b # bs) = fmt_hex 2 (unat b) @ [0x20] @ hex_frame bs"

section \<open>The invariant\<close>

lemma chan_closed_iff: "chan_closed i s \<longleftrightarrow> (\<forall>t r. ss_pending s t = Some r \<longrightarrow> pr_tx r \<noteq> i)"
proof -
  have "(t :: u8) \<in> word_of_nat ` {0..<256}" for t
    using unsigned_less [of t, where ?'a = nat] by (intro image_eqI [of _ _ "unat t"]) auto
  then have "set (map word_of_nat [0..<256]) = (UNIV :: u8 set)" by auto
  then show ?thesis
    unfolding chan_closed_def list_all_iff by (auto split: option.split)
qed

fun is_final :: "delivery \<Rightarrow> bool" where
  "is_final (Final _) = True"
| "is_final Pending = False"

text \<open>The phases with a registered slot of their own to look for, and those with a live guard.\<close>

fun phase_active :: "request_phase \<Rightarrow> bool" where
  "phase_active Registered = True"
| "phase_active (Awaiting _) = True"
| "phase_active _ = False"

fun phase_guarded :: "request_phase \<Rightarrow> bool" where
  "phase_guarded (Leaving _) = True"
| "phase_guarded p = phase_active p"

fun phase_bound :: "request_phase \<Rightarrow> bool" where
  "phase_bound (Awaiting n) = (n \<le> MAX_PENDING_TICKS)"
| "phase_bound _ = True"

definition slot_ok :: "session \<Rightarrow> u8 \<Rightarrow> pending_req \<Rightarrow> bool" where
  "slot_ok s t r \<longleftrightarrow> pr_tx r < length (ss_requests s) \<and>
     (let rq = ss_requests s ! pr_tx r in
        rq_target rq = t \<and> rq_sid rq = pr_sid r \<and> rq_generation rq = pr_generation r
        \<and> phase_guarded (rq_phase rq) \<and> \<not> list_ex is_final (rq_inbox rq))"

definition request_ok :: "session \<Rightarrow> nat \<Rightarrow> bool" where
  "request_ok s i \<longleftrightarrow>
     (let rq = ss_requests s ! i in
        rq_generation rq = word_of_nat i
        \<and> (phase_active (rq_phase rq) \<longrightarrow>
             (\<exists>r. ss_pending s (rq_target rq) = Some r \<and> pr_tx r = i) \<or> list_ex is_final (rq_inbox rq))
        \<and> phase_bound (rq_phase rq) \<and> (rq_phase rq = Issued \<longrightarrow> rq_inbox rq = []))"

definition session_inv :: "session \<Rightarrow> bool" where
  "session_inv s \<longleftrightarrow>
     ss_next_generation s = word_of_nat (length (ss_requests s))
     \<and> (\<forall>i<length (ss_requests s). request_ok s i)
     \<and> (\<forall>t r. ss_pending s t = Some r \<longrightarrow> slot_ok s t r)"

lemma session_invD:
  assumes "session_inv s"
  shows "ss_next_generation s = word_of_nat (length (ss_requests s))"
    and "\<And>i. i < length (ss_requests s) \<Longrightarrow> request_ok s i"
    and "\<And>t r. ss_pending s t = Some r \<Longrightarrow> slot_ok s t r"
  using assms by (simp_all add: session_inv_def)

lemma slotD:
  assumes "session_inv s" "ss_pending s t = Some r" "pr_tx r = i"
  shows "i < length (ss_requests s)" "rq_target (ss_requests s ! i) = t"
    "rq_sid (ss_requests s ! i) = pr_sid r" "rq_generation (ss_requests s ! i) = pr_generation r"
    "phase_guarded (rq_phase (ss_requests s ! i))" "\<not> list_ex is_final (rq_inbox (ss_requests s ! i))"
    "rq_phase (ss_requests s ! i) \<noteq> Issued"
  using session_invD(3) [OF assms(1,2)] assms(3) by (auto simp: slot_ok_def Let_def)

lemma requestD:
  assumes "session_inv s" "i < length (ss_requests s)"
  shows "rq_generation (ss_requests s ! i) = word_of_nat i" "phase_bound (rq_phase (ss_requests s ! i))"
    "rq_phase (ss_requests s ! i) = Issued \<Longrightarrow> rq_inbox (ss_requests s ! i) = []"
    "phase_active (rq_phase (ss_requests s ! i)) \<Longrightarrow>
      (\<exists>r. ss_pending s (rq_target (ss_requests s ! i)) = Some r \<and> pr_tx r = i)
      \<or> list_ex is_final (rq_inbox (ss_requests s ! i))"
  using session_invD(2) [OF assms] by (auto simp: request_ok_def Let_def)

text \<open>
  The shape of every change but an issue and a registration: one request is updated, slots are
  at most removed, and only the slot of that request.
\<close>

lemma session_inv_update:
  assumes inv: "session_inv s" and i: "i < length (ss_requests s)"
    and s': "ss_requests s' = (ss_requests s)[i := rq']"
      "ss_next_generation s' = ss_next_generation s"
    and same: "rq_target rq' = rq_target (ss_requests s ! i)" "rq_sid rq' = rq_sid (ss_requests s ! i)"
      "rq_generation rq' = rq_generation (ss_requests s ! i)"
    and shrink: "\<And>t r. ss_pending s' t = Some r \<Longrightarrow> ss_pending s t = Some r"
    and own: "\<And>t r. ss_pending s t = Some r \<Longrightarrow> ss_pending s' t = None \<Longrightarrow> pr_tx r = i"
    and slot: "\<And>t r. ss_pending s' t = Some r \<Longrightarrow> pr_tx r = i \<Longrightarrow>
      phase_guarded (rq_phase rq') \<and> \<not> list_ex is_final (rq_inbox rq')"
    and req: "phase_active (rq_phase rq') \<Longrightarrow>
      (\<exists>r. ss_pending s' (rq_target rq') = Some r \<and> pr_tx r = i) \<or> list_ex is_final (rq_inbox rq')"
    and bound: "phase_bound (rq_phase rq')"
    and fresh: "rq_phase rq' = Issued \<Longrightarrow> rq_inbox rq' = []"
  shows "session_inv s'"
proof -
  have "request_ok s' j" if "j < length (ss_requests s)" for j
  proof (cases "j = i")
    case True
    with session_invD(2) [OF inv i] i s'(1) same req bound fresh show ?thesis
      by (auto simp: request_ok_def Let_def)
  next
    case False
    have ok: "request_ok s j" by (rule session_invD(2) [OF inv that])
    have "\<exists>r. ss_pending s' t = Some r \<and> pr_tx r = j"
      if "ss_pending s t = Some r" "pr_tx r = j" for t r
      using own [OF that(1)] that False shrink [of t] by (cases "ss_pending s' t") fastforce+
    with ok False s'(1) show ?thesis by (fastforce simp: request_ok_def Let_def)
  qed
  moreover have "slot_ok s' t r" if "ss_pending s' t = Some r" for t r
    using session_invD(3) [OF inv shrink [OF that]] slot [OF that] i s'(1) same
    by (cases "pr_tx r = i") (auto simp: slot_ok_def Let_def)
  ultimately show ?thesis
    using session_invD(1) [OF inv] s' by (simp add: session_inv_def)
qed

text \<open>The operations keep it.\<close>

lemma slot_tx_unique:
  assumes "session_inv s" "ss_pending s t = Some r" "ss_pending s t' = Some r'" "pr_tx r = pr_tx r'"
  shows "t = t'"
  using session_invD(3) [OF assms(1,2)] session_invD(3) [OF assms(1,3)] assms(4)
  by (simp add: slot_ok_def Let_def)

lemma set_phase_keeps:
  assumes "session_inv s" "i < length (ss_requests s)"
    and "phase_guarded (rq_phase (ss_requests s ! i)) \<Longrightarrow> phase_guarded p"
    and "phase_active p \<Longrightarrow> phase_active (rq_phase (ss_requests s ! i))" and "phase_bound p" and "p \<noteq> Issued"
  shows "session_inv (set_phase i p s)"
proof (rule session_inv_update [OF assms(1,2)])
  show "ss_requests (set_phase i p s) =
      (ss_requests s)[i := (ss_requests s ! i)\<lparr>rq_phase := p\<rparr>]"
    by (simp add: set_phase_def)
qed (use assms session_invD(2) [OF assms(1,2)] session_invD(3) [OF assms(1)] in
    \<open>auto simp: set_phase_def request_ok_def slot_ok_def Let_def\<close>)

lemma finish_keeps:
  assumes inv: "session_inv s" and r: "ss_pending s src = Some r"
  shows "session_inv (finish src r outcome s)"
proof -
  let ?i = "pr_tx r"
  have ok: "slot_ok s src r" by (rule session_invD(3) [OF inv r])
  then have i: "?i < length (ss_requests s)" by (simp add: slot_ok_def)
  have uniq: "\<And>t r'. ss_pending s t = Some r' \<Longrightarrow> t \<noteq> src \<Longrightarrow> pr_tx r' \<noteq> ?i"
    using slot_tx_unique [OF inv _ r] by blast
  have rq: "rq_target (ss_requests s ! ?i) = src" "phase_bound (rq_phase (ss_requests s ! ?i))"
      "rq_phase (ss_requests s ! ?i) \<noteq> Issued"
    using ok session_invD(2) [OF inv i] by (auto simp: slot_ok_def request_ok_def Let_def)
  show ?thesis
  proof (rule session_inv_update [OF inv i])
    show "ss_requests (finish src r outcome s) =
        (ss_requests s)[?i := (ss_requests s ! ?i)\<lparr>rq_inbox := rq_inbox (ss_requests s ! ?i) @ [Final outcome]\<rparr>]"
      by (simp add: finish_def send_def)
  next
    fix t r'
    assume "ss_pending s t = Some r'" "ss_pending (finish src r outcome s) t = None"
    then have "t = src" by (auto simp: finish_def split: if_splits)
    with r \<open>ss_pending s t = Some r'\<close> show "pr_tx r' = ?i" by simp
  qed (use rq uniq in \<open>auto simp: finish_def split: if_splits\<close>)
qed

lemma send_pending_keeps:
  assumes inv: "session_inv s" and r: "ss_pending s src = Some r"
  shows "session_inv (s\<lparr>ss_requests := send (pr_tx r) Pending (ss_requests s)\<rparr>)"
proof -
  let ?i = "pr_tx r"
  have ok: "slot_ok s src r" by (rule session_invD(3) [OF inv r])
  then have i: "?i < length (ss_requests s)" by (simp add: slot_ok_def)
  show ?thesis
  proof (rule session_inv_update [OF inv i])
    show "ss_requests (s\<lparr>ss_requests := send ?i Pending (ss_requests s)\<rparr>) =
        (ss_requests s)[?i := (ss_requests s ! ?i)\<lparr>rq_inbox := rq_inbox (ss_requests s ! ?i) @ [Pending]\<rparr>]"
      by (simp add: send_def)
  qed (use r ok session_invD(2) [OF inv i] session_invD(3) [OF inv] in
      \<open>auto simp: request_ok_def slot_ok_def Let_def\<close>)
qed

lemma route_frame_keeps: "session_inv s \<Longrightarrow> session_inv (route_frame frame s)"
  by (auto simp: route_frame_def Let_def finish_keeps send_pending_keeps
      split: option.split list.split)

lemma drain_nth:
  "i < length (ss_requests s) \<Longrightarrow> ss_requests (drain s) ! i =
     (if chan_closed i s then ss_requests s ! i
      else (ss_requests s ! i)\<lparr>rq_inbox := rq_inbox (ss_requests s ! i) @ [Final (Inl CConnectionClosed)]\<rparr>)"
  by (simp add: drain_def)

lemma drain_keeps:
  assumes inv: "session_inv s"
  shows "session_inv (drain s)"
proof -
  have "request_ok (drain s) i" if "i < length (ss_requests s)" for i
    using session_invD(2) [OF inv that] slotD(7) [OF inv]
    by (auto simp: request_ok_def Let_def drain_nth [OF that] chan_closed_iff)
  with session_invD(1) [OF inv] show ?thesis by (simp add: session_inv_def drain_def)
qed

lemma issue_keeps:
  assumes inv: "session_inv s"
  shows "session_inv (issue target uds s)"
proof -
  have "request_ok (issue target uds s) i" if "i < Suc (length (ss_requests s))" for i
    using that session_invD(1) [OF inv] session_invD(2) [OF inv, of i]
    by (cases "i < length (ss_requests s)") (auto simp: request_ok_def Let_def issue_def nth_append less_Suc_eq)
  with session_invD(1,3) [OF inv] show ?thesis
    by (fastforce simp: session_inv_def slot_ok_def Let_def issue_def nth_append intro: less_SucI)
qed

lemma register_slot_keeps:
  assumes inv: "session_inv s" and i: "i < length (ss_requests s)"
    and ph: "rq_phase (ss_requests s ! i) = Issued" and box: "rq_inbox (ss_requests s ! i) = []"
  shows "session_inv (register_slot i s)"
proof (cases "ss_pending s (rq_target (ss_requests s ! i))")
  case (Some r)
  with ph show ?thesis
    by (auto simp: register_slot_def Let_def intro!: set_phase_keeps inv i)
next
  case None
  have other: "pr_tx r \<noteq> i" if "ss_pending s t = Some r" for t r
    using session_invD(3) [OF inv that] ph by (auto simp: slot_ok_def Let_def)
  have "request_ok (register_slot i s) j" if "j < length (ss_requests s)" for j
    using session_invD(2) [OF inv that] None i
    by (cases "j = i") (auto simp: request_ok_def register_slot_def set_phase_def Let_def)
  moreover have "slot_ok (register_slot i s) t r"
    if "ss_pending (register_slot i s) t = Some r" for t r
    using that session_invD(3) [OF inv, of t r] other [of t r] None i box
    by (auto simp: slot_ok_def register_slot_def set_phase_def Let_def split: if_splits)
  ultimately show ?thesis
    using session_invD(1) [OF inv] None
    by (auto simp: session_inv_def register_slot_def set_phase_def Let_def)
qed

text \<open>
  Cleanup is precise while the 64-bit generations are unique: the guard takes out the own slot
  and no other.
\<close>

lemma generation_unique:
  assumes "session_inv s" "length (ss_requests s) \<le> 2 ^ 64"
    and "i < length (ss_requests s)" "j < length (ss_requests s)"
    and "rq_generation (ss_requests s ! i) = rq_generation (ss_requests s ! j)"
  shows "i = j"
proof -
  have "(word_of_nat i :: u64) = word_of_nat j"
    using session_invD(2) [OF assms(1,3)] session_invD(2) [OF assms(1,4)] assms(5)
    by (simp add: request_ok_def Let_def)
  then have "unat (word_of_nat i :: u64) = unat (word_of_nat j :: u64)" by simp
  with assms(2-4) show ?thesis by (simp add: unat_of_nat)
qed

lemma drop_guard_slot:
  assumes inv: "session_inv s" and len: "length (ss_requests s) \<le> 2 ^ 64"
    and i: "i < length (ss_requests s)"
  shows "ss_pending (drop_guard i s) t =
    (case ss_pending s t of None \<Rightarrow> None | Some r \<Rightarrow> if pr_tx r = i then None else Some r)"
proof -
  let ?t = "rq_target (ss_requests s ! i)"
  show ?thesis
  proof (cases "ss_pending s t")
    case None
    then show ?thesis by (simp add: drop_guard_def Let_def split: option.split)
  next
    case (Some r)
    have eq: "pr_tx r = i \<longleftrightarrow> t = ?t \<and> pr_generation r = rq_generation (ss_requests s ! i)"
      using slotD(1,2,4) [OF inv Some] generation_unique [OF inv len _ i, of "pr_tx r"] by auto
    show ?thesis
      using Some by (auto simp: drop_guard_def Let_def eq split: option.split)
  qed
qed

lemma drop_guard_requests [simp]:
  "ss_requests (drop_guard i s) = ss_requests s"
  "ss_next_generation (drop_guard i s) = ss_next_generation s"
  by (simp_all add: drop_guard_def Let_def split: option.split)

lemma leave_keeps:
  assumes inv: "session_inv s" and len: "length (ss_requests s) \<le> 2 ^ 64"
    and i: "i < length (ss_requests s)"
  shows "session_inv (set_phase i (Left r) (drop_guard i s))"
proof (rule session_inv_update [OF inv i])
  show "ss_requests (set_phase i (Left r) (drop_guard i s)) =
      (ss_requests s)[i := (ss_requests s ! i)\<lparr>rq_phase := Left r\<rparr>]"
    by (simp add: set_phase_def)
qed (auto simp: set_phase_def drop_guard_slot [OF inv len i] split: option.splits if_splits)

lemma wake_keeps:
  assumes inv: "session_inv s" and i: "i < length (ss_requests s)"
    and ph: "rq_phase (ss_requests s ! i) = Awaiting n"
  shows "session_inv (wake i n s)"
proof (cases "rq_inbox (ss_requests s ! i)")
  case Nil
  with ph show ?thesis
    by (auto simp: wake_def Let_def intro!: set_phase_keeps inv i)
next
  case (Cons d rest)
  obtain p where w: "wake i n s = set_phase i p (s\<lparr>ss_requests := (ss_requests s)
      [i := (ss_requests s ! i)\<lparr>rq_inbox := rest\<rparr>]\<rparr>)"
    and p: "phase_guarded p" "phase_bound p" "p \<noteq> Issued" "is_final d \<Longrightarrow> \<not> phase_active p"
    using Cons by (cases d) (auto simp: wake_def Let_def not_less split: if_splits)
  show ?thesis
  proof (rule session_inv_update [OF inv i])
    show "ss_requests (wake i n s) =
        (ss_requests s)[i := (ss_requests s ! i)\<lparr>rq_inbox := rest, rq_phase := p\<rparr>]"
      by (simp add: w set_phase_def i)
  next
    fix t r
    assume "ss_pending (wake i n s) t = Some r" "pr_tx r = i"
    then have "\<not> list_ex is_final (d # rest)"
      using slotD(6) [OF inv, of t r] Cons by (simp add: w set_phase_def)
    then show "phase_guarded (rq_phase ((ss_requests s ! i)\<lparr>rq_inbox := rest, rq_phase := p\<rparr>))
        \<and> \<not> list_ex is_final (rq_inbox ((ss_requests s ! i)\<lparr>rq_inbox := rest, rq_phase := p\<rparr>))"
      using p(1) by simp
  qed (use p Cons ph requestD [OF inv i] in \<open>auto simp: w set_phase_def\<close>)
qed

lemma session_event_length:
  "length (ss_requests s) \<le> length (ss_requests (session_event ev s))"
  by (cases ev) (auto simp: session_event_def issue_def register_slot_def write_request_def wake_def
      set_phase_def drain_def route_frame_def finish_def send_def Let_def
      split: request_phase.split option.split delivery.split list.split)

lemma session_event_keeps:
  assumes inv: "session_inv s" and len: "length (ss_requests s) \<le> 2 ^ 64"
  shows "session_inv (session_event ev s)"
proof (cases ev)
  case (Register i)
  with inv show ?thesis
    by (auto simp: session_event_def intro!: register_slot_keeps requestD(3))
next
  case (Write i result)
  have "session_inv (s\<lparr>ss_wire := ws\<rparr>)" for ws
    using inv by (simp add: session_inv_def request_ok_def slot_ok_def)
  with Write inv show ?thesis
    by (auto simp: session_event_def write_request_def Let_def intro!: set_phase_keeps
        split: option.split)
next
  case (Wake i)
  with inv show ?thesis by (auto simp: session_event_def wake_keeps split: request_phase.split)
next
  case (Cancel i)
  with inv show ?thesis
    by (auto simp: session_event_def intro!: set_phase_keeps split: request_phase.split)
next
  case (DropGuard i)
  with inv len show ?thesis by (auto simp: session_event_def leave_keeps split: request_phase.split)
next
  case (KeepaliveTick ok)
  with inv show ?thesis
    by (simp add: session_event_def session_inv_def request_ok_def slot_ok_def)
qed (use inv in \<open>simp_all add: session_event_def issue_keeps route_frame_keeps drain_keeps\<close>)

lemma session_run_inv:
  "length (ss_requests (session_run evs (session_open src gw))) \<le> 2 ^ 64 \<Longrightarrow>
   session_inv (session_run evs (session_open src gw))"
proof (induction evs rule: rev_induct)
  case Nil
  then show ?case by (simp add: session_open_def session_inv_def)
next
  case (snoc ev evs)
  let ?s = "session_run evs (session_open src gw)"
  from snoc.prems session_event_length [of ?s ev] have len: "length (ss_requests ?s) \<le> 2 ^ 64"
    by simp
  from session_event_keeps [OF snoc.IH [OF len] len] show ?case by simp
qed

section \<open>Attribution\<close>

text \<open>The results a request holds: returned, or in its inbox.\<close>

definition outcome_of :: "request \<Rightarrow> client_error + bytes \<Rightarrow> bool" where
  "outcome_of rq r \<longleftrightarrow> Final r \<in> set (rq_inbox rq)
     \<or> rq_phase rq = Leaving (Some r) \<or> rq_phase rq = Left (Some r)"

text \<open>
  A received frame that answers service \<open>sid\<close> of the ECU \<open>target\<close> with the given result: a
  diagnostic frame from that ECU whose payload is the positive response returned, or a negative
  response that echoes the service and is not the pending one.
\<close>

definition answers :: "u8 \<Rightarrow> u8 \<Rightarrow> client_error + bytes \<Rightarrow> hsfz_frame \<Rightarrow> bool" where
  "answers target sid r f \<longleftrightarrow>
     hf_control f = control_DIAGNOSTIC \<and> map_option fst (hf_addr f) = Some target
     \<and> (case r of
          Inr p \<Rightarrow> hf_payload f = p \<and> p \<noteq> [] \<and> hd p = positive_response_sid sid
        | Inl e \<Rightarrow>
            (let code = (case nth_opt (hf_payload f) 2 of None \<Rightarrow> 0 | Some n \<Rightarrow> n) in
             take 2 (hf_payload f) = [sid_NEGATIVE_RESPONSE, sid]
             \<and> code \<noteq> NRC_RESPONSE_PENDING \<and> e = CNegative sid (nrc_from code)))"

text \<open>The results a request gets without a frame: its own errors and those of the connection.\<close>

definition local_result :: "u8 \<Rightarrow> client_error + bytes \<Rightarrow> bool" where
  "local_result target r \<longleftrightarrow>
     r = Inl (CRequestInFlight target) \<or> r = Inl CConnectionClosed \<or> (\<exists>e. r = Inl (CHsfz e))"

lemma send_nth:
  "i < length rs \<Longrightarrow> send tx d rs ! i = (if i = tx then (rs ! i)\<lparr>rq_inbox := rq_inbox (rs ! i) @ [d]\<rparr> else rs ! i)"
  by (simp add: send_def nth_list_update)

lemma send_phase [simp]: "rq_phase (send tx d rs ! i) = rq_phase (rs ! i)"
  by (cases "tx < length rs"; cases "i = tx") (simp_all add: send_def list_update_beyond)

lemma length_send [simp]: "length (send tx d rs) = length rs"
  by (simp add: send_def)

lemma event_same:
  assumes "i < length (ss_requests s)"
  shows "rq_target (ss_requests (session_event ev s) ! i) = rq_target (ss_requests s ! i)"
    and "rq_sid (ss_requests (session_event ev s) ! i) = rq_sid (ss_requests s ! i)"
  using assms
  by (cases ev; auto simp: session_event_def issue_def register_slot_def write_request_def wake_def
      set_phase_def drain_nth route_frame_def finish_def send_nth nth_append nth_list_update Let_def
      split: request_phase.split option.split delivery.split list.split)+

lemma route_frame_outcome:
  assumes inv: "session_inv s" and i: "i < length (ss_requests s)"
    and r: "outcome_of (ss_requests (route_frame f s) ! i) r"
  shows "outcome_of (ss_requests s ! i) r
    \<or> (answers (rq_target (ss_requests s ! i)) (rq_sid (ss_requests s ! i)) r f
        \<and> rq_phase (ss_requests s ! i) \<noteq> Issued)"
proof (rule disjCI)
  assume new: "\<not> (answers (rq_target (ss_requests s ! i)) (rq_sid (ss_requests s ! i)) r f
        \<and> rq_phase (ss_requests s ! i) \<noteq> Issued)"
  show "outcome_of (ss_requests s ! i) r"
  proof (cases "\<exists>src tgt q. hf_control f = control_DIAGNOSTIC \<and> hf_addr f = Some (src, tgt)
      \<and> ss_pending s src = Some q \<and> pr_tx q = i")
    case False
    with r i show ?thesis
      by (auto simp: route_frame_def finish_def send_nth Let_def split: option.splits list.splits if_splits)
  next
    case True
    then obtain src tgt q where q: "hf_control f = control_DIAGNOSTIC" "hf_addr f = Some (src, tgt)"
      "ss_pending s src = Some q" "pr_tx q = i" by blast
    note slot = slotD [OF inv q(3,4)]
    show ?thesis
    proof (cases "hf_payload f")
      case Nil
      with r q show ?thesis by (simp add: route_frame_def Let_def)
    next
      case (Cons b rest)
      with r q new slot i show ?thesis
        by (cases rest) (auto simp: route_frame_def finish_def send_nth Let_def outcome_of_def answers_def
            split: if_splits)
    qed
  qed
qed

lemma event_outcome:
  assumes inv: "session_inv s" and i: "i < length (ss_requests (session_event ev s))"
    and r: "outcome_of (ss_requests (session_event ev s) ! i) r"
  shows "(i < length (ss_requests s) \<and> outcome_of (ss_requests s ! i) r)
    \<or> local_result (rq_target (ss_requests (session_event ev s) ! i)) r
    \<or> (\<exists>f. ev = Incoming f \<and> i < length (ss_requests s) \<and> rq_phase (ss_requests s ! i) \<noteq> Issued
        \<and> answers (rq_target (ss_requests s ! i)) (rq_sid (ss_requests s ! i)) r f)"
proof (cases ev)
  case (Incoming f)
  have len: "length (ss_requests (route_frame f s)) = length (ss_requests s)"
    by (auto simp: route_frame_def finish_def send_def Let_def split: option.split list.split)
  with Incoming i r route_frame_outcome [OF inv, of i f r] show ?thesis
    by (auto simp: session_event_def split: if_splits)
next
  case (Wake k)
  with i r show ?thesis
    by (auto simp: session_event_def wake_def set_phase_def Let_def nth_list_update outcome_of_def
        local_result_def split: request_phase.splits list.splits delivery.splits if_splits)
next
  case ReaderEnds
  with i r show ?thesis
    by (auto simp: session_event_def drain_nth outcome_of_def local_result_def drain_def
        split: if_splits)
qed (use i r in \<open>auto simp: session_event_def issue_def register_slot_def write_request_def Let_def
      set_phase_def nth_list_update nth_append less_Suc_eq outcome_of_def local_result_def
      split: request_phase.splits option.splits if_splits\<close>)

lemma event_registers:
  assumes "i < length (ss_requests (session_event ev s))"
    and "rq_phase (ss_requests (session_event ev s) ! i) \<noteq> Issued"
  shows "ev = Register i \<or> (i < length (ss_requests s) \<and> rq_phase (ss_requests s ! i) \<noteq> Issued)"
  using assms
  by (cases ev) (auto simp: session_event_def issue_def register_slot_def write_request_def wake_def
      set_phase_def drain_def route_frame_def finish_def nth_append less_Suc_eq nth_list_update Let_def
      split: request_phase.splits option.splits delivery.splits list.splits if_splits)

lemma run_registers:
  "i < length (ss_requests (session_run evs (session_open src gw))) \<Longrightarrow>
   rq_phase (ss_requests (session_run evs (session_open src gw)) ! i) \<noteq> Issued \<Longrightarrow> Register i \<in> set evs"
proof (induction evs rule: rev_induct)
  case Nil
  then show ?case by (simp add: session_open_def)
next
  case (snoc ev evs)
  from event_registers [of i ev "session_run evs (session_open src gw)"] snoc show ?case by auto
qed

lemma run_outcome:
  assumes "length (ss_requests (session_run evs (session_open src gw))) \<le> 2 ^ 64"
    and "i < length (ss_requests (session_run evs (session_open src gw)))"
    and "outcome_of (ss_requests (session_run evs (session_open src gw)) ! i) r"
  shows "let rq = ss_requests (session_run evs (session_open src gw)) ! i in
    local_result (rq_target rq) r
    \<or> (\<exists>pre f later. evs = pre @ Incoming f # later \<and> Register i \<in> set pre
        \<and> answers (rq_target rq) (rq_sid rq) r f)"
  using assms
proof (induction evs rule: rev_induct)
  case Nil
  then show ?case by (simp add: session_open_def)
next
  case (snoc ev evs)
  let ?s = "session_run evs (session_open src gw)"
  have len: "length (ss_requests ?s) \<le> 2 ^ 64"
    using snoc.prems(1) session_event_length [of ?s ev] by simp
  from event_outcome [OF session_run_inv [OF len], of i ev r] snoc.prems(2,3)
  consider (old) "i < length (ss_requests ?s)" "outcome_of (ss_requests ?s ! i) r"
    | (here) "local_result (rq_target (ss_requests (session_event ev ?s) ! i)) r"
    | (new) f where "ev = Incoming f" "i < length (ss_requests ?s)"
        "rq_phase (ss_requests ?s ! i) \<noteq> Issued"
        "answers (rq_target (ss_requests ?s ! i)) (rq_sid (ss_requests ?s ! i)) r f"
    by auto
  then show ?case
  proof cases
    case old
    from snoc.IH [OF len old] event_same [OF old(1), of ev] show ?thesis
      by (simp add: Let_def) (metis append.assoc append_Cons)
  next
    case here
    then show ?thesis by (simp add: Let_def)
  next
    case new
    with run_registers [OF new(2,3)] event_same [OF new(2), of ev] show ?thesis
      by (auto simp: Let_def)
  qed
qed

text \<open>
  C6. No response is ever attributed to the wrong request, under any interleaving of requests,
  frames, wake-ups, cancellations and reader failures: a payload or a negative response a request
  returns was carried by a diagnostic frame that came from the ECU the request addressed, after
  its registration, and that answers the service it asked for; every other result is an error of
  its own connection.
\<close>
theorem session_attribution:
  assumes "length (ss_requests (session_run evs (session_open src gw))) \<le> 2 ^ 64"
    and "i < length (ss_requests (session_run evs (session_open src gw)))"
    and rq: "rq = ss_requests (session_run evs (session_open src gw)) ! i"
    and "rq_phase rq = Left (Some r)"
  shows "(r = Inl (CRequestInFlight (rq_target rq)) \<or> r = Inl CConnectionClosed \<or> (\<exists>e. r = Inl (CHsfz e)))
    \<or> (\<exists>pre f later. evs = pre @ Incoming f # later \<and> Register i \<in> set pre
        \<and> answers (rq_target rq) (rq_sid rq) r f)"
  using run_outcome [OF assms(1,2), of r] assms(4)
  by (simp add: Let_def outcome_of_def local_result_def flip: rq)

definition demo_frame :: "u8 \<Rightarrow> bytes \<Rightarrow> hsfz_frame" where
  "demo_frame ecu uds = hsfz_diagnostic ecu 0xF4 uds"

text \<open>
  Two ECUs asked at once; the answers arrive in the other order, after an acknowledge, a
  keepalive NAK and a pending response.
\<close>

definition demo_events :: "session_ev list" where
  "demo_events =
     [Issue 0x12 [0x22, 0xF1, 0x90], Issue 0x40 [0x22, 0xF1, 0x90], Register 0, Register 1,
      Write 1 None, Write 0 None, KeepaliveTick True,
      Incoming \<lparr>hf_control = control_ACK, hf_addr = Some (0x12, 0xF4), hf_payload = [0x62, 0, 0]\<rparr>,
      Incoming (demo_frame 0x12 [0x7F, 0x3E, 0x22]), Incoming (demo_frame 0x12 [0x7F, 0x22, 0x78]),
      Incoming (demo_frame 0x40 [0x62, 0xF1, 0x90, 0x40]), Wake 0,
      Incoming (demo_frame 0x12 [0x62, 0xF1, 0x90, 0x12]), Wake 1, Wake 0, DropGuard 0, DropGuard 1]"

lemmas session_eval = demo_events_def demo_frame_def session_event_def session_open_def issue_def
  register_slot_def write_request_def wake_def set_phase_def route_frame_def finish_def send_def
  drop_guard_def hsfz_diagnostic_def positive_response_sid_def tester_present_suppressed_def
  MAX_PENDING_TICKS_def hsfz_consts uds_consts Let_def

theorem session_attribution_witness:
  "\<exists>pre f later. demo_events = pre @ Incoming f # later \<and> Register 0 \<in> set pre
     \<and> answers 0x12 0x22 (Inr [0x62, 0xF1, 0x90, 0x12]) f"
proof -
  have "ss_requests (session_run demo_events (session_open 0xF4 0x10)) =
    [\<lparr>rq_target = 0x12, rq_uds = [0x22, 0xF1, 0x90], rq_sid = 0x22, rq_generation = 0, rq_inbox = [],
      rq_phase = Left (Some (Inr [0x62, 0xF1, 0x90, 0x12]))\<rparr>,
     \<lparr>rq_target = 0x40, rq_uds = [0x22, 0xF1, 0x90], rq_sid = 0x22, rq_generation = 1, rq_inbox = [],
      rq_phase = Left (Some (Inr [0x62, 0xF1, 0x90, 0x40]))\<rparr>]"
    by (simp add: session_eval)
  with session_attribution [of demo_events "0xF4" "0x10" 0, OF _ _ refl, of "Inr [0x62, 0xF1, 0x90, 0x12]"] show ?thesis by simp
qed

section \<open>Slots\<close>

text \<open>
  C15. In every reachable state of a session with at most 2^64 requests: each slot belongs to a
  request still alive, for the ECU and the service of that request (so no slot leaks, and when
  all requests are gone the table is empty); of two requests awaiting the same ECU at least one
  has been answered already; a waiter's channel is open or its answer is in it; and the guard of
  a request takes out its own slot and no other.
\<close>
theorem session_slots:
  assumes "s = session_run evs (session_open src gw)" and len: "length (ss_requests s) \<le> 2 ^ 64"
  shows "(ss_pending s t = Some r \<longrightarrow> pr_tx r < length (ss_requests s) \<and>
      (let rq = ss_requests s ! pr_tx r in
        rq_target rq = t \<and> rq_sid rq = pr_sid r \<and> phase_guarded (rq_phase rq)))
    \<and> (i < length (ss_requests s) \<and> j < length (ss_requests s) \<and> i \<noteq> j
        \<and> phase_active (rq_phase (ss_requests s ! i)) \<and> phase_active (rq_phase (ss_requests s ! j))
        \<and> rq_target (ss_requests s ! i) = rq_target (ss_requests s ! j) \<longrightarrow>
        list_ex is_final (rq_inbox (ss_requests s ! i)) \<or> list_ex is_final (rq_inbox (ss_requests s ! j)))
    \<and> (i < length (ss_requests s) \<and> phase_active (rq_phase (ss_requests s ! i)) \<longrightarrow>
        \<not> chan_closed i s \<or> list_ex is_final (rq_inbox (ss_requests s ! i)))
    \<and> (i < length (ss_requests s) \<longrightarrow>
        ss_pending (drop_guard i s) t =
          (case ss_pending s t of None \<Rightarrow> None | Some r \<Rightarrow> if pr_tx r = i then None else Some r))"
proof -
  have inv: "session_inv s" using session_run_inv len assms(1) by blast
  show ?thesis
    using slotD [OF inv, of t r] requestD(4) [OF inv, of i] requestD(4) [OF inv, of j]
      drop_guard_slot [OF inv len, of i t]
    by (auto simp: Let_def chan_closed_iff)
qed

theorem session_slots_witness:
  "let s = session_run (take 12 demo_events) (session_open 0xF4 0x10) in
     ss_pending s 0x12 \<noteq> None \<and> ss_pending s 0x40 = None \<and> \<not> chan_closed 0 s
     \<and> ss_pending (drop_guard 0 s) 0x12 = None"
proof -
  have s: "ss_pending (session_run (take 12 demo_events) (session_open 0xF4 0x10)) =
      [0x12 \<mapsto> \<lparr>pr_sid = 0x22, pr_generation = 0, pr_tx = 0\<rparr>]"
    and rs: "ss_requests (session_run (take 12 demo_events) (session_open 0xF4 0x10)) =
    [\<lparr>rq_target = 0x12, rq_uds = [0x22, 0xF1, 0x90], rq_sid = 0x22, rq_generation = 0, rq_inbox = [],
      rq_phase = Awaiting 1\<rparr>,
     \<lparr>rq_target = 0x40, rq_uds = [0x22, 0xF1, 0x90], rq_sid = 0x22, rq_generation = 1,
      rq_inbox = [Final (Inr [0x62, 0xF1, 0x90, 0x40])], rq_phase = Awaiting 0\<rparr>]"
    by (simp_all add: session_eval)
  from s rs session_slots [of "session_run (take 12 demo_events) (session_open 0xF4 0x10)"
      "take 12 demo_events" "0xF4" "0x10" "0x12" _ 0, OF refl]
  show ?thesis by simp
qed

section \<open>Waiting ends\<close>

text \<open>The phases after the wait, and what each event does to a phase.\<close>

fun phase_done :: "request_phase \<Rightarrow> bool" where
  "phase_done (Leaving _) = True"
| "phase_done (Left _) = True"
| "phase_done _ = False"

lemma tick_Suc: "n \<le> MAX_PENDING_TICKS \<Longrightarrow> unat (n + 1) = Suc (unat n)"
  by (simp add: MAX_PENDING_TICKS_def word_le_nat_alt unat_word_ariths)

lemma wake_phase:
  assumes "i < length (ss_requests s)"
  shows "(\<exists>r. rq_phase (ss_requests (wake i n s) ! i) = Leaving (Some r))
    \<or> (rq_phase (ss_requests (wake i n s) ! i) = Awaiting (n + 1) \<and> n + 1 \<le> MAX_PENDING_TICKS)"
  using assms by (auto simp: wake_def set_phase_def Let_def not_less split: list.split delivery.split)

text \<open>An event other than its own wake-up leaves a waiting request waiting, or ends it.\<close>

lemma event_awaiting:
  assumes "i < length (ss_requests s)" "rq_phase (ss_requests s ! i) = Awaiting n" "ev \<noteq> Wake i"
  shows "rq_phase (ss_requests (session_event ev s) ! i) =
    (if ev = Cancel i then Leaving None else Awaiting n)"
  using assms
  by (cases ev) (auto simp: session_event_def issue_def register_slot_def write_request_def wake_def
      set_phase_def drain_nth route_frame_def finish_def nth_append nth_list_update Let_def
      split: request_phase.split option.split delivery.split list.split)

lemma event_done:
  assumes "i < length (ss_requests s)" "rq_phase (ss_requests s ! i) = Leaving r \<or> rq_phase (ss_requests s ! i) = Left r"
  shows "rq_phase (ss_requests (session_event ev s) ! i) = Left r
    \<or> rq_phase (ss_requests (session_event ev s) ! i) = Leaving r \<and> ev \<noteq> DropGuard i"
  using assms
  by (cases ev) (auto simp: session_event_def issue_def register_slot_def write_request_def wake_def
      set_phase_def drain_nth route_frame_def finish_def nth_append nth_list_update Let_def
      split: request_phase.split option.split delivery.split list.split)

lemma run_wakes:
  assumes "i < length (ss_requests s)" "rq_phase (ss_requests s ! i) = Awaiting n" "n \<le> MAX_PENDING_TICKS"
  shows "i < length (ss_requests (session_run evs s)) \<and>
    (case rq_phase (ss_requests (session_run evs s) ! i) of
       Awaiting m \<Rightarrow> unat m = unat n + count_list evs (Wake i) \<and> m \<le> MAX_PENDING_TICKS
     | Leaving r \<Rightarrow> Cancel i \<in> set evs \<or> r \<noteq> None
     | Left r \<Rightarrow> Cancel i \<in> set evs \<or> r \<noteq> None
     | _ \<Rightarrow> False)"
proof (induction evs rule: rev_induct)
  case Nil
  with assms show ?case by simp
next
  case (snoc ev evs)
  let ?s = "session_run evs s"
  from snoc have i: "i < length (ss_requests ?s)" by simp
  then have i': "i < length (ss_requests (session_event ev ?s))"
    using session_event_length [of ?s ev] by simp
  show ?case
  proof (cases "rq_phase (ss_requests ?s ! i)")
    case (Awaiting m)
    with i have w: "session_event (Wake i) ?s = wake i m ?s" by (simp add: session_event_def)
    show ?thesis
    proof (cases "ev = Wake i")
      case True
      with Awaiting snoc i' w wake_phase [OF i, of m] tick_Suc [of m] show ?thesis by auto
    next
      case False
      with Awaiting snoc i' event_awaiting [OF i Awaiting False] show ?thesis by auto
    qed
  qed (use snoc i' event_done [OF i, of _ ev] in auto)
qed

text \<open>
  C14. No request waits for ever. From any reachable state, a request that awaits its answer has
  left the loop after eleven of its wake-ups, whatever the car sends and however the other tasks
  are scheduled in between; once its guard is dropped it has returned (with a result, unless it
  was cancelled) and it owns no slot.
\<close>
theorem session_request_returns:
  assumes s: "s = session_run evs (session_open src gw)" and s': "s' = session_run (rest @ [DropGuard i]) s"
    and len: "length (ss_requests s') \<le> 2 ^ 64"
    and i: "i < length (ss_requests s)" and ph: "rq_phase (ss_requests s ! i) = Awaiting n"
    and wakes: "11 \<le> count_list rest (Wake i)"
  shows "(\<exists>r. rq_phase (ss_requests s' ! i) = Left r \<and> (Cancel i \<in> set rest \<or> r \<noteq> None)) \<and> chan_closed i s'"
proof -
  let ?m = "session_run rest s"
  have mono: "length (ss_requests u) \<le> length (ss_requests (session_run es u))" for es u
    by (induction es arbitrary: u) (auto intro: le_trans session_event_length)
  have run: "session_run (xs @ ys) u = session_run ys (session_run xs u)" for xs ys u
    by (simp add: session_run_def)
  have inv: "session_inv s" "session_inv s'"
    using session_run_inv [of evs src gw] session_run_inv [of "evs @ rest @ [DropGuard i]" src gw]
      mono [of s "rest @ [DropGuard i]"] len by (simp_all add: s s' run)
  have n: "n \<le> MAX_PENDING_TICKS" using requestD(2) [OF inv(1) i] ph by simp
  note w = run_wakes [OF i ph n, of rest]
  then have i': "i < length (ss_requests ?m)" by simp
  have "\<not> unat m = unat n + count_list rest (Wake i) \<or> \<not> m \<le> MAX_PENDING_TICKS" for m
    using wakes by (auto simp: MAX_PENDING_TICKS_def word_le_nat_alt)
  with w obtain r where r: "rq_phase (ss_requests ?m ! i) = Leaving r \<or> rq_phase (ss_requests ?m ! i) = Left r"
    "Cancel i \<in> set rest \<or> r \<noteq> None"
    by (cases "rq_phase (ss_requests ?m ! i)") auto
  have left: "rq_phase (ss_requests s' ! i) = Left r"
    using event_done [OF i' r(1), of "DropGuard i"] by (simp add: s')
  moreover have "chan_closed i s'"
    using slotD(5) [OF inv(2)] left by (fastforce simp: chan_closed_iff)
  ultimately show ?thesis using r(2) by blast
qed

definition demo_wakes :: "session_ev list" where
  "demo_wakes = Incoming (demo_frame 0x12 [0x7F, 0x22, 0x78]) #
     [Wake 0, Wake 0, Wake 0, Wake 0, Wake 0, Wake 0, Wake 0, Wake 0, Wake 0, Wake 0, Wake 0]"

theorem session_request_returns_witness:
  "let s = session_run [Issue 0x12 [0x22], Register 0, Write 0 None] (session_open 0xF4 0x10);
       s' = session_run (demo_wakes @ [DropGuard 0]) s
   in (\<exists>r. rq_phase (ss_requests s' ! 0) = Left r \<and> r \<noteq> None) \<and> chan_closed 0 s'"
proof -
  let ?s = "session_run [Issue 0x12 [0x22], Register 0, Write 0 None] (session_open 0xF4 0x10)"
  have s: "ss_requests ?s = [\<lparr>rq_target = 0x12, rq_uds = [0x22], rq_sid = 0x22, rq_generation = 0, rq_inbox = [],
      rq_phase = Awaiting 0\<rparr>]"
    by (simp add: session_eval)
  moreover have len: "length (ss_requests (session_run (demo_wakes @ [DropGuard 0]) ?s)) = 1"
    by (simp add: session_eval demo_wakes_def)
  moreover have "count_list demo_wakes (Wake 0) = 11" "Cancel 0 \<notin> set demo_wakes"
    by (simp_all add: demo_wakes_def)
  ultimately show ?thesis
    using session_request_returns [OF refl refl, where evs = "[Issue 0x12 [0x22], Register 0, Write 0 None]"
        and src = "0xF4" and gw = "0x10" and rest = demo_wakes and i = 0 and n = 0]
    by (simp add: Let_def del: session_run_simps)
qed

section \<open>After the reader\<close>

definition quiet_result :: "u8 \<Rightarrow> client_error + bytes \<Rightarrow> bool" where
  "quiet_result target r \<longleftrightarrow> r = Inl (CRequestInFlight target) \<or> (\<exists>e. r = Inl (CHsfz e))"

definition quiet_request :: "request \<Rightarrow> bool" where
  "quiet_request rq \<longleftrightarrow> rq_inbox rq = [] \<and>
     (\<forall>r. rq_phase rq = Leaving (Some r) \<or> rq_phase rq = Left (Some r) \<longrightarrow> quiet_result (rq_target rq) r)"

lemma event_quiet:
  assumes inv: "session_inv s" and reader: "\<not> ss_reader s"
    and i: "i < length (ss_requests (session_event ev s))"
    and quiet: "i < length (ss_requests s) \<Longrightarrow> quiet_request (ss_requests s ! i)"
  shows "quiet_request (ss_requests (session_event ev s) ! i)"
proof (cases ev)
  case (Wake k)
  have open_chan: "\<not> chan_closed i s" if "i < length (ss_requests s)" "rq_phase (ss_requests s ! i) = Awaiting n" for n
    using requestD(4) [OF inv that(1)] that quiet by (auto simp: quiet_request_def chan_closed_iff)
  have i: "i < length (ss_requests s)"
    using i by (auto simp: Wake session_event_def wake_def set_phase_def Let_def
        split: if_splits request_phase.splits list.splits delivery.splits)
  from Wake i quiet [OF i] open_chan show ?thesis
    by (cases "k = i") (auto simp: session_event_def wake_def set_phase_def Let_def nth_list_update
        quiet_request_def quiet_result_def split: request_phase.split list.splits delivery.splits)
qed (use i quiet reader in \<open>auto simp: session_event_def issue_def register_slot_def write_request_def
      Let_def set_phase_def nth_list_update nth_append less_Suc_eq quiet_request_def quiet_result_def
      split: request_phase.splits option.splits if_splits\<close>)

lemma event_reader: "\<not> ss_reader s \<Longrightarrow> \<not> ss_reader (session_event ev s)"
  by (cases ev) (auto simp: session_event_def issue_def register_slot_def write_request_def wake_def
      set_phase_def drop_guard_def Let_def
      split: request_phase.split option.split delivery.split list.split)

lemma run_quiet:
  assumes "session_inv s" "\<not> ss_reader s" "length (ss_requests (session_run evs s)) \<le> 2 ^ 64"
  shows "session_inv (session_run evs s) \<and> \<not> ss_reader (session_run evs s) \<and>
    (\<forall>i<length (ss_requests (session_run evs s)). length (ss_requests s) \<le> i \<longrightarrow>
       quiet_request (ss_requests (session_run evs s) ! i))"
  using assms(3)
proof (induction evs rule: rev_induct)
  case Nil
  with assms show ?case by simp
next
  case (snoc ev evs)
  let ?s = "session_run evs s"
  have len: "length (ss_requests ?s) \<le> 2 ^ 64"
    using snoc.prems session_event_length [of ?s ev] by simp
  note IH = snoc.IH [OF len]
  have "quiet_request (ss_requests (session_event ev ?s) ! i)"
    if "i < length (ss_requests (session_event ev ?s))" "length (ss_requests s) \<le> i" for i
    using IH that by (intro event_quiet) auto
  with IH len show ?case by (simp add: session_event_keeps event_reader)
qed

text \<open>
  C39. When the reader ends, every waiter is told that the connection closed. A request issued
  after that is not: nothing answers it and nothing closes its channel, so it ends with a busy
  ECU, a failed write or the read timeout, and never with \<open>ConnectionClosed\<close>.
\<close>
theorem session_after_reader:
  assumes "s = session_run evs (session_open src gw)" "\<not> ss_reader s"
    and len: "length (ss_requests (session_run evs' s)) \<le> 2 ^ 64"
    and "length (ss_requests s) \<le> i" "i < length (ss_requests (session_run evs' s))"
    and "rq = ss_requests (session_run evs' s) ! i"
  shows "rq_inbox rq = [] \<and> (rq_phase rq = Left (Some r) \<longrightarrow>
    r = Inl (CRequestInFlight (rq_target rq)) \<or> (\<exists>e. r = Inl (CHsfz e)))"
proof -
  have mono: "length (ss_requests u) \<le> length (ss_requests (session_run es u))" for es u
    by (induction es arbitrary: u) (auto intro: le_trans session_event_length)
  have "session_inv s"
    using session_run_inv [of evs src gw] mono [of s evs'] assms(1,3) by simp
  from run_quiet [OF this assms(2,3)] assms(4-6) show ?thesis
    by (auto simp: quiet_request_def quiet_result_def)
qed

theorem session_after_reader_witness:
  "let s = session_run [ReaderEnds] (session_open 0xF4 0x10);
       rq = ss_requests (session_run [Issue 0x12 [0x22], Register 0, Write 0 None, Wake 0, DropGuard 0] s) ! 0
   in rq_phase rq = Left (Some (Inl (CHsfz HsfzReadTimeout))) \<and> rq_inbox rq = []"
proof -
  let ?s = "session_run [ReaderEnds] (session_open 0xF4 0x10)"
  let ?evs = "[Issue 0x12 [0x22], Register 0, Write 0 None, Wake 0, DropGuard 0]"
  have "ss_requests (session_run ?evs ?s) = [\<lparr>rq_target = 0x12, rq_uds = [0x22], rq_sid = 0x22,
      rq_generation = 0, rq_inbox = [], rq_phase = Left (Some (Inl (CHsfz HsfzReadTimeout)))\<rparr>]"
    "\<not> ss_reader ?s" "ss_requests ?s = []"
    by (simp_all add: session_eval drain_def chan_closed_iff)
  with session_after_reader [of ?s "[ReaderEnds]" "0xF4" "0x10" ?evs 0] show ?thesis by simp
qed

end
