(* ===== verification/Rust_Utf8.thy ===== *)
theory Rust_Utf8
  imports Prelude
begin

text \<open>
  \<open>str::from_utf8\<close> of the standard library, which the client and the semantic layer decode
  texts with: the code points of a well-formed byte sequence (Unicode table 3-7: no overlong
  form, no surrogate, nothing above \<open>0x10FFFF\<close>), nothing for any other sequence.
\<close>

definition utf8_cont :: "nat \<Rightarrow> bool" where
  "utf8_cont b \<longleftrightarrow> 0x80 \<le> b \<and> b \<le> 0xBF"

text \<open>The second byte, which depends on the first for the three- and four-byte forms.\<close>

definition utf8_second3 :: "nat \<Rightarrow> nat \<Rightarrow> bool" where
  "utf8_second3 a b \<longleftrightarrow>
     (if a = 0xE0 then 0xA0 \<le> b \<and> b \<le> 0xBF
      else if a = 0xED then 0x80 \<le> b \<and> b \<le> 0x9F
      else 0xE1 \<le> a \<and> a \<le> 0xEF \<and> utf8_cont b)"

definition utf8_second4 :: "nat \<Rightarrow> nat \<Rightarrow> bool" where
  "utf8_second4 a b \<longleftrightarrow>
     (if a = 0xF0 then 0x90 \<le> b \<and> b \<le> 0xBF
      else if a = 0xF4 then 0x80 \<le> b \<and> b \<le> 0x8F
      else 0xF1 \<le> a \<and> a \<le> 0xF3 \<and> utf8_cont b)"

fun utf8_points :: "nat list \<Rightarrow> ustring option" where
  "utf8_points [] = Some []"
| "utf8_points (a # bs) =
     (if a < 0x80 then map_option ((#) a) (utf8_points bs)
      else case bs of
        [] \<Rightarrow> None
      | b # cs \<Rightarrow>
          if 0xC2 \<le> a \<and> a \<le> 0xDF \<and> utf8_cont b
          then map_option ((#) ((a - 0xC0) * 64 + (b - 0x80))) (utf8_points cs)
          else (case cs of
            [] \<Rightarrow> None
          | c # ds \<Rightarrow>
              if utf8_second3 a b \<and> utf8_cont c
              then map_option ((#) ((a - 0xE0) * 4096 + (b - 0x80) * 64 + (c - 0x80))) (utf8_points ds)
              else (case ds of
                [] \<Rightarrow> None
              | d # es \<Rightarrow>
                  if utf8_second4 a b \<and> utf8_cont c \<and> utf8_cont d
                  then map_option ((#) ((a - 0xF0) * 262144 + (b - 0x80) * 4096 + (c - 0x80) * 64 + (d - 0x80)))
                         (utf8_points es)
                  else None)))"

definition from_utf8 :: "bytes \<Rightarrow> ustring option" where
  "from_utf8 bs = utf8_points (map unat bs)"

text \<open>The bytes of a string: \<open>into_bytes\<close>, for code points below \<open>0x110000\<close>.\<close>

definition utf8_char :: "nat \<Rightarrow> nat list" where
  "utf8_char c =
     (if c < 0x80 then [c]
      else if c < 0x800 then [0xC0 + c div 64, 0x80 + c mod 64]
      else if c < 0x10000 then [0xE0 + c div 4096, 0x80 + c div 64 mod 64, 0x80 + c mod 64]
      else [0xF0 + c div 262144, 0x80 + c div 4096 mod 64, 0x80 + c div 64 mod 64, 0x80 + c mod 64])"

definition to_utf8 :: "ustring \<Rightarrow> bytes" where
  "to_utf8 t = map word_of_nat (concat (map utf8_char t))"

lemma from_utf8_ascii: "list_all (\<lambda>b. b < 0x80) bs \<Longrightarrow> from_utf8 bs = Some (map unat bs)"
  by (induction bs) (auto simp: from_utf8_def word_less_nat_alt)

text \<open>A Rust \<open>char\<close> is a Unicode scalar value; a text of those survives its bytes.\<close>

definition is_scalar :: "nat \<Rightarrow> bool" where
  "is_scalar c \<longleftrightarrow> c < 0xD800 \<or> (0xE000 \<le> c \<and> c < 0x110000)"

lemma utf8_points_char:
  assumes "is_scalar c"
  shows "utf8_points (utf8_char c @ bs) = map_option ((#) c) (utf8_points bs)"
proof -
  define x y z where "x = c mod 64" and "y = c div 64 mod 64" and "z = c div 4096 mod 64"
  have b: "x < 64" "y < 64" "z < 64"
    by (simp_all add: x_def y_def z_def)
  have 2: "c = c div 64 * 64 + x"
    by (simp add: x_def)
  have "c div 64 = c div 4096 * 64 + y"
    using div_mult_mod_eq [of "c div 64" 64] by (simp add: y_def div_mult2_eq [symmetric])
  with 2 have 3: "c = c div 4096 * 4096 + y * 64 + x" by simp
  have "c div 4096 = c div 262144 * 64 + z"
    using div_mult_mod_eq [of "c div 4096" 64] by (simp add: z_def div_mult2_eq [symmetric])
  with 3 have 4: "c = c div 262144 * 262144 + z * 4096 + y * 64 + x" by simp
  consider "c < 0x80" | "0x80 \<le> c" "c < 0x800" | "0x800 \<le> c" "c < 0x10000" | "0x10000 \<le> c" "c < 0x110000"
    using assms unfolding is_scalar_def by linarith
  then show ?thesis
  proof cases
    case 1
    then show ?thesis by (simp add: utf8_char_def)
  next
    case 2
    have "2 \<le> c div 64" "c div 64 < 32" using 2 by simp_all
    then show ?thesis
      using 2 b \<open>c = c div 64 * 64 + x\<close> by (simp add: utf8_char_def utf8_cont_def x_def [symmetric])
  next
    case 3
    define w where "w = c div 4096"
    have w: "w < 16" "c = w * 4096 + y * 64 + x"
      using 3 \<open>c = c div 4096 * 4096 + y * 64 + x\<close> by (simp_all add: w_def)
    have "utf8_second3 (0xE0 + w) (0x80 + y)"
    proof (cases "w = 0 \<or> w = 0xD")
      case True
      then show ?thesis
        using 3 w b assms by (auto simp: utf8_second3_def is_scalar_def)
    next
      case False
      then show ?thesis using w b by (auto simp: utf8_second3_def utf8_cont_def)
    qed
    moreover have "utf8_char c = [0xE0 + w, 0x80 + y, 0x80 + x]"
      using 3 by (simp add: utf8_char_def w_def x_def y_def)
    ultimately show ?thesis
      using b by (simp add: utf8_cont_def w(2) [symmetric])
  next
    case 4
    define w where "w = c div 262144"
    have w: "w < 5" "c = w * 262144 + z * 4096 + y * 64 + x"
      using 4 \<open>c = c div 262144 * 262144 + z * 4096 + y * 64 + x\<close> by (simp_all add: w_def)
    have "utf8_second4 (0xF0 + w) (0x80 + z)"
    proof (cases "w = 0 \<or> w = 4")
      case True
      then show ?thesis using 4 w b by (auto simp: utf8_second4_def)
    next
      case False
      then show ?thesis using w b by (auto simp: utf8_second4_def utf8_cont_def)
    qed
    moreover have "\<not> utf8_second3 (0xF0 + w) (0x80 + z)"
      by (auto simp: utf8_second3_def)
    moreover have "utf8_char c = [0xF0 + w, 0x80 + z, 0x80 + y, 0x80 + x]"
      using 4 by (simp add: utf8_char_def w_def x_def y_def z_def)
    ultimately show ?thesis
      using b by (simp add: utf8_cont_def w(2) [symmetric])
  qed
qed

lemma utf8_char_bytes: "is_scalar c \<Longrightarrow> b \<in> set (utf8_char c) \<Longrightarrow> b < 256"
  by (auto simp: utf8_char_def is_scalar_def split: if_splits)

lemma from_to_utf8:
  assumes "list_all is_scalar t"
  shows "from_utf8 (to_utf8 t) = Some t"
proof -
  have "map unat (map word_of_nat bs :: u8 list) = bs" if "list_all (\<lambda>b. b < 256) bs" for bs
    using that by (induction bs) (simp_all add: unat_of_nat)
  moreover have "list_all (\<lambda>b. b < 256) (concat (map utf8_char t))"
    using assms utf8_char_bytes by (auto simp: list_all_iff)
  moreover have "utf8_points (concat (map utf8_char t)) = Some t"
    using assms by (induction t) (simp_all add: utf8_points_char)
  ultimately show ?thesis by (simp add: from_utf8_def to_utf8_def)
qed

end
