(* ===== verification/Client_Ops.thy ===== *)
theory Client_Ops
  imports Client_Session Hsfz_Discover Rust_Utf8
begin

text \<open>
  The diagnostic client of \<open>crates/client/src/client.rs\<close>: typed reads, clears and resets over the
  request primitive of a session. The session is the parameter \<open>req\<close>: one request to an ECU in
  state \<open>s\<close> (of the session and the car) has a result and a next state. The operations issue
  their requests one after the other, each with \<open>?\<close>, which is \<open>bindS\<close>.
\<close>

section \<open>Sequencing\<close>

type_synonym ('s, 'e, 'a) action = "'s \<Rightarrow> ('e + 'a) \<times> 's"
type_synonym ('s, 'a) client_op = "('s, client_error, 'a) action"
type_synonym 's requester = "u8 \<Rightarrow> bytes \<Rightarrow> ('s, bytes) client_op"

definition returnS :: "'a \<Rightarrow> ('s, 'e, 'a) action" where
  "returnS x s = (Inr x, s)"

definition bindS :: "('s, 'e, 'a) action \<Rightarrow> ('a \<Rightarrow> ('s, 'e, 'b) action) \<Rightarrow> ('s, 'e, 'b) action" where
  "bindS m k s = (case m s of (Inl e, s') \<Rightarrow> (Inl e, s') | (Inr x, s') \<Rightarrow> k x s')"

text \<open>A pure decoding step in a sequence.\<close>

definition liftS :: "'e + 'a \<Rightarrow> ('s, 'e, 'a) action" where
  "liftS r s = (r, s)"

definition decodeS :: "uds_error + 'a \<Rightarrow> ('s, 'a) client_op" where
  "decodeS r = liftS (map_err CUds r)"

lemma bindS_eqs:
  "m s = (Inl e, s') \<Longrightarrow> bindS m k s = (Inl e, s')"
  "m s = (Inr x, s') \<Longrightarrow> bindS m k s = k x s'"
  by (simp_all add: bindS_def)

lemma bindS_returnS [simp]: "bindS (returnS x) k = k x"
  by (rule ext) (simp add: bindS_def returnS_def)

lemma bindS_assoc: "bindS (bindS m k) l = bindS m (\<lambda>x. bindS (k x) l)"
  by (rule ext) (auto simp: bindS_def split: prod.split sum.split)

section \<open>Connecting\<close>

definition DIAG_PORT :: u16 where "DIAG_PORT = 6801"
definition CONTROL_PORT :: u16 where "CONTROL_PORT = 6811"
definition TESTER_ADDRESS :: u8 where "TESTER_ADDRESS = 0xF4"
definition ZGW_ADDRESS :: u8 where "ZGW_ADDRESS = 0x10"
definition CONNECT_TIMEOUT_DEFAULT_MS :: u64 where "CONNECT_TIMEOUT_DEFAULT_MS = 5000"
definition P2_STAR_SERVER_MAX_DEFAULT_MS :: u64 where "P2_STAR_SERVER_MAX_DEFAULT_MS = 5000"

record client_config =
  cc_port :: u16
  cc_tester :: u8
  cc_connect_timeout :: u64                 \<comment> \<open>milliseconds\<close>
  cc_read_timeout :: u64

definition client_config_default :: client_config where
  "client_config_default =
     \<lparr>cc_port = DIAG_PORT, cc_tester = TESTER_ADDRESS,
      cc_connect_timeout = CONNECT_TIMEOUT_DEFAULT_MS, cc_read_timeout = P2_STAR_SERVER_MAX_DEFAULT_MS\<rparr>"

text \<open>
  The TCP connect is the parameter \<open>conn\<close>; the session opened over it targets its keepalive at
  the gateway. \<open>link_local\<close> stands for the interface scan, \<open>probe\<close> for the discovery broadcast.
\<close>

definition client_connect :: "('ip \<Rightarrow> client_config \<Rightarrow> hsfz_error option) \<Rightarrow> 'ip \<Rightarrow> client_config \<Rightarrow> client_error + session" where
  "client_connect conn ip config =
     (case conn ip config of
        Some e \<Rightarrow> Inl (CHsfz e)
      | None \<Rightarrow> Inr (session_open (cc_tester config) ZGW_ADDRESS))"

definition discover_and_connect ::
    "u32 option \<Rightarrow> (u32 \<Rightarrow> u16 \<Rightarrow> hsfz_error + 'ip gateway list) \<Rightarrow> ('ip \<Rightarrow> client_config \<Rightarrow> hsfz_error option)
     \<Rightarrow> u32 option \<Rightarrow> client_config \<Rightarrow> client_error + (session \<times> 'ip gateway)" where
  "discover_and_connect link_local probe conn bind config =
     bindE (case bind of Some ip \<Rightarrow> Inr ip | None \<Rightarrow> ok_or link_local CNoLinkLocalInterface) (\<lambda>bind_ip.
     bindE (map_err CHsfz (probe bind_ip CONTROL_PORT)) (\<lambda>gateways.
     bindE (case gateways of
              [] \<Rightarrow> Inl (CNoGatewayFound bind_ip)
            | [g] \<Rightarrow> Inr g
            | _ \<Rightarrow> Inl (CAmbiguousGateway (length gateways))) (\<lambda>gateway.
     bindE (client_connect conn (gw_ip gateway) config) (\<lambda>client.
     Inr (client, gateway)))))"

section \<open>Reads\<close>

definition client_request :: "'s requester \<Rightarrow> 's requester" where
  "client_request req target uds = req target uds"

definition enter_session :: "'s requester \<Rightarrow> u8 \<Rightarrow> u8 \<Rightarrow> ('s, unit) client_op" where
  "enter_session req target sess =
     bindS (req target (diagnostic_session_control sess)) (\<lambda>_. returnS ())"

definition read_dtcs :: "'s requester \<Rightarrow> u8 \<Rightarrow> u8 \<Rightarrow> ('s, dtc list) client_op" where
  "read_dtcs req target m =
     bindS (req target (read_dtc_by_status_mask m)) (\<lambda>response. decodeS (decode_dtcs response))"

definition read_all_dtcs :: "'s requester \<Rightarrow> u8 \<Rightarrow> ('s, dtc list) client_op" where
  "read_all_dtcs req target = read_dtcs req target ALL_DTC_STATUS_MASK"

text \<open>A negative response is an absent record, not an error.\<close>

definition request_optional :: "'s requester \<Rightarrow> u8 \<Rightarrow> bytes \<Rightarrow> ('s, bytes option) client_op" where
  "request_optional req target uds s =
     (case req target uds s of
        (Inr response, s') \<Rightarrow> (Inr (Some response), s')
      | (Inl (CNegative _ _), s') \<Rightarrow> (Inr None, s')
      | (Inl e, s') \<Rightarrow> (Inl e, s'))"

text \<open>\<open>opt.map(decode).transpose()?\<close>\<close>

definition decode_optional :: "(bytes \<Rightarrow> uds_error + 'a) \<Rightarrow> bytes option \<Rightarrow> ('s, 'a option) client_op" where
  "decode_optional dec resp =
     (case resp of None \<Rightarrow> returnS None | Some r \<Rightarrow> bindS (decodeS (dec r)) (\<lambda>x. returnS (Some x)))"

definition read_info_memory :: "'s requester \<Rightarrow> u8 \<Rightarrow> ('s, info_memory option) client_op" where
  "read_info_memory req target =
     bindS (request_optional req target (read_data_by_identifier did_INFO_MEMORY))
       (decode_optional decode_info_memory)"

record fault_detail_raw =
  fd_snapshot :: "dtc_record_region option"
  fd_extended :: "dtc_record_region option"
  fd_severity :: "dtc_severity option"

definition read_fault_detail :: "'s requester \<Rightarrow> u8 \<Rightarrow> code3 \<Rightarrow> ('s, fault_detail_raw) client_op" where
  "read_fault_detail req target code =
     bindS (bindS (request_optional req target (read_dtc_snapshot_by_dtc code ALL_DTC_RECORDS))
              (decode_optional decode_dtc_snapshot)) (\<lambda>snapshot.
     bindS (bindS (request_optional req target (read_dtc_extended_data_by_dtc code ALL_DTC_RECORDS))
              (decode_optional decode_dtc_extended_data)) (\<lambda>extended.
     bindS (bindS (request_optional req target (read_dtc_severity_by_dtc code))
              (decode_optional decode_dtc_severity)) (\<lambda>severity.
     returnS \<lparr>fd_snapshot = snapshot, fd_extended = extended, fd_severity = severity\<rparr>)))"

definition read_did :: "'s requester \<Rightarrow> u8 \<Rightarrow> u16 \<Rightarrow> ('s, u16 \<times> bytes) client_op" where
  "read_did req target did =
     bindS (req target (read_data_by_identifier did)) (\<lambda>response.
     bindS (decodeS (decode_read_data_by_identifier response)) (\<lambda>(got, raw).
     if got \<noteq> did then liftS (Inl (CUnexpectedDid did got)) else returnS (got, raw)))"

definition read_ecu_list :: "'s requester \<Rightarrow> ('s, ecu_list) client_op" where
  "read_ecu_list req =
     bindS (read_did req ZGW_ADDRESS did_ECU_LIST_ALL) (\<lambda>(_, data). decodeS (decode_ecu_list data))"

definition read_responding_ecu_list :: "'s requester \<Rightarrow> ('s, ecu_list option) client_op" where
  "read_responding_ecu_list req =
     bindS (request_optional req ZGW_ADDRESS (read_data_by_identifier did_ECU_LIST_ACTIVE)) (\<lambda>resp.
     case resp of None \<Rightarrow> returnS None
     | Some r \<Rightarrow>
         bindS (decodeS (decode_read_data_by_identifier r)) (\<lambda>(_, data).
         bindS (decodeS (decode_ecu_list data)) (\<lambda>l. returnS (Some l))))"

section \<open>Integration levels\<close>

text \<open>
  \<open>{:0width}\<close>: at least \<open>width\<close> decimal digits. A series of ASCII graphic bytes is valid UTF-8, so
  the \<open>from_utf8\<close> after the check cannot fail.
\<close>

definition fmt_dec :: "nat \<Rightarrow> nat \<Rightarrow> ustring" where
  "fmt_dec width n = (let ds = nat_digits 10 n in replicate (width - length ds) 0x30 @ ds)"

definition is_ascii_graphic :: "u8 \<Rightarrow> bool" where
  "is_ascii_graphic b \<longleftrightarrow> 0x21 \<le> b \<and> b \<le> 0x7E"

definition decode_i_stufe_record :: "bytes \<Rightarrow> nat \<Rightarrow> ustring option" where
  "decode_i_stufe_record raw index =
     (case slice_opt raw (index * 8) (index * 8 + 8) of None \<Rightarrow> None
      | Some rec \<Rightarrow>
          let series = take 4 rec in
          if \<not> list_all is_ascii_graphic series then None
          else let year = rec ! 4; month = rec ! 5; patch = be16 (rec ! 6) (rec ! 7) in
          Some (map unat series @ [0x2D] @ fmt_dec 2 (unat year) @ [0x2D] @ fmt_dec 2 (unat month)
                @ [0x2D] @ fmt_dec 3 (unat patch)))"

record i_stufe_levels =
  is_current :: ustring
  is_previous :: "ustring option"
  is_factory :: "ustring option"

definition read_i_stufe_levels :: "'s requester \<Rightarrow> ('s, i_stufe_levels option) client_op" where
  "read_i_stufe_levels req =
     bindS (request_optional req ZGW_ADDRESS (read_data_by_identifier did_I_STUFE)) (\<lambda>resp.
     case resp of None \<Rightarrow> returnS None
     | Some r \<Rightarrow>
         bindS (decodeS (decode_read_data_by_identifier r)) (\<lambda>(_, raw).
         returnS (case decode_i_stufe_record raw 0 of None \<Rightarrow> None
                  | Some current \<Rightarrow>
                      Some \<lparr>is_current = current, is_previous = decode_i_stufe_record raw 1,
                            is_factory = decode_i_stufe_record raw 2\<rparr>)))"

definition read_i_stufe :: "'s requester \<Rightarrow> ('s, ustring option) client_op" where
  "read_i_stufe req = bindS (read_i_stufe_levels req) (\<lambda>l. returnS (map_option is_current l))"

section \<open>Identity\<close>

definition read_vehicle_order :: "'s requester \<Rightarrow> ('s, bytes) client_op" where
  "read_vehicle_order req =
     bindS (read_did req ZGW_ADDRESS did_VEHICLE_ORDER) (\<lambda>(_, raw). returnS raw)"

definition IDENTIFICATION_DIDS :: "u16 list" where
  "IDENTIFICATION_DIDS =
     [0xF190, 0xF187, 0xF188, 0xF189, 0xF191, 0xF192, 0xF193, 0xF194, 0xF195, 0xF197, 0xF19E, 0xF18C]"

record id_field =
  if_did :: u16
  if_raw :: bytes

record ecu_identification =
  ei_address :: u8
  ei_fields :: "id_field list"

text \<open>The loop over the DIDs, \<open>continue\<close> as the recursion on the rest.\<close>

fun identification_loop :: "'s requester \<Rightarrow> u8 \<Rightarrow> u16 list \<Rightarrow> id_field list \<Rightarrow> ('s, id_field list) client_op" where
  "identification_loop req target [] found = returnS found"
| "identification_loop req target (did # dids) found =
     bindS (request_optional req target (read_data_by_identifier did)) (\<lambda>resp.
     case resp of None \<Rightarrow> identification_loop req target dids found
     | Some r \<Rightarrow>
         bindS (decodeS (decode_read_data_by_identifier r)) (\<lambda>(got, raw).
         if got \<noteq> did then identification_loop req target dids found
         else identification_loop req target dids (found @ [\<lparr>if_did = did, if_raw = raw\<rparr>])))"

definition read_ecu_identification :: "'s requester \<Rightarrow> u8 \<Rightarrow> ('s, ecu_identification) client_op" where
  "read_ecu_identification req target =
     bindS (identification_loop req target IDENTIFICATION_DIDS []) (\<lambda>found.
     returnS \<lparr>ei_address = target, ei_fields = found\<rparr>)"

record vehicle_identity =
  vi_vin :: "ustring option"
  vi_vehicle_order_raw :: bytes
  vi_i_stufe :: "ustring option"
  vi_ecus :: bytes
  vi_identification :: "ecu_identification list"

text \<open>\<open>Err(Negative) => default\<close>, any other error with \<open>?\<close>.\<close>

definition or_negative :: "('s, 'a) client_op \<Rightarrow> 'a \<Rightarrow> ('s, 'a) client_op" where
  "or_negative m d s =
     (case m s of (Inl (CNegative _ _), s') \<Rightarrow> (Inr d, s') | r \<Rightarrow> r)"

text \<open>\<open>unwrap_or\<close>: any error is the default.\<close>

definition or_default :: "('s, 'a) client_op \<Rightarrow> 'a \<Rightarrow> ('s, 'a) client_op" where
  "or_default m d s = (case m s of (Inl _, s') \<Rightarrow> (Inr d, s') | r \<Rightarrow> r)"

fun identify_ecus :: "'s requester \<Rightarrow> bytes \<Rightarrow> ('s, ecu_identification list) client_op" where
  "identify_ecus req [] = returnS []"
| "identify_ecus req (address # rest) =
     bindS (or_default (read_ecu_identification req address) \<lparr>ei_address = address, ei_fields = []\<rparr>) (\<lambda>block.
     bindS (identify_ecus req rest) (\<lambda>blocks. returnS (block # blocks)))"

text \<open>\<open>String::from_utf8(raw).ok().filter(|s| !s.is_empty())\<close>\<close>

definition vin_of_raw :: "bytes \<Rightarrow> ustring option" where
  "vin_of_raw raw =
     (case from_utf8 raw of None \<Rightarrow> None | Some t \<Rightarrow> if t = [] then None else Some t)"

definition identify_vehicle :: "'s requester \<Rightarrow> ('s, vehicle_identity) client_op" where
  "identify_vehicle req =
     bindS (read_ecu_list req) (\<lambda>l.
     bindS (or_negative (bindS (read_did req ZGW_ADDRESS did_VIN) (\<lambda>(_, raw). returnS (vin_of_raw raw))) None) (\<lambda>vin.
     bindS (read_i_stufe req) (\<lambda>i_stufe.
     bindS (or_negative (read_vehicle_order req) []) (\<lambda>vehicle_order_raw.
     bindS (identify_ecus req (el_addresses l)) (\<lambda>identification.
     returnS \<lparr>vi_vin = vin, vi_vehicle_order_raw = vehicle_order_raw, vi_i_stufe = i_stufe,
              vi_ecus = el_addresses l, vi_identification = identification\<rparr>)))))"

section \<open>State changes\<close>

definition clear_dtcs :: "'s requester \<Rightarrow> u8 \<Rightarrow> code3 \<Rightarrow> ('s, unit) client_op" where
  "clear_dtcs req target code =
     bindS (enter_session req target session_EXTENDED) (\<lambda>_.
     bindS (req target (clear_diagnostic_information code)) (\<lambda>_. returnS ()))"

definition clear_all_dtcs :: "'s requester \<Rightarrow> u8 \<Rightarrow> ('s, unit) client_op" where
  "clear_all_dtcs req target = clear_dtcs req target CLEAR_ALL_DTCS"

definition ecu_reset :: "'s requester \<Rightarrow> u8 \<Rightarrow> u8 \<Rightarrow> ('s, unit) client_op" where
  "ecu_reset req target subfunction =
     bindS (enter_session req target session_EXTENDED) (\<lambda>_.
     bindS (req target (req_ecu_reset subfunction)) (\<lambda>_. returnS ()))"

definition client_tester_present :: "'s requester \<Rightarrow> u8 \<Rightarrow> ('s, unit) client_op" where
  "client_tester_present req target = bindS (req target tester_present) (\<lambda>_. returnS ())"

text \<open>
  The dynamic read takes its requests from the caller and indexes a \<open>0x22\<close> request at 1 and 2:
  with a shorter one the code panics once the answer is decoded, which is \<open>None\<close>.
\<close>

fun dynamic_loop :: "'s requester \<Rightarrow> u8 \<Rightarrow> bytes list \<Rightarrow> bytes option \<Rightarrow> 's \<Rightarrow> ((client_error + bytes) \<times> 's) option" where
  "dynamic_loop req target [] val s = Some (ok_or val CNoMeasurementRead, s)"
| "dynamic_loop req target (r # rs) val s =
     (case req target r s of
        (Inl e, s') \<Rightarrow> Some (Inl e, s')
      | (Inr response, s') \<Rightarrow>
          if nth_opt r 0 = Some sid_READ_DATA_BY_IDENTIFIER then
            (case decode_read_data_by_identifier response of
               Inl e \<Rightarrow> Some (Inl (CUds e), s')
             | Inr (got, raw) \<Rightarrow>
                 if length r < 3 then None
                 else let requested = be16 (r ! 1) (r ! 2) in
                 if got \<noteq> requested then Some (Inl (CUnexpectedDid requested got), s')
                 else dynamic_loop req target rs (Some raw) s')
          else dynamic_loop req target rs val s')"

definition read_dynamic_measurement :: "'s requester \<Rightarrow> u8 \<Rightarrow> bytes list \<Rightarrow> 's \<Rightarrow> ((client_error + bytes) \<times> 's) option" where
  "read_dynamic_measurement req target reqs s = dynamic_loop req target reqs None s"

text \<open>A read request of one byte makes the dynamic read panic, however the ECU answers it correctly.\<close>

lemma dynamic_short_request_panics:
  "read_dynamic_measurement (\<lambda>target uds s. (Inr [0x62, 0xF3, 0x03, 0x2A], s)) 0x12 [[0x22]] s = None"
  by (simp add: read_dynamic_measurement_def nth_opt_def decode_read_data_by_identifier_def expect_positive_def
      positive_response_sid_def POSITIVE_RESPONSE_OFFSET_def sid_READ_DATA_BY_IDENTIFIER_def slice_opt_def ok_or_def bindE_def)

definition reset_cbs :: "'s requester \<Rightarrow> u8 \<Rightarrow> bytes \<Rightarrow> bytes \<Rightarrow> ('s, bytes) client_op" where
  "reset_cbs req target reset_request read_back_request =
     bindS (enter_session req target session_EXTENDED) (\<lambda>_.
     bindS (req target reset_request) (\<lambda>_.
     bindS (req target read_back_request) (\<lambda>response.
     bindS (decodeS (decode_read_data_by_identifier response)) (\<lambda>(_, block). returnS block))))"

definition run_service_reset :: "'s requester \<Rightarrow> u8 \<Rightarrow> bytes \<Rightarrow> ('s, bytes) client_op" where
  "run_service_reset req target uds =
     bindS (enter_session req target session_EXTENDED) (\<lambda>_. req target uds)"

section \<open>What the operations promise\<close>

text \<open>The requests that change nothing in an ECU: \<open>ReadDTCInformation\<close> and \<open>ReadDataByIdentifier\<close>.\<close>

definition is_read :: "bytes \<Rightarrow> bool" where
  "is_read uds \<longleftrightarrow> (case uds of [] \<Rightarrow> False | b # _ \<Rightarrow> b = 0x19 \<or> b = 0x22)"

lemma is_read_builders [simp]:
  "is_read (read_dtc_by_status_mask m)" "is_read (read_data_by_identifier did)"
  "is_read (read_dtc_snapshot_by_dtc code r)" "is_read (read_dtc_extended_data_by_dtc code r)"
  "is_read (read_dtc_severity_by_dtc code)"
  by (cases code; simp add: is_read_def uds_builders uds_consts)+

text \<open>An operation keeps an invariant of the world, whatever its result.\<close>

definition keeps :: "('s \<Rightarrow> bool) \<Rightarrow> ('s, 'e, 'a) action \<Rightarrow> bool" where
  "keeps safe m \<longleftrightarrow> (\<forall>s. safe s \<longrightarrow> safe (snd (m s)))"

named_theorems keepsI

lemma keeps_returnS [keepsI]: "keeps safe (returnS x)"
  by (simp add: keeps_def returnS_def)

lemma keeps_liftS [keepsI]: "keeps safe (liftS r)"
  by (simp add: keeps_def liftS_def)

lemma keeps_decodeS [keepsI]: "keeps safe (decodeS r)"
  by (simp add: keeps_def decodeS_def liftS_def)

lemma keeps_bindS [keepsI]:
  assumes "keeps safe m" "\<And>x. keeps safe (k x)"
  shows "keeps safe (bindS m k)"
  unfolding keeps_def
proof (intro allI impI)
  fix s assume "safe s"
  with assms(1) have "safe (snd (m s))" by (simp add: keeps_def)
  with assms(2) show "safe (snd (bindS m k s))"
    by (auto simp: bindS_def keeps_def split: prod.split sum.split)
qed

lemma keeps_if [keepsI]: "keeps safe a \<Longrightarrow> keeps safe b \<Longrightarrow> keeps safe (if c then a else b)"
  by simp

lemma keeps_option [keepsI]:
  "keeps safe a \<Longrightarrow> (\<And>x. keeps safe (f x)) \<Longrightarrow> keeps safe (case r of None \<Rightarrow> a | Some x \<Rightarrow> f x)"
  by (cases r) simp_all

lemma keeps_prod [keepsI]: "(\<And>x y. keeps safe (f x y)) \<Longrightarrow> keeps safe (case p of (x, y) \<Rightarrow> f x y)"
  by (cases p) simp

lemma keeps_decode_optional [keepsI]: "keeps safe (decode_optional dec resp)"
  unfolding decode_optional_def by (intro keepsI)

lemma keeps_or_default [keepsI]: "keeps safe m \<Longrightarrow> keeps safe (or_default m d)"
  by (auto simp: keeps_def or_default_def split: prod.split sum.split)

lemma keeps_or_negative [keepsI]: "keeps safe m \<Longrightarrow> keeps safe (or_negative m d)"
  by (auto simp: keeps_def or_negative_def split: prod.split sum.split client_error.split)

text \<open>
  The contract of a session for its client: an invariant of the world, kept by the requests that
  are acceptable. The second locale adds that reads are.
\<close>

locale client_transport =
  fixes req :: "u8 \<Rightarrow> bytes \<Rightarrow> 's \<Rightarrow> (client_error + bytes) \<times> 's"
    and safe :: "'s \<Rightarrow> bool"
    and ok :: "u8 \<Rightarrow> bytes \<Rightarrow> bool"
  assumes req_keeps: "safe s \<Longrightarrow> ok target uds \<Longrightarrow> safe (snd (req target uds s))"
begin

lemma keeps_req: "ok target uds \<Longrightarrow> keeps safe (req target uds)"
  by (simp add: keeps_def req_keeps)

lemma keeps_request_optional: "ok target uds \<Longrightarrow> keeps safe (request_optional req target uds)"
  using req_keeps [of _ target uds]
  by (auto simp: keeps_def request_optional_def split: prod.split sum.split client_error.split) (metis snd_conv)+

lemma keeps_enter_session:
  "ok target (diagnostic_session_control sess) \<Longrightarrow> keeps safe (enter_session req target sess)"
  unfolding enter_session_def by (intro keepsI keeps_req)

end

locale reading_client = client_transport +
  assumes reads_ok: "is_read uds \<Longrightarrow> ok target uds"
begin

lemmas readI = keepsI keeps_req keeps_request_optional reads_ok is_read_builders

lemma keeps_read_dtcs: "keeps safe (read_dtcs req target m)"
  unfolding read_dtcs_def by (intro readI)

lemma keeps_read_all_dtcs: "keeps safe (read_all_dtcs req target)"
  unfolding read_all_dtcs_def by (rule keeps_read_dtcs)

lemma keeps_read_info_memory: "keeps safe (read_info_memory req target)"
  unfolding read_info_memory_def by (intro readI)

lemma keeps_read_fault_detail: "keeps safe (read_fault_detail req target code)"
  unfolding read_fault_detail_def by (intro readI)

lemma keeps_read_did: "keeps safe (read_did req target did)"
  unfolding read_did_def by (intro readI)

lemma keeps_read_ecu_list: "keeps safe (read_ecu_list req)"
  unfolding read_ecu_list_def by (intro readI keeps_read_did)

lemma keeps_read_responding_ecu_list: "keeps safe (read_responding_ecu_list req)"
  unfolding read_responding_ecu_list_def by (intro readI)

lemma keeps_read_i_stufe: "keeps safe (read_i_stufe req)"
  unfolding read_i_stufe_def read_i_stufe_levels_def by (intro readI)

lemma keeps_read_vehicle_order: "keeps safe (read_vehicle_order req)"
  unfolding read_vehicle_order_def by (intro readI keeps_read_did)

lemma keeps_identification_loop: "keeps safe (identification_loop req target dids found)"
  by (induction dids arbitrary: found) (auto intro!: readI)

lemma keeps_read_ecu_identification: "keeps safe (read_ecu_identification req target)"
  unfolding read_ecu_identification_def by (intro readI keeps_identification_loop)

lemma keeps_identify_ecus: "keeps safe (identify_ecus req addrs)"
  by (induction addrs) (auto intro!: readI keeps_read_ecu_identification)

lemma keeps_identify_vehicle: "keeps safe (identify_vehicle req)"
  unfolding identify_vehicle_def
  by (intro readI keeps_read_did keeps_read_ecu_list keeps_read_i_stufe keeps_read_vehicle_order
      keeps_identify_ecus)

end

text \<open>Any session, with a record of the requests made of it: the target and the payload, in order.\<close>

type_synonym request_log = "(u8 \<times> bytes) list"

definition log_request :: "'s requester \<Rightarrow> (request_log \<times> 's) requester" where
  "log_request req target uds ls =
     (case ls of (log, s) \<Rightarrow>
        case req target uds s of (r, s') \<Rightarrow> (r, (log @ [(target, uds)], s')))"

definition log_all :: "(u8 \<Rightarrow> bytes \<Rightarrow> bool) \<Rightarrow> request_log \<times> 's \<Rightarrow> bool" where
  "log_all ok ls \<longleftrightarrow> list_all (\<lambda>(target, uds). ok target uds) (fst ls)"

interpretation logged_client: client_transport "log_request req" "log_all ok" ok for req ok
  by unfold_locales (auto simp: log_request_def log_all_def split: prod.split)

interpretation logged_reads: reading_client "log_request req" "log_all (\<lambda>_. is_read)" "\<lambda>_. is_read" for req
  by unfold_locales simp

definition requests_of :: "(request_log \<times> 's, 'a) client_op \<Rightarrow> 's \<Rightarrow> request_log" where
  "requests_of m s = fst (snd (m ([], s)))"

lemma requests_of_keeps: "keeps (log_all ok) m \<Longrightarrow> list_all (\<lambda>(target, uds). ok target uds) (requests_of m s)"
  by (auto simp: keeps_def log_all_def requests_of_def)

text \<open>
  The operations the client calls autonomous-safe are reads: whatever the car answers and
  whatever errors occur on the way, every request they make is a \<open>ReadDTCInformation\<close> or a
  \<open>ReadDataByIdentifier\<close>. None of them enters a session, clears, writes, resets or starts a routine.
\<close>
theorem client_reads_only_read:
  "list_all (\<lambda>(target, uds). is_read uds)
     (requests_of (read_dtcs (log_request req) target m) s
      @ requests_of (read_all_dtcs (log_request req) target) s
      @ requests_of (read_info_memory (log_request req) target) s
      @ requests_of (read_fault_detail (log_request req) target code) s
      @ requests_of (read_did (log_request req) target did) s
      @ requests_of (read_ecu_list (log_request req)) s
      @ requests_of (read_responding_ecu_list (log_request req)) s
      @ requests_of (read_i_stufe (log_request req)) s
      @ requests_of (read_vehicle_order (log_request req)) s
      @ requests_of (read_ecu_identification (log_request req) target) s
      @ requests_of (identify_vehicle (log_request req)) s)"
  by (simp add: requests_of_keeps [where ok = "\<lambda>_. is_read"] logged_reads.keeps_read_dtcs
      logged_reads.keeps_read_all_dtcs logged_reads.keeps_read_info_memory
      logged_reads.keeps_read_fault_detail logged_reads.keeps_read_did logged_reads.keeps_read_ecu_list
      logged_reads.keeps_read_responding_ecu_list logged_reads.keeps_read_i_stufe
      logged_reads.keeps_read_vehicle_order logged_reads.keeps_read_ecu_identification
      logged_reads.keeps_identify_vehicle)

end
