(* ===== verification/Client_Scan.thy ===== *)
theory Client_Scan
  imports Client_Ops "HOL-Library.Multiset"
begin

text \<open>
  The whole-car procedures of \<open>crates/client/src/scan.rs\<close>: the fault scan, the verified clear of
  one ECU, and the clear of the whole car with its optional reset pass. The texts of the report
  errors are kept as the step that failed with the error behind it.
\<close>

datatype report_error =
    PreRead client_error
  | ClearStep client_error
  | PostRead client_error

record ecu_faults =
  ef_address :: u8
  ef_relevant :: "dtc list"
  ef_not_tested :: nat
  ef_error :: "client_error option"

record clear_report =
  cr_address :: u8
  cr_before :: "dtc list"
  cr_after_relevant :: "dtc list"
  cr_verified_clean :: bool
  cr_reset_performed :: "bool option"
  cr_reset_error :: "client_error option"
  cr_error :: "report_error option"

definition is_reset_target :: "u8 \<Rightarrow> bool" where
  "is_reset_target address \<longleftrightarrow> address \<noteq> ZGW_ADDRESS"

definition reset_targets :: "u8 list \<Rightarrow> u8 list" where
  "reset_targets addrs =
     fold (\<lambda>address out. if is_reset_target address \<and> address \<notin> set out then out @ [address] else out)
       addrs []"

section \<open>The scan\<close>

definition faults_entry :: "u8 \<Rightarrow> client_error + dtc list \<Rightarrow> ecu_faults" where
  "faults_entry address r =
     (case r of
        Inr dtcs \<Rightarrow>
          \<lparr>ef_address = address, ef_relevant = filter dtc_is_relevant dtcs,
           ef_not_tested = length (filter (\<lambda>d. \<not> dtc_is_relevant d) dtcs), ef_error = None\<rparr>
      | Inl e \<Rightarrow> \<lparr>ef_address = address, ef_relevant = [], ef_not_tested = 0, ef_error = Some e\<rparr>)"

text \<open>
  \<open>buffer_unordered\<close> runs the reads of up to \<open>concurrency\<close> ECUs at once and collects them as they
  complete. Each read is one request; \<open>order\<close> is the order in which the requests take effect, any
  arrangement of the addresses. The stable sort of any completion order gives every result
  \<open>sort_unstable_by_key\<close> may give.
\<close>

fun scan_reads :: "'s requester \<Rightarrow> u8 list \<Rightarrow> 's \<Rightarrow> ecu_faults list \<times> 's" where
  "scan_reads req [] s = ([], s)"
| "scan_reads req (address # rest) s =
     (case read_all_dtcs req address s of
        (r, s') \<Rightarrow> (case scan_reads req rest s' of (out, s'') \<Rightarrow> (faults_entry address r # out, s'')))"

definition scan_faults :: "'s requester \<Rightarrow> u8 list \<Rightarrow> 's \<Rightarrow> ecu_faults list \<times> 's" where
  "scan_faults req order s = apfst (sort_key ef_address) (scan_reads req order s)"

section \<open>The clear\<close>

definition new_report :: "u8 \<Rightarrow> clear_report" where
  "new_report target =
     \<lparr>cr_address = target, cr_before = [], cr_after_relevant = [], cr_verified_clean = False,
      cr_reset_performed = None, cr_reset_error = None, cr_error = None\<rparr>"

definition clear_faults_verified :: "'s requester \<Rightarrow> u8 \<Rightarrow> 's \<Rightarrow> clear_report \<times> 's" where
  "clear_faults_verified req target s =
     (let report = new_report target in
      case read_all_dtcs req target s of
        (Inl e, s1) \<Rightarrow> (report\<lparr>cr_error := Some (PreRead e)\<rparr>, s1)
      | (Inr before, s1) \<Rightarrow>
     (let report = report\<lparr>cr_before := before\<rparr> in
      case clear_all_dtcs req target s1 of
        (Inl e, s2) \<Rightarrow> (report\<lparr>cr_error := Some (ClearStep e)\<rparr>, s2)
      | (Inr _, s2) \<Rightarrow>
     (case read_all_dtcs req target s2 of
        (Inr after, s3) \<Rightarrow>
          (let relevant = filter dtc_is_relevant after in
           (report\<lparr>cr_after_relevant := relevant, cr_verified_clean := (relevant = [])\<rparr>, s3))
      | (Inl e, s3) \<Rightarrow> (report\<lparr>cr_error := Some (PostRead e)\<rparr>, s3))))"

fun clear_pass :: "'s requester \<Rightarrow> u8 list \<Rightarrow> 's \<Rightarrow> clear_report list \<times> 's" where
  "clear_pass req [] s = ([], s)"
| "clear_pass req (address # rest) s =
     (case clear_faults_verified req address s of
        (report, s') \<Rightarrow> (case clear_pass req rest s' of (reports, s'') \<Rightarrow> (report # reports, s'')))"

text \<open>The outcome of a reset, on every report of that address.\<close>

definition record_reset :: "u8 \<Rightarrow> client_error + unit \<Rightarrow> clear_report list \<Rightarrow> clear_report list" where
  "record_reset address outcome reports =
     map (\<lambda>r. if cr_address r = address
              then (case outcome of
                      Inr _ \<Rightarrow> r\<lparr>cr_reset_performed := Some True\<rparr>
                    | Inl e \<Rightarrow> r\<lparr>cr_reset_performed := Some False, cr_reset_error := Some e\<rparr>)
              else r) reports"

fun reset_pass :: "'s requester \<Rightarrow> u8 list \<Rightarrow> clear_report list \<Rightarrow> 's \<Rightarrow> clear_report list \<times> 's" where
  "reset_pass req [] reports s = (reports, s)"
| "reset_pass req (address # rest) reports s =
     (case ecu_reset req address reset_subfn_HARD s of
        (outcome, s') \<Rightarrow> reset_pass req rest (record_reset address outcome reports) s')"

definition cleared :: "clear_report list \<Rightarrow> u8 list" where
  "cleared reports = map cr_address (filter (\<lambda>r. cr_error r = None) reports)"

definition clear_faults_all_with_reset :: "'s requester \<Rightarrow> u8 list \<Rightarrow> bool \<Rightarrow> 's \<Rightarrow> clear_report list \<times> 's" where
  "clear_faults_all_with_reset req addrs reset s =
     (case clear_pass req addrs s of
        (reports, s') \<Rightarrow>
          if \<not> reset then (reports, s')
          else reset_pass req (reset_targets (cleared reports)) reports s')"

definition clear_faults_all :: "'s requester \<Rightarrow> u8 list \<Rightarrow> 's \<Rightarrow> clear_report list \<times> 's" where
  "clear_faults_all req addrs = clear_faults_all_with_reset req addrs False"

section \<open>Traces\<close>

text \<open>The four requests of a verified clear and the two of a reset.\<close>

definition read_step :: "u8 \<Rightarrow> u8 \<times> bytes" where
  "read_step target = (target, read_dtc_by_status_mask ALL_DTC_STATUS_MASK)"

definition session_step :: "u8 \<Rightarrow> u8 \<times> bytes" where
  "session_step target = (target, diagnostic_session_control session_EXTENDED)"

definition clear_step :: "u8 \<Rightarrow> u8 \<times> bytes" where
  "clear_step target = (target, clear_diagnostic_information CLEAR_ALL_DTCS)"

definition reset_step :: "u8 \<Rightarrow> u8 \<times> bytes" where
  "reset_step target = (target, req_ecu_reset reset_subfn_HARD)"

lemmas steps_def = read_step_def session_step_def clear_step_def reset_step_def

lemma steps_distinct [simp]:
  "read_step t \<noteq> session_step u" "session_step t \<noteq> read_step u" "read_step t \<noteq> clear_step u"
  "clear_step t \<noteq> read_step u" "session_step t \<noteq> clear_step u" "clear_step t \<noteq> session_step u"
  "reset_step t \<noteq> read_step u" "reset_step t \<noteq> session_step u" "reset_step t \<noteq> clear_step u"
  "read_step t \<noteq> reset_step u" "session_step t \<noteq> reset_step u" "clear_step t \<noteq> reset_step u"
  "read_step t = read_step u \<longleftrightarrow> t = u" "session_step t = session_step u \<longleftrightarrow> t = u"
  "clear_step t = clear_step u \<longleftrightarrow> t = u" "reset_step t = reset_step u \<longleftrightarrow> t = u"
  by (simp_all add: steps_def uds_builders uds_consts)

lemma logged_read:
  "read_all_dtcs (log_request req) t (l, s) =
     (case req t (snd (read_step t)) s of (r, s') \<Rightarrow>
        (bindE r (\<lambda>resp. map_err CUds (decode_dtcs resp)), (l @ [read_step t], s')))"
  by (auto simp: read_all_dtcs_def read_dtcs_def bindS_def log_request_def decodeS_def liftS_def steps_def
      split: prod.split sum.split)

lemma logged_clear:
  "clear_all_dtcs (log_request req) t (l, s) =
     (case req t (snd (session_step t)) s of
        (Inl e, s') \<Rightarrow> (Inl e, (l @ [session_step t], s'))
      | (Inr _, s') \<Rightarrow>
          (case req t (snd (clear_step t)) s' of (r, s'') \<Rightarrow>
             (bindE r (\<lambda>_. Inr ()), (l @ [session_step t, clear_step t], s''))))"
  by (auto simp: clear_all_dtcs_def clear_dtcs_def enter_session_def bindS_def returnS_def log_request_def steps_def
      split: prod.split sum.split)

lemma logged_reset:
  "ecu_reset (log_request req) t reset_subfn_HARD (l, s) =
     (case req t (snd (session_step t)) s of
        (Inl e, s') \<Rightarrow> (Inl e, (l @ [session_step t], s'))
      | (Inr _, s') \<Rightarrow>
          (case req t (snd (reset_step t)) s' of (r, s'') \<Rightarrow>
             (bindE r (\<lambda>_. Inr ()), (l @ [session_step t, reset_step t], s''))))"
  by (auto simp: ecu_reset_def enter_session_def bindS_def returnS_def log_request_def steps_def
      split: prod.split sum.split)

text \<open>What a report says about the requests that were made.\<close>

definition report_trace :: "clear_report \<Rightarrow> request_log \<Rightarrow> bool" where
  "report_trace report l \<longleftrightarrow>
     (let t = cr_address report in
      case cr_error report of
        Some (PreRead _) \<Rightarrow> l = [read_step t]
      | Some (ClearStep _) \<Rightarrow>
          l = [read_step t, session_step t] \<or> l = [read_step t, session_step t, clear_step t]
      | _ \<Rightarrow> l = [read_step t, session_step t, clear_step t, read_step t])"

lemma clear_verified_run:
  assumes "clear_faults_verified (log_request req) t (l, s) = (report, (l', s'))"
  shows "cr_address report = t \<and> cr_reset_performed report = None \<and> cr_reset_error report = None
    \<and> (\<exists>m. l' = l @ m \<and> report_trace report m
        \<and> (clear_step t \<in> set m \<longrightarrow>
            (\<exists>resp. fst (req t (snd (read_step t)) s) = Inr resp \<and> decode_dtcs resp = Inr (cr_before report))))
    \<and> (cr_verified_clean report \<longleftrightarrow> cr_error report = None \<and> cr_after_relevant report = [])"
  using assms
  by (auto simp: clear_faults_verified_def new_report_def logged_read logged_clear report_trace_def Let_def
      bindE_Inr_iff split: prod.splits sum.splits) (auto simp: map_err_def split: sum.splits)

section \<open>An example car\<close>

text \<open>A car whose one ECU answers its first clear and rejects every later one.\<close>

definition worn_car :: "nat requester" where
  "worn_car target uds n =
     (if uds = snd (clear_step target) then
        (if n = 0 then Inr [0x54] else Inl (CNegative 0x14 (nrc_from 0x22)), n + 1)
      else if is_read uds then (Inr [0x59, 0x02, 0xFF], n)
      else (Inr [0x50, 0x03], n))"

lemma decodeS_eqs [simp]: "decodeS (Inr x) s = (Inr x, s)" "decodeS (Inl e) s = (Inl (CUds e), s)"
  by (simp_all add: decodeS_def liftS_def)

lemma worn_car_steps:
  "worn_car t (read_dtc_by_status_mask ALL_DTC_STATUS_MASK) n = (Inr [0x59, 0x02, 0xFF], n)"
  "worn_car t (diagnostic_session_control session_EXTENDED) n = (Inr [0x50, 0x03], n)"
  "worn_car t (clear_diagnostic_information CLEAR_ALL_DTCS) n =
     (if n = 0 then Inr [0x54] else Inl (CNegative 0x14 (nrc_from 0x22)), n + 1)"
  "worn_car t (req_ecu_reset reset_subfn_HARD) n = (Inr [0x50, 0x03], n)"
  and worn_car_read: "decode_dtcs [0x59, 0x02, 0xFF] = Inr []"
  by (simp_all add: worn_car_def steps_def is_read_def uds_builders uds_consts decodeS_def liftS_def
      decode_dtcs_def expect_positive_def positive_response_sid_def Let_def slice_from_opt_def nth_opt_def DTC_RECORD_LEN_def)



section \<open>The whole car\<close>

lemma reset_targets_fold:
  assumes "distinct out"
  shows "distinct (fold (\<lambda>a out. if is_reset_target a \<and> a \<notin> set out then out @ [a] else out) addrs out)
    \<and> set (fold (\<lambda>a out. if is_reset_target a \<and> a \<notin> set out then out @ [a] else out) addrs out)
        = set out \<union> {a \<in> set addrs. is_reset_target a}"
  using assms by (induction addrs arbitrary: out) auto

lemma reset_targets_facts:
  "distinct (reset_targets addrs)" "set (reset_targets addrs) = {a \<in> set addrs. a \<noteq> ZGW_ADDRESS}"
  using reset_targets_fold [of "[]" addrs] by (simp_all add: reset_targets_def is_reset_target_def)

definition sweep_steps :: "u8 list \<Rightarrow> request_log \<Rightarrow> bool" where
  "sweep_steps addrs m \<longleftrightarrow>
     list_all (\<lambda>x. fst x \<in> set addrs \<and> x \<in> {read_step (fst x), session_step (fst x), clear_step (fst x)}) m"

lemma clear_pass_run:
  assumes "clear_pass (log_request req) addrs (l, s) = (reports, (l', s'))"
  shows "map cr_address reports = addrs
    \<and> list_all (\<lambda>r. cr_reset_performed r = None) reports
    \<and> (\<exists>m. l' = l @ m \<and> sweep_steps addrs m)"
  using assms
proof (induction addrs arbitrary: l s reports)
  case Nil
  then show ?case by (simp add: sweep_steps_def)
next
  case (Cons a addrs)
  obtain r l1 s1 where r: "clear_faults_verified (log_request req) a (l, s) = (r, (l1, s1))"
    by (metis prod.exhaust)
  with Cons.prems obtain rs where rs: "clear_pass (log_request req) addrs (l1, s1) = (rs, (l', s'))"
    and reports: "reports = r # rs"
    by (auto split: prod.splits)
  from clear_verified_run [OF r] obtain m where m: "l1 = l @ m" "cr_address r = a"
    "cr_reset_performed r = None" "report_trace r m" by blast
  have "sweep_steps [a] m"
    using m(2,4) by (auto simp: sweep_steps_def report_trace_def Let_def steps_def
        split: option.splits report_error.splits)
  with Cons.IH [OF rs] m reports show ?case
    by (auto simp: sweep_steps_def list_all_iff)
qed

definition is_reset_request :: "u8 \<times> bytes \<Rightarrow> bool" where
  "is_reset_request x \<longleftrightarrow> snd x = req_ecu_reset reset_subfn_HARD"

definition reset_steps :: "u8 list \<Rightarrow> request_log \<Rightarrow> bool" where
  "reset_steps addrs m \<longleftrightarrow>
     list_all (\<lambda>x. x \<in> session_step ` set addrs \<union> reset_step ` set addrs) m
     \<and> distinct (filter is_reset_request m)"

lemma is_reset_request_simps [simp]:
  "is_reset_request (reset_step a)" "\<not> is_reset_request (session_step a)"
  by (simp_all add: is_reset_request_def steps_def uds_builders uds_consts)

lemma reset_step_fst [simp]:
  "fst (reset_step a) = a" "fst (session_step a) = a"
  by (simp_all add: steps_def)

lemma logged_reset_steps:
  assumes "ecu_reset (log_request req) a reset_subfn_HARD (l, s) = (r, (l', s'))"
  shows "l' = l @ [session_step a] \<or> l' = l @ [session_step a, reset_step a]"
  using assms by (auto simp: logged_reset split: prod.splits sum.splits)

lemma record_reset_facts:
  "map cr_address (record_reset a out reports) = map cr_address reports"
  "map cr_error (record_reset a out reports) = map cr_error reports"
  "list_all (\<lambda>r. cr_reset_performed r \<noteq> None \<longleftrightarrow> P (cr_address r)) reports \<Longrightarrow>
   list_all (\<lambda>r. cr_reset_performed r \<noteq> None \<longleftrightarrow> P (cr_address r) \<or> cr_address r = a) (record_reset a out reports)"
  by (induction reports) (auto simp: record_reset_def split: sum.splits)

lemma reset_pass_run:
  assumes "reset_pass (log_request req) addrs reports (l, s) = (reports', (l', s'))" and "distinct addrs"
    and "list_all (\<lambda>r. cr_reset_performed r \<noteq> None \<longleftrightarrow> P (cr_address r)) reports"
  shows "map cr_address reports' = map cr_address reports \<and> map cr_error reports' = map cr_error reports
    \<and> list_all (\<lambda>r. cr_reset_performed r \<noteq> None \<longleftrightarrow> P (cr_address r) \<or> cr_address r \<in> set addrs) reports'
    \<and> (\<exists>m. l' = l @ m \<and> reset_steps addrs m)"
  using assms
proof (induction addrs arbitrary: reports l s P)
  case Nil
  then show ?case by (auto simp: reset_steps_def)
next
  case (Cons a addrs)
  obtain out l1 s1 where r: "ecu_reset (log_request req) a reset_subfn_HARD (l, s) = (out, (l1, s1))"
    by (metis prod.exhaust)
  with Cons.prems have rest: "reset_pass (log_request req) addrs (record_reset a out reports) (l1, s1) = (reports', (l', s'))"
    by simp
  from Cons.IH [OF rest _ record_reset_facts(3) [OF Cons.prems(3)]] Cons.prems(2)
  obtain m where IH: "map cr_address reports' = map cr_address reports" "map cr_error reports' = map cr_error reports"
    "list_all (\<lambda>r. cr_reset_performed r \<noteq> None \<longleftrightarrow> (P (cr_address r) \<or> cr_address r = a) \<or> cr_address r \<in> set addrs) reports'"
    "l' = l1 @ m" "reset_steps addrs m"
    by (auto simp: record_reset_facts(1,2))
  from logged_reset_steps [OF r] obtain k where k: "l1 = l @ k" "k = [session_step a] \<or> k = [session_step a, reset_step a]"
    by auto
  have "reset_steps (a # addrs) (k @ m)"
    using k(2) IH(5) Cons.prems(2) by (auto simp: reset_steps_def list_all_iff image_iff)
  moreover have "l' = l @ k @ m" using k(1) IH(4) by simp
  moreover have "(P (cr_address r) \<or> cr_address r = a) \<or> cr_address r \<in> set addrs
      \<longleftrightarrow> P (cr_address r) \<or> cr_address r \<in> set (a # addrs)" for r
    by auto
  ultimately show ?case using IH(1-3) by simp
qed

text \<open>The addresses with a report that has no error.\<close>

definition has_clean_report :: "u8 \<Rightarrow> clear_report list \<Rightarrow> bool" where
  "has_clean_report a reports \<longleftrightarrow> list_ex (\<lambda>r. cr_address r = a \<and> cr_error r = None) reports"

lemma set_cleared: "a \<in> set (cleared reports) \<longleftrightarrow> has_clean_report a reports"
  by (auto simp: cleared_def has_clean_report_def list_ex_iff)

lemma has_clean_report_cong:
  "map cr_address rs' = map cr_address rs \<Longrightarrow> map cr_error rs' = map cr_error rs \<Longrightarrow>
   has_clean_report a rs' = has_clean_report a rs"
proof -
  have z: "has_clean_report a rs \<longleftrightarrow> (a, None) \<in> set (zip (map cr_address rs) (map cr_error rs))" for rs
    by (induction rs) (auto simp: has_clean_report_def)
  assume "map cr_address rs' = map cr_address rs" "map cr_error rs' = map cr_error rs"
  then show ?thesis by (simp only: z)
qed


section \<open>A repeated address\<close>

text \<open>
  The documentation of the report says that a failed clear is never followed by a reset. With
  an address listed twice it is: when the first clear succeeds and the second fails, the ECU is
  reset and the report of the failed clear records the reset.
\<close>
theorem failed_clear_can_be_reset:
  "map (\<lambda>r. (cr_address r, cr_error r, cr_reset_performed r))
     (fst (clear_faults_all_with_reset worn_car [0x12, 0x12] True 0)) =
   [(0x12, None, Some True), (0x12, Some (ClearStep (CNegative 0x14 (nrc_from 0x22))), Some True)]"
proof -
  have first: "clear_faults_verified worn_car 0x12 0 = ((new_report 0x12)\<lparr>cr_verified_clean := True\<rparr>, 1)"
    by (simp add: clear_faults_verified_def read_all_dtcs_def read_dtcs_def clear_all_dtcs_def clear_dtcs_def
        enter_session_def bindS_def returnS_def worn_car_steps worn_car_read new_report_def)
  have second: "clear_faults_verified worn_car 0x12 (Suc 0) =
      ((new_report 0x12)\<lparr>cr_error := Some (ClearStep (CNegative 0x14 (nrc_from 0x22)))\<rparr>, 2)"
    by (simp add: clear_faults_verified_def read_all_dtcs_def read_dtcs_def clear_all_dtcs_def clear_dtcs_def
        enter_session_def bindS_def returnS_def worn_car_steps worn_car_read new_report_def)
  have "ecu_reset worn_car 0x12 reset_subfn_HARD 2 = (Inr (), 2)"
    by (simp add: ecu_reset_def enter_session_def bindS_def returnS_def worn_car_steps)
  then show ?thesis
    by (simp add: clear_faults_all_with_reset_def first second cleared_def reset_targets_def is_reset_target_def
        ZGW_ADDRESS_def record_reset_def new_report_def)
qed

section \<open>The scan\<close>

lemma scan_reads_addresses: "map ef_address (fst (scan_reads req order s)) = order"
proof (induction order arbitrary: s)
  case (Cons a order)
  have a: "ef_address (faults_entry a r) = a" for r by (simp add: faults_entry_def split: sum.split)
  obtain r s' out s'' where "read_all_dtcs req a s = (r, s')" "scan_reads req order s' = (out, s'')"
    by (metis prod.exhaust)
  with a Cons [of s'] show ?case by simp
qed simp

lemma scan_reads_entries:
  "e \<in> set (fst (scan_reads req order s)) \<Longrightarrow> \<exists>s'. e = faults_entry (ef_address e) (fst (read_all_dtcs req (ef_address e) s'))"
proof (induction order arbitrary: s)
  case (Cons a order)
  obtain r s' where r: "read_all_dtcs req a s = (r, s')" by (metis prod.exhaust)
  have "ef_address (faults_entry a r) = a" by (simp add: faults_entry_def split: sum.split)
  with Cons r show ?case by (auto split: prod.splits) (metis fst_conv)+
qed simp

lemma scan_reads_stateless:
  "(\<And>a s. read_all_dtcs req a s = (f a, s)) \<Longrightarrow>
   scan_reads req order s = (map (\<lambda>a. faults_entry a (f a)) order, s)"
  by (induction order) auto



end
