(* ===== verification/Sem_Measurement.thy ===== *)
theory Sem_Measurement
  imports Sgbd_Prg Float64 Client_Ops "HOL-Library.Multiset"
begin

text \<open>
  The proprietary measurements of \<open>crates/semantic/src/measurement.rs\<close>: the catalog built from
  an SGBD's \<open>SG_FUNKTIONEN\<close> table, the scaling of raw values, the lookup by name, and the
  request sequence of a dynamic read. Unicode lower-casing (\<open>str::to_lowercase\<close>) is the
  parameter \<open>lower\<close>; everything else of the standard library is in \<open>Rust_Text\<close> and \<open>Float64\<close>.
\<close>

section \<open>Scaling\<close>

datatype data_type = TU8 | TU16 | TU32 | TF32Be

definition data_type_from :: "ustring \<Rightarrow> data_type option" where
  "data_type_from t =
     (let n = trim t in
      if n = ustr ''unsigned char'' then Some TU8
      else if n = ustr ''unsigned int'' then Some TU16
      else if n = ustr ''unsigned long'' then Some TU32
      else if n = ustr ''motorola float'' then Some TF32Be
      else None)"

fun data_width :: "data_type \<Rightarrow> nat" where
  "data_width TU8 = 1"
| "data_width TU16 = 2"
| "data_width TU32 = 4"
| "data_width TF32Be = 4"

definition read_be :: "data_type \<Rightarrow> bytes \<Rightarrow> f64 option" where
  "read_be dtype raw =
     map_option (\<lambda>b. case dtype of
         TU8 \<Rightarrow> f64_of_int (uint (b ! 0))
       | TU16 \<Rightarrow> f64_of_int (uint (be16 (b ! 0) (b ! 1)))
       | TU32 \<Rightarrow> f64_of_int (uint (be32 (b ! 0) (b ! 1) (b ! 2) (b ! 3)))
       | TF32Be \<Rightarrow> f64_of_f32 (be32 (b ! 0) (b ! 1) (b ! 2) (b ! 3)))
       (slice_opt raw 0 (data_width dtype))"

definition linear :: "f64 \<Rightarrow> f64 \<Rightarrow> f64 \<Rightarrow> f64 \<Rightarrow> f64" where
  "linear v mul dv add = f64_add (f64_div (f64_mul v mul) dv) add"

definition scale_raw :: "bytes \<Rightarrow> data_type \<Rightarrow> f64 \<Rightarrow> f64 \<Rightarrow> f64 \<Rightarrow> f64 option" where
  "scale_raw raw dtype mul dv add =
     (if f64_eq dv 0 then None
      else map_option (\<lambda>v. linear v mul dv add) (read_be dtype raw))"

section \<open>Measurements\<close>

record measurement =
  ms_arg :: ustring
  ms_id :: u16
  ms_result_name :: ustring
  ms_description :: ustring
  ms_unit :: ustring
  ms_datatype :: data_type
  ms_mul :: f64
  ms_div :: f64
  ms_add :: f64
  ms_sg_adr :: ustring
  ms_service :: ustring

record scaled_measurement =
  sm_name :: ustring
  sm_value :: f64
  sm_unit :: ustring

definition ms_name :: "measurement \<Rightarrow> ustring" where
  "ms_name m =
     (if ms_description m = [] \<or> ms_description m = ustr ''-'' then ms_result_name m else ms_description m)"

definition ms_scaled :: "measurement \<Rightarrow> bytes \<Rightarrow> scaled_measurement option" where
  "ms_scaled m raw =
     map_option (\<lambda>v. \<lparr>sm_name = ms_name m, sm_value = v, sm_unit = ms_unit m\<rparr>)
       (scale_raw raw (ms_datatype m) (ms_mul m) (ms_div m) (ms_add m))"

definition is_dynamic :: "measurement \<Rightarrow> bool" where
  "is_dynamic m =
     list_ex (\<lambda>s. trim s = ustr ''2C'') (split_on (\<lambda>c. c = of_char CHR '';'' \<or> c = of_char CHR '','') (ms_service m))"

section \<open>The table\<close>

definition column_at :: "ustring list \<Rightarrow> string \<Rightarrow> nat option" where
  "column_at columns name = position (\<lambda>c. c = ustr name) columns"

record column_indexes =
  ci_arg :: nat
  ci_id :: nat
  ci_result_name :: nat
  ci_info :: nat
  ci_unit :: nat
  ci_datentyp :: nat
  ci_mul :: nat
  ci_div :: nat
  ci_add :: nat
  ci_sg_adr :: nat
  ci_service :: nat

definition resolve_columns :: "ustring list \<Rightarrow> column_indexes option" where
  "resolve_columns columns =
     (case map (column_at columns) [''ARG'', ''ID'', ''RESULTNAME'', ''INFO'', ''EINHEIT'', ''DATENTYP'',
          ''MUL'', ''DIV'', ''ADD'', ''SG_ADR'', ''SERVICE''] of
        [Some a, Some b, Some c, Some d, Some e, Some f, Some g, Some h, Some i, Some j, Some k] \<Rightarrow>
          Some \<lparr>ci_arg = a, ci_id = b, ci_result_name = c, ci_info = d, ci_unit = e, ci_datentyp = f,
                ci_mul = g, ci_div = h, ci_add = i, ci_sg_adr = j, ci_service = k\<rparr>
      | _ \<Rightarrow> None)"

definition strip_0x :: "ustring \<Rightarrow> ustring option" where
  "strip_0x t =
     (case strip_prefix (ustr ''0x'') t of Some h \<Rightarrow> Some h | None \<Rightarrow> strip_prefix (ustr ''0X'') t)"

definition parse_id :: "ustring \<Rightarrow> u16 option" where
  "parse_id s =
     (let t = trim s; hex = (case strip_0x t of Some h \<Rightarrow> h | None \<Rightarrow> t)
      in map_option word_of_int (parse_int 16 0 65535 hex))"

definition parse_factor :: "ustring \<Rightarrow> f64 \<Rightarrow> f64 option" where
  "parse_factor s d =
     (let t = trim s in if t = [] \<or> t = ustr ''-'' then Some d else parse_f64 t)"

definition cell_or_empty :: "ustring list \<Rightarrow> nat \<Rightarrow> ustring" where
  "cell_or_empty row i = (case nth_opt row i of None \<Rightarrow> [] | Some c \<Rightarrow> c)"

definition parse_measurement_row :: "column_indexes \<Rightarrow> ustring list \<Rightarrow> measurement option" where
  "parse_measurement_row idx row =
     (case Option.bind (nth_opt row (ci_id idx)) parse_id of None \<Rightarrow> None
      | Some i \<Rightarrow>
     (case Option.bind (nth_opt row (ci_datentyp idx)) data_type_from of None \<Rightarrow> None
      | Some dtype \<Rightarrow>
     (case Option.bind (nth_opt row (ci_mul idx)) (\<lambda>c. parse_factor c (f64_of_int 1)) of None \<Rightarrow> None
      | Some mul \<Rightarrow>
     (case Option.bind (nth_opt row (ci_div idx)) (\<lambda>c. parse_factor c (f64_of_int 1)) of None \<Rightarrow> None
      | Some dv \<Rightarrow>
     (case Option.bind (nth_opt row (ci_add idx)) (\<lambda>c. parse_factor c 0) of None \<Rightarrow> None
      | Some add \<Rightarrow>
          Some \<lparr>ms_arg = cell_or_empty row (ci_arg idx), ms_id = i,
                ms_result_name = cell_or_empty row (ci_result_name idx),
                ms_description = cell_or_empty row (ci_info idx), ms_unit = cell_or_empty row (ci_unit idx),
                ms_datatype = dtype, ms_mul = mul, ms_div = dv, ms_add = add,
                ms_sg_adr = cell_or_empty row (ci_sg_adr idx), ms_service = cell_or_empty row (ci_service idx)\<rparr>)))))"

text \<open>
  The map from id to measurement, as the list of its values in the order of insertion; an id that
  is there already keeps its first measurement.
\<close>

type_synonym measurements = "measurement list"

definition ms_get :: "measurements \<Rightarrow> u16 \<Rightarrow> measurement option" where
  "ms_get ms i = find (\<lambda>m. ms_id m = i) ms"

definition or_insert :: "measurement \<Rightarrow> measurements \<Rightarrow> measurements" where
  "or_insert m ms = (if ms_get ms (ms_id m) = None then ms @ [m] else ms)"

fun insert_rows :: "column_indexes \<Rightarrow> ustring list list \<Rightarrow> measurements \<Rightarrow> measurements" where
  "insert_rows idx [] ms = ms"
| "insert_rows idx (row # rows) ms =
     insert_rows idx rows (case parse_measurement_row idx row of None \<Rightarrow> ms | Some m \<Rightarrow> or_insert m ms)"

definition measurements_from_table :: "table \<Rightarrow> measurements" where
  "measurements_from_table t =
     (case resolve_columns (tbl_columns t) of None \<Rightarrow> [] | Some idx \<Rightarrow> insert_rows idx (tbl_rows t) [])"

definition measurements_from_prg :: "prg \<Rightarrow> measurements option" where
  "measurements_from_prg p = map_option measurements_from_table (prg_table p (ustr ''SG_FUNKTIONEN''))"

definition ms_scale :: "measurements \<Rightarrow> u16 \<Rightarrow> bytes \<Rightarrow> scaled_measurement option" where
  "ms_scale ms i raw = Option.bind (ms_get ms i) (\<lambda>m. ms_scaled m raw)"

definition ms_all :: "measurements \<Rightarrow> measurement list" where
  "ms_all ms = sort_key ms_id ms"

definition fold_for_match :: "(ustring \<Rightarrow> ustring) \<Rightarrow> ustring \<Rightarrow> ustring" where
  "fold_for_match lower s = concat (map (\<lambda>c. if c = 0xDF then ustr ''ss'' else [c]) (lower (trim s)))"

definition field_matches :: "(ustring \<Rightarrow> ustring) \<Rightarrow> ustring \<Rightarrow> ustring \<Rightarrow> bool" where
  "field_matches lower query field \<longleftrightarrow>
     (let f = trim field in f \<noteq> ustr ''-'' \<and> f \<noteq> [] \<and> fold_for_match lower f = query)"

definition find_by_name :: "(ustring \<Rightarrow> ustring) \<Rightarrow> measurements \<Rightarrow> ustring \<Rightarrow> measurement list" where
  "find_by_name lower ms name =
     (let query = fold_for_match lower name in
      if query = [] then []
      else sort_key ms_id (filter (\<lambda>m. field_matches lower query (ms_arg m)
             \<or> field_matches lower query (ms_result_name m) \<or> field_matches lower query (ms_description m)) ms))"

section \<open>Dynamic reads\<close>

definition DYNAMIC_DID :: u16 where "DYNAMIC_DID = 0xF303"
definition SOURCE_POSITION :: u8 where "SOURCE_POSITION = 0x01"

definition build_read_request :: "measurement \<Rightarrow> bytes list" where
  "build_read_request m =
     [clear_dynamic_data_identifier DYNAMIC_DID,
      define_dynamic_data_by_identifier DYNAMIC_DID (ms_id m) SOURCE_POSITION
        (word_of_nat (data_width (ms_datatype m))),
      read_data_by_identifier DYNAMIC_DID]"

definition ascii_upper :: "nat \<Rightarrow> nat" where
  "ascii_upper c = (if 0x61 \<le> c \<and> c \<le> 0x7A then c - 0x20 else c)"

definition misrouted_dynamic_measurement ::
    "(ustring \<Rightarrow> ustring) \<Rightarrow> measurements \<Rightarrow> ustring \<Rightarrow> ustring list \<Rightarrow> ustring option" where
  "misrouted_dynamic_measurement lower ms job args =
     (if \<not> eq_ignore_ascii_case (trim job) (ustr ''STATUS_LESEN'') then None
      else case args of
        column # val # _ \<Rightarrow>
          (let column' = map ascii_upper (trim column); val' = trim val in
           case (if column' = ustr ''ARG'' \<or> column' = ustr ''LABEL'' then
                   (case find_by_name lower ms val' of [] \<Rightarrow> None | m # _ \<Rightarrow> Some m)
                 else if column' = ustr ''ID'' then Option.bind (parse_id val') (ms_get ms)
                 else None) of
             None \<Rightarrow> None
           | Some m \<Rightarrow> if is_dynamic m then Some (ms_name m) else None)
      | _ \<Rightarrow> None)"

section \<open>What the set holds\<close>

lemma ms_get_Some: "ms_get ms i = Some m \<Longrightarrow> m \<in> set ms \<and> ms_id m = i"
  by (auto simp: ms_get_def find_Some_iff in_set_conv_nth)

lemma ms_get_None: "ms_get ms i = None \<longleftrightarrow> i \<notin> ms_id ` set ms"
  by (auto simp: ms_get_def find_None_iff)

lemma ms_get_append:
  "ms_get (ms @ ms') i = (case ms_get ms i of None \<Rightarrow> ms_get ms' i | Some m \<Rightarrow> Some m)"
  by (induction ms) (auto simp: ms_get_def)

lemma or_insert_distinct: "distinct (map ms_id ms) \<Longrightarrow> distinct (map ms_id (or_insert m ms))"
  by (auto simp: or_insert_def ms_get_None)

lemma or_insert_get:
  "ms_get (or_insert m ms) i =
     (case ms_get ms i of Some x \<Rightarrow> Some x | None \<Rightarrow> if ms_id m = i then Some m else None)"
  by (auto simp: or_insert_def ms_get_append split: option.split) (auto simp: ms_get_def)

lemma insert_rows_facts:
  "distinct (map ms_id ms) \<Longrightarrow> distinct (map ms_id (insert_rows idx rows ms))"
  "ms_get (insert_rows idx rows ms) i =
     (case ms_get ms i of Some x \<Rightarrow> Some x
      | None \<Rightarrow> find (\<lambda>m. ms_id m = i) (List.map_filter (parse_measurement_row idx) rows))"
  by (induction rows arbitrary: ms)
    (auto simp: or_insert_distinct or_insert_get List.map_filter_simps split: option.split)

lemma sort_key_distinct_eq:
  assumes "distinct (map f xs)" "mset xs = mset ys"
  shows "sort_key f xs = sort_key f ys"
proof -
  have "inj_on f (set xs)" using assms(1) by (simp add: distinct_map)
  with assms(2) show ?thesis by (intro sort_key_inj_key_eq) simp_all
qed

text \<open>
  The catalog of an ECU: ids are unique; a lookup gives the first row of the table that parses
  with that id, and nothing for any other id; a raw answer too short for the type of the
  measurement, or a zero divisor, is never scaled; and neither listing nor search depends on the
  order the map stores its values in.
\<close>
theorem measurement_catalog:
  assumes "resolve_columns (tbl_columns t) = Some idx" and "ms = measurements_from_table t"
  shows "distinct (map ms_id ms)
    \<and> ms_get ms i = find (\<lambda>m. ms_id m = i) (List.map_filter (parse_measurement_row idx) (tbl_rows t))
    \<and> (ms_get ms i = Some m \<longrightarrow>
         (ms_scale ms i raw = None \<longleftrightarrow> length raw < data_width (ms_datatype m) \<or> f64_eq (ms_div m) 0))
    \<and> (mset ms' = mset ms \<longrightarrow> ms_all ms' = ms_all ms \<and> find_by_name lower ms' name = find_by_name lower ms name)"
proof -
  have ms: "ms = insert_rows idx (tbl_rows t) []"
    using assms by (simp add: measurements_from_table_def)
  have d: "distinct (map ms_id ms)" unfolding ms by (rule insert_rows_facts) simp
  have g: "ms_get ms i = find (\<lambda>m. ms_id m = i) (List.map_filter (parse_measurement_row idx) (tbl_rows t))"
    unfolding ms insert_rows_facts(2) by (simp add: ms_get_def)
  have s: "ms_scale ms i raw = None \<longleftrightarrow> length raw < data_width (ms_datatype m) \<or> f64_eq (ms_div m) 0"
    if "ms_get ms i = Some m"
    using that by (auto simp: ms_scale_def ms_scaled_def scale_raw_def read_be_def slice_opt_def)
  have o: "ms_all ms' = ms_all ms \<and> find_by_name lower ms' name = find_by_name lower ms name"
    if "mset ms' = mset ms"
  proof -
    have "sort_key ms_id (filter P ms) = sort_key ms_id (filter P ms')" for P
      using d that by (intro sort_key_distinct_eq) (simp_all add: distinct_map_filter)
    moreover have "sort_key ms_id ms = sort_key ms_id ms'"
      using d that by (intro sort_key_distinct_eq) simp_all
    ultimately show ?thesis by (simp add: ms_all_def find_by_name_def Let_def)
  qed
  from d g s o show ?thesis by blast
qed

lemma be16_bytes_append_eq: "be16_bytes w @ xs = a # b # ys \<longleftrightarrow> w = be16 a b \<and> xs = ys"
proof
  assume "be16_bytes w @ xs = a # b # ys"
  then have "a = ucast (drop_bit 8 w)" "b = ucast w" "xs = ys" by (simp_all add: be16_bytes_def)
  then show "w = be16 a b \<and> xs = ys" by (simp only: be16_be16_bytes simp_thms)
next
  assume "w = be16 a b \<and> xs = ys"
  then show "be16_bytes w @ xs = a # b # ys" by simp
qed

lemma decode_read_iff:
  "decode_read_data_by_identifier resp = Inr (did, raw) \<longleftrightarrow> resp = 0x62 # be16_bytes did @ raw"
proof
  assume a: "resp = 0x62 # be16_bytes did @ raw"
  show "decode_read_data_by_identifier resp = Inr (did, raw)"
    unfolding a by (simp add: decode_read_data_by_identifier_def expect_positive_def positive_response_sid_def
        uds_consts slice_opt_def be16_bytes_def Let_def)
next
  assume "decode_read_data_by_identifier resp = Inr (did, raw)"
  then show "resp = 0x62 # be16_bytes did @ raw"
    by (cases resp; cases "tl resp"; cases "tl (tl resp)")
      (auto simp: decode_read_data_by_identifier_def expect_positive_def positive_response_sid_def
        uds_consts slice_opt_def bindE_Inr_iff Let_def split: if_splits)
qed

text \<open>
  C40. A dynamic read composes the builder with the client: for every measurement it sends clear,
  define and read of the dynamic DID in that order, each only after the one before succeeded, never
  panics, and returns a value exactly when all three are answered and the last answer is the
  positive response for that DID, whose bytes after the DID it returns.
\<close>
theorem dynamic_read_composes:
  "read_dynamic_measurement req target (build_read_request m) s \<noteq> None
   \<and> (read_dynamic_measurement req target (build_read_request m) s = Some (Inr raw, s') \<longleftrightarrow>
      (\<exists>r1 s1 r2 s2. req target [0x2C, 0x03, 0xF3, 0x03] s = (Inr r1, s1)
         \<and> req target ([0x2C, 0x01, 0xF3, 0x03] @ be16_bytes (ms_id m)
                        @ [0x01, word_of_nat (data_width (ms_datatype m))]) s1 = (Inr r2, s2)
         \<and> req target [0x22, 0xF3, 0x03] s2 = (Inr ([0x62, 0xF3, 0x03] @ raw), s')))"
proof -
  have reqs: "build_read_request m =
      [[0x2C, 0x03, 0xF3, 0x03],
       [0x2C, 0x01, 0xF3, 0x03] @ be16_bytes (ms_id m) @ [0x01, word_of_nat (data_width (ms_datatype m))],
       [0x22, 0xF3, 0x03]]"
    by (simp add: build_read_request_def clear_dynamic_data_identifier_def define_dynamic_data_by_identifier_def
        read_data_by_identifier_def uds_consts DYNAMIC_DID_def SOURCE_POSITION_def be16_bytes_def)
  have did: "be16 0xF3 0x03 = 0xF303" and bytes: "be16_bytes 0xF303 = [0xF3, 0x03]"
    by (simp_all add: be16_def be16_bytes_def)
  have good: "decode_read_data_by_identifier (0x62 # 0xF3 # 0x03 # raw) = Inr (0xF303, raw)" for raw
    by (simp add: decode_read_iff bytes)
  show ?thesis
    by (auto simp: reqs good read_dynamic_measurement_def uds_consts did bytes decode_read_iff be16_bytes_append_eq
        split: prod.split sum.split)
qed

theorem measurement_catalog_witness:
  "let t = \<lparr>tbl_name = ustr ''SG_FUNKTIONEN'',
             tbl_columns = map ustr [''ARG'', ''ID'', ''RESULTNAME'', ''INFO'', ''EINHEIT'', ''DATENTYP'',
               ''MUL'', ''DIV'', ''ADD'', ''SG_ADR'', ''SERVICE''],
             tbl_rows = [map ustr [''ITMOT'', ''0x4BC3'', ''STAT_T'', ''-'', ''degC'', ''unsigned int'',
               ''-'', ''-'', ''-'', ''12'', ''22;2C'']]\<rparr>
   in distinct (map ms_id (measurements_from_table t))"
proof -
  let ?cols = "map ustr [''ARG'', ''ID'', ''RESULTNAME'', ''INFO'', ''EINHEIT'', ''DATENTYP'',
    ''MUL'', ''DIV'', ''ADD'', ''SG_ADR'', ''SERVICE'']"
  have "resolve_columns ?cols = Some \<lparr>ci_arg = 0, ci_id = 1, ci_result_name = 2, ci_info = 3, ci_unit = 4,
      ci_datentyp = 5, ci_mul = 6, ci_div = 7, ci_add = 8, ci_sg_adr = 9, ci_service = 10\<rparr>"
    by (simp add: resolve_columns_def column_at_def ustr_def)
  from measurement_catalog [OF _ refl, where t = "\<lparr>tbl_name = ustr ''SG_FUNKTIONEN'', tbl_columns = ?cols,
      tbl_rows = [map ustr [''ITMOT'', ''0x4BC3'', ''STAT_T'', ''-'', ''degC'', ''unsigned int'',
               ''-'', ''-'', ''-'', ''12'', ''22;2C'']]\<rparr>"] this
  show ?thesis by (simp add: Let_def)
qed

end
