(* ===== verification/Sem_Snapshot.thy ===== *)
theory Sem_Snapshot
  imports Sem_Measurement "HOL-Library.Sublist"
begin

text \<open>
  Freeze-frame decoding, \<open>crates/semantic/src/snapshot.rs\<close>: the definitions an SGBD's tables
  give for the fields of a snapshot and the records of extended data, and the two walks over a
  record region. The labels of the ISTA database are the parameter \<open>labels\<close>, a lookup by
  identifier; \<open>None\<close> is a run without the database.
\<close>

section \<open>Definitions\<close>

definition MAX_EXT_RECORD_LEN :: nat where "MAX_EXT_RECORD_LEN = 64"

datatype repr = Unsigned | Float

record env_cond_def =
  ec_uwnr :: u16
  ec_text_de :: ustring
  ec_unit_sgbd :: ustring
  ec_width :: nat
  ec_repr :: repr
  ec_mul :: f64
  ec_div :: f64
  ec_add :: f64
  ec_sentinel :: "u64 option"

text \<open>The big-endian integer of the bytes; the shift drops what does not fit 64 bits.\<close>

definition be_u64 :: "bytes \<Rightarrow> u64" where
  "be_u64 bs = fold (\<lambda>b acc. push_bit 8 acc OR ucast b) bs 0"

definition decode_value :: "env_cond_def \<Rightarrow> bytes \<Rightarrow> f64 option \<times> bool" where
  "decode_value d raw =
     (case slice_opt raw 0 (ec_width d) of None \<Rightarrow> (None, True)
      | Some bs \<Rightarrow>
          (case ec_repr d of
             Unsigned \<Rightarrow>
               (let i = be_u64 bs; available = (ec_sentinel d \<noteq> Some i) in
                if \<not> available \<or> f64_eq (ec_div d) 0 then (None, available)
                else (Some (linear (f64_of_int (uint i)) (ec_mul d) (ec_div d) (ec_add d)), True))
           | Float \<Rightarrow>
               (if ec_width d \<noteq> 4 \<or> f64_eq (ec_div d) 0 then (None, True)
                else (Some (linear (f64_of_f32 (be32 (bs ! 0) (bs ! 1) (bs ! 2) (bs ! 3)))
                              (ec_mul d) (ec_div d) (ec_add d)), True))))"

text \<open>\<open>str::len\<close> counts bytes: the length of the UTF-8 encoding.\<close>

definition utf8_len :: "ustring \<Rightarrow> nat" where
  "utf8_len t = sum_list (map (\<lambda>c. if c < 0x80 then 1 else if c < 0x800 then 2 else if c < 0x10000 then 3 else 4) t)"

definition resolve_uwtyp :: "ustring \<Rightarrow> (nat \<times> repr \<times> u64 option) option" where
  "resolve_uwtyp uwtyp =
     (let t = trim uwtyp in
      case strip_0x t of
        Some hex \<Rightarrow>
          (if hex = [] \<or> utf8_len hex mod 2 \<noteq> 0 \<or> utf8_len hex > 16 then None
           else map_option (\<lambda>v. (utf8_len hex div 2, Unsigned, Some (word_of_int v)))
                  (parse_int 16 0 (2 ^ 64 - 1) hex))
      | None \<Rightarrow>
          if t = ustr ''unsigned char'' \<or> t = ustr ''u char'' then Some (1, Unsigned, None)
          else if t = ustr ''unsigned int'' \<or> t = ustr ''u int'' then Some (2, Unsigned, None)
          else if t = ustr ''unsigned long'' \<or> t = ustr ''u long'' then Some (4, Unsigned, None)
          else if t = ustr ''motorola float'' then Some (4, Float, None)
          else None)"

record env_columns =
  en_uwnr :: nat
  en_uwtext :: nat
  en_unit :: nat
  en_uwtyp :: nat
  en_mul :: nat
  en_div :: nat
  en_add :: nat

definition resolve_env_columns :: "ustring list \<Rightarrow> env_columns option" where
  "resolve_env_columns columns =
     (case map (column_at columns) [''UWNR'', ''UWTEXT'', ''UW_EINH'', ''UWTYP'', ''MUL'', ''DIV'', ''ADD''] of
        [Some a, Some b, Some c, Some d, Some e, Some f, Some g] \<Rightarrow>
          Some \<lparr>en_uwnr = a, en_uwtext = b, en_unit = c, en_uwtyp = d, en_mul = e, en_div = f, en_add = g\<rparr>
      | _ \<Rightarrow> None)"

definition parse_env_row :: "env_columns \<Rightarrow> ustring list \<Rightarrow> env_cond_def option" where
  "parse_env_row cols row =
     (case Option.bind (nth_opt row (en_uwnr cols)) parse_id of None \<Rightarrow> None
      | Some uwnr \<Rightarrow>
     (case Option.bind (nth_opt row (en_uwtyp cols)) resolve_uwtyp of None \<Rightarrow> None
      | Some (width, repr, sentinel) \<Rightarrow>
     (case Option.bind (nth_opt row (en_mul cols)) (\<lambda>c. parse_factor c (f64_of_int 1)) of None \<Rightarrow> None
      | Some mul \<Rightarrow>
     (case Option.bind (nth_opt row (en_div cols)) (\<lambda>c. parse_factor c (f64_of_int 1)) of None \<Rightarrow> None
      | Some dv \<Rightarrow>
     (case Option.bind (nth_opt row (en_add cols)) (\<lambda>c. parse_factor c 0) of None \<Rightarrow> None
      | Some add \<Rightarrow>
          Some \<lparr>ec_uwnr = uwnr, ec_text_de = cell_or_empty row (en_uwtext cols),
                ec_unit_sgbd = cell_or_empty row (en_unit cols), ec_width = width, ec_repr = repr,
                ec_mul = mul, ec_div = dv, ec_add = add, ec_sentinel = sentinel\<rparr>)))))"

text \<open>The \<open>HashMap\<close> as a map; a later row replaces an earlier one.\<close>

type_synonym snapshot_defs = "u16 \<rightharpoonup> env_cond_def"

definition find_table :: "prg \<Rightarrow> ustring \<Rightarrow> table option" where
  "find_table p name = find (\<lambda>t. eq_ignore_ascii_case (tbl_name t) name) (prg_tables p)"

definition insert_env_rows :: "env_columns \<Rightarrow> ustring list list \<Rightarrow> snapshot_defs \<Rightarrow> snapshot_defs" where
  "insert_env_rows cols rows defs =
     fold (\<lambda>row defs. case parse_env_row cols row of None \<Rightarrow> defs | Some d \<Rightarrow> defs(ec_uwnr d \<mapsto> d)) rows defs"

definition snapshot_defs_from_prg :: "prg \<Rightarrow> snapshot_defs" where
  "snapshot_defs_from_prg p =
     fold (\<lambda>name defs.
        case find_table p name of None \<Rightarrow> defs
        | Some t \<Rightarrow>
            (case resolve_env_columns (tbl_columns t) of None \<Rightarrow> defs
             | Some cols \<Rightarrow> insert_env_rows cols (tbl_rows t) defs))
       [ustr ''FUMWELTTEXTE'', ustr ''DTCSNAPSHOTIDENTIFIER''] Map.empty"

section \<open>Snapshot walk\<close>

record envcond_label =
  el_uwnr :: u32
  el_title_en :: "ustring option"
  el_title_de :: "ustring option"
  el_unit :: "ustring option"
  el_is_status :: bool

record snapshot_field =
  sf_uwnr :: u16
  sf_label :: ustring
  sf_value :: "f64 option"
  sf_unit :: "ustring option"
  sf_available :: bool
  sf_raw :: bytes

record decoded_snapshot =
  ds_fields :: "snapshot_field list"
  ds_undecoded_tail :: "bytes option"

definition non_placeholder :: "ustring \<Rightarrow> ustring option" where
  "non_placeholder s = (let t = trim s in if t \<noteq> [] \<and> t \<noteq> ustr ''-'' then Some t else None)"

definition clean_unit :: "ustring \<Rightarrow> ustring option" where
  "clean_unit s =
     (let t = trim s in if t \<noteq> [] \<and> t \<noteq> ustr ''-'' \<and> t \<noteq> ustr ''0-n'' then Some t else None)"

definition or_else :: "'a option \<Rightarrow> 'a option \<Rightarrow> 'a option" where
  "or_else a b = (case a of None \<Rightarrow> b | Some x \<Rightarrow> Some x)"

type_synonym label_lookup = "(u16 \<Rightarrow> envcond_label option) option"

definition build_field :: "u16 \<Rightarrow> env_cond_def \<Rightarrow> bytes \<Rightarrow> label_lookup \<Rightarrow> snapshot_field" where
  "build_field uwnr d data labels =
     (let db = Option.bind labels (\<lambda>c. c uwnr);
          label = (case or_else (Option.bind db (\<lambda>l. or_else (el_title_en l) (el_title_de l)))
                          (non_placeholder (ec_text_de d)) of
                     Some l \<Rightarrow> l | None \<Rightarrow> ustr ''UW 0x'' @ fmt_hex 4 (unat uwnr));
          unit = or_else (Option.bind db (\<lambda>l. Option.bind (el_unit l) clean_unit)) (clean_unit (ec_unit_sgbd d))
      in case decode_value d data of (val, available) \<Rightarrow>
           \<lparr>sf_uwnr = uwnr, sf_label = label, sf_value = val, sf_unit = unit, sf_available = available,
            sf_raw = data\<rparr>)"

text \<open>
  The walk reads the body from left to right; the model passes the rest of the body where the code
  moves a position. The inner loop returns the fields, the rest, and whether it ran to its end:
  \<open>break 'records\<close> is the \<open>False\<close> that also ends the outer loop, with the position kept.
\<close>

fun walk_ids :: "snapshot_defs \<Rightarrow> label_lookup \<Rightarrow> nat \<Rightarrow> bytes \<Rightarrow> snapshot_field list \<times> bytes \<times> bool" where
  "walk_ids defs labels 0 body = ([], body, True)"
| "walk_ids defs labels (Suc n) body =
     (case slice_opt body 0 2 of None \<Rightarrow> ([], body, False)
      | Some b \<Rightarrow>
          let uwnr = be16 (b ! 0) (b ! 1) in
          (case defs uwnr of None \<Rightarrow> ([], body, False)
           | Some d \<Rightarrow>
          (case slice_opt body 2 (2 + ec_width d) of None \<Rightarrow> ([], body, False)
           | Some data \<Rightarrow>
          (case walk_ids defs labels n (drop (2 + ec_width d) body) of
             (fs, rest, ok) \<Rightarrow> (build_field uwnr d data labels # fs, rest, ok)))))"

lemma walk_ids_length: "walk_ids defs labels n body = (fs, rest, ok) \<Longrightarrow> length rest \<le> length body"
  by (induction n arbitrary: body fs) (auto simp: Let_def split: option.splits prod.splits, fastforce)

function walk_records :: "snapshot_defs \<Rightarrow> label_lookup \<Rightarrow> bytes \<Rightarrow> snapshot_field list \<times> bytes" where
  "walk_records defs labels body =
     (case body of
        num # num_ids # body' \<Rightarrow>
          (case walk_ids defs labels (unat num_ids) body' of
             (fs, rest, ok) \<Rightarrow>
               if ok then (case walk_records defs labels rest of (fs', rest') \<Rightarrow> (fs @ fs', rest'))
               else (fs, rest))
      | _ \<Rightarrow> ([], body))"
  by auto
termination
  by (relation "measure (\<lambda>(defs, labels, body). length body)")
    (auto dest!: walk_ids_length [OF sym] simp: le_imp_less_Suc less_SucI)

declare walk_records.simps [simp del]

definition tail_of :: "bytes \<Rightarrow> bytes option" where
  "tail_of rest = (if rest = [] then None else Some rest)"

definition decode_snapshot :: "snapshot_defs \<Rightarrow> dtc_record_region \<Rightarrow> label_lookup \<Rightarrow> decoded_snapshot" where
  "decode_snapshot defs region labels =
     (case walk_records defs labels (region_body region) of
        (fs, rest) \<Rightarrow> \<lparr>ds_fields = fs, ds_undecoded_tail = tail_of rest\<rparr>)"

section \<open>Extended data\<close>

type_synonym ext_defs = "u8 \<rightharpoonup> (ustring \<times> nat)"

definition parse_hex_u8 :: "ustring \<Rightarrow> u8 option" where
  "parse_hex_u8 s =
     (let t = trim s; hex = (case strip_0x t of Some h \<Rightarrow> h | None \<Rightarrow> t)
      in map_option word_of_int (parse_int 16 0 255 hex))"

definition insert_ext_row :: "nat \<Rightarrow> nat \<Rightarrow> nat \<Rightarrow> ustring list \<Rightarrow> ext_defs \<Rightarrow> ext_defs" where
  "insert_ext_row wert text anz row defs =
     (case parse_hex_u8 (cell_or_empty row wert) of None \<Rightarrow> defs
      | Some rec \<Rightarrow>
     (case parse_int 10 0 (2 ^ 64 - 1) (trim (cell_or_empty row anz)) of None \<Rightarrow> defs
      | Some len \<Rightarrow>
          if len = 0 \<or> len > int MAX_EXT_RECORD_LEN then defs
          else defs(rec \<mapsto> (cell_or_empty row text, nat len))))"

definition ext_defs_from_prg :: "prg \<Rightarrow> ext_defs" where
  "ext_defs_from_prg p =
     (case find_table p (ustr ''DTCEXTENDEDDATARECORDNUMBER'') of None \<Rightarrow> Map.empty
      | Some t \<Rightarrow>
          (case (column_at (tbl_columns t) ''WERT'', column_at (tbl_columns t) ''TEXT'',
                 column_at (tbl_columns t) ''ANZ_BYTE'') of
             (Some wert, Some text, Some anz) \<Rightarrow>
               fold (insert_ext_row wert text anz) (tbl_rows t) Map.empty
           | _ \<Rightarrow> Map.empty))"

record ext_data_field =
  xf_record :: u8
  xf_label :: ustring
  xf_value :: "int option"
  xf_raw :: bytes

record decoded_ext_data =
  dx_records :: "ext_data_field list"
  dx_undecoded_tail :: "bytes option"

text \<open>\<open>i64::try_from\<close> of the big-endian value of at most eight bytes.\<close>

definition ext_value :: "bytes \<Rightarrow> int option" where
  "ext_value data =
     (if length data \<le> 8 \<and> uint (be_u64 data) < 2 ^ 63 then Some (uint (be_u64 data)) else None)"

function walk_ext :: "ext_defs \<Rightarrow> bytes \<Rightarrow> ext_data_field list \<times> bytes" where
  "walk_ext defs body =
     (case body of [] \<Rightarrow> ([], body)
      | rec # _ \<Rightarrow>
     (case defs rec of None \<Rightarrow> ([], body)
      | Some (name, len) \<Rightarrow>
     (case slice_opt body 1 (1 + len) of None \<Rightarrow> ([], body)
      | Some data \<Rightarrow>
     (case walk_ext defs (drop (1 + len) body) of
        (rs, rest) \<Rightarrow>
          (\<lparr>xf_record = rec, xf_label = name, xf_value = ext_value data, xf_raw = data\<rparr> # rs, rest)))))"
  by auto
termination
  by (relation "measure (\<lambda>(defs, body). length body)") auto

declare walk_ext.simps [simp del]

definition decode_ext_data :: "ext_defs \<Rightarrow> dtc_record_region \<Rightarrow> decoded_ext_data" where
  "decode_ext_data defs region =
     (case walk_ext defs (region_body region) of
        (rs, rest) \<Rightarrow> \<lparr>dx_records = rs, dx_undecoded_tail = tail_of rest\<rparr>)"

record freeze_frame_defs =
  ff_snapshot :: snapshot_defs
  ff_extended :: ext_defs

definition freeze_frame_from_prg :: "prg \<Rightarrow> freeze_frame_defs" where
  "freeze_frame_from_prg p = \<lparr>ff_snapshot = snapshot_defs_from_prg p, ff_extended = ext_defs_from_prg p\<rparr>"

section \<open>The walks\<close>

text \<open>The layout the snapshot walk expects: one record of identifier-keyed fields.\<close>

type_synonym snapshot_record = "u8 \<times> (u16 \<times> bytes) list"

definition field_bytes :: "u16 \<times> bytes \<Rightarrow> bytes" where
  "field_bytes f = be16_bytes (fst f) @ snd f"

definition record_bytes :: "snapshot_record \<Rightarrow> bytes" where
  "record_bytes r = fst r # word_of_nat (length (snd r)) # concat (map field_bytes (snd r))"

definition field_known :: "snapshot_defs \<Rightarrow> u16 \<times> bytes \<Rightarrow> bool" where
  "field_known defs f \<longleftrightarrow> (case defs (fst f) of None \<Rightarrow> False | Some d \<Rightarrow> length (snd f) = ec_width d)"

definition record_known :: "snapshot_defs \<Rightarrow> snapshot_record \<Rightarrow> bool" where
  "record_known defs r \<longleftrightarrow> length (snd r) < 256 \<and> list_all (field_known defs) (snd r)"

definition fields_of :: "snapshot_defs \<Rightarrow> label_lookup \<Rightarrow> snapshot_record list \<Rightarrow> snapshot_field list" where
  "fields_of defs labels recs =
     map (\<lambda>(u, data). build_field u (the (defs u)) data labels) (concat (map snd recs))"

lemma be16_bytes_split: obtains hi lo where "be16_bytes u = [hi, lo]" "u = be16 hi lo"
  by (rule that [of "ucast (drop_bit 8 u)" "ucast u"]) (simp_all add: be16_bytes_def)

lemma walk_ids_step:
  assumes "defs u = Some d" "length data = ec_width d"
  shows "walk_ids defs labels (Suc n) (be16_bytes u @ data @ rest) =
    (case walk_ids defs labels n rest of (fs, r, ok) \<Rightarrow> (build_field u d data labels # fs, r, ok))"
proof -
  obtain hi lo where u: "be16_bytes u = [hi, lo]" "u = be16 hi lo" by (rule be16_bytes_split)
  show ?thesis using assms by (simp add: u slice_opt_def)
qed

lemma walk_ids_cases:
  assumes "walk_ids defs labels (Suc n) body = (fs, r, ok)"
  obtains (stop) "fs = []" "r = body" "\<not> ok"
    | (step) u d data rest fs' where "defs u = Some d" "length data = ec_width d"
        "body = be16_bytes u @ data @ rest" "fs = build_field u d data labels # fs'"
        "walk_ids defs labels n rest = (fs', r, ok)"
proof (cases "\<exists>u d data rest. defs u = Some d \<and> length data = ec_width d \<and> body = be16_bytes u @ data @ rest")
  case True
  then obtain u d data rest where d: "defs u = Some d" "length data = ec_width d"
    and body: "body = be16_bytes u @ data @ rest" by blast
  obtain fs' r' ok' where w: "walk_ids defs labels n rest = (fs', r', ok')" by (metis prod.exhaust)
  from assms w show ?thesis
    unfolding body walk_ids_step [where defs = defs and u = u, OF d] by (intro step [OF d body]) simp_all
next
  case False
  have "fs = [] \<and> r = body \<and> \<not> ok"
  proof (cases "slice_opt body 0 2")
    case None
    with assms show ?thesis by simp
  next
    case (Some b)
    then obtain hi lo xs where body: "body = hi # lo # xs"
      by (cases body; cases "tl body") (auto simp: slice_opt_def split: if_splits)
    have "\<not> (defs (be16 hi lo) = Some d \<and> ec_width d \<le> length xs)" for d
      using False [unfolded not_ex, THEN spec [of _ "be16 hi lo"], THEN spec [of _ d],
          THEN spec [of _ "take (ec_width d) xs"], THEN spec [of _ "drop (ec_width d) xs"]]
      by (auto simp: body)
    with assms show ?thesis
      by (auto simp: body slice_opt_def Let_def split: option.splits if_splits prod.splits)
  qed
  then show ?thesis using stop by blast
qed

lemma walk_ids_fields:
  "list_all (field_known defs) fs \<Longrightarrow>
   walk_ids defs labels (length fs) (concat (map field_bytes fs) @ rest) =
     (map (\<lambda>(u, data). build_field u (the (defs u)) data labels) fs, rest, True)"
proof (induction fs)
  case (Cons f fs)
  obtain u data where f: "f = (u, data)" by (cases f)
  from Cons.prems f obtain d where d: "defs u = Some d" "length data = ec_width d"
    by (auto simp: field_known_def split: option.splits)
  have "concat (map field_bytes (f # fs)) @ rest = be16_bytes u @ data @ (concat (map field_bytes fs) @ rest)"
    by (simp add: f field_bytes_def)
  with Cons d show ?case by (simp only: list.size add_Suc_right add_0_right walk_ids_step [where defs = defs and u = u, OF d]) (simp add: f)
qed simp

lemma walk_records_append:
  "list_all (record_known defs) recs \<Longrightarrow>
   walk_records defs labels (concat (map record_bytes recs) @ rest) =
     (fields_of defs labels recs @ fst (walk_records defs labels rest), snd (walk_records defs labels rest))"
proof (induction recs)
  case Nil
  then show ?case by (simp add: fields_of_def)
next
  case (Cons r recs)
  obtain n fs where r: "r = (n, fs)" by (cases r)
  from Cons.prems r have fs: "length fs < 256" "list_all (field_known defs) fs"
    by (simp_all add: record_known_def)
  have len: "unat (word_of_nat (length fs) :: u8) = length fs"
    using fs(1) by (simp add: unat_of_nat)
  have "concat (map record_bytes (r # recs)) @ rest =
      n # word_of_nat (length fs) # concat (map field_bytes fs) @ (concat (map record_bytes recs) @ rest)"
    by (simp add: r record_bytes_def)
  with Cons show ?case
    by (simp add: walk_records.simps [of defs labels "n # _"] len walk_ids_fields [OF fs(2)] fields_of_def r)
qed

text \<open>
  C31. A snapshot region that is a sequence of records whose fields all have definitions of their
  width decodes to exactly those fields, in order, with nothing left; and whatever follows such a
  sequence, the walk first yields those fields and continues behind them.
\<close>
theorem snapshot_roundtrip:
  assumes "list_all (record_known defs) recs" and "region_body region = concat (map record_bytes recs)"
  shows "decode_snapshot defs region labels =
      \<lparr>ds_fields = fields_of defs labels recs, ds_undecoded_tail = None\<rparr>
    \<and> walk_records defs labels (region_body region @ rest) =
        (fields_of defs labels recs @ fst (walk_records defs labels rest), snd (walk_records defs labels rest))"
  using walk_records_append [OF assms(1), of labels "[]"] walk_records_append [OF assms(1), of labels rest] assms(2)
  by (simp add: decode_snapshot_def walk_records.simps [of defs labels "[]"] tail_of_def)

text \<open>What is true of a walk over any bytes.\<close>

definition field_sound :: "snapshot_defs \<Rightarrow> label_lookup \<Rightarrow> bytes \<Rightarrow> snapshot_field \<Rightarrow> bool" where
  "field_sound defs labels body f \<longleftrightarrow>
     (case defs (sf_uwnr f) of None \<Rightarrow> False
      | Some d \<Rightarrow> f = build_field (sf_uwnr f) d (sf_raw f) labels \<and> length (sf_raw f) = ec_width d
                  \<and> sublist (be16_bytes (sf_uwnr f) @ sf_raw f) body)"

lemma build_field_ids [simp]:
  "sf_uwnr (build_field u d data labels) = u" "sf_raw (build_field u d data labels) = data"
  by (simp_all add: build_field_def Let_def split: prod.split)

lemma field_sound_mono: "field_sound defs labels body f \<Longrightarrow> sublist body body' \<Longrightarrow> field_sound defs labels body' f"
  by (auto simp: field_sound_def split: option.splits intro: sublist_order.order_trans)

lemma walk_ids_sound:
  "walk_ids defs labels n body = (fs, rest, ok) \<Longrightarrow> suffix rest body \<and> list_all (field_sound defs labels body) fs"
proof (induction n arbitrary: body fs)
  case (Suc n)
  from Suc.prems show ?case
  proof (cases rule: walk_ids_cases)
    case (step u d data tl' fs')
    have here: "sublist (be16_bytes u @ data) body"
      unfolding step(3) by (metis append.assoc sublist_append_rightI)
    have sub: "sublist tl' body" "suffix tl' body"
      unfolding step(3) by (metis append.assoc sublist_append_leftI, metis append.assoc suffixI)
    from Suc.IH [OF step(5)] have "suffix rest tl'" "list_all (field_sound defs labels tl') fs'" by simp_all
    then show ?thesis
      using step(1,2,4) here sub field_sound_mono [OF _ sub(1)]
      by (auto simp: list_all_iff field_sound_def [of _ _ _ "build_field u d data labels"]
          intro: suffix_order.order_trans)
  qed simp
qed simp

lemma walk_records_sound:
  "walk_records defs labels body = (fs, rest) \<Longrightarrow> suffix rest body \<and> list_all (field_sound defs labels body) fs"
proof (induction defs labels body arbitrary: fs rest rule: walk_records.induct)
  case (1 defs labels body)
  show ?case
  proof (cases "\<exists>n k xs. body = n # k # xs")
    case True
    then obtain n k xs where body: "body = n # k # xs" by blast
    obtain gs r ok where w: "walk_ids defs labels (unat k) xs = (gs, r, ok)" by (metis prod.exhaust)
    note ids = walk_ids_sound [OF w]
    have sub: "sublist xs body" "suffix xs body" by (simp_all add: body suffix_def)
    show ?thesis
    proof (cases ok)
      case False
      then have "fs = gs" "rest = r"
        using "1.prems" w by (simp_all add: body walk_records.simps [of defs labels "n # k # xs"])
      with ids sub show ?thesis
        by (auto simp: list_all_iff intro: suffix_order.order_trans field_sound_mono)
    next
      case True
      obtain hs r' where h: "walk_records defs labels r = (hs, r')" by (metis prod.exhaust)
      have "suffix r' r \<and> list_all (field_sound defs labels r) hs"
        using "1.IH" [OF body refl w [symmetric] refl True h] by simp
      moreover have "sublist r body" "suffix r body"
        using ids sub by (auto intro: sublist_order.order_trans suffix_imp_sublist suffix_order.order_trans)
      moreover have "fs = gs @ hs" "rest = r'"
        using "1.prems" w True h by (simp_all add: body walk_records.simps [of defs labels "n # k # xs"])
      ultimately show ?thesis
        using ids sub by (auto simp: list_all_iff intro: suffix_order.order_trans field_sound_mono)
    qed
  next
    case False
    with "1.prems" show ?thesis
      by (auto simp: walk_records.simps [of defs labels body] split: list.splits)
  qed
qed


text \<open>The records the extended-data walk returns, as their bytes.\<close>

definition ext_bytes :: "ext_data_field \<Rightarrow> bytes" where
  "ext_bytes r = xf_record r # xf_raw r"

definition ext_known :: "ext_defs \<Rightarrow> ext_data_field \<Rightarrow> bool" where
  "ext_known defs r \<longleftrightarrow>
     defs (xf_record r) = Some (xf_label r, length (xf_raw r)) \<and> xf_value r = ext_value (xf_raw r)"

text \<open>Why the walk stopped: the end, an unknown record number, or too few bytes.\<close>

definition ext_stuck :: "ext_defs \<Rightarrow> bytes \<Rightarrow> bool" where
  "ext_stuck defs rest \<longleftrightarrow>
     (case rest of [] \<Rightarrow> True
      | rec # xs \<Rightarrow> (case defs rec of None \<Rightarrow> True | Some (_, len) \<Rightarrow> length xs < len))"

lemma walk_ext_stuck: "ext_stuck defs body \<Longrightarrow> walk_ext defs body = ([], body)"
  by (auto simp: walk_ext.simps [of defs body] ext_stuck_def slice_opt_def split: list.split option.splits)

lemma walk_ext_step:
  "ext_known defs r \<Longrightarrow> walk_ext defs (ext_bytes r @ rest) =
     (case walk_ext defs rest of (rs, rest') \<Rightarrow> (r # rs, rest'))"
  by (subst walk_ext.simps) (simp add: ext_known_def ext_bytes_def slice_opt_def split: prod.split)

lemma walk_ext_shape:
  "walk_ext defs body = (rs, rest) \<Longrightarrow>
   body = concat (map ext_bytes rs) @ rest \<and> list_all (ext_known defs) rs \<and> ext_stuck defs rest"
proof (induction defs body arbitrary: rs rest rule: walk_ext.induct)
  case (1 defs body)
  show ?case
  proof (cases "ext_stuck defs body")
    case True
    with "1.prems" show ?thesis by (simp add: walk_ext_stuck)
  next
    case False
    then obtain rec xs name len where body: "body = rec # xs" "defs rec = Some (name, len)" "len \<le> length xs"
      by (auto simp: ext_stuck_def not_less split: list.splits option.splits)
    have s: "slice_opt body 1 (1 + len) = Some (take len xs)" using body by (simp add: slice_opt_def)
    obtain rs' r' where w: "walk_ext defs (drop (1 + len) body) = (rs', r')" by (metis prod.exhaust)
    let ?r = "\<lparr>xf_record = rec, xf_label = name, xf_value = ext_value (take len xs), xf_raw = take len xs\<rparr>"
    have k: "ext_known defs ?r" using body by (simp add: ext_known_def min_def)
    have b: "body = ext_bytes ?r @ drop (1 + len) body" using body by (simp add: ext_bytes_def)
    have "rs = ?r # rs' \<and> rest = r'"
      using "1.prems" walk_ext_step [OF k, of "drop (1 + len) body"] w b by simp
    moreover have IH: "drop (1 + len) body = concat (map ext_bytes rs') @ r'"
      "list_all (ext_known defs) rs'" "ext_stuck defs r'"
      using "1.IH" [OF body(1,2) refl s w] by simp_all
    have "body = ext_bytes ?r @ concat (map ext_bytes rs') @ r'"
      using b unfolding IH(1) .
    ultimately show ?thesis using k IH(2,3) by simp
  qed
qed

text \<open>
  Extended data is decoded exactly: the result is the one way to read the region as records of
  known number and length, followed by a tail that is empty, starts with an unknown record number,
  or is too short for its record.
\<close>
theorem ext_data_exact:
  "decode_ext_data defs region = \<lparr>dx_records = rs, dx_undecoded_tail = tail_of rest\<rparr> \<longleftrightarrow>
     region_body region = concat (map ext_bytes rs) @ rest \<and> list_all (ext_known defs) rs \<and> ext_stuck defs rest"
proof
  obtain rs' rest' where w: "walk_ext defs (region_body region) = (rs', rest')" by (metis prod.exhaust)
  assume "decode_ext_data defs region = \<lparr>dx_records = rs, dx_undecoded_tail = tail_of rest\<rparr>"
  then have "rs' = rs" "rest' = rest"
    using w by (auto simp: decode_ext_data_def tail_of_def split: if_splits)
  with walk_ext_shape [OF w] show "region_body region = concat (map ext_bytes rs) @ rest
      \<and> list_all (ext_known defs) rs \<and> ext_stuck defs rest"
    by simp
next
  have "list_all (ext_known defs) rs \<Longrightarrow> ext_stuck defs rest \<Longrightarrow>
      walk_ext defs (concat (map ext_bytes rs) @ rest) = (rs, rest)"
    by (induction rs) (simp_all add: walk_ext_stuck walk_ext_step)
  moreover assume "region_body region = concat (map ext_bytes rs) @ rest \<and> list_all (ext_known defs) rs \<and> ext_stuck defs rest"
  ultimately show "decode_ext_data defs region = \<lparr>dx_records = rs, dx_undecoded_tail = tail_of rest\<rparr>"
    by (simp add: decode_ext_data_def)
qed

theorem snapshot_roundtrip_witness:
  "let d = \<lparr>ec_uwnr = 0x1700, ec_text_de = ustr ''km'', ec_unit_sgbd = ustr ''km'', ec_width = 1,
            ec_repr = Unsigned, ec_mul = 0, ec_div = 0, ec_add = 0, ec_sentinel = Some 0xFF\<rparr>
   in ds_fields (decode_snapshot [0x1700 \<mapsto> d]
        \<lparr>region_dtc = (0, 0, 1), region_status = 8, region_body = [1, 1, 0x17, 0x00, 0xFF]\<rparr> None)
      = [build_field 0x1700 d [0xFF] None]"
proof -
  let ?d = "\<lparr>ec_uwnr = 0x1700, ec_text_de = ustr ''km'', ec_unit_sgbd = ustr ''km'', ec_width = 1,
            ec_repr = Unsigned, ec_mul = 0, ec_div = 0, ec_add = 0, ec_sentinel = Some 0xFF\<rparr>"
  have "[1, 1, 0x17, 0x00, 0xFF] = concat (map record_bytes [(1, [(0x1700, [0xFF])])])"
    by (simp add: record_bytes_def field_bytes_def be16_bytes_def)
  moreover have "list_all (record_known [0x1700 \<mapsto> ?d]) [(1, [(0x1700, [0xFF])])]"
    by (simp add: record_known_def field_known_def)
  ultimately show ?thesis
    using snapshot_roundtrip [of "[0x1700 \<mapsto> ?d]" "[(1, [(0x1700, [0xFF])])]"
        "\<lparr>region_dtc = (0, 0, 1), region_status = 8, region_body = [1, 1, 0x17, 0x00, 0xFF]\<rparr>" None "[]"]
    by (simp add: fields_of_def)
qed

end
