(* ===== verification/Sem_Names.thy ===== *)
theory Sem_Names
  imports Sem_Measurement
begin

text \<open>
  The naming and scaling of standard data: \<open>pid.rs\<close> (the OBD-II PIDs), \<open>did.rs\<close> (standard
  identifiers), \<open>dtc.rs\<close> (status flags, code numbers), \<open>identity.rs\<close> (ECU names, vehicle order)
  and what \<open>catalog.rs\<close> computes from the rows of its queries. The SQLite queries themselves are
  outside the model: their rows are arguments.
\<close>

section \<open>Standard PIDs\<close>

record pid_def =
  pd_pid :: u8
  pd_name :: ustring
  pd_unit :: ustring
  pd_bytes :: nat

record scaled_pid =
  sp_name :: ustring
  sp_value :: f64
  sp_unit :: ustring

definition pid_for_did :: "u16 \<Rightarrow> u8 option" where
  "pid_for_did did = (if 0xF400 \<le> did \<and> did \<le> 0xF4FF then Some (ucast did) else None)"

definition DEGREE :: ustring where "DEGREE = [0xB0]"

definition PIDS :: "pid_def list" where
  "PIDS =
     [\<lparr>pd_pid = 0x04, pd_name = ustr ''Calculated engine load'', pd_unit = ustr ''%'', pd_bytes = 1\<rparr>,
      \<lparr>pd_pid = 0x05, pd_name = ustr ''Engine coolant temperature'', pd_unit = DEGREE @ ustr ''C'', pd_bytes = 1\<rparr>,
      \<lparr>pd_pid = 0x0C, pd_name = ustr ''Engine RPM'', pd_unit = ustr ''rpm'', pd_bytes = 2\<rparr>,
      \<lparr>pd_pid = 0x0D, pd_name = ustr ''Vehicle speed'', pd_unit = ustr ''km/h'', pd_bytes = 1\<rparr>,
      \<lparr>pd_pid = 0x0E, pd_name = ustr ''Timing advance'', pd_unit = DEGREE, pd_bytes = 1\<rparr>,
      \<lparr>pd_pid = 0x0F, pd_name = ustr ''Intake air temperature'', pd_unit = DEGREE @ ustr ''C'', pd_bytes = 1\<rparr>,
      \<lparr>pd_pid = 0x10, pd_name = ustr ''MAF air flow rate'', pd_unit = ustr ''g/s'', pd_bytes = 2\<rparr>,
      \<lparr>pd_pid = 0x11, pd_name = ustr ''Throttle position'', pd_unit = ustr ''%'', pd_bytes = 1\<rparr>,
      \<lparr>pd_pid = 0x23, pd_name = ustr ''Fuel rail gauge pressure'', pd_unit = ustr ''kPa'', pd_bytes = 2\<rparr>,
      \<lparr>pd_pid = 0x46, pd_name = ustr ''Ambient air temperature'', pd_unit = DEGREE @ ustr ''C'', pd_bytes = 1\<rparr>]"

text \<open>The formulas of the table, by PID; \<open>a\<close> and \<open>b\<close> are the first two data bytes as numbers.\<close>

definition pid_formula :: "u8 \<Rightarrow> bytes \<Rightarrow> f64" where
  "pid_formula pid d =
     (let n = f64_of_int; a = n (uint (d ! 0)); ab = f64_add (f64_mul (n 256) a) (n (uint (d ! 1))) in
      if pid = 0x04 \<or> pid = 0x11 then f64_div (f64_mul a (n 100)) (n 255)
      else if pid = 0x05 \<or> pid = 0x0F \<or> pid = 0x46 then f64_sub a (n 40)
      else if pid = 0x0C then f64_div ab (n 4)
      else if pid = 0x0E then f64_sub (f64_div a (n 2)) (n 64)
      else if pid = 0x10 then f64_div ab (n 100)
      else if pid = 0x23 then f64_mul ab (n 10)
      else a)"

definition pid_scale :: "u8 \<Rightarrow> bytes \<Rightarrow> scaled_pid option" where
  "pid_scale pid data =
     (case find (\<lambda>p. pd_pid p = pid) PIDS of None \<Rightarrow> None
      | Some p \<Rightarrow>
          if length data < pd_bytes p then None
          else Some \<lparr>sp_name = pd_name p, sp_value = pid_formula pid data, sp_unit = pd_unit p\<rparr>)"

section \<open>Data identifiers\<close>

definition STANDARD_NAMES :: "(u16 \<times> ustring) list" where
  "STANDARD_NAMES =
     [(0xF180, ustr ''bootSoftwareIdentification''), (0xF181, ustr ''applicationSoftwareIdentification''),
      (0xF182, ustr ''applicationDataIdentification''), (0xF187, ustr ''vehicleManufacturerSparePartNumber''),
      (0xF188, ustr ''vehicleManufacturerECUSoftwareNumber''),
      (0xF189, ustr ''vehicleManufacturerECUSoftwareVersionNumber''),
      (0xF18A, ustr ''systemSupplierIdentifier''), (0xF18C, ustr ''ECUSerialNumber''), (0xF190, ustr ''VIN''),
      (0xF191, ustr ''vehicleManufacturerECUHardwareNumber''),
      (0xF192, ustr ''systemSupplierECUHardwareNumber''),
      (0xF193, ustr ''systemSupplierECUHardwareVersionNumber''),
      (0xF194, ustr ''systemSupplierECUSoftwareNumber''),
      (0xF195, ustr ''systemSupplierECUSoftwareVersionNumber''), (0xF197, ustr ''systemName''),
      (0xF19E, ustr ''ASAMODXFileIdentifier''), (0x172A, ustr ''IPConfiguration''),
      (0xFF00, ustr ''UDSVersionDataIdentifier'')]"

definition standard_name :: "u16 \<Rightarrow> ustring option" where
  "standard_name did = map_of STANDARD_NAMES did"

text \<open>\<open>char::is_control\<close>: the Unicode category \<open>Cc\<close>.\<close>

definition is_control :: "nat \<Rightarrow> bool" where
  "is_control c \<longleftrightarrow> c < 0x20 \<or> (0x7F \<le> c \<and> c \<le> 0x9F)"

record decoded_did =
  dd_did :: u16
  dd_name :: "ustring option"
  dd_raw :: bytes
  dd_text :: "ustring option"
  dd_scaled :: "scaled_pid option"

definition decode_did :: "u16 \<Rightarrow> bytes \<Rightarrow> decoded_did" where
  "decode_did did raw =
     (case Option.bind (pid_for_did did) (\<lambda>p. pid_scale p raw) of
        Some scaled \<Rightarrow>
          \<lparr>dd_did = did, dd_name = Some (sp_name scaled), dd_raw = raw, dd_text = None, dd_scaled = Some scaled\<rparr>
      | None \<Rightarrow>
          \<lparr>dd_did = did, dd_name = standard_name did, dd_raw = raw,
           dd_text = (case from_utf8 raw of None \<Rightarrow> None
                      | Some t \<Rightarrow> if t \<noteq> [] \<and> list_all (\<lambda>c. \<not> is_control c) t then Some t else None),
           dd_scaled = None\<rparr>)"

section \<open>Trouble codes\<close>

definition code_number :: "code3 \<Rightarrow> u32" where
  "code_number code =
     (case code of (a, b, c) \<Rightarrow> push_bit 16 (ucast a) OR push_bit 8 (ucast b) OR ucast c)"

definition STATUS_FLAGS :: "(u8 \<times> ustring) list" where
  "STATUS_FLAGS =
     [(0x01, ustr ''testFailed''), (0x02, ustr ''testFailedThisOperationCycle''), (0x04, ustr ''pendingDTC''),
      (0x08, ustr ''confirmedDTC''), (0x10, ustr ''testNotCompletedSinceLastClear''),
      (0x20, ustr ''testFailedSinceLastClear''), (0x40, ustr ''testNotCompletedThisOperationCycle''),
      (0x80, ustr ''warningIndicatorRequested'')]"

definition status_flags :: "u8 \<Rightarrow> ustring list" where
  "status_flags st = map snd (filter (\<lambda>(m, _). st AND m \<noteq> 0) STATUS_FLAGS)"

section \<open>The ECU map\<close>

record ecu_slot =
  es_address :: u8
  es_group_name :: ustring
  es_extra_groups :: "ustring list"
  es_title :: "ustring option"

text \<open>One row of the query: address, group name, and the preferred title.\<close>

type_synonym ecu_row = "u8 \<times> ustring \<times> ustring option"

definition add_ecu_row :: "ecu_row \<Rightarrow> ecu_slot list \<Rightarrow> ecu_slot list" where
  "add_ecu_row row slots =
     (case row of (address, group_name, title) \<Rightarrow>
        (case position (\<lambda>s. es_address s = address) slots of
           Some i \<Rightarrow>
             slots[i := (slots ! i)\<lparr>es_extra_groups := es_extra_groups (slots ! i) @ [group_name],
                es_title := (if es_title (slots ! i) = None then title else es_title (slots ! i))\<rparr>]
         | None \<Rightarrow>
             slots @ [\<lparr>es_address = address, es_group_name = group_name, es_extra_groups = [], es_title = title\<rparr>]))"

definition canonical_group :: "u8 \<Rightarrow> ustring" where
  "canonical_group address = ustr ''d_'' @ map ascii_lower (fmt_hex 4 (unat address))"

definition remove_at :: "nat \<Rightarrow> 'a list \<Rightarrow> 'a list" where
  "remove_at i xs = take i xs @ drop (Suc i) xs"

definition promote_canonical :: "ecu_slot \<Rightarrow> ecu_slot" where
  "promote_canonical s =
     (let canonical = canonical_group (es_address s) in
      if es_group_name s = canonical then s
      else (case position (\<lambda>g. g = canonical) (es_extra_groups s) of None \<Rightarrow> s
        | Some i \<Rightarrow>
            s\<lparr>es_extra_groups := remove_at i (es_extra_groups s) @ [es_group_name s],
              es_group_name := es_extra_groups s ! i\<rparr>))"

definition ecu_slots :: "ecu_row list \<Rightarrow> ecu_slot list" where
  "ecu_slots rows = map promote_canonical (fold add_ecu_row rows [])"

record named_ecu =
  ne_address :: u8
  ne_name :: "ustring option"
  ne_title :: "ustring option"

definition name_ecu_list :: "ecu_slot list option \<Rightarrow> u8 list \<Rightarrow> named_ecu list" where
  "name_ecu_list catalog addresses =
     (let slots = (case catalog of None \<Rightarrow> [] | Some s \<Rightarrow> s) in
      map (\<lambda>address.
             let slot = find (\<lambda>s. es_address s = address) slots in
             \<lparr>ne_address = address, ne_name = map_option es_group_name slot,
              ne_title = Option.bind slot es_title\<rparr>) addresses)"

section \<open>The vehicle order\<close>

record vehicle_order =
  vo_version :: "u16 option"
  vo_baureihe :: "ustring option"
  vo_typ_schluessel :: "ustring option"
  vo_lackcode :: "ustring option"
  vo_polstercode :: "ustring option"
  vo_build_date :: "ustring option"
  vo_options :: "ustring list"
  vo_raw :: bytes

definition FA_VERSION_OFFSET :: nat where "FA_VERSION_OFFSET = 5"

definition decode_vehicle_order :: "bytes \<Rightarrow> vehicle_order" where
  "decode_vehicle_order region =
     \<lparr>vo_version = map_option ucast (nth_opt region FA_VERSION_OFFSET), vo_baureihe = None,
      vo_typ_schluessel = None, vo_lackcode = None, vo_polstercode = None, vo_build_date = None,
      vo_options = [], vo_raw = region\<rparr>"

section \<open>The bordnet series\<close>

text \<open>One candidate of the inner loop: the plain match so far and the best dated one.\<close>

definition series_candidate ::
    "ustring \<Rightarrow> nat \<Rightarrow> ustring \<Rightarrow> ustring option \<times> (nat \<times> ustring) option \<Rightarrow> ustring option \<times> (nat \<times> ustring) option" where
  "series_candidate base build candidate st =
     (case st of (plain, best) \<Rightarrow>
        let upper = map ascii_upper candidate in
        if upper = base then (Some candidate, best)
        else (case Option.bind (strip_prefix (base @ ustr ''_'') upper) (parse_int 10 0 (2 ^ 32 - 1)) of
                None \<Rightarrow> (plain, best)
              | Some d \<Rightarrow>
                  let date = nat d in
                  if date \<le> build \<and> (case best of None \<Rightarrow> True | Some (d', _) \<Rightarrow> date > d')
                  then (plain, Some (date, candidate)) else (plain, best)))"

definition series_for_base :: "ustring \<Rightarrow> nat \<Rightarrow> ustring list \<Rightarrow> ustring option" where
  "series_for_base base build known =
     (case fold (series_candidate base build) known (None, None) of
        (_, Some (_, dated)) \<Rightarrow> Some dated
      | (plain, None) \<Rightarrow> plain)"

definition drop_padding :: "ustring \<Rightarrow> ustring" where
  "drop_padding series =
     (case series of
        letter # z # rest \<Rightarrow> if letter < 0x80 \<and> z = 0x30 \<and> rest \<noteq> [] then letter # rest else series
      | _ \<Rightarrow> series)"

text \<open>
  The date \<open>yy * 100 + mm\<close> is computed in \<open>u32\<close>; when it does not fit, a build with overflow checks
  panics, which is \<open>None\<close>.
\<close>

definition bordnet_series_for :: "ustring \<Rightarrow> ustring list \<Rightarrow> ustring option option" where
  "bordnet_series_for istufe known =
     (case split_on (\<lambda>c. c = of_char CHR ''-'') istufe of
        s # y # m # _ \<Rightarrow>
          (case (parse_int 10 0 (2 ^ 32 - 1) (trim y), parse_int 10 0 (2 ^ 32 - 1) (trim m)) of
             (Some yy, Some mm) \<Rightarrow>
               if yy * 100 + mm \<ge> 2 ^ 32 then None
               else let series = map ascii_upper (trim s); build = nat (yy * 100 + mm) in
                 Some (case series_for_base series build known of
                         Some r \<Rightarrow> Some r
                       | None \<Rightarrow> series_for_base (drop_padding series) build known)
           | _ \<Rightarrow> Some None)
      | _ \<Rightarrow> Some None)"

text \<open>A year the code can parse but not multiply.\<close>

lemma bordnet_date_overflows: "bordnet_series_for (ustr ''F-99999999-1'') [] = None"
proof -
  have "split_on (\<lambda>c. c = of_char CHR ''-'') (ustr ''F-99999999-1'')
      = [ustr ''F'', ustr ''99999999'', ustr ''1'']"
    by (simp add: ustr_def)
  moreover have "parse_int 10 0 (2 ^ 32 - 1) (trim (ustr ''99999999'')) = Some 99999999"
    by (simp add: ustr_def parse_int_def trim_def trim_start_def trim_end_def to_digit_def is_whitespace_def)
  moreover have "parse_int 10 0 (2 ^ 32 - 1) (trim (ustr ''1'')) = Some 1"
    by (simp add: ustr_def parse_int_def trim_def trim_start_def trim_end_def to_digit_def is_whitespace_def)
  ultimately show ?thesis
    by (simp add: bordnet_series_for_def)
qed

end
