(* ===== verification/Sem_Service.thy ===== *)
theory Sem_Service
  imports Sem_Measurement
begin

text \<open>
  The control functions of \<open>crates/semantic/src/service_function.rs\<close>: the catalog an SGBD's
  control tables and jobs give, with the risk of each entry and the request derived for it, and
  the CBS frames. The explanations of entries without a request and the citations of the others
  are kept as which one it is.
\<close>

section \<open>Entries\<close>

datatype risk = Low | High

datatype category = CbsReset | LearnedValueReset | StatisticReset | ActuatorControl | Calibration

fun category_risk :: "category \<Rightarrow> risk" where
  "category_risk CbsReset = Low"
| "category_risk LearnedValueReset = Low"
| "category_risk StatisticReset = Low"
| "category_risk ActuatorControl = High"
| "category_risk Calibration = High"

datatype not_derivable_reason = LERNWERTE_REASON | STELLER_REASON | CALIBRATION_REASON | CbsIdTooWide

datatype derivation =
    Derived bytes ustring                   \<comment> \<open>request, the job cited\<close>
  | NotDerivable not_derivable_reason

definition is_derived :: "derivation \<Rightarrow> bool" where
  "is_derived d = (case d of Derived _ _ \<Rightarrow> True | NotDerivable _ \<Rightarrow> False)"

definition derivation_request :: "derivation \<Rightarrow> bytes option" where
  "derivation_request d = (case d of Derived r _ \<Rightarrow> Some r | NotDerivable _ \<Rightarrow> None)"

definition derivation_citation :: "derivation \<Rightarrow> ustring option" where
  "derivation_citation d = (case d of Derived _ c \<Rightarrow> Some c | NotDerivable _ \<Rightarrow> None)"

definition derivation_reason :: "derivation \<Rightarrow> not_derivable_reason option" where
  "derivation_reason d = (case d of Derived _ _ \<Rightarrow> None | NotDerivable r \<Rightarrow> Some r)"

definition derivation_status :: "derivation \<Rightarrow> ustring" where
  "derivation_status d =
     (case d of Derived _ _ \<Rightarrow> ustr ''derived-unconfirmed'' | NotDerivable _ \<Rightarrow> ustr ''frame-not-derivable'')"

record service_function =
  sv_label :: ustring
  sv_name :: ustring
  sv_category :: category
  sv_id :: u16
  sv_derivation :: derivation

definition sv_risk :: "service_function \<Rightarrow> risk" where
  "sv_risk f = category_risk (sv_category f)"

definition sv_request :: "service_function \<Rightarrow> bytes option" where
  "sv_request f = derivation_request (sv_derivation f)"

section \<open>CBS frames\<close>

definition CBS_DID :: u16 where "CBS_DID = 0x1001"
definition CBS_RECORD_COUNT :: u8 where "CBS_RECORD_COUNT = 0x01"

definition CBS_RESET_RECORD_TAIL :: bytes where
  "CBS_RESET_RECORD_TAIL = [0x64, 0x1F, 0x80, 0x00, 0x0F, 0xFF, 0x0F, 0x3F, 0xFF, 0x00]"

definition build_cbs_reset_request :: "u8 \<Rightarrow> bytes" where
  "build_cbs_reset_request cbs_id =
     write_data_by_identifier CBS_DID (CBS_RECORD_COUNT # cbs_id # CBS_RESET_RECORD_TAIL)"

definition build_cbs_read_request :: bytes where
  "build_cbs_read_request = read_data_by_identifier CBS_DID"

definition cbs_derivation :: "u16 \<Rightarrow> derivation" where
  "cbs_derivation i =
     (if i \<le> 0xFF then Derived (build_cbs_reset_request (ucast i)) (ustr ''CBS_RESET'')
      else NotDerivable CbsIdTooWide)"

section \<open>The standalone resets\<close>

record derived_reset =
  dr_label :: ustring
  dr_name :: ustring
  dr_job :: ustring
  dr_id :: u16
  dr_request :: bytes

definition DERIVED_RESETS :: "derived_reset list" where
  "DERIVED_RESETS =
     [\<lparr>dr_label = ustr ''MSA2Hist'', dr_name = ustr ''MSA2 history table + ring-buffer reset'',
       dr_job = ustr ''STEUERN_MSA2HISTORIERESET'', dr_id = 0x5F84, dr_request = [0x2E, 0x5F, 0x84]\<rparr>,
      \<lparr>dr_label = ustr ''PMHist'', dr_name = ustr ''Power-management histogram reset'',
       dr_job = ustr ''STEUERN_PM_HISTOGRAM_RESET'', dr_id = 0x5FF5, dr_request = [0x2E, 0x5F, 0xF5, 0x04]\<rparr>,
      \<lparr>dr_label = ustr ''DAROL'', dr_name = ustr ''DAROL load-collective data reset'',
       dr_job = ustr ''STEUERN_DAROL_RESET'', dr_id = 0x6200, dr_request = [0x2E, 0x62, 0x00, 0x01]\<rparr>,
      \<lparr>dr_label = ustr ''LLKETA'', dr_name = ustr ''LLK-ETA statistic reset (charge-air-cooler)'',
       dr_job = ustr ''STEUERN_LLKETA_RESET'', dr_id = 0xF065, dr_request = [0x31, 0x01, 0xF0, 0x65]\<rparr>]"

definition to_service_function :: "derived_reset \<Rightarrow> service_function" where
  "to_service_function r =
     \<lparr>sv_label = dr_label r, sv_name = dr_name r, sv_category = StatisticReset, sv_id = dr_id r,
      sv_derivation = Derived (dr_request r) (dr_job r)\<rparr>"

section \<open>The catalog\<close>

definition trimmed_cell :: "ustring list \<Rightarrow> nat \<Rightarrow> ustring" where
  "trimmed_cell row i = (case nth_opt row i of None \<Rightarrow> [] | Some c \<Rightarrow> trim c)"

definition is_blank_label :: "ustring \<Rightarrow> bool" where
  "is_blank_label label \<longleftrightarrow> label = [] \<or> list_all (\<lambda>c. c = 0x2D) label"

definition cbs_entry :: "nat \<Rightarrow> nat \<Rightarrow> nat \<Rightarrow> ustring list \<Rightarrow> service_function option" where
  "cbs_entry nr code text row =
     (case Option.bind (nth_opt row nr) parse_id of None \<Rightarrow> None
      | Some i \<Rightarrow>
          let label = trimmed_cell row code in
          if is_blank_label label then None
          else Some \<lparr>sv_label = label, sv_name = trimmed_cell row text, sv_category = CbsReset, sv_id = i,
                     sv_derivation = cbs_derivation i\<rparr>)"

definition parse_cbs :: "table \<Rightarrow> service_function list" where
  "parse_cbs t =
     (case (column_at (tbl_columns t) ''NR'', column_at (tbl_columns t) ''CBS_K'',
            column_at (tbl_columns t) ''CBS_K_TEXT'') of
        (Some nr, Some code, Some text) \<Rightarrow> List.map_filter (cbs_entry nr code text) (tbl_rows t)
      | _ \<Rightarrow> [])"

definition labelled_entry ::
    "category \<Rightarrow> not_derivable_reason \<Rightarrow> nat \<Rightarrow> nat \<Rightarrow> nat \<Rightarrow> ustring list \<Rightarrow> service_function option" where
  "labelled_entry cat reason label text lid row =
     (case Option.bind (nth_opt row lid) parse_id of None \<Rightarrow> None
      | Some i \<Rightarrow>
          let l = trimmed_cell row label in
          if is_blank_label l then None
          else Some \<lparr>sv_label = l, sv_name = trimmed_cell row text, sv_category = cat, sv_id = i,
                     sv_derivation = NotDerivable reason\<rparr>)"

definition parse_labelled :: "category \<Rightarrow> not_derivable_reason \<Rightarrow> table \<Rightarrow> service_function list" where
  "parse_labelled cat reason t =
     (case (column_at (tbl_columns t) ''LABEL'', column_at (tbl_columns t) ''TEXT'',
            column_at (tbl_columns t) ''LID'') of
        (Some label, Some text, Some lid) \<Rightarrow>
          List.map_filter (labelled_entry cat reason label text lid) (tbl_rows t)
      | _ \<Rightarrow> [])"

definition functions_of_table :: "table \<Rightarrow> service_function list" where
  "functions_of_table t =
     (if tbl_name t = ustr ''CBSKENNUNG'' then parse_cbs t
      else if tbl_name t = ustr ''LERNWERTE_RUECK'' then parse_labelled LearnedValueReset LERNWERTE_REASON t
      else if tbl_name t = ustr ''STELLER'' then parse_labelled ActuatorControl STELLER_REASON t
      else if tbl_name t = ustr ''ABGLEICH'' then parse_labelled Calibration CALIBRATION_REASON t
      else [])"

definition from_tables_and_jobs :: "table list \<Rightarrow> (ustring \<Rightarrow> bool) \<Rightarrow> service_function list" where
  "from_tables_and_jobs tables has_job =
     concat (map functions_of_table tables)
     @ map to_service_function (filter (\<lambda>r. has_job (dr_job r)) DERIVED_RESETS)"

definition functions_from_prg :: "prg \<Rightarrow> service_function list" where
  "functions_from_prg p = from_tables_and_jobs (prg_tables p) (prg_has_job p)"

definition functions_from_tables :: "table list \<Rightarrow> service_function list" where
  "functions_from_tables tables = from_tables_and_jobs tables (\<lambda>_. False)"

definition by_label :: "service_function list \<Rightarrow> ustring \<Rightarrow> service_function option" where
  "by_label fs label = find (\<lambda>f. sv_label f = label) fs"

definition by_category :: "service_function list \<Rightarrow> category \<Rightarrow> service_function list" where
  "by_category fs cat = filter (\<lambda>f. sv_category f = cat) fs"

section \<open>What the catalog promises\<close>

text \<open>
  What an entry may be: a request only for a low-risk reset, and then a write or a routine start
  whose first three or four bytes name the entry's own identifier.
\<close>

definition entry_safe :: "service_function \<Rightarrow> bool" where
  "entry_safe f \<longleftrightarrow>
     (case sv_request f of
        None \<Rightarrow> True
      | Some r \<Rightarrow>
          sv_risk f = Low
          \<and> (case sv_category f of
               CbsReset \<Rightarrow> sv_id f \<le> 0xFF \<and> r = [0x2E, 0x10, 0x01, 0x01, ucast (sv_id f)] @ CBS_RESET_RECORD_TAIL
             | StatisticReset \<Rightarrow>
                 take 3 r = 0x2E # be16_bytes (sv_id f) \<or> take 4 r = [0x31, 0x01] @ be16_bytes (sv_id f)
             | _ \<Rightarrow> False))"

lemma be16_bytes_numeral [simp]:
  "be16_bytes 0x1001 = [0x10, 0x01]" "be16_bytes 0x5F84 = [0x5F, 0x84]" "be16_bytes 0x5FF5 = [0x5F, 0xF5]"
  "be16_bytes 0x6200 = [0x62, 0x00]" "be16_bytes 0xF065 = [0xF0, 0x65]"
  by (simp_all add: be16_bytes_def)

lemma functions_of_table_safe: "f \<in> set (functions_of_table t) \<Longrightarrow> entry_safe f"
  by (auto simp: functions_of_table_def parse_cbs_def parse_labelled_def map_filter_def cbs_entry_def
      labelled_entry_def Let_def entry_safe_def sv_request_def derivation_request_def sv_risk_def
      cbs_derivation_def build_cbs_reset_request_def write_data_by_identifier_def uds_consts CBS_DID_def
      CBS_RECORD_COUNT_def split: option.splits if_splits)

lemma derived_resets_safe: "list_all (\<lambda>r. entry_safe (to_service_function r)) DERIVED_RESETS"
  by (simp add: DERIVED_RESETS_def to_service_function_def entry_safe_def sv_request_def
      derivation_request_def sv_risk_def)

text \<open>
  C34. Whatever tables and jobs an SGBD carries, the catalog offers a request only for a low-risk
  reset of its own identifier: a CBS entry with a one-byte counter id writes exactly the reset
  record of that counter, a statistic reset is one of the fixed frames and only if the ECU has its
  job, and no actuator, calibration or learned-value entry ever has a request.
\<close>
theorem service_catalog_safe:
  "list_all entry_safe (from_tables_and_jobs tables has_job)
   \<and> map sv_label (by_category (from_tables_and_jobs tables has_job) StatisticReset)
       = map dr_label (filter (\<lambda>r. has_job (dr_job r)) DERIVED_RESETS)"
proof -
  have "sv_category f \<noteq> StatisticReset" if "f \<in> set (functions_of_table t)" for f t
    using that by (auto simp: functions_of_table_def parse_cbs_def parse_labelled_def map_filter_def
        cbs_entry_def labelled_entry_def Let_def split: option.splits if_splits)
  then have "by_category (concat (map functions_of_table tables)) StatisticReset = []"
    by (auto simp: by_category_def filter_empty_conv)
  moreover have "by_category (map to_service_function rs) StatisticReset = map to_service_function rs" for rs
    by (induction rs) (simp_all add: by_category_def to_service_function_def)
  moreover have "map sv_label (map to_service_function rs) = map dr_label rs" for rs
    by (simp add: to_service_function_def)
  ultimately show ?thesis
    using derived_resets_safe functions_of_table_safe
    by (auto simp: from_tables_and_jobs_def by_category_def list_all_iff)
qed

end
