(* ===== verification/Service_Cycle.thy ===== *)
theory Service_Cycle
  imports Sem_Service "HOL-Library.Product_Lexorder"
begin

text \<open>
  The execution of a service function, \<open>crates/service\<close>: the grouping of catalog rows into
  phases (\<open>phase.rs\<close>), the preconditions (\<open>precondition.rs\<close>) and the cycle with its teardown
  (\<open>runner.rs\<close>). The job runner and the measurement reader are trait objects of the caller, so
  they are the parameters \<open>run\<close> and \<open>read\<close> over a state \<open>'s\<close>; \<open>fmt\<close> is the \<open>Display\<close> of an \<open>f64\<close>.
\<close>

section \<open>Phases\<close>

datatype service_phase = Preset | Main | Reset

fun phase_rank :: "service_phase \<Rightarrow> nat" where
  "phase_rank Preset = 0"
| "phase_rank Main = 1"
| "phase_rank Reset = 2"

lemma phase_rank_inject: "phase_rank p = phase_rank q \<longleftrightarrow> p = q"
  by (cases p; cases q) simp_all

text \<open>The derived \<open>Ord\<close>: the order of the constructors.\<close>

instantiation service_phase :: linorder
begin

definition less_eq_service_phase :: "service_phase \<Rightarrow> service_phase \<Rightarrow> bool" where
  "less_eq_service_phase p q \<longleftrightarrow> phase_rank p \<le> phase_rank q"

definition less_service_phase :: "service_phase \<Rightarrow> service_phase \<Rightarrow> bool" where
  "less_service_phase p q \<longleftrightarrow> phase_rank p < phase_rank q"

instance
  by standard (auto simp: less_eq_service_phase_def less_service_phase_def phase_rank_inject)

end

definition phase_from_catalog :: "ustring option \<Rightarrow> service_phase" where
  "phase_from_catalog text =
     (let t = (case text of None \<Rightarrow> ustr ''Main'' | Some t \<Rightarrow> t) in
      if t = ustr ''Preset'' then Preset else if t = ustr ''Reset'' then Reset else Main)"

text \<open>A row of the catalog, as the query returns it.\<close>

record job_parameter =
  jp_function_id :: int
  jp_function_en :: "ustring option"
  jp_function_de :: "ustring option"
  jp_phase :: "ustring option"
  jp_position :: int
  jp_value :: "ustring option"
  jp_label :: "ustring option"

record invocation =
  iv_function_id :: int
  iv_title :: "ustring option"
  iv_phase :: service_phase
  iv_args :: "ustring list"

definition arg_buffer :: "invocation \<Rightarrow> ustring" where
  "arg_buffer i = join_with (ustr '';'') (iv_args i)"

definition row_key :: "job_parameter \<Rightarrow> int \<times> service_phase" where
  "row_key r = (jp_function_id r, phase_from_catalog (jp_phase r))"

definition row_title :: "job_parameter \<Rightarrow> ustring option" where
  "row_title r =
     (case (case jp_function_en r of Some t \<Rightarrow> Some t | None \<Rightarrow> jp_function_de r) of
        None \<Rightarrow> None
      | Some t \<Rightarrow> let t' = trim t in if t' = [] then None else Some t')"

definition row_value :: "job_parameter \<Rightarrow> ustring" where
  "row_value r = (case jp_value r of None \<Rightarrow> [] | Some v \<Rightarrow> v)"

definition inv_key :: "invocation \<Rightarrow> int \<times> service_phase" where
  "inv_key i = (iv_function_id i, iv_phase i)"

definition add_row :: "invocation list \<Rightarrow> job_parameter \<Rightarrow> invocation list" where
  "add_row out row =
     (if out \<noteq> [] \<and> inv_key (last out) = row_key row
      then butlast out @ [(last out)\<lparr>iv_args := iv_args (last out) @ [row_value row],
             iv_title := (if iv_title (last out) = None then row_title row else iv_title (last out))\<rparr>]
      else out @ [\<lparr>iv_function_id = jp_function_id row, iv_title = row_title row,
                   iv_phase = phase_from_catalog (jp_phase row), iv_args = [row_value row]\<rparr>])"

definition sorted_rows :: "job_parameter list \<Rightarrow> job_parameter list" where
  "sorted_rows rows = sort_key (\<lambda>r. (jp_function_id r, phase_from_catalog (jp_phase r), jp_position r)) rows"

definition invocations :: "job_parameter list \<Rightarrow> invocation list" where
  "invocations rows = foldl add_row [] (sorted_rows rows)"

text \<open>\<open>dedup\<close> of a sorted list leaves one of each run of equal ids.\<close>

definition function_ids :: "invocation list \<Rightarrow> int list" where
  "function_ids invs = remdups_adj (sort (map iv_function_id invs))"

section \<open>Preconditions\<close>

datatype quantity = EngineSpeed | BatteryVoltage | CoolantTemp | RoadSpeed | TerminalStatus

datatype precondition =
    EngineRunning
  | EngineOff
  | TerminalOn
  | BatteryAbove f64
  | CoolantBelow f64
  | VehicleStationary

datatype verdict = Passed | Failed | Unverified

record precondition_outcome =
  pc_precondition :: precondition
  pc_verdict :: verdict
  pc_measured :: "f64 option"
  pc_detail :: "ustring option"

fun quantity_of :: "precondition \<Rightarrow> quantity" where
  "quantity_of EngineRunning = EngineSpeed"
| "quantity_of EngineOff = EngineSpeed"
| "quantity_of TerminalOn = TerminalStatus"
| "quantity_of (BatteryAbove _) = BatteryVoltage"
| "quantity_of (CoolantBelow _) = CoolantTemp"
| "quantity_of VehicleStationary = RoadSpeed"

definition f64_le :: "f64 \<Rightarrow> f64 \<Rightarrow> bool" where
  "f64_le a b \<longleftrightarrow> f64_lt a b \<or> f64_eq a b"

fun satisfied_by :: "precondition \<Rightarrow> f64 \<Rightarrow> bool" where
  "satisfied_by EngineRunning v = f64_le (f64_of_int 300) v"
| "satisfied_by EngineOff v = f64_lt v (f64_of_int 300)"
| "satisfied_by TerminalOn v = (\<not> f64_eq v 0)"
| "satisfied_by (BatteryAbove b) v = f64_lt b v"
| "satisfied_by (CoolantBelow b) v = f64_lt v b"
| "satisfied_by VehicleStationary v = f64_lt (f64_abs v) (f64_of_int 1)"

definition DEGREE_C :: ustring where "DEGREE_C = [0xB0, 0x43]"

fun precondition_text :: "(f64 \<Rightarrow> ustring) \<Rightarrow> precondition \<Rightarrow> ustring" where
  "precondition_text fmt EngineRunning = ustr ''the engine must be running''"
| "precondition_text fmt EngineOff = ustr ''the engine must be off''"
| "precondition_text fmt TerminalOn = ustr ''the ignition (terminal 15) must be on''"
| "precondition_text fmt (BatteryAbove v) = ustr ''battery voltage must exceed '' @ fmt v @ ustr '' V''"
| "precondition_text fmt (CoolantBelow v) = ustr ''coolant must be below '' @ fmt v @ ustr '' '' @ DEGREE_C"
| "precondition_text fmt VehicleStationary = ustr ''the vehicle must be stationary''"

fun defaults_for :: "category \<Rightarrow> precondition list" where
  "defaults_for ActuatorControl = [TerminalOn, BatteryAbove (f64_of_int 12), VehicleStationary]"
| "defaults_for Calibration = [TerminalOn, BatteryAbove (f64_of_int 12)]"
| "defaults_for CbsReset = [TerminalOn]"
| "defaults_for LearnedValueReset = [TerminalOn]"
| "defaults_for StatisticReset = [TerminalOn]"

type_synonym 's reader_fn = "quantity \<Rightarrow> 's \<Rightarrow> (ustring + f64) \<times> 's"

definition judge :: "(f64 \<Rightarrow> ustring) \<Rightarrow> precondition \<Rightarrow> ustring + f64 \<Rightarrow> precondition_outcome" where
  "judge fmt p r =
     (case r of
        Inr v \<Rightarrow>
          if \<not> f64_is_finite v then
            \<lparr>pc_precondition = p, pc_verdict = Unverified, pc_measured = Some v,
             pc_detail = Some (ustr ''could not check that '' @ precondition_text fmt p
               @ ustr '': measured a non-finite value ('' @ fmt v @ ustr '')'')\<rparr>
          else if satisfied_by p v then
            \<lparr>pc_precondition = p, pc_verdict = Passed, pc_measured = Some v, pc_detail = None\<rparr>
          else
            \<lparr>pc_precondition = p, pc_verdict = Failed, pc_measured = Some v,
             pc_detail = Some (precondition_text fmt p @ ustr '' (measured '' @ fmt v @ ustr '')'')\<rparr>
      | Inl why \<Rightarrow>
          \<lparr>pc_precondition = p, pc_verdict = Unverified, pc_measured = None,
           pc_detail = Some (ustr ''could not check that '' @ precondition_text fmt p @ ustr '': '' @ why)\<rparr>)"

fun evaluate :: "(f64 \<Rightarrow> ustring) \<Rightarrow> 's reader_fn \<Rightarrow> precondition list \<Rightarrow> 's \<Rightarrow> precondition_outcome list \<times> 's" where
  "evaluate fmt read [] s = ([], s)"
| "evaluate fmt read (p # ps) s =
     (case read (quantity_of p) s of
        (r, s') \<Rightarrow> (case evaluate fmt read ps s' of (out, s'') \<Rightarrow> (judge fmt p r # out, s'')))"

definition blocks :: "precondition_outcome list \<Rightarrow> bool" where
  "blocks outcomes = list_ex (\<lambda>p. pc_verdict p = Failed) outcomes"

section \<open>The cycle\<close>

type_synonym 's job_runner = "ustring \<Rightarrow> u8 \<Rightarrow> ustring \<Rightarrow> 's \<Rightarrow> (ustring + unit) \<times> 's"

datatype teardown = NotDefined | Ran | TeardownFailed ustring

record phase_outcome =
  po_phase :: service_phase
  po_args :: ustring
  po_error :: "ustring option"

record service_report =
  sr_job :: ustring
  sr_title :: "ustring option"
  sr_phases :: "phase_outcome list"
  sr_teardown :: teardown
  sr_succeeded :: bool
  sr_preconditions :: "precondition_outcome list"
  sr_blocked :: bool

definition pick :: "int \<Rightarrow> invocation list \<Rightarrow> service_phase \<Rightarrow> invocation option" where
  "pick function_id invs ph = find (\<lambda>i. iv_function_id i = function_id \<and> iv_phase i = ph) invs"

fun chosen_title :: "int \<Rightarrow> invocation list \<Rightarrow> ustring option" where
  "chosen_title function_id [] = None"
| "chosen_title function_id (i # is) =
     (if iv_function_id i = function_id \<and> iv_title i \<noteq> None then iv_title i
      else chosen_title function_id is)"

definition err_of :: "'e + 'a \<Rightarrow> 'e option" where
  "err_of r = (case r of Inl e \<Rightarrow> Some e | Inr _ \<Rightarrow> None)"

text \<open>The loop over \<open>Preset\<close> and \<open>Main\<close>: a missing phase is skipped, a failure ends it.\<close>

fun run_phases ::
    "'s job_runner \<Rightarrow> ustring \<Rightarrow> u8 \<Rightarrow> (service_phase \<Rightarrow> invocation option) \<Rightarrow> service_phase list \<Rightarrow> bool
     \<Rightarrow> phase_outcome list \<Rightarrow> 's \<Rightarrow> bool \<times> phase_outcome list \<times> 's" where
  "run_phases run job target pk [] failed phases s = (failed, phases, s)"
| "run_phases run job target pk (ph # rest) failed phases s =
     (case pk ph of
        None \<Rightarrow> run_phases run job target pk rest failed phases s
      | Some i \<Rightarrow>
          if failed then (failed, phases, s)
          else let args = arg_buffer i in
          (case run job target args s of
             (r, s') \<Rightarrow>
               run_phases run job target pk rest (failed \<or> err_of r \<noteq> None)
                 (phases @ [\<lparr>po_phase = ph, po_args = args, po_error = err_of r\<rparr>]) s'))"

definition is_teardown_failed :: "teardown \<Rightarrow> bool" where
  "is_teardown_failed t = (case t of TeardownFailed _ \<Rightarrow> True | _ \<Rightarrow> False)"

definition run_cycle ::
    "'s job_runner \<Rightarrow> ustring \<Rightarrow> u8 \<Rightarrow> int \<Rightarrow> invocation list \<Rightarrow> 's \<Rightarrow> service_report \<times> 's" where
  "run_cycle run job target function_id invs s =
     (let pk = pick function_id invs in
      case run_phases run job target pk [Preset, Main] False [] s of
        (failed, phases, s1) \<Rightarrow>
      (case (case pk Reset of
               None \<Rightarrow> (NotDefined, phases, s1)
             | Some i \<Rightarrow>
                 let args = arg_buffer i in
                 (case run job target args s1 of
                    (Inr _, s2) \<Rightarrow> (Ran, phases @ [\<lparr>po_phase = Reset, po_args = args, po_error = None\<rparr>], s2)
                  | (Inl e, s2) \<Rightarrow>
                      (TeardownFailed e, phases @ [\<lparr>po_phase = Reset, po_args = args, po_error = Some e\<rparr>], s2))) of
         (teardown, phases', s') \<Rightarrow>
           (\<lparr>sr_job = job, sr_title = chosen_title function_id invs, sr_phases = phases',
             sr_teardown = teardown,
             sr_succeeded = (phases' \<noteq> [] \<and> \<not> failed \<and> \<not> is_teardown_failed teardown),
             sr_preconditions = [], sr_blocked = False\<rparr>, s')))"

definition run_service ::
    "(f64 \<Rightarrow> ustring) \<Rightarrow> 's job_runner \<Rightarrow> 's reader_fn \<Rightarrow> ustring \<Rightarrow> u8 \<Rightarrow> int \<Rightarrow> category
     \<Rightarrow> invocation list \<Rightarrow> 's \<Rightarrow> service_report \<times> 's" where
  "run_service fmt run read job target function_id cat invs s =
     (case evaluate fmt read (defaults_for cat) s of
        (preconditions, s1) \<Rightarrow>
          if blocks preconditions then
            (\<lparr>sr_job = job, sr_title = chosen_title function_id invs, sr_phases = [],
              sr_teardown = NotDefined, sr_succeeded = False, sr_preconditions = preconditions,
              sr_blocked = True\<rparr>, s1)
          else (case run_cycle run job target function_id invs s1 of
                  (report, s2) \<Rightarrow> (report\<lparr>sr_preconditions := preconditions\<rparr>, s2)))"

section \<open>What the cycle does to the car\<close>

text \<open>Any job runner, with a record of the jobs that were run: the job, the ECU and the arguments.\<close>

type_synonym job_log = "(ustring \<times> u8 \<times> ustring) list"

definition log_job :: "'s job_runner \<Rightarrow> (job_log \<times> 's) job_runner" where
  "log_job run job target args ls =
     (case ls of (l, s) \<Rightarrow> case run job target args s of (r, s') \<Rightarrow> (r, (l @ [(job, target, args)], s')))"

definition phase_args :: "int \<Rightarrow> invocation list \<Rightarrow> service_phase \<Rightarrow> ustring" where
  "phase_args function_id invs ph = arg_buffer (the (pick function_id invs ph))"

definition calls_of :: "ustring \<Rightarrow> u8 \<Rightarrow> phase_outcome list \<Rightarrow> job_log" where
  "calls_of job target phases = map (\<lambda>p. (job, target, po_args p)) phases"

text \<open>
  The phases a cycle attempts, in order: \<open>Preset\<close> and \<open>Reset\<close> whenever the function defines them,
  \<open>Main\<close> when it is defined and no \<open>Preset\<close> failed before it.
\<close>

definition attempted :: "int \<Rightarrow> invocation list \<Rightarrow> bool \<Rightarrow> service_phase list" where
  "attempted function_id invs preset_failed =
     filter (\<lambda>ph. pick function_id invs ph \<noteq> None \<and> (ph = Main \<longrightarrow> \<not> preset_failed)) [Preset, Main, Reset]"

definition phase_failed :: "service_phase \<Rightarrow> phase_outcome list \<Rightarrow> bool" where
  "phase_failed ph phases = list_ex (\<lambda>p. po_phase p = ph \<and> po_error p \<noteq> None) phases"

lemma err_of_simps [simp]: "err_of (Inl e) = Some e" "err_of (Inr x) = None"
  by (simp_all add: err_of_def)

lemma log_job_run:
  "log_job run job target args (l, s) =
     (fst (run job target args s), (l @ [(job, target, args)], snd (run job target args s)))"
  by (simp add: log_job_def split: prod.split)

lemmas cycle_defs = run_cycle_def Let_def log_job_run calls_of_def attempted_def phase_failed_def phase_args_def
  is_teardown_failed_def


section \<open>The gate in front of the cycle\<close>

lemma f64_le_or: "f64_lt a b \<Longrightarrow> f64_le a b"
  by (simp add: f64_le_def)

text \<open>A reading resolves a check when it is a finite number.\<close>

definition resolved :: "ustring + f64 \<Rightarrow> bool" where
  "resolved r = (case r of Inl _ \<Rightarrow> False | Inr v \<Rightarrow> f64_is_finite v)"

lemma judge_failed:
  "pc_verdict (judge fmt p r) = Failed \<longleftrightarrow> resolved r \<and> \<not> satisfied_by p (projr r)"
  by (auto simp: judge_def resolved_def split: sum.split)

lemma evaluate_stateless:
  "(\<And>q s. read q s = (val q, s)) \<Longrightarrow>
   evaluate fmt read ps s = (map (\<lambda>p. judge fmt p (val (quantity_of p))) ps, s)"
  by (induction ps) simp_all

lemma evaluate_preconditions: "map pc_precondition (fst (evaluate fmt read ps s)) = ps"
proof (induction ps arbitrary: s)
  case (Cons p ps)
  obtain r s' out s'' where "read (quantity_of p) s = (r, s')" "evaluate fmt read ps s' = (out, s'')"
    by (metis prod.exhaust)
  with Cons [of s'] show ?case by (simp add: judge_def split: sum.split)
qed simp

text \<open>A reader that leaves the log of jobs alone: reading runs no job.\<close>

definition log_reader :: "'s reader_fn \<Rightarrow> (job_log \<times> 's) reader_fn" where
  "log_reader read q ls = (case ls of (l, s) \<Rightarrow> case read q s of (r, s') \<Rightarrow> (r, (l, s')))"

lemma evaluate_log:
  "evaluate fmt (log_reader read) ps (l, s) =
     (fst (evaluate fmt read ps s), (l, snd (evaluate fmt read ps s)))"
proof (induction ps arbitrary: s)
  case (Cons p ps)
  obtain r s' out s'' where "read (quantity_of p) s = (r, s')" "evaluate fmt read ps s' = (out, s'')"
    by (metis prod.exhaust)
  with Cons [of s'] show ?case by (simp add: log_reader_def)
qed simp



section \<open>Grouping\<close>

definition grouped :: "invocation list \<Rightarrow> job_parameter list \<Rightarrow> bool" where
  "grouped out rows \<longleftrightarrow>
     sorted_wrt (<) (map inv_key out)
     \<and> set (map inv_key out) = set (map row_key rows)
     \<and> list_all (\<lambda>i. iv_args i = map row_value (filter (\<lambda>r. row_key r = inv_key i) rows)) out"

lemma inv_key_update [simp]:
  "inv_key (i\<lparr>iv_args := a\<rparr>) = inv_key i" "inv_key (i\<lparr>iv_title := b\<rparr>) = inv_key i"
  "inv_key (i\<lparr>iv_args := a, iv_title := b\<rparr>) = inv_key i"
  by (simp_all add: inv_key_def)

lemma add_row_grouped:
  assumes out: "grouped out rows" and max: "list_all (\<lambda>r. row_key r \<le> row_key row) rows"
  shows "grouped (add_row out row) (rows @ [row])"
proof (cases "out \<noteq> [] \<and> inv_key (last out) = row_key row")
  case True
  then obtain front i where o: "out = front @ [i]" "inv_key i = row_key row"
    by (cases out rule: rev_cases) auto
  let ?i = "i\<lparr>iv_args := iv_args i @ [row_value row], iv_title := (if iv_title i = None then row_title row else iv_title i)\<rparr>"
  have key: "inv_key ?i = inv_key i" by (simp add: inv_key_def)
  have ne: "inv_key j \<noteq> row_key row" if "j \<in> set front" for j
    using out that o by (fastforce simp: grouped_def sorted_wrt_append)
  show ?thesis
    using out o(2) ne by (auto simp: grouped_def add_row_def o(1) key sorted_wrt_append list_all_iff)
next
  case False
  let ?i = "\<lparr>iv_function_id = jp_function_id row, iv_title = row_title row,
      iv_phase = phase_from_catalog (jp_phase row), iv_args = [row_value row]\<rparr>"
  have key: "inv_key ?i = row_key row" by (simp add: inv_key_def row_key_def)
  have add: "add_row out row = out @ [?i]" using False unfolding add_row_def by (rule if_not_P)
  have le: "inv_key j \<le> row_key row" if "j \<in> set out" for j
  proof -
    have "inv_key j \<in> set (map row_key rows)" using out that by (auto simp: grouped_def)
    with max show ?thesis by (auto simp: list_all_iff)
  qed
  have lt: "inv_key j < row_key row" if j: "j \<in> set out" for j
  proof -
    obtain front i where o: "out = front @ [i]" using j by (cases out rule: rev_cases) auto
    have "inv_key i < row_key row"
      using le [of i] False o by (auto simp: order.strict_iff_order)
    with j o out show ?thesis by (auto simp: grouped_def sorted_wrt_append)
  qed
  have rlt: "row_key r < row_key row" if "r \<in> set rows" for r
  proof -
    have "row_key r \<in> inv_key ` set out" using out that by (simp add: grouped_def)
    then obtain j where "j \<in> set out" "row_key r = inv_key j" by blast
    with lt show ?thesis by simp
  qed
  have none: "filter (\<lambda>r. row_key r = row_key row) rows = []"
    using rlt by (fastforce simp: filter_empty_conv)
  have other: "map row_value (filter (\<lambda>r. row_key r = inv_key j) (rows @ [row])) = iv_args j" if "j \<in> set out" for j
    using out lt [OF that] that by (auto simp: grouped_def list_all_iff)
  have "sorted_wrt (<) (map inv_key (out @ [?i]))"
    using out lt rlt by (auto simp: grouped_def sorted_wrt_append key)
  moreover have "set (map inv_key (out @ [?i])) = set (map row_key (rows @ [row]))"
    using out by (simp add: grouped_def key)
  ultimately show ?thesis
    unfolding grouped_def add list_all_iff using other none key by auto
qed

lemma sorted_rows_keys: "sorted_wrt (\<lambda>a b. row_key a \<le> row_key b) (sorted_rows rows)"
proof -
  have "sorted_wrt (\<lambda>a b. (jp_function_id a, phase_from_catalog (jp_phase a), jp_position a)
      \<le> (jp_function_id b, phase_from_catalog (jp_phase b), jp_position b)) (sorted_rows rows)"
    using sorted_sort_key [of "\<lambda>r. (jp_function_id r, phase_from_catalog (jp_phase r), jp_position r)" rows]
    by (simp add: sorted_rows_def sorted_map)
  then show ?thesis
    by (rule sorted_wrt_mono_rel [rotated]) (auto simp: row_key_def less_eq_prod_def)
qed

lemma foldl_add_row:
  "sorted_wrt (\<lambda>a b. row_key a \<le> row_key b) rows \<Longrightarrow> grouped (foldl add_row [] rows) rows"
proof (induction rows rule: rev_induct)
  case Nil
  then show ?case by (simp add: grouped_def)
next
  case (snoc row rows)
  then show ?case by (auto simp: sorted_wrt_append list_all_iff intro!: add_row_grouped)
qed

lemma strict_remdups_adj: "sorted xs \<Longrightarrow> sorted_wrt (<) (remdups_adj (xs :: int list))"
proof (induction xs rule: remdups_adj.induct)
  case (3 x y xs)
  then show ?case by fastforce
qed simp_all

text \<open>
  The grouping keeps every argument at its position: there is one invocation per function and
  phase of the rows, in ascending order; its arguments are the values of exactly its rows by
  position, an absent value as an empty argument; the ids on offer are those of the rows, ascending
  and once each; and rows in any other order give the same invocations when no two rows share
  function, phase and position.
\<close>
theorem invocations_grouped:
  "grouped (invocations rows) (sorted_rows rows)
   \<and> mset (sorted_rows rows) = mset rows
   \<and> sorted_wrt (<) (function_ids (invocations rows))
   \<and> set (function_ids (invocations rows)) = set (map jp_function_id rows)
   \<and> (mset rows' = mset rows
      \<and> distinct (map (\<lambda>r. (jp_function_id r, phase_from_catalog (jp_phase r), jp_position r)) rows) \<longrightarrow>
        invocations rows' = invocations rows)"
proof -
  have g: "grouped (invocations rows) (sorted_rows rows)"
    unfolding invocations_def by (intro foldl_add_row sorted_rows_keys)
  have m: "mset (sorted_rows rows) = mset rows" by (simp add: sorted_rows_def)
  have "fst ` set (map inv_key (invocations rows)) = fst ` set (map row_key (sorted_rows rows))"
    using g unfolding grouped_def by simp
  then have ids: "set (map iv_function_id (invocations rows)) = set (map jp_function_id rows)"
    using mset_eq_setD [OF m] by (simp add: image_image inv_key_def row_key_def)
  have s: "sorted_wrt (<) (remdups_adj (sort (xs :: int list)))" for xs
    by (rule strict_remdups_adj) simp
  have o: "invocations rows' = invocations rows"
    if "mset rows' = mset rows"
      "distinct (map (\<lambda>r. (jp_function_id r, phase_from_catalog (jp_phase r), jp_position r)) rows)"
    using sort_key_distinct_eq [OF that(2) that(1) [symmetric]] by (simp add: invocations_def sorted_rows_def)
  show ?thesis using g m s o ids by (auto simp: function_ids_def)
qed

theorem invocations_grouped_witness:
  "let r = \<lambda>p n v. \<lparr>jp_function_id = 7, jp_function_en = None, jp_function_de = None, jp_phase = p,
        jp_position = n, jp_value = v, jp_label = None\<rparr>
   in invocations [r None 2 None, r (Some (ustr ''Preset'')) 1 None, r None 1 (Some (ustr ''3''))]
      = invocations [r None 1 (Some (ustr ''3'')), r None 2 None, r (Some (ustr ''Preset'')) 1 None]"
proof -
  let ?r = "\<lambda>p n v. \<lparr>jp_function_id = 7, jp_function_en = None, jp_function_de = None, jp_phase = p,
        jp_position = n, jp_value = v, jp_label = None\<rparr>"
  have "phase_from_catalog None = Main" "phase_from_catalog (Some (ustr ''Preset'')) = Preset"
    by (simp_all add: phase_from_catalog_def ustr_def)
  with invocations_grouped [of
      "[?r None 1 (Some (ustr ''3'')), ?r None 2 None, ?r (Some (ustr ''Preset'')) 1 None]"
      "[?r None 2 None, ?r (Some (ustr ''Preset'')) 1 None, ?r None 1 (Some (ustr ''3''))]"]
  show ?thesis by (simp add: Let_def)
qed

end
