(* ===== verification/Mcp_Env.thy ===== *)
theory Mcp_Env
  imports Client_Scan Sem_Snapshot Sem_Names Sem_Service Best_Engine
begin

text \<open>
  What the tools of the MCP server stand on: \<open>mcp/src/config.rs\<close>, \<open>profile.rs\<close> (the learned
  variants of a car), \<open>ecu.rs\<close> (naming an ECU), \<open>session.rs\<close> (the held connection) and the lookups
  of \<open>server.rs\<close> (the path of an SGBD, the cached measurements, the variant ladder).

  Outside the program are the file system, the network and SQLite: \<open>mcp_env\<close> holds what they answer
  during one tool call. A path is its text; \<open>'ip\<close> is an IP address with its parser and display.
\<close>

section \<open>The semantic database\<close>

record dtc_description =
  xd_ecu_variant :: ustring
  xd_code :: u32
  xd_saecode :: "ustring option"
  xd_title_en :: "ustring option"
  xd_title_de :: "ustring option"

record fault_doc =
  fo_infoobject_id :: int
  fo_infotype :: "ustring option"
  fo_docnumber :: "ustring option"
  fo_safety_relevant :: bool
  fo_title :: "ustring option"

record variant_info =
  va_name :: ustring
  va_title :: "ustring option"

record measurement_entry =
  me_name :: ustring
  me_unit :: "ustring option"
  me_mul :: "f64 option"
  me_offset :: "f64 option"
  me_round :: "int option"
  me_format :: "ustring option"
  me_job :: "ustring option"

record ecu_tree_entry =
  et_address :: u8
  et_name :: "ustring option"
  et_group_sgbd :: "ustring option"
  et_bus :: "ustring option"
  et_bus_label :: "ustring option"
  et_col :: "int option"
  et_row :: "int option"
  et_minimal :: bool

text \<open>The queries of the database: the text of an error, or what the query found.\<close>

record catalog =
  ct_ecu_rows :: "ustring + ecu_row list"
  ct_variants :: "u8 \<Rightarrow> ustring + variant_info list"
  ct_describe_dtc :: "u8 \<Rightarrow> code3 \<Rightarrow> ustring + dtc_description list"
  ct_fault_help :: "u8 \<Rightarrow> code3 \<Rightarrow> ustring + fault_doc list"
  ct_fault_body :: "u8 \<Rightarrow> code3 \<Rightarrow> ustring + ustring list"
  ct_envcond_label :: "u16 \<Rightarrow> ustring + envcond_label option"
  ct_measurements :: "ustring \<Rightarrow> ustring + measurement_entry list"
  ct_ecu_tree_series :: "ustring + ustring list"
  ct_ecu_tree :: "ustring \<Rightarrow> ustring + ecu_tree_entry list"

definition catalog_ecus :: "catalog \<Rightarrow> ustring + ecu_slot list" where
  "catalog_ecus c = map_sum id ecu_slots (ct_ecu_rows c)"

text \<open>\<open>.ok()\<close>\<close>

definition ok_of :: "'e + 'a \<Rightarrow> 'a option" where
  "ok_of r = (case r of Inl _ \<Rightarrow> None | Inr x \<Rightarrow> Some x)"

lemma ok_of_simps [simp]: "ok_of (Inl e) = None" "ok_of (Inr x) = Some x"
  by (simp_all add: ok_of_def)

definition catalog_labels :: "catalog option \<Rightarrow> label_lookup" where
  "catalog_labels c = map_option (\<lambda>c uwnr. Option.bind (ok_of (ct_envcond_label c uwnr)) id) c"

section \<open>Paths\<close>

text \<open>\<open>Path::join\<close> on Unix: an absolute second part replaces the first.\<close>

definition path_join :: "ustring \<Rightarrow> ustring \<Rightarrow> ustring" where
  "path_join a b =
     (if (b \<noteq> [] \<and> hd b = 0x2F) \<or> a = [] then b else if last a = 0x2F then a @ b else a @ [0x2F] @ b)"

text \<open>
  \<open>Path::file_name\<close> on Unix: the last component, if it is a normal one. Repeated slashes and
  dots inside a path are no components; a leading dot is one, though not a normal one.
\<close>

definition path_file_name :: "ustring \<Rightarrow> ustring option" where
  "path_file_name p =
     (case filter (\<lambda>c. c \<noteq> [] \<and> c \<noteq> ustr ''.'') (split_on (\<lambda>c. c = 0x2F) p) of
        [] \<Rightarrow> None
      | cs \<Rightarrow> if last cs = ustr ''..'' then None else Some (last cs))"

section \<open>Configuration\<close>

record 'ip server_config =
  sc_gateway_ip :: "'ip option"
  sc_bind :: "u32 option"
  sc_broadcast :: u32
  sc_port :: u16
  sc_timeout :: u64
  sc_connect_timeout :: u64
  sc_discovery_wait :: u64
  sc_semantic_db :: ustring
  sc_sgbd_dir :: "ustring option"
  sc_scan_concurrency :: nat
  sc_profile_dir :: "ustring option"
  sc_no_profile :: bool

text \<open>
  The world of one call: the configuration and the two environment variables, the database when
  it opens, the files, whether a profile can be written, the address parser and display, the
  interface scan, the discovery (broadcast address, bind address, port), the TCP connect, the text
  functions of the library, and the order in which the reads of a whole-car scan complete.
\<close>

record 'ip mcp_env =
  ev_config :: "'ip server_config"
  ev_xdg_state_home :: "ustring option"
  ev_home :: "ustring option"
  ev_catalog :: "catalog option"
  ev_exists :: "ustring \<Rightarrow> bool"
  ev_read :: "ustring \<Rightarrow> bytes option"
  ev_writable :: "ustring \<Rightarrow> bool"
  ev_parse_ip :: "ustring \<Rightarrow> 'ip option"
  ev_show_ip :: "'ip \<Rightarrow> ustring"
  ev_link_local :: "u32 option"
  ev_probe :: "u32 \<Rightarrow> u32 \<Rightarrow> u16 \<Rightarrow> hsfz_error + 'ip gateway list"
  ev_connect :: "'ip \<Rightarrow> client_config \<Rightarrow> hsfz_error option"
  ev_lower :: "ustring \<Rightarrow> ustring"
  ev_show_f64 :: "f64 \<Rightarrow> ustring"
  ev_float :: float_env
  ev_order :: "u8 list \<Rightarrow> u8 list"

definition server_client_config :: "'ip server_config \<Rightarrow> client_config" where
  "server_client_config c =
     \<lparr>cc_port = sc_port c, cc_tester = TESTER_ADDRESS, cc_connect_timeout = sc_connect_timeout c,
      cc_read_timeout = sc_timeout c\<rparr>"

definition effective_profile_dir :: "'ip mcp_env \<Rightarrow> ustring option" where
  "effective_profile_dir env =
     (if sc_no_profile (ev_config env) then None
      else Some (case sc_profile_dir (ev_config env) of
        Some d \<Rightarrow> d
      | None \<Rightarrow>
          let base = (case ev_xdg_state_home env of
                        Some x \<Rightarrow> x
                      | None \<Rightarrow> path_join (case ev_home env of None \<Rightarrow> [] | Some h \<Rightarrow> h) (ustr ''.local/state''))
          in path_join base (ustr ''klartext/profiles'')))"

section \<open>Profiles\<close>

text \<open>
  A profile maps addresses to variants. The files are a map from paths to the profiles they hold;
  a missing, unreadable or corrupt file is not in it. Writing goes to a temporary file and renames
  it, so it happens whole or not at all.
\<close>

type_synonym car_profile = "u8 \<rightharpoonup> ustring"
type_synonym profile_store = "ustring \<rightharpoonup> car_profile"

definition is_ascii_alphanumeric :: "nat \<Rightarrow> bool" where
  "is_ascii_alphanumeric c \<longleftrightarrow> is_ascii_digit c \<or> is_ascii_alphabetic c"

definition profile_stem :: "ustring \<Rightarrow> ustring" where
  "profile_stem vin = map (\<lambda>c. if is_ascii_alphanumeric c then c else 0x5F) vin"

definition profile_path :: "ustring \<Rightarrow> ustring \<Rightarrow> ustring" where
  "profile_path dir vin = path_join dir (profile_stem vin @ ustr ''.json'')"

definition profile_load :: "profile_store \<Rightarrow> ustring \<Rightarrow> ustring \<Rightarrow> car_profile" where
  "profile_load store dir vin = (case store (profile_path dir vin) of None \<Rightarrow> Map.empty | Some p \<Rightarrow> p)"

definition profile_record ::
    "(ustring \<Rightarrow> bool) \<Rightarrow> ustring \<Rightarrow> ustring \<Rightarrow> u8 \<Rightarrow> ustring \<Rightarrow> profile_store \<Rightarrow> profile_store" where
  "profile_record writable dir vin address variant store =
     (let profile = profile_load store dir vin; path = profile_path dir vin in
      if profile address = Some variant then store
      else if writable path then store(path \<mapsto> profile(address \<mapsto> variant)) else store)"

section \<open>Naming an ECU\<close>

datatype resolve_error =
    UnknownEcu ustring
  | ReadingEcuMap ustring
  | ReadingVariants ustring

definition parse_hex_address :: "ustring \<Rightarrow> u8 option" where
  "parse_hex_address s =
     Option.bind (strip_0x s) (\<lambda>h. map_option word_of_int (parse_u8 16 h))"

fun variant_owner :: "(u8 \<Rightarrow> ustring + variant_info list) \<Rightarrow> ustring \<Rightarrow> ecu_slot list \<Rightarrow> resolve_error + u8 option" where
  "variant_owner vs s [] = Inr None"
| "variant_owner vs s (slot # slots) =
     bindE (map_err ReadingVariants (vs (es_address slot))) (\<lambda>variants.
     if list_ex (\<lambda>v. eq_ignore_ascii_case (va_name v) s) variants then Inr (Some (es_address slot))
     else variant_owner vs s slots)"

definition group_owner :: "ustring \<Rightarrow> ecu_slot list \<Rightarrow> u8 option" where
  "group_owner s slots =
     map_option es_address (find (\<lambda>slot. eq_ignore_ascii_case (es_group_name slot) s
       \<or> list_ex (\<lambda>g. eq_ignore_ascii_case g s) (es_extra_groups slot)) slots)"

definition ecu_resolve :: "ustring \<Rightarrow> catalog option \<Rightarrow> resolve_error + u8" where
  "ecu_resolve spec catalog =
     (let s = trim spec in
      case parse_hex_address s of
        Some a \<Rightarrow> Inr a
      | None \<Rightarrow>
          (case catalog of
             None \<Rightarrow> Inl (UnknownEcu spec)
           | Some c \<Rightarrow>
               bindE (map_err ReadingEcuMap (catalog_ecus c)) (\<lambda>slots.
               case group_owner s slots of
                 Some a \<Rightarrow> Inr a
               | None \<Rightarrow>
                   bindE (variant_owner (ct_variants c) s slots) (\<lambda>owner.
                   ok_or owner (UnknownEcu spec)))))"

record ecu_info =
  eci_address_hex :: ustring
  eci_group_name :: ustring
  eci_extra_groups :: "ustring list"
  eci_title :: "ustring option"
  eci_variants :: "ustring list"

definition hex_address :: "u8 \<Rightarrow> ustring" where
  "hex_address a = ustr ''0x'' @ fmt_hex 2 (unat a)"

fun ecu_infos :: "(u8 \<Rightarrow> ustring + variant_info list) \<Rightarrow> ecu_slot list \<Rightarrow> resolve_error + ecu_info list" where
  "ecu_infos vs [] = Inr []"
| "ecu_infos vs (slot # slots) =
     bindE (map_err ReadingVariants (vs (es_address slot))) (\<lambda>variants.
     bindE (ecu_infos vs slots) (\<lambda>out.
     Inr (\<lparr>eci_address_hex = hex_address (es_address slot), eci_group_name = es_group_name slot,
            eci_extra_groups = es_extra_groups slot, eci_title = es_title slot,
            eci_variants = map va_name variants\<rparr> # out)))"

definition catalog_ecu_infos :: "catalog option \<Rightarrow> resolve_error + ecu_info list" where
  "catalog_ecu_infos catalog =
     (case catalog of
        None \<Rightarrow> Inr []
      | Some c \<Rightarrow> bindE (map_err ReadingEcuMap (catalog_ecus c)) (ecu_infos (ct_variants c)))"

section \<open>The held connection\<close>

datatype vin_source = DidF190 | DiscoveryVin | UnknownVin

fun vin_source_text :: "vin_source \<Rightarrow> ustring" where
  "vin_source_text DidF190 = ustr ''did_f190''"
| "vin_source_text DiscoveryVin = ustr ''discovery''"
| "vin_source_text UnknownVin = ustr ''unknown''"

text \<open>The client of the connection is the requester the operations are given.\<close>

record 'ip connection =
  cn_gateway_ip :: 'ip
  cn_vin :: "ustring option"
  cn_vin_source :: vin_source
  cn_fitted :: "bytes option"

datatype connect_error =
    ConnectFailed client_error
  | DiscoveryFailed client_error

text \<open>Reaching the gateway, directly or by discovery.\<close>

definition open_gateway :: "'ip mcp_env \<Rightarrow> 'ip option \<Rightarrow> connect_error + 'ip gateway option \<times> 'ip" where
  "open_gateway env gateway_ip =
     (let config = server_client_config (ev_config env) in
      case gateway_ip of
        Some ip \<Rightarrow> bindE (map_err ConnectFailed (client_connect (ev_connect env) ip config)) (\<lambda>_. Inr (None, ip))
      | None \<Rightarrow>
          bindE (map_err DiscoveryFailed (discover_and_connect (ev_link_local env)
            (ev_probe env (sc_broadcast (ev_config env))) (ev_connect env) (sc_bind (ev_config env)) config))
            (\<lambda>(_, gateway). Inr (Some gateway, gw_ip gateway)))"

definition DID_VIN :: u16 where "DID_VIN = 0xF190"

definition establish :: "'ip mcp_env \<Rightarrow> 's requester \<Rightarrow> 'ip option \<Rightarrow> 's \<Rightarrow> (connect_error + 'ip connection) \<times> 's" where
  "establish env req gateway_ip s =
     (case open_gateway env gateway_ip of
        Inl e \<Rightarrow> (Inl e, s)
      | Inr (gateway, ip) \<Rightarrow>
     (case read_did req ZGW_ADDRESS DID_VIN s of
        (r, s') \<Rightarrow>
          let did_vin = (case r of Inr (_, raw) \<Rightarrow> dd_text (decode_did DID_VIN raw) | Inl _ \<Rightarrow> None);
              discovery_vin = Option.bind gateway gw_vin
          in (case (case (did_vin, discovery_vin) of
                      (Some v, _) \<Rightarrow> (Some v, DidF190)
                    | (None, Some v) \<Rightarrow> (Some v, DiscoveryVin)
                    | (None, None) \<Rightarrow> (None, UnknownVin)) of
                (vin, source) \<Rightarrow>
                  (Inr \<lparr>cn_gateway_ip = ip, cn_vin = vin, cn_vin_source = source, cn_fitted = None\<rparr>, s'))))"

section \<open>Lookups of the server\<close>

definition sgbd_path :: "'ip mcp_env \<Rightarrow> ustring \<Rightarrow> ustring option" where
  "sgbd_path env variant =
     (case sc_sgbd_dir (ev_config env) of
        None \<Rightarrow> None
      | Some dir \<Rightarrow>
          if variant = [] \<or> path_file_name variant \<noteq> Some variant then None
          else Some (path_join dir (variant @ ustr ''.prg'')))"

text \<open>\<open>Prg::open\<close>: \<open>None\<close> for a file that cannot be read, the parser's error otherwise.\<close>

definition prg_open :: "(ustring \<Rightarrow> bytes option) \<Rightarrow> ustring \<Rightarrow> sgbd_error option + prg" where
  "prg_open read path =
     bindE (ok_or (read path) None) (\<lambda>file. map_err Some (prg_parse file))"

definition measurements_from_sgbd :: "(ustring \<Rightarrow> bytes option) \<Rightarrow> ustring \<Rightarrow> sgbd_error option + measurements" where
  "measurements_from_sgbd read path =
     bindE (prg_open read path) (\<lambda>p.
     Inr (case measurements_from_prg p of None \<Rightarrow> [] | Some m \<Rightarrow> m))"

definition freeze_frame_from_sgbd :: "(ustring \<Rightarrow> bytes option) \<Rightarrow> ustring \<Rightarrow> sgbd_error option + freeze_frame_defs" where
  "freeze_frame_from_sgbd read path = bindE (prg_open read path) (\<lambda>p. Inr (freeze_frame_from_prg p))"

definition functions_from_sgbd :: "(ustring \<Rightarrow> bytes option) \<Rightarrow> ustring \<Rightarrow> sgbd_error option + service_function list" where
  "functions_from_sgbd read path = bindE (prg_open read path) (\<lambda>p. Inr (functions_from_prg p))"

type_synonym sgbd_cache = "ustring \<rightharpoonup> measurements"

text \<open>A variant is parsed once and kept; a failed load is not remembered.\<close>

definition load_measurements :: "'ip mcp_env \<Rightarrow> ustring option \<Rightarrow> sgbd_cache \<Rightarrow> measurements option \<times> sgbd_cache" where
  "load_measurements env variant cache =
     (case variant of
        None \<Rightarrow> (None, cache)
      | Some v \<Rightarrow>
     (case cache v of
        Some hit \<Rightarrow> (Some hit, cache)
      | None \<Rightarrow>
     (case sgbd_path env v of
        None \<Rightarrow> (None, cache)
      | Some path \<Rightarrow>
     (case measurements_from_sgbd (ev_read env) path of
        Inr m \<Rightarrow> (Some m, cache(v \<mapsto> m))
      | Inl _ \<Rightarrow> (None, cache)))))"

definition load_freeze_frame :: "'ip mcp_env \<Rightarrow> ustring option \<Rightarrow> freeze_frame_defs option" where
  "load_freeze_frame env variant =
     Option.bind variant (\<lambda>v. Option.bind (sgbd_path env v) (\<lambda>path. ok_of (freeze_frame_from_sgbd (ev_read env) path)))"

definition load_functions :: "'ip mcp_env \<Rightarrow> ustring \<Rightarrow> service_function list option" where
  "load_functions env v =
     Option.bind (sgbd_path env v) (\<lambda>path. ok_of (functions_from_sgbd (ev_read env) path))"

definition available_variants :: "'ip mcp_env \<Rightarrow> variant_info list \<Rightarrow> ustring list" where
  "available_variants env vs =
     filter (\<lambda>name. case sgbd_path env name of None \<Rightarrow> False | Some p \<Rightarrow> ev_exists env p) (map va_name vs)"

text \<open>The ladder: explicit, else learned, else the only candidate with a file.\<close>

definition resolve_variant ::
    "'ip mcp_env \<Rightarrow> profile_store \<Rightarrow> u8 \<Rightarrow> ustring option \<Rightarrow> catalog option \<Rightarrow> ustring option \<Rightarrow> ustring option" where
  "resolve_variant env store address explicit catalog vin =
     (case explicit of
        Some v \<Rightarrow> Some v
      | None \<Rightarrow>
     (case (case (effective_profile_dir env, vin) of
              (Some dir, Some vin) \<Rightarrow> profile_load store dir vin address | _ \<Rightarrow> None) of
        Some v \<Rightarrow> Some v
      | None \<Rightarrow>
     (case Option.bind catalog (\<lambda>c. ok_of (ct_variants c address)) of
        None \<Rightarrow> None
      | Some vs \<Rightarrow> (case available_variants env vs of [only] \<Rightarrow> Some only | _ \<Rightarrow> None))))"

end
