(* ===== verification/Mcp_Types.thy ===== *)
theory Mcp_Types
  imports Mcp_Env
begin

text \<open>
  The wire types of the MCP tools (\<open>mcp/src/dto.rs\<close>), the errors, and the functions of
  \<open>mcp/src/server.rs\<close> that read and write the texts in them. A record has the fields of its struct;
  notes for a human are left out, except where they say which case the code took.
\<close>

section \<open>Errors\<close>

text \<open>\<open>McpError\<close> with what its text is made from.\<close>

datatype mcp_reason =
    BadGatewayIp ustring
  | EstablishFailed connect_error
  | BadEcu resolve_error
  | NotConnected
  | ReadingDtcs client_error
  | ReadingInfoMemory client_error
  | BadDtcCode ustring
  | ReadingFaultDetail ustring client_error
  | ReadingIdentity client_error
  | ClearRefused ustring
  | ClearAllRefused
  | PreReadFailed client_error
  | ClearFailed client_error
  | NoSgbd ustring
  | NeedVariant u8 "variant_info list"
  | NeedVariantOrEcu
  | OneOfDidOrName
  | BadDid ustring
  | NameNeedsVariant
  | NoSuchMeasurement ustring ustring
  | AmbiguousName ustring ustring "u16 list"
  | ForeignMeasurement u16 u8
  | ReadingMeasurement u16 client_error
  | ReadingDid u16 client_error
  | LoadingSgbd ustring "sgbd_error option"
  | DynamicMeasurement ustring
  | JobRefused ustring u8
  | JobFailed ustring run_error
  | ReadingMeasurementCatalog ustring
  | BadRisk ustring
  | ReadingSvt client_error

datatype mcp_error =
    InvalidParams mcp_reason
  | InvalidRequest mcp_reason
  | InternalError mcp_reason

section \<open>Texts\<close>

definition hex_bytes :: "bytes \<Rightarrow> ustring" where
  "hex_bytes bs = join_with (ustr '' '') (map (\<lambda>b. fmt_hex 2 (unat b)) bs)"

definition code_hex :: "code3 \<Rightarrow> ustring" where
  "code_hex code = (case code of (a, b, c) \<Rightarrow> fmt_hex 2 (unat a) @ fmt_hex 2 (unat b) @ fmt_hex 2 (unat c))"

definition dtc_code_hex :: "dtc \<Rightarrow> ustring" where
  "dtc_code_hex d = code_hex (dtc_code d)"

definition hex_u16 :: "u16 \<Rightarrow> ustring" where
  "hex_u16 w = fmt_hex 4 (unat w)"

text \<open>
  The three bytes of a code: the blanks are dropped, then there must be six hex digits. The length
  the code takes is in UTF-8 bytes, which for hex digits is the number of characters.
\<close>

definition parse_dtc_code :: "ustring \<Rightarrow> mcp_reason + code3" where
  "parse_dtc_code code =
     (let trimmed = trim code;
          body = (case strip_0x trimmed of Some h \<Rightarrow> h | None \<Rightarrow> trimmed);
          hex = filter (\<lambda>c. \<not> is_whitespace c) body
      in if utf8_len hex \<noteq> 6 \<or> \<not> list_all is_ascii_hexdigit hex then Inl (BadDtcCode code)
         else case map (\<lambda>i. parse_u8 16 (take 2 (drop i hex))) [0, 2, 4] of
           [Some a, Some b, Some c] \<Rightarrow> Inr (word_of_int a, word_of_int b, word_of_int c)
         | _ \<Rightarrow> Inl (BadDtcCode code))"

definition parse_sg_adr :: "ustring \<Rightarrow> u8 option" where
  "parse_sg_adr s =
     (let t = trim s; hex = (case strip_0x t of Some h \<Rightarrow> h | None \<Rightarrow> t)
      in map_option word_of_int (parse_u8 16 hex))"

definition parse_hex_u16 :: "ustring \<Rightarrow> mcp_reason + u16" where
  "parse_hex_u16 s =
     (let t = trim s; hex = (case strip_0x t of Some h \<Rightarrow> h | None \<Rightarrow> t)
      in ok_or (map_option word_of_int (parse_int 16 0 65535 hex)) (BadDid s))"

definition parse_risk :: "ustring \<Rightarrow> mcp_reason + risk" where
  "parse_risk s =
     (let t = to_ascii_lowercase (trim s) in
      if t = ustr ''low'' then Inr Low else if t = ustr ''high'' then Inr High else Inl (BadRisk t))"

fun category_slug :: "category \<Rightarrow> ustring" where
  "category_slug CbsReset = ustr ''cbs_reset''"
| "category_slug StatisticReset = ustr ''statistic_reset''"
| "category_slug LearnedValueReset = ustr ''learned_value_reset''"
| "category_slug ActuatorControl = ustr ''actuator_control''"
| "category_slug Calibration = ustr ''calibration''"

section \<open>Faults\<close>

record fault_description =
  fde_variant :: ustring
  fde_saecode :: "ustring option"
  fde_text :: "ustring option"

record fault_info =
  fi_code_hex :: ustring
  fi_status_hex :: ustring
  fi_status_flags :: "ustring list"
  fi_descriptions :: "fault_description list"

text \<open>\<open>.and_then(|c| query.ok()).unwrap_or_default()\<close>\<close>

definition rows_of :: "catalog option \<Rightarrow> (catalog \<Rightarrow> ustring + 'a list) \<Rightarrow> 'a list" where
  "rows_of c query = (case Option.bind c (\<lambda>c. ok_of (query c)) of None \<Rightarrow> [] | Some rows \<Rightarrow> rows)"

definition describe_faults :: "catalog option \<Rightarrow> u8 \<Rightarrow> code3 \<Rightarrow> fault_description list" where
  "describe_faults catalog address code =
     map (\<lambda>d. \<lparr>fde_variant = xd_ecu_variant d, fde_saecode = xd_saecode d,
               fde_text = or_else (xd_title_en d) (xd_title_de d)\<rparr>)
       (rows_of catalog (\<lambda>c. ct_describe_dtc c address code))"

definition fault_info_of :: "dtc \<Rightarrow> u8 \<Rightarrow> catalog option \<Rightarrow> fault_info" where
  "fault_info_of d address catalog =
     \<lparr>fi_code_hex = dtc_code_hex d, fi_status_hex = fmt_hex 2 (unat (dtc_status d)),
      fi_status_flags = status_flags (dtc_status d),
      fi_descriptions = describe_faults catalog address (dtc_code d)\<rparr>"

definition ecu_names :: "u8 \<Rightarrow> catalog option \<Rightarrow> ustring option \<times> ustring option" where
  "ecu_names address catalog =
     (case Option.bind (Option.bind catalog (\<lambda>c. ok_of (catalog_ecus c)))
             (find (\<lambda>s. es_address s = address)) of
        None \<Rightarrow> (None, None)
      | Some slot \<Rightarrow> (Some (es_group_name slot), es_title slot))"

record read_faults_request =
  rfq_ecu :: ustring
  rfq_include_not_tested :: bool

record read_faults_result =
  rfr_ecu :: ustring
  rfr_address :: ustring
  rfr_count :: nat
  rfr_faults :: "fault_info list"
  rfr_not_tested_count :: nat
  rfr_db_available :: bool

record info_memory_result =
  imr_ecu :: ustring
  imr_address :: ustring
  imr_supported :: bool
  imr_version :: "u8 option"
  imr_entries :: "fault_info list"
  imr_raw_hex :: ustring
  imr_db_available :: bool

record fault_detail_request =
  fdq_ecu :: ustring
  fdq_code :: ustring
  fdq_variant :: "ustring option"

record snapshot_field_info =
  sfi_id_hex :: ustring
  sfi_label :: ustring
  sfi_value :: "f64 option"
  sfi_unit :: "ustring option"
  sfi_available :: bool
  sfi_raw_hex :: ustring

record ext_data_field_info =
  xfi_record_hex :: ustring
  xfi_label :: ustring
  xfi_value :: "int option"
  xfi_raw_hex :: ustring

datatype detail_note =
    NoSnapshotStored
  | SnapshotRaw nat
  | SnapshotTail nat
  | NoExtDataStored
  | ExtDataTail nat
  | Provisional

record fault_detail_result =
  fdr_ecu :: ustring
  fdr_address :: ustring
  fdr_code_hex :: ustring
  fdr_descriptions :: "fault_description list"
  fdr_snapshot :: "snapshot_field_info list"
  fdr_extended :: "ext_data_field_info list"
  fdr_severity_hex :: "ustring option"
  fdr_functional_unit_hex :: "ustring option"
  fdr_sgbd_available :: bool
  fdr_notes :: "detail_note list"

definition tail_note :: "(nat \<Rightarrow> detail_note) \<Rightarrow> bytes option \<Rightarrow> detail_note list" where
  "tail_note n t = (case t of None \<Rightarrow> [] | Some b \<Rightarrow> [n (length b)])"

definition decode_snapshot_dtos ::
    "dtc_record_region option \<Rightarrow> freeze_frame_defs option \<Rightarrow> catalog option \<Rightarrow> snapshot_field_info list \<times> detail_note list" where
  "decode_snapshot_dtos region defs catalog =
     (case region of
        None \<Rightarrow> ([], [NoSnapshotStored])
      | Some r \<Rightarrow>
     (case defs of
        None \<Rightarrow> ([], [SnapshotRaw (length (region_body r))])
      | Some d \<Rightarrow>
          let decoded = decode_snapshot (ff_snapshot d) r (catalog_labels catalog) in
          (map (\<lambda>f. \<lparr>sfi_id_hex = hex_u16 (sf_uwnr f), sfi_label = sf_label f, sfi_value = sf_value f,
                     sfi_unit = sf_unit f, sfi_available = sf_available f, sfi_raw_hex = hex_bytes (sf_raw f)\<rparr>)
             (ds_fields decoded),
           tail_note SnapshotTail (ds_undecoded_tail decoded))))"

definition decode_ext_dtos ::
    "dtc_record_region option \<Rightarrow> freeze_frame_defs option \<Rightarrow> ext_data_field_info list \<times> detail_note list" where
  "decode_ext_dtos region defs =
     (case region of
        None \<Rightarrow> ([], [NoExtDataStored])
      | Some r \<Rightarrow>
     (case defs of
        None \<Rightarrow> ([], [])
      | Some d \<Rightarrow>
          let decoded = decode_ext_data (ff_extended d) r in
          (map (\<lambda>f. \<lparr>xfi_record_hex = fmt_hex 2 (unat (xf_record f)), xfi_label = xf_label f,
                     xfi_value = xf_value f, xfi_raw_hex = hex_bytes (xf_raw f)\<rparr>)
             (dx_records decoded),
           tail_note ExtDataTail (dx_undecoded_tail decoded))))"

record fault_help_request =
  fhq_ecu :: ustring
  fhq_code :: ustring

record fault_doc_dto =
  fod_title :: "ustring option"
  fod_infotype :: "ustring option"
  fod_docnumber :: "ustring option"
  fod_safety_relevant :: bool
  fod_infoobject_id :: int

datatype help_note = HelpNoDb | HelpNoDocs | HelpLinked nat

record fault_help_result =
  fhr_ecu :: ustring
  fhr_code_hex :: ustring
  fhr_descriptions :: "fault_description list"
  fhr_docs :: "fault_doc_dto list"
  fhr_body :: "ustring list"
  fhr_note :: help_note

section \<open>Clears\<close>

record clear_faults_request =
  cfq_ecu :: ustring
  cfq_confirm :: bool
  cfq_reset :: bool

record clear_faults_result =
  cfr_ecu :: ustring
  cfr_address :: ustring
  cfr_cleared :: bool
  cfr_reset_performed :: "bool option"
  cfr_reset_error :: "client_error option"
  cfr_codes_cleared :: "ustring list"
  cfr_count :: nat

record clear_all_faults_request =
  caq_confirm :: bool
  caq_reset :: bool
  caq_rescan :: bool

record ecu_clear_info =
  eli_address_hex :: ustring
  eli_codes_before :: "ustring list"
  eli_verified_clean :: bool
  eli_reset_performed :: "bool option"
  eli_reset_error :: "client_error option"
  eli_error :: "report_error option"

text \<open>The note of the whole-car clear: of how many eligible ECUs the reset succeeded, if asked for.\<close>

record clear_all_faults_result =
  car_ecus :: "ecu_clear_info list"
  car_cleared_clean :: nat
  car_reset_note :: "(nat \<times> nat) option"

section \<open>Reading data\<close>

record read_data_request =
  rdq_ecu :: ustring
  rdq_did :: "ustring option"
  rdq_name :: "ustring option"
  rdq_variant :: "ustring option"

datatype read_data_note =
    StandardPid
  | ScaledBySgbd
  | FoundButUnscaled
  | NotInSgbd ustring
  | BmwSpecific
  | NamedDid

record read_data_result =
  rdr_ecu :: ustring
  rdr_address :: ustring
  rdr_did_hex :: ustring
  rdr_name :: "ustring option"
  rdr_value_text :: "ustring option"
  rdr_scaled_value :: "f64 option"
  rdr_unit :: "ustring option"
  rdr_raw_hex :: ustring
  rdr_note :: read_data_note

definition resolve_read_target ::
    "(ustring \<Rightarrow> ustring) \<Rightarrow> read_data_request \<Rightarrow> ustring option \<Rightarrow> measurements option \<Rightarrow> mcp_reason + u16" where
  "resolve_read_target lower req variant ms =
     (case (rdq_did req, rdq_name req) of
        (Some did, None) \<Rightarrow> parse_hex_u16 did
      | (None, Some name) \<Rightarrow>
          (case variant of
             None \<Rightarrow> Inl NameNeedsVariant
           | Some v \<Rightarrow>
               bindE (ok_or ms (NoSgbd v)) (\<lambda>catalog.
               case find_by_name lower catalog name of
                 [] \<Rightarrow> Inl (NoSuchMeasurement name v)
               | [only] \<Rightarrow> Inr (ms_id only)
               | several \<Rightarrow> Inl (AmbiguousName name v (map ms_id several))))
      | _ \<Rightarrow> Inl OneOfDidOrName)"

section \<open>Jobs\<close>

record run_job_request =
  rjq_ecu :: ustring
  rjq_variant :: "ustring option"
  rjq_job :: ustring
  rjq_args :: "ustring list"

record named_value =
  nv_name :: ustring
  nv_value :: ustring
  nv_kind :: ustring

record run_job_result =
  rjr_ecu :: ustring
  rjr_address :: ustring
  rjr_variant :: ustring
  rjr_job :: ustring
  rjr_sets :: "named_value list list"
  rjr_total :: nat
  rjr_note :: "(nat \<times> nat) option"       \<comment> \<open>shown and total, when capped\<close>

definition MAX_RUN_JOB_RESULTS :: nat where "MAX_RUN_JOB_RESULTS = 200"

definition named_value_of :: "(f64 \<Rightarrow> ustring) \<Rightarrow> ustring \<times> result_data \<Rightarrow> named_value" where
  "named_value_of show nd =
     (case nd of (name, d) \<Rightarrow>
        case (case d of
                RByte b \<Rightarrow> (fmt_int (uint b), ustr ''B'')
              | RWord w \<Rightarrow> (fmt_int (uint w), ustr ''W'')
              | RDword w \<Rightarrow> (fmt_int (uint w), ustr ''D'')
              | RInt i \<Rightarrow> (fmt_int (sint i), ustr ''I'')
              | RReal r \<Rightarrow> (show r, ustr ''R'')
              | RText t \<Rightarrow> (t, ustr ''S'')
              | RBinary bs \<Rightarrow> (hex_bytes bs, ustr ''Y'')) of
          (rendered, kind) \<Rightarrow> \<lparr>nv_name = name, nv_value = rendered, nv_kind = kind\<rparr>)"

text \<open>The loops over the sets and their values, with the number emitted so far.\<close>

fun surface_sets :: "(f64 \<Rightarrow> ustring) \<Rightarrow> nat \<Rightarrow> result_set \<Rightarrow> named_value list list" where
  "surface_sets show emitted [] = []"
| "surface_sets show emitted (vals # sets) =
     (if MAX_RUN_JOB_RESULTS \<le> emitted then []
      else let out = map (named_value_of show) (take (MAX_RUN_JOB_RESULTS - emitted) vals) in
           out # surface_sets show (emitted + length out) sets)"

definition surface_run_job :: "(f64 \<Rightarrow> ustring) \<Rightarrow> result_set \<Rightarrow> named_value list list \<times> nat \<times> (nat \<times> nat) option" where
  "surface_run_job show results =
     (let tot = sum_list (map length results);
          sets = surface_sets show 0 results;
          emitted = length (concat sets)
      in (sets, tot, if emitted < tot then Some (emitted, tot) else None))"

definition run_error_to_mcp :: "ustring \<Rightarrow> run_error \<Rightarrow> mcp_error" where
  "run_error_to_mcp job e =
     (case e of
        RunExchange (Refused sid _) \<Rightarrow> InvalidRequest (JobRefused job sid)
      | _ \<Rightarrow> InternalError (JobFailed job e))"

section \<open>Lists\<close>

record measurement_info =
  mi_id_hex :: ustring
  mi_name :: ustring
  mi_arg :: ustring
  mi_result_name :: ustring
  mi_unit :: ustring
  mi_ecu_address :: ustring
  mi_source :: ustring
  mi_job :: "ustring option"

definition measurement_info_of :: "measurement \<Rightarrow> measurement_info" where
  "measurement_info_of m =
     \<lparr>mi_id_hex = hex_u16 (ms_id m), mi_name = ms_name m, mi_arg = ms_arg m,
      mi_result_name = ms_result_name m, mi_unit = ms_unit m,
      mi_ecu_address = (case parse_sg_adr (ms_sg_adr m) of Some a \<Rightarrow> hex_address a | None \<Rightarrow> ms_sg_adr m),
      mi_source = ustr ''sgbd'', mi_job = None\<rparr>"

definition catalog_measurement_info :: "measurement_entry \<Rightarrow> ustring \<Rightarrow> measurement_info" where
  "catalog_measurement_info e ecu_address =
     \<lparr>mi_id_hex = [], mi_name = me_name e, mi_arg = [], mi_result_name = me_name e,
      mi_unit = (case me_unit e of None \<Rightarrow> ustr ''-'' | Some u \<Rightarrow> u), mi_ecu_address = ecu_address,
      mi_source = ustr ''ista_catalog'', mi_job = me_job e\<rparr>"

text \<open>Collecting pairs into a hash map keeps the last job of a name.\<close>

definition catalog_jobs :: "measurement_entry list \<Rightarrow> ustring \<rightharpoonup> ustring" where
  "catalog_jobs entries =
     fold (\<lambda>e jobs. case me_job e of None \<Rightarrow> jobs | Some j \<Rightarrow> jobs(me_name e \<mapsto> j)) entries Map.empty"

definition enrich_with_catalog_jobs :: "measurement_entry list \<Rightarrow> measurement_info list \<Rightarrow> measurement_info list" where
  "enrich_with_catalog_jobs entries infos =
     map (\<lambda>i. if mi_job i = None then i\<lparr>mi_job := catalog_jobs entries (mi_result_name i)\<rparr> else i) infos"

definition MAX_LISTED_MEASUREMENTS :: nat where "MAX_LISTED_MEASUREMENTS = 200"

record list_measurements_request =
  lmq_variant :: "ustring option"
  lmq_ecu :: "ustring option"
  lmq_search :: "ustring option"

record list_measurements_result =
  lmr_variant :: ustring
  lmr_measurements :: "measurement_info list"
  lmr_count :: nat
  lmr_total :: nat

record service_function_info =
  sfn_label :: ustring
  sfn_name :: ustring
  sfn_category :: ustring
  sfn_risk :: ustring
  sfn_derivation :: ustring
  sfn_citation :: "ustring option"
  sfn_runnable_in_cli :: bool

definition service_function_info_of :: "service_function \<Rightarrow> service_function_info" where
  "service_function_info_of f =
     (let low = (sv_risk f = Low); derived = is_derived (sv_derivation f) in
      \<lparr>sfn_label = sv_label f, sfn_name = sv_name f, sfn_category = category_slug (sv_category f),
       sfn_risk = (if low then ustr ''low'' else ustr ''high''),
       sfn_derivation = derivation_status (sv_derivation f),
       sfn_citation = derivation_citation (sv_derivation f), sfn_runnable_in_cli = (low \<and> derived)\<rparr>)"

record list_functions_request =
  lfq_variant :: "ustring option"
  lfq_ecu :: "ustring option"
  lfq_risk :: "ustring option"

record list_functions_result =
  lfr_variant :: ustring
  lfr_functions :: "service_function_info list"
  lfr_count :: nat

record list_ecus_result =
  ler_ecus :: "ecu_info list"
  ler_db_available :: bool
  ler_db_error :: "resolve_error option"

section \<open>The car\<close>

record configured_ecu_info =
  cei_address_hex :: ustring
  cei_group_name :: "ustring option"
  cei_title :: "ustring option"
  cei_responding :: "bool option"
  cei_ista_name :: "ustring option"
  cei_bus :: "ustring option"
  cei_minimal :: "bool option"

record scan_ecus_result =
  ser_ecus :: "configured_ecu_info list"
  ser_configured_count :: nat
  ser_responding_count :: "nat option"
  ser_bordnet_series :: "ustring option"
  ser_cached :: bool                        \<comment> \<open>the case of the note\<close>

record ecu_faults_info =
  efi_address_hex :: ustring
  efi_title :: "ustring option"
  efi_faults :: "fault_info list"
  efi_not_tested_count :: nat
  efi_error :: "client_error option"

record read_all_faults_result =
  rar_ecus :: "ecu_faults_info list"
  rar_total_relevant :: nat
  rar_db_available :: bool

record id_field_dto =
  idf_did_hex :: ustring
  idf_name :: "ustring option"
  idf_text :: "ustring option"
  idf_raw_hex :: ustring

record ecu_ident_dto =
  eid_address_hex :: ustring
  eid_name :: "ustring option"
  eid_fields :: "id_field_dto list"

record vehicle_order_dto =
  vod_version :: "u16 option"
  vod_baureihe :: "ustring option"
  vod_typ_schluessel :: "ustring option"
  vod_lackcode :: "ustring option"
  vod_polstercode :: "ustring option"
  vod_build_date :: "ustring option"
  vod_options :: "ustring list"
  vod_raw_hex :: ustring

record vehicle_identity_result =
  vir_vin :: "ustring option"
  vir_i_stufe :: "ustring option"
  vir_vehicle_order :: vehicle_order_dto
  vir_ecus :: "configured_ecu_info list"
  vir_identification :: "ecu_ident_dto list"

record connect_result =
  cor_connected :: bool
  cor_gateway_ip :: ustring
  cor_vin :: "ustring option"
  cor_vin_source :: ustring
  cor_target_ecu :: ustring

text \<open>
  The tree of the platform an I-Stufe level names; of several entries for an address the map keeps
  the last. The series ladder panics on a date that overflows, which here is no tree.
\<close>

definition tree_map :: "ecu_tree_entry list \<Rightarrow> u8 \<rightharpoonup> ecu_tree_entry" where
  "tree_map entries = fold (\<lambda>e m. m(et_address e \<mapsto> e)) entries Map.empty"

definition ecu_tree_for_level ::
    "catalog option \<Rightarrow> ustring option \<Rightarrow> (ustring \<times> (u8 \<rightharpoonup> ecu_tree_entry)) option" where
  "ecu_tree_for_level catalog level =
     Option.bind catalog (\<lambda>cat.
     Option.bind level (\<lambda>level.
     Option.bind (ok_of (ct_ecu_tree_series cat)) (\<lambda>known.
     Option.bind (Option.bind (bordnet_series_for level known) id) (\<lambda>series.
     Option.bind (ok_of (ct_ecu_tree cat series)) (\<lambda>entries.
     if entries = [] then None else Some (series, tree_map entries))))))"

definition configured_ecu ::
    "(u8 \<rightharpoonup> ecu_tree_entry) option \<Rightarrow> u8 \<Rightarrow> ustring option \<Rightarrow> ustring option \<Rightarrow> bool option \<Rightarrow> configured_ecu_info" where
  "configured_ecu tree address group_name title responding =
     (let entry = Option.bind tree (\<lambda>m. m address) in
      \<lparr>cei_address_hex = hex_address address, cei_group_name = group_name, cei_title = title,
       cei_responding = responding, cei_ista_name = Option.bind entry et_name,
       cei_bus = Option.bind entry (\<lambda>e. or_else (et_bus_label e) (et_bus e)),
       cei_minimal = map_option et_minimal entry\<rparr>)"

end
