(* ===== verification/Mcp_Server.thy ===== *)
theory Mcp_Server
  imports Mcp_Types
begin

text \<open>
  The tools of the MCP server, \<open>mcp/src/server.rs\<close>, one definition per handler, and the server as
  the sequence of the calls it serves. The state is the held connection, the cache of parsed
  SGBDs and the profile files; \<open>'s\<close> is the world behind the client of the connection, the car
  included, and \<open>req\<close> makes one UDS request of it. A handler holds the lock of the connection
  while it talks to the car, so a call is one step.
\<close>

record 'ip mcp_state =
  mc_conn :: "'ip connection option"
  mc_cache :: sgbd_cache
  mc_profiles :: profile_store

definition mcp_new :: "'ip mcp_state" where
  "mcp_new = \<lparr>mc_conn = None, mc_cache = Map.empty, mc_profiles = Map.empty\<rparr>"

type_synonym ('ip, 's, 'a) tool = "('ip mcp_state \<times> 's, mcp_error, 'a) action"

definition getT :: "('ip mcp_state \<Rightarrow> 'a) \<Rightarrow> ('ip, 's, 'a) tool" where
  "getT f ms = (Inr (f (fst ms)), ms)"

definition modifyT :: "('ip mcp_state \<Rightarrow> 'ip mcp_state) \<Rightarrow> ('ip, 's, unit) tool" where
  "modifyT f ms = (Inr (), (f (fst ms), snd ms))"

text \<open>An operation of the client, with the error it becomes; and its outcome as a value.\<close>

definition clientT :: "('e \<Rightarrow> mcp_error) \<Rightarrow> ('s, 'e, 'a) action \<Rightarrow> ('ip, 's, 'a) tool" where
  "clientT f m ms = (case m (snd ms) of (r, s') \<Rightarrow> (map_err f r, (fst ms, s')))"

definition tryT :: "('s, 'e, 'a) action \<Rightarrow> ('ip, 's, 'e + 'a) tool" where
  "tryT m ms = (case m (snd ms) of (r, s') \<Rightarrow> (Inr r, (fst ms, s')))"

definition connectedT :: "('ip, 's, 'ip connection) tool" where
  "connectedT = bindS (getT mc_conn) (\<lambda>c. liftS (ok_or c (InvalidRequest NotConnected)))"

definition resolveT :: "'ip mcp_env \<Rightarrow> ustring \<Rightarrow> ('ip, 's, u8) tool" where
  "resolveT env spec = liftS (map_err (InvalidParams \<circ> BadEcu) (ecu_resolve spec (ev_catalog env)))"

definition paramT :: "mcp_reason + 'a \<Rightarrow> ('ip, 's, 'a) tool" where
  "paramT r = liftS (map_err InvalidParams r)"

text \<open>The cached catalog of a variant, and the variant of an ECU.\<close>

definition measurementsT :: "'ip mcp_env \<Rightarrow> ustring option \<Rightarrow> ('ip, 's, measurements option) tool" where
  "measurementsT env variant ms =
     (case load_measurements env variant (mc_cache (fst ms)) of
        (m, cache) \<Rightarrow> (Inr m, ((fst ms)\<lparr>mc_cache := cache\<rparr>, snd ms)))"

definition variantT :: "'ip mcp_env \<Rightarrow> u8 \<Rightarrow> ustring option \<Rightarrow> ('ip, 's, ustring option) tool" where
  "variantT env address explicit =
     getT (\<lambda>m. resolve_variant env (mc_profiles m) address explicit (ev_catalog env)
                 (Option.bind (mc_conn m) cn_vin))"

definition needed_variant :: "'ip mcp_env \<Rightarrow> u8 \<Rightarrow> ustring option \<Rightarrow> ('ip, 's, ustring) tool" where
  "needed_variant env address v =
     paramT (ok_or v (NeedVariant address (rows_of (ev_catalog env) (\<lambda>c. ct_variants c address))))"

definition resolve_list_variant :: "'ip mcp_env \<Rightarrow> ustring option \<Rightarrow> ustring option \<Rightarrow> ('ip, 's, ustring) tool" where
  "resolve_list_variant env variant ecu =
     (case variant of
        Some v \<Rightarrow> returnS v
      | None \<Rightarrow>
     (case ecu of
        None \<Rightarrow> paramT (Inl NeedVariantOrEcu)
      | Some e \<Rightarrow>
          bindS (resolveT env e) (\<lambda>address.
          bindS (variantT env address None) (needed_variant env address))))"

section \<open>Connecting\<close>

definition connect_tool :: "'ip mcp_env \<Rightarrow> 's requester \<Rightarrow> ustring option \<Rightarrow> ('ip, 's, connect_result) tool" where
  "connect_tool env req gateway_ip =
     bindS (case gateway_ip of
              Some t \<Rightarrow> paramT (map_sum id Some (ok_or (ev_parse_ip env t) (BadGatewayIp t)))
            | None \<Rightarrow> returnS (sc_gateway_ip (ev_config env))) (\<lambda>ip.
     bindS (clientT (InternalError \<circ> EstablishFailed) (establish env req ip)) (\<lambda>conn.
     bindS (modifyT (\<lambda>m. m\<lparr>mc_conn := Some conn\<rparr>)) (\<lambda>_.
     returnS \<lparr>cor_connected = True, cor_gateway_ip = ev_show_ip env (cn_gateway_ip conn),
              cor_vin = cn_vin conn, cor_vin_source = vin_source_text (cn_vin_source conn),
              cor_target_ecu = ustr ''gateway (ZGW '' @ hex_address ZGW_ADDRESS @ ustr '')''\<rparr>)))"

definition disconnect_tool :: "('ip, 's, bool) tool" where
  "disconnect_tool =
     bindS (getT (\<lambda>m. mc_conn m \<noteq> None)) (\<lambda>was.
     bindS (modifyT (\<lambda>m. m\<lparr>mc_conn := None\<rparr>)) (\<lambda>_. returnS was))"

section \<open>Reading faults\<close>

definition read_faults :: "'ip mcp_env \<Rightarrow> 's requester \<Rightarrow> read_faults_request \<Rightarrow> ('ip, 's, read_faults_result) tool" where
  "read_faults env req q =
     bindS (resolveT env (rfq_ecu q)) (\<lambda>address.
     bindS connectedT (\<lambda>_.
     bindS (clientT (InternalError \<circ> ReadingDtcs) (read_all_dtcs req address)) (\<lambda>dtcs.
     let shown = (if rfq_include_not_tested q then dtcs else filter dtc_is_relevant dtcs) in
     returnS \<lparr>rfr_ecu = rfq_ecu q, rfr_address = hex_address address, rfr_count = length shown,
              rfr_faults = map (\<lambda>d. fault_info_of d address (ev_catalog env)) shown,
              rfr_not_tested_count = length (filter (\<lambda>d. \<not> dtc_is_relevant d) dtcs),
              rfr_db_available = (ev_catalog env \<noteq> None)\<rparr>)))"

definition read_info_memory_tool :: "'ip mcp_env \<Rightarrow> 's requester \<Rightarrow> ustring \<Rightarrow> ('ip, 's, info_memory_result) tool" where
  "read_info_memory_tool env req ecu =
     bindS (resolveT env ecu) (\<lambda>address.
     bindS connectedT (\<lambda>_.
     bindS (clientT (InternalError \<circ> ReadingInfoMemory) (read_info_memory req address)) (\<lambda>info.
     returnS \<lparr>imr_ecu = ecu, imr_address = hex_address address, imr_supported = (info \<noteq> None),
              imr_version = Option.bind info im_version,
              imr_entries = (case info of None \<Rightarrow> []
                | Some m \<Rightarrow> map (\<lambda>d. fault_info_of d address (ev_catalog env)) (im_entries m)),
              imr_raw_hex = (case info of None \<Rightarrow> [] | Some m \<Rightarrow> hex_bytes (im_raw m)),
              imr_db_available = (ev_catalog env \<noteq> None)\<rparr>)))"

definition read_fault_detail_tool ::
    "'ip mcp_env \<Rightarrow> 's requester \<Rightarrow> fault_detail_request \<Rightarrow> ('ip, 's, fault_detail_result) tool" where
  "read_fault_detail_tool env req q =
     bindS (resolveT env (fdq_ecu q)) (\<lambda>address.
     bindS (paramT (parse_dtc_code (fdq_code q))) (\<lambda>code.
     bindS (variantT env address (fdq_variant q)) (\<lambda>variant.
     let defs = load_freeze_frame env variant in
     bindS (case (fdq_variant q, defs) of (Some v, None) \<Rightarrow> paramT (Inl (NoSgbd v)) | _ \<Rightarrow> returnS ()) (\<lambda>_.
     bindS connectedT (\<lambda>_.
     bindS (clientT (InternalError \<circ> ReadingFaultDetail (fdq_code q)) (read_fault_detail req address code)) (\<lambda>detail.
     case decode_snapshot_dtos (fd_snapshot detail) defs (ev_catalog env) of (snapshot, notes1) \<Rightarrow>
     case decode_ext_dtos (fd_extended detail) defs of (extended, notes2) \<Rightarrow>
     returnS \<lparr>fdr_ecu = fdq_ecu q, fdr_address = hex_address address, fdr_code_hex = code_hex code,
              fdr_descriptions = describe_faults (ev_catalog env) address code,
              fdr_snapshot = snapshot, fdr_extended = extended,
              fdr_severity_hex = map_option (\<lambda>v. fmt_hex 2 (unat (sev_severity v))) (fd_severity detail),
              fdr_functional_unit_hex =
                map_option (\<lambda>v. fmt_hex 2 (unat (sev_functional_unit v))) (fd_severity detail),
              fdr_sgbd_available = (defs \<noteq> None), fdr_notes = notes1 @ notes2 @ [Provisional]\<rparr>))))))"

text \<open>The documentation of a fault needs no connection.\<close>

definition fault_help_tool :: "'ip mcp_env \<Rightarrow> fault_help_request \<Rightarrow> ('ip, 's, fault_help_result) tool" where
  "fault_help_tool env q =
     bindS (resolveT env (fhq_ecu q)) (\<lambda>address.
     bindS (paramT (parse_dtc_code (fhq_code q))) (\<lambda>code.
     let docs = map (\<lambda>d. \<lparr>fod_title = fo_title d, fod_infotype = fo_infotype d,
                          fod_docnumber = fo_docnumber d, fod_safety_relevant = fo_safety_relevant d,
                          fod_infoobject_id = fo_infoobject_id d\<rparr>)
                  (rows_of (ev_catalog env) (\<lambda>c. ct_fault_help c address code)) in
     returnS \<lparr>fhr_ecu = fhq_ecu q, fhr_code_hex = code_hex code,
              fhr_descriptions = describe_faults (ev_catalog env) address code, fhr_docs = docs,
              fhr_body = rows_of (ev_catalog env) (\<lambda>c. ct_fault_body c address code),
              fhr_note = (if ev_catalog env = None then HelpNoDb
                          else if docs = [] then HelpNoDocs else HelpLinked (length docs))\<rparr>))"

section \<open>Identity\<close>

definition catalog_slots :: "catalog option \<Rightarrow> ecu_slot list option" where
  "catalog_slots catalog = Option.bind catalog (\<lambda>c. ok_of (catalog_ecus c))"

definition identify_vehicle_tool :: "'ip mcp_env \<Rightarrow> 's requester \<Rightarrow> ('ip, 's, vehicle_identity_result) tool" where
  "identify_vehicle_tool env req =
     bindS connectedT (\<lambda>_.
     bindS (clientT (InternalError \<circ> ReadingIdentity) (identify_vehicle req)) (\<lambda>identity.
     let slots = catalog_slots (ev_catalog env);
         tree = map_option snd (ecu_tree_for_level (ev_catalog env) (vi_i_stufe identity));
         fa = decode_vehicle_order (vi_vehicle_order_raw identity) in
     returnS
       \<lparr>vir_vin = vi_vin identity, vir_i_stufe = vi_i_stufe identity,
        vir_vehicle_order =
          \<lparr>vod_version = vo_version fa, vod_baureihe = vo_baureihe fa, vod_typ_schluessel = vo_typ_schluessel fa,
           vod_lackcode = vo_lackcode fa, vod_polstercode = vo_polstercode fa,
           vod_build_date = vo_build_date fa, vod_options = vo_options fa, vod_raw_hex = hex_bytes (vo_raw fa)\<rparr>,
        vir_ecus = map (\<lambda>n. configured_ecu tree (ne_address n) (ne_name n) (ne_title n) None)
                     (name_ecu_list slots (vi_ecus identity)),
        vir_identification =
          map (\<lambda>block.
            \<lparr>eid_address_hex = hex_address (ei_address block),
             eid_name = (case name_ecu_list slots [ei_address block] of [] \<Rightarrow> None | n # _ \<Rightarrow> ne_name n),
             eid_fields =
               map (\<lambda>f. let d = decode_did (if_did f) (if_raw f) in
                      \<lparr>idf_did_hex = hex_u16 (if_did f), idf_name = dd_name d, idf_text = dd_text d,
                       idf_raw_hex = hex_bytes (if_raw f)\<rparr>) (ei_fields block)\<rparr>)
            (vi_identification identity)\<rparr>))"

section \<open>Clearing one ECU\<close>

definition clear_faults :: "'ip mcp_env \<Rightarrow> 's requester \<Rightarrow> clear_faults_request \<Rightarrow> ('ip, 's, clear_faults_result) tool" where
  "clear_faults env req q =
     (if \<not> cfq_confirm q then paramT (Inl (ClearRefused (cfq_ecu q)))
      else
        bindS (resolveT env (cfq_ecu q)) (\<lambda>address.
        bindS connectedT (\<lambda>_.
        bindS (clientT (InternalError \<circ> PreReadFailed) (read_all_dtcs req address)) (\<lambda>dtcs.
        bindS (clientT (InternalError \<circ> ClearFailed) (clear_all_dtcs req address)) (\<lambda>_.
        bindS (if cfq_reset q \<and> is_reset_target address
               then bindS (tryT (ecu_reset req address reset_subfn_HARD)) (\<lambda>r.
                    returnS (case r of Inr _ \<Rightarrow> (Some True, None) | Inl e \<Rightarrow> (Some False, Some e)))
               else returnS (None, None)) (\<lambda>(performed, err).
        returnS \<lparr>cfr_ecu = cfq_ecu q, cfr_address = hex_address address, cfr_cleared = True,
                 cfr_reset_performed = performed, cfr_reset_error = err,
                 cfr_codes_cleared = map dtc_code_hex dtcs, cfr_count = length dtcs\<rparr>))))))"

section \<open>Reading data\<close>

text \<open>
  The read of a measurement: the dynamic sequence or the plain identifier. The sequence is the
  builder's, for which the panic of the dynamic read does not occur (\<open>dynamic_read_total\<close> in theory \<open>Mcp_Safety\<close>),
  so its \<open>None\<close> is never taken.
\<close>

definition read_value :: "'s requester \<Rightarrow> u8 \<Rightarrow> u16 \<Rightarrow> measurement option \<Rightarrow> ('ip, 's, u16 \<times> bytes) tool" where
  "read_value req address did m =
     (case m of
        Some m' \<Rightarrow>
          if is_dynamic m'
          then bindS (clientT (InternalError \<circ> ReadingMeasurement did)
                 (\<lambda>s. case read_dynamic_measurement req address (build_read_request m') s of
                        None \<Rightarrow> (Inl CNoMeasurementRead, s) | Some r \<Rightarrow> r)) (\<lambda>raw. returnS (did, raw))
          else clientT (InternalError \<circ> ReadingDid did) (read_did req address did)
      | None \<Rightarrow> clientT (InternalError \<circ> ReadingDid did) (read_did req address did))"

definition describe_value ::
    "decoded_did \<Rightarrow> scaled_measurement option \<Rightarrow> u16 \<Rightarrow> ustring option \<Rightarrow> measurements option
     \<Rightarrow> ustring option \<times> f64 option \<times> ustring option \<times> read_data_note" where
  "describe_value decoded proprietary did variant ms =
     (case dd_scaled decoded of
        Some scaled \<Rightarrow> (dd_name decoded, Some (sp_value scaled), Some (sp_unit scaled), StandardPid)
      | None \<Rightarrow>
     (case proprietary of
        Some m \<Rightarrow> (Some (sm_name m), Some (sm_value m), Some (sm_unit m), ScaledBySgbd)
      | None \<Rightarrow>
          if dd_name decoded = None then
            (None, None, None,
             (case ms of
                Some m \<Rightarrow> if ms_get m did \<noteq> None then FoundButUnscaled
                          else NotInSgbd (case variant of None \<Rightarrow> [] | Some v \<Rightarrow> v)
              | None \<Rightarrow> BmwSpecific))
          else (dd_name decoded, None, None, NamedDid)))"

definition read_data :: "'ip mcp_env \<Rightarrow> 's requester \<Rightarrow> read_data_request \<Rightarrow> ('ip, 's, read_data_result) tool" where
  "read_data env req q =
     bindS (resolveT env (rdq_ecu q)) (\<lambda>address.
     bindS (getT (\<lambda>m. Option.bind (mc_conn m) cn_vin)) (\<lambda>conn_vin.
     bindS (variantT env address (rdq_variant q)) (\<lambda>variant.
     bindS (measurementsT env variant) (\<lambda>ms.
     bindS (case (rdq_variant q, ms) of (Some v, None) \<Rightarrow> paramT (Inl (NoSgbd v)) | _ \<Rightarrow> returnS ()) (\<lambda>_.
     bindS (paramT (resolve_read_target (ev_lower env) q variant ms)) (\<lambda>did.
     let m = Option.bind ms (\<lambda>ms. ms_get ms did) in
     bindS (case Option.bind m (\<lambda>m. parse_sg_adr (ms_sg_adr m)) of
              Some expected \<Rightarrow> if expected \<noteq> address then paramT (Inl (ForeignMeasurement did expected)) else returnS ()
            | None \<Rightarrow> returnS ()) (\<lambda>_.
     bindS connectedT (\<lambda>_.
     bindS (read_value req address did m) (\<lambda>(got_did, raw).
     let decoded = decode_did got_did raw;
         proprietary = Option.bind ms (\<lambda>ms. ms_scale ms got_did raw) in
     case describe_value decoded proprietary got_did (rdq_variant q) ms of (name, scaled, unit, note) \<Rightarrow>
     bindS (case (proprietary, effective_profile_dir env, conn_vin, variant) of
              (Some _, Some dir, Some vin, Some v) \<Rightarrow>
                modifyT (\<lambda>st. st\<lparr>mc_profiles := profile_record (ev_writable env) dir vin address v (mc_profiles st)\<rparr>)
            | _ \<Rightarrow> returnS ()) (\<lambda>_.
     returnS \<lparr>rdr_ecu = rdq_ecu q, rdr_address = hex_address address, rdr_did_hex = hex_u16 got_did,
              rdr_name = name, rdr_value_text = dd_text decoded, rdr_scaled_value = scaled, rdr_unit = unit,
              rdr_raw_hex = hex_bytes raw, rdr_note = note\<rparr>))))))))))"

section \<open>Running a job\<close>

text \<open>
  The bridge from the engine's transport to the client; a client error becomes a transport error,
  whose text \<open>show\<close> gives. The job's pauses pass through to the world.
\<close>

definition session_bridge :: "(client_error \<Rightarrow> ustring) \<Rightarrow> 's requester \<Rightarrow> 's exchange" where
  "session_bridge show req target uds s =
     (case client_request req target uds s of (r, s') \<Rightarrow> (map_err (Transport \<circ> show) r, s'))"

text \<open>What running a job takes from the library: the text of an error, and the pause.\<close>

record 's job_env =
  je_show :: "client_error \<Rightarrow> ustring"
  je_sleep :: "u32 \<Rightarrow> 's \<Rightarrow> 's"

definition run_job_tool ::
    "'ip mcp_env \<Rightarrow> 's job_env \<Rightarrow> 's requester \<Rightarrow> run_job_request \<Rightarrow> ('ip, 's, run_job_result) tool" where
  "run_job_tool env je req q =
     bindS (resolveT env (rjq_ecu q)) (\<lambda>address.
     bindS (bindS (variantT env address (rjq_variant q)) (needed_variant env address)) (\<lambda>variant.
     bindS (paramT (ok_or (sgbd_path env variant) (NoSgbd variant))) (\<lambda>path.
     bindS (paramT (map_err (LoadingSgbd variant) (prg_open (ev_read env) path))) (\<lambda>ecu.
     bindS (measurementsT env (Some variant)) (\<lambda>ms.
     bindS (case Option.bind ms (\<lambda>ms. misrouted_dynamic_measurement (ev_lower env) ms (rjq_job q) (rjq_args q)) of
              Some name \<Rightarrow> paramT (Inl (DynamicMeasurement name))
            | None \<Rightarrow> returnS ()) (\<lambda>_.
     bindS connectedT (\<lambda>_.
     bindS (clientT (run_error_to_mcp (rjq_job q))
              (run_job (ev_float env) ecu (rjq_job q) address (to_utf8 (join_with (ustr '';'') (rjq_args q)))
                (live_request ReadOnly (session_bridge (je_show je) req)) (je_sleep je))) (\<lambda>results.
     case surface_run_job (ev_show_f64 env) results of (sets, tot, note) \<Rightarrow>
     returnS \<lparr>rjr_ecu = rjq_ecu q, rjr_address = hex_address address, rjr_variant = variant,
              rjr_job = rjq_job q, rjr_sets = sets, rjr_total = tot, rjr_note = note\<rparr>))))))))"

section \<open>Listing\<close>

definition list_ecus_tool :: "'ip mcp_env \<Rightarrow> ('ip, 's, list_ecus_result) tool" where
  "list_ecus_tool env =
     returnS (case catalog_ecu_infos (ev_catalog env) of
        Inr ecus \<Rightarrow> \<lparr>ler_ecus = ecus, ler_db_available = (ev_catalog env \<noteq> None), ler_db_error = None\<rparr>
      | Inl e \<Rightarrow> \<lparr>ler_ecus = [], ler_db_available = (ev_catalog env \<noteq> None), ler_db_error = Some e\<rparr>)"

text \<open>\<open>str::contains\<close>\<close>

definition text_contains :: "ustring \<Rightarrow> ustring \<Rightarrow> bool" where
  "text_contains field q \<longleftrightarrow> list_ex (\<lambda>i. take (length q) (drop i field) = q) [0..<Suc (length field)]"

definition query_matches :: "(ustring \<Rightarrow> ustring) \<Rightarrow> ustring option \<Rightarrow> ustring list \<Rightarrow> bool" where
  "query_matches lower query field_texts =
     (case query of None \<Rightarrow> True
      | Some q \<Rightarrow> list_ex (\<lambda>f. text_contains (fold_for_match lower f) q) field_texts)"

definition list_measurements ::
    "'ip mcp_env \<Rightarrow> list_measurements_request \<Rightarrow> ('ip, 's, list_measurements_result) tool" where
  "list_measurements env q =
     bindS (resolve_list_variant env (lmq_variant q) (lmq_ecu q)) (\<lambda>variant.
     let query = map_option (fold_for_match (ev_lower env)) (lmq_search q) in
     bindS (measurementsT env (Some variant)) (\<lambda>ms.
     bindS (case (case ms of None \<Rightarrow> None | Some m \<Rightarrow> if m = [] then None else Some m) of
         Some m \<Rightarrow>
           (let matching = filter (\<lambda>m. query_matches (ev_lower env) query [ms_arg m, ms_result_name m, ms_description m])
                             (ms_all m);
                infos = map measurement_info_of (take MAX_LISTED_MEASUREMENTS matching)
            in returnS (enrich_with_catalog_jobs (rows_of (ev_catalog env) (\<lambda>c. ct_measurements c variant)) infos,
                        length matching))
       | None \<Rightarrow>
           bindS (case ev_catalog env of
                    Some c \<Rightarrow> liftS (map_err (InternalError \<circ> ReadingMeasurementCatalog) (ct_measurements c variant))
                  | None \<Rightarrow> returnS []) (\<lambda>entries.
           if entries = [] then paramT (Inl (NoSgbd variant))
           else
             let matching = filter (\<lambda>e. query_matches (ev_lower env) query [me_name e]) entries;
                 addr = (case Option.bind (lmq_ecu q) (\<lambda>e. ok_of (ecu_resolve e (ev_catalog env))) of
                           None \<Rightarrow> [] | Some a \<Rightarrow> hex_address a)
             in returnS (map (\<lambda>e. catalog_measurement_info e addr) (take MAX_LISTED_MEASUREMENTS matching),
                         length matching))) (\<lambda>(infos, tot).
     returnS \<lparr>lmr_variant = variant, lmr_measurements = infos, lmr_count = length infos, lmr_total = tot\<rparr>)))"

definition list_service_functions ::
    "'ip mcp_env \<Rightarrow> list_functions_request \<Rightarrow> ('ip, 's, list_functions_result) tool" where
  "list_service_functions env q =
     bindS (resolve_list_variant env (lfq_variant q) (lfq_ecu q)) (\<lambda>variant.
     bindS (paramT (ok_or (load_functions env variant) (NoSgbd variant))) (\<lambda>functions.
     bindS (case lfq_risk q of
              None \<Rightarrow> returnS None
            | Some r \<Rightarrow> paramT (map_sum id Some (parse_risk r))) (\<lambda>risk.
     let infos = map service_function_info_of
                   (filter (\<lambda>f. case risk of None \<Rightarrow> True | Some r \<Rightarrow> sv_risk f = r) functions) in
     returnS \<lparr>lfr_variant = variant, lfr_functions = infos, lfr_count = length infos\<rparr>)))"

section \<open>The whole car\<close>

text \<open>The fitted ECUs: what this connection read before, or the gateway's list, which is kept.\<close>

definition fitted_addrs :: "'s requester \<Rightarrow> 'ip connection \<Rightarrow> bool \<Rightarrow> ('ip, 's, bytes \<times> bool) tool" where
  "fitted_addrs req conn rescan =
     (case (rescan, cn_fitted conn) of
        (False, Some fitted) \<Rightarrow> returnS (fitted, True)
      | _ \<Rightarrow>
          bindS (clientT (InternalError \<circ> ReadingSvt) (read_ecu_list req)) (\<lambda>l.
          bindS (modifyT (\<lambda>m. m\<lparr>mc_conn := Some (conn\<lparr>cn_fitted := Some (el_addresses l)\<rparr>)\<rparr>)) (\<lambda>_.
          returnS (el_addresses l, False))))"

definition scan_ecus :: "'ip mcp_env \<Rightarrow> 's requester \<Rightarrow> bool \<Rightarrow> ('ip, 's, scan_ecus_result) tool" where
  "scan_ecus env req rescan =
     bindS connectedT (\<lambda>conn.
     bindS (fitted_addrs req conn rescan) (\<lambda>(addrs, cached).
     bindS (tryT (read_responding_ecu_list req)) (\<lambda>r.
     let responding = map_option el_addresses (Option.bind (ok_of r) id) in
     bindS (if ev_catalog env \<noteq> None
            then bindS (tryT (read_i_stufe_levels req)) (\<lambda>r.
                 returnS (map_option (\<lambda>l. case is_factory l of Some f \<Rightarrow> f | None \<Rightarrow> is_current l)
                            (Option.bind (ok_of r) id)))
            else returnS None) (\<lambda>level.
     let tree = ecu_tree_for_level (ev_catalog env) level in
     returnS
       \<lparr>ser_ecus = map (\<lambda>a. case ecu_names a (ev_catalog env) of (group_name, title) \<Rightarrow>
                     configured_ecu (map_option snd tree) a group_name title
                       (map_option (\<lambda>r. a \<in> set r) responding)) addrs,
        ser_configured_count = length addrs,
        ser_responding_count = map_option (\<lambda>r. length (filter (\<lambda>a. a \<in> set r) addrs)) responding,
        ser_bordnet_series = map_option fst tree, ser_cached = cached\<rparr>))))"

definition faults_info :: "catalog option \<Rightarrow> ecu_faults \<Rightarrow> ecu_faults_info" where
  "faults_info catalog ef =
     \<lparr>efi_address_hex = hex_address (ef_address ef), efi_title = snd (ecu_names (ef_address ef) catalog),
      efi_faults = map (\<lambda>d. fault_info_of d (ef_address ef) catalog) (ef_relevant ef),
      efi_not_tested_count = ef_not_tested ef, efi_error = ef_error ef\<rparr>"

definition read_all_faults :: "'ip mcp_env \<Rightarrow> 's requester \<Rightarrow> bool \<Rightarrow> ('ip, 's, read_all_faults_result) tool" where
  "read_all_faults env req rescan =
     bindS connectedT (\<lambda>conn.
     bindS (fitted_addrs req conn rescan) (\<lambda>(addrs, _).
     bindS (clientT id (\<lambda>s. apfst Inr (scan_faults req (ev_order env addrs) s))) (\<lambda>scanned.
     returnS \<lparr>rar_ecus = map (faults_info (ev_catalog env)) scanned,
              rar_total_relevant = sum_list (map (\<lambda>ef. length (ef_relevant ef)) scanned),
              rar_db_available = (ev_catalog env \<noteq> None)\<rparr>)))"

definition clear_info :: "clear_report \<Rightarrow> ecu_clear_info" where
  "clear_info r =
     \<lparr>eli_address_hex = hex_address (cr_address r), eli_codes_before = map dtc_code_hex (cr_before r),
      eli_verified_clean = cr_verified_clean r, eli_reset_performed = cr_reset_performed r,
      eli_reset_error = cr_reset_error r, eli_error = cr_error r\<rparr>"

definition clear_all_faults ::
    "'ip mcp_env \<Rightarrow> 's requester \<Rightarrow> clear_all_faults_request \<Rightarrow> ('ip, 's, clear_all_faults_result) tool" where
  "clear_all_faults env req q =
     (if \<not> caq_confirm q then paramT (Inl ClearAllRefused)
      else
        bindS connectedT (\<lambda>conn.
        bindS (fitted_addrs req conn (caq_rescan q)) (\<lambda>(addrs, _).
        bindS (clientT id (\<lambda>s. apfst Inr (clear_faults_all_with_reset req addrs (caq_reset q) s))) (\<lambda>reports.
        returnS \<lparr>car_ecus = map clear_info reports,
                 car_cleared_clean = length (filter cr_verified_clean reports),
                 car_reset_note =
                   (if caq_reset q
                    then Some (length (filter (\<lambda>r. cr_reset_performed r = Some True) reports),
                               length (filter (\<lambda>r. is_reset_target (cr_address r)) reports))
                    else None)\<rparr>))))"

section \<open>The server\<close>

datatype (plugins only: size) mcp_call =
    Connect "ustring option"
  | Disconnect
  | ReadFaults read_faults_request
  | ReadInfoMemory ustring
  | ReadFaultDetail fault_detail_request
  | FaultHelp fault_help_request
  | IdentifyVehicle
  | ClearFaults clear_faults_request
  | ReadData read_data_request
  | RunJob run_job_request
  | ListEcus
  | ListMeasurements list_measurements_request
  | ListServiceFunctions list_functions_request
  | ScanEcus bool
  | ReadAllFaults bool
  | ClearAllFaults clear_all_faults_request

datatype (plugins only: size) mcp_reply =
    Connected connect_result
  | Disconnected bool
  | Faults read_faults_result
  | InfoMemory info_memory_result
  | FaultDetail fault_detail_result
  | Help fault_help_result
  | Identity vehicle_identity_result
  | Cleared clear_faults_result
  | Data read_data_result
  | JobResults run_job_result
  | Ecus list_ecus_result
  | MeasurementsListed list_measurements_result
  | FunctionsListed list_functions_result
  | Scanned scan_ecus_result
  | AllFaults read_all_faults_result
  | AllCleared clear_all_faults_result

definition mapS :: "('a \<Rightarrow> 'b) \<Rightarrow> ('s, 'e, 'a) action \<Rightarrow> ('s, 'e, 'b) action" where
  "mapS f m = bindS m (\<lambda>x. returnS (f x))"

text \<open>The tools by name: the router of the server.\<close>

definition mcp_handle :: "'ip mcp_env \<Rightarrow> 's job_env \<Rightarrow> 's requester \<Rightarrow> mcp_call \<Rightarrow> ('ip, 's, mcp_reply) tool" where
  "mcp_handle env je req c =
     (case c of
        Connect ip \<Rightarrow> mapS Connected (connect_tool env req ip)
      | Disconnect \<Rightarrow> mapS Disconnected disconnect_tool
      | ReadFaults q \<Rightarrow> mapS Faults (read_faults env req q)
      | ReadInfoMemory ecu \<Rightarrow> mapS InfoMemory (read_info_memory_tool env req ecu)
      | ReadFaultDetail q \<Rightarrow> mapS FaultDetail (read_fault_detail_tool env req q)
      | FaultHelp q \<Rightarrow> mapS Help (fault_help_tool env q)
      | IdentifyVehicle \<Rightarrow> mapS Identity (identify_vehicle_tool env req)
      | ClearFaults q \<Rightarrow> mapS Cleared (clear_faults env req q)
      | ReadData q \<Rightarrow> mapS Data (read_data env req q)
      | RunJob q \<Rightarrow> mapS JobResults (run_job_tool env je req q)
      | ListEcus \<Rightarrow> mapS Ecus (list_ecus_tool env)
      | ListMeasurements q \<Rightarrow> mapS MeasurementsListed (list_measurements env q)
      | ListServiceFunctions q \<Rightarrow> mapS FunctionsListed (list_service_functions env q)
      | ScanEcus rescan \<Rightarrow> mapS Scanned (scan_ecus env req rescan)
      | ReadAllFaults rescan \<Rightarrow> mapS AllFaults (read_all_faults env req rescan)
      | ClearAllFaults q \<Rightarrow> mapS AllCleared (clear_all_faults env req q))"

text \<open>A run of the server: the calls in order, each in its own environment, and their outcomes.\<close>

fun mcp_run ::
    "'s job_env \<Rightarrow> 's requester \<Rightarrow> ('ip mcp_env \<times> mcp_call) list \<Rightarrow> 'ip mcp_state \<times> 's
     \<Rightarrow> (mcp_error + mcp_reply) list \<times> ('ip mcp_state \<times> 's)" where
  "mcp_run je req [] ms = ([], ms)"
| "mcp_run je req ((env, c) # calls) ms =
     (case mcp_handle env je req c ms of
        (r, ms') \<Rightarrow> apfst ((#) r) (mcp_run je req calls ms'))"

end
