(* ===== verification/Mcp_Safety.thy ===== *)
theory Mcp_Safety
  imports Mcp_Server
begin

text \<open>
  What the MCP server promises about the car: every request a tool makes is one its kind of call
  may make, the two clears only with \<open>confirm\<close>, and a job only through the read-only gate.
\<close>

section \<open>Tools keep an invariant of the world\<close>

definition world :: "('s \<Rightarrow> bool) \<Rightarrow> 'x \<times> 's \<Rightarrow> bool" where
  "world safe ms \<longleftrightarrow> safe (snd ms)"

named_theorems toolI

lemma keeps_getT [toolI]: "keeps (world safe) (getT f)"
  by (simp add: keeps_def getT_def)

lemma keeps_modifyT [toolI]: "keeps (world safe) (modifyT f)"
  by (simp add: keeps_def modifyT_def world_def)

lemma keeps_clientT [toolI]: "keeps safe m \<Longrightarrow> keeps (world safe) (clientT f m)"
  by (auto simp: keeps_def clientT_def world_def split: prod.split)

lemma keeps_tryT [toolI]: "keeps safe m \<Longrightarrow> keeps (world safe) (tryT m)"
  by (auto simp: keeps_def tryT_def world_def split: prod.split)

lemma keeps_measurementsT [toolI]: "keeps (world safe) (measurementsT env v)"
  by (auto simp: keeps_def measurementsT_def world_def split: prod.split)

lemma keeps_let [toolI]: "(\<And>x. keeps P (f x)) \<Longrightarrow> keeps P (let x = t in f x)"
  by simp

lemma keeps_list [toolI]:
  "keeps P a \<Longrightarrow> (\<And>x xs. keeps P (f x xs)) \<Longrightarrow> keeps P (case r of [] \<Rightarrow> a | x # xs \<Rightarrow> f x xs)"
  by (cases r) simp_all

lemma keeps_bool_case [toolI]: "keeps P a \<Longrightarrow> keeps P b \<Longrightarrow> keeps P (case c of True \<Rightarrow> a | False \<Rightarrow> b)"
  by (cases c) simp_all

lemma keeps_cond [toolI]:
  "(c \<Longrightarrow> keeps P a) \<Longrightarrow> (\<not> c \<Longrightarrow> keeps P b) \<Longrightarrow> keeps P (if c then a else b)"
  by simp

lemmas [toolI] = keeps_returnS keeps_liftS keeps_bindS keeps_option keeps_prod

lemma keeps_connectedT [toolI]: "keeps (world safe) connectedT"
  unfolding connectedT_def by (intro toolI)

lemma keeps_resolveT [toolI]: "keeps (world safe) (resolveT env spec)"
  unfolding resolveT_def by (intro toolI)

lemma keeps_paramT [toolI]: "keeps (world safe) (paramT r)"
  unfolding paramT_def by (intro toolI)

lemma keeps_variantT [toolI]: "keeps (world safe) (variantT env address v)"
  unfolding variantT_def by (intro toolI)

lemma keeps_needed_variant [toolI]: "keeps (world safe) (needed_variant env address v)"
  unfolding needed_variant_def by (intro toolI)

lemma keeps_resolve_list_variant [toolI]: "keeps (world safe) (resolve_list_variant env v ecu)"
  unfolding resolve_list_variant_def by (intro toolI)

lemma keeps_mapS [toolI]: "keeps P m \<Longrightarrow> keeps P (mapS f m)"
  unfolding mapS_def by (intro toolI)

lemma keeps_apfst: "(\<And>s. safe s \<Longrightarrow> safe (snd (f s))) \<Longrightarrow> keeps safe (\<lambda>s. apfst Inr (f s))"
  by (simp add: keeps_def)

text \<open>The tools that make no request at all keep every invariant.\<close>

lemma keeps_offline:
  "keeps (world safe) disconnect_tool"
  "keeps (world safe) (fault_help_tool env fhq)"
  "keeps (world safe) (list_ecus_tool env)"
  "keeps (world safe) (list_measurements env lmq)"
  "keeps (world safe) (list_service_functions env lfq)"
  unfolding disconnect_tool_def fault_help_tool_def list_ecus_tool_def list_measurements_def
    list_service_functions_def
  by (intro toolI)+

section \<open>Reading tools\<close>

context reading_client
begin

lemma keeps_read_i_stufe_levels: "keeps safe (read_i_stufe_levels req)"
  unfolding read_i_stufe_levels_def by (intro readI)

lemma keeps_establish: "keeps safe (establish env req ip)"
  using keeps_read_did [of ZGW_ADDRESS DID_VIN]
  by (auto simp: keeps_def establish_def Let_def split: sum.split prod.split option.split)

lemma keeps_scan_reads: "safe s \<Longrightarrow> safe (snd (scan_reads req addrs s))"
  using keeps_read_all_dtcs
  by (induction addrs arbitrary: s) (auto simp: keeps_def split: prod.split, metis snd_conv)

lemma keeps_fitted_addrs [toolI]: "keeps (world safe) (fitted_addrs req conn rescan)"
  unfolding fitted_addrs_def by (intro toolI keeps_read_ecu_list)

lemma keeps_reading_tools:
  "keeps (world safe) (connect_tool env req ip)"
  "keeps (world safe) (read_faults env req rfq)"
  "keeps (world safe) (read_info_memory_tool env req ecu)"
  "keeps (world safe) (read_fault_detail_tool env req fdq)"
  "keeps (world safe) (identify_vehicle_tool env req)"
  "keeps (world safe) (scan_ecus env req rescan)"
  "keeps (world safe) (read_all_faults env req rescan)"
  unfolding connect_tool_def read_faults_def read_info_memory_tool_def read_fault_detail_tool_def
    identify_vehicle_tool_def scan_ecus_def read_all_faults_def scan_faults_def
  by (intro toolI keeps_establish keeps_read_all_dtcs keeps_read_info_memory keeps_read_fault_detail
      keeps_identify_vehicle keeps_read_responding_ecu_list keeps_read_i_stufe_levels keeps_apfst;
      simp add: keeps_scan_reads)+

end

section \<open>Reading data\<close>

text \<open>The reads and the definition of the dynamic identifier, which lives as long as the session.\<close>

definition data_request :: "bytes \<Rightarrow> bool" where
  "data_request uds \<longleftrightarrow>
     is_read uds \<or> uds = [0x2C, 0x03, 0xF3, 0x03] \<or> take 4 uds = [0x2C, 0x01, 0xF3, 0x03]"

lemma data_request_builder: "uds \<in> set (build_read_request m) \<Longrightarrow> data_request uds"
  by (auto simp: build_read_request_def data_request_def clear_dynamic_data_identifier_def
      define_dynamic_data_by_identifier_def be16_bytes_def DYNAMIC_DID_def SOURCE_POSITION_def uds_consts)

lemma dynamic_loop_total:
  assumes "list_all (\<lambda>r. nth_opt r 0 = Some sid_READ_DATA_BY_IDENTIFIER \<longrightarrow> 3 \<le> length r) rs"
  shows "dynamic_loop req target rs v s \<noteq> None"
  using assms
  by (induction rs arbitrary: v s) (auto simp: Let_def split: prod.split sum.split)

lemma dynamic_read_total: "read_dynamic_measurement req target (build_read_request m) s \<noteq> None"
  unfolding read_dynamic_measurement_def
  by (intro dynamic_loop_total)
    (simp add: build_read_request_def clear_dynamic_data_identifier_def nth_opt_def
      define_dynamic_data_by_identifier_def read_data_by_identifier_def be16_bytes_def uds_consts)

locale measuring_client = reading_client +
  assumes data_ok: "data_request uds \<Longrightarrow> ok target uds"
begin

lemma keeps_dynamic_loop:
  assumes "list_all data_request rs" "safe s" "dynamic_loop req target rs v s = Some (r, s')"
  shows "safe s'"
  using assms
proof (induction rs arbitrary: v s)
  case (Cons uds rs)
  obtain x s1 where x: "req target uds s = (x, s1)" by fastforce
  with req_keeps [of s target uds] data_ok Cons.prems have "safe s1" by auto
  with Cons x show ?case by (auto simp: Let_def split: sum.splits prod.splits if_splits)
qed simp

lemma keeps_dynamic:
  "keeps safe (\<lambda>s. case read_dynamic_measurement req target (build_read_request m) s of
      None \<Rightarrow> (Inl e, s) | Some r \<Rightarrow> r)"
proof -
  have "list_all data_request (build_read_request m)"
    by (simp add: list_all_iff data_request_builder)
  then show ?thesis
    by (auto simp: keeps_def read_dynamic_measurement_def split: option.split intro: keeps_dynamic_loop)
qed

lemma keeps_read_data: "keeps (world safe) (read_data env req q)"
  unfolding read_data_def read_value_def by (intro toolI keeps_read_did keeps_dynamic)

end

section \<open>Clearing tools\<close>

definition clear_request :: "bool \<Rightarrow> u8 \<Rightarrow> bytes \<Rightarrow> bool" where
  "clear_request resets target uds \<longleftrightarrow>
     is_read uds \<or> uds = [0x10, 0x03] \<or> uds = [0x14, 0xFF, 0xFF, 0xFF]
     \<or> (resets \<and> target \<noteq> 0x10 \<and> uds = [0x11, 0x01])"

locale clearing_client = reading_client +
  fixes resets :: bool
  assumes clear_ok: "clear_request resets target uds \<Longrightarrow> ok target uds"
begin

lemma ok_session: "ok target (diagnostic_session_control session_EXTENDED)"
  by (rule clear_ok) (simp add: clear_request_def uds_builders uds_consts)

lemma ok_clear: "ok target (clear_diagnostic_information CLEAR_ALL_DTCS)"
  by (rule clear_ok) (simp add: clear_request_def uds_builders uds_consts)

lemma ok_reset: "resets \<Longrightarrow> is_reset_target target \<Longrightarrow> ok target (req_ecu_reset reset_subfn_HARD)"
  by (rule clear_ok) (simp add: clear_request_def is_reset_target_def ZGW_ADDRESS_def uds_builders uds_consts)

lemma keeps_clear_all_dtcs: "keeps safe (clear_all_dtcs req target)"
  unfolding clear_all_dtcs_def clear_dtcs_def
  by (intro toolI keeps_enter_session keeps_req ok_session ok_clear)

lemma keeps_ecu_reset:
  "resets \<Longrightarrow> is_reset_target target \<Longrightarrow> keeps safe (ecu_reset req target reset_subfn_HARD)"
  unfolding ecu_reset_def by (intro toolI keeps_enter_session keeps_req ok_session ok_reset)

lemma keeps_clear_faults:
  assumes "cfq_reset q = resets"
  shows "keeps (world safe) (clear_faults env req q)"
  unfolding clear_faults_def assms
  by (intro toolI keeps_read_all_dtcs keeps_clear_all_dtcs keeps_ecu_reset; simp)

lemma keeps_verified: "safe s \<Longrightarrow> safe (snd (clear_faults_verified req target s))"
  using keeps_read_all_dtcs [of target] keeps_clear_all_dtcs [of target]
  by (auto simp: clear_faults_verified_def keeps_def Let_def split: prod.split sum.split) (metis snd_conv)+

lemma keeps_clear_pass: "safe s \<Longrightarrow> safe (snd (clear_pass req addrs s))"
  using keeps_verified by (induction addrs arbitrary: s) (auto split: prod.split, metis snd_conv)

lemma keeps_reset_pass:
  "resets \<Longrightarrow> list_all is_reset_target addrs \<Longrightarrow> safe s \<Longrightarrow> safe (snd (reset_pass req addrs reports s))"
  using keeps_ecu_reset
  by (induction addrs arbitrary: s reports) (auto simp: keeps_def split: prod.split, metis snd_conv)

lemma keeps_clear_all_with_reset: "safe s \<Longrightarrow> safe (snd (clear_faults_all_with_reset req addrs resets s))"
proof -
  assume "safe s"
  obtain reports s' where p: "clear_pass req addrs s = (reports, s')" by fastforce
  with keeps_clear_pass [OF \<open>safe s\<close>, of addrs] have "safe s'" by simp
  moreover have "list_all is_reset_target (reset_targets (cleared reports))"
    by (simp add: list_all_iff reset_targets_facts is_reset_target_def)
  ultimately show ?thesis
    using keeps_reset_pass by (simp add: clear_faults_all_with_reset_def p)
qed

lemma keeps_clear_all_faults:
  assumes "caq_reset q = resets"
  shows "keeps (world safe) (clear_all_faults env req q)"
  unfolding clear_all_faults_def assms
  by (intro toolI keeps_apfst keeps_clear_all_with_reset)

end

section \<open>Running jobs\<close>

definition log_env :: "'s job_env \<Rightarrow> (request_log \<times> 's) job_env" where
  "log_env je = \<lparr>je_show = je_show je, je_sleep = (\<lambda>n (l, s). (l, je_sleep je n s))\<rparr>"

lemma log_env_sleep: "log_all ok ls \<Longrightarrow> log_all ok (je_sleep (log_env je) n ls)"
  by (auto simp: log_env_def log_all_def split: prod.split)

text \<open>A car that accepts whatever the read-only gate admits, and a wait that does not disturb it.\<close>

locale gated_client = client_transport +
  assumes gate_ok: "policy_payload ReadOnly uds \<Longrightarrow> ok target uds"
begin

lemma gated_bridge: "gated_transport (session_bridge text_of req) safe ReadOnly"
  using req_keeps gate_ok
  by unfold_locales (auto simp: session_bridge_def client_request_def split: prod.split, metis snd_conv)

lemma keeps_gated_job:
  assumes "\<And>n s. safe s \<Longrightarrow> safe (je_sleep je n s)"
  shows "keeps safe (run_job fe ecu job address args
     (live_request ReadOnly (session_bridge (je_show je) req)) (je_sleep je))"
proof -
  have "uds_exchange (live_request ReadOnly (session_bridge (je_show je) req)) safe"
    using gated_bridge by (unfold_locales) (rule gated_transport.gate_keeps)
  from uds_exchange.run_job_world [OF this] assms show ?thesis
    unfolding keeps_def by blast
qed

lemma keeps_run_job:
  assumes "\<And>n s. safe s \<Longrightarrow> safe (je_sleep je n s)"
  shows "keeps (world safe) (run_job_tool env je req q)"
  unfolding run_job_tool_def by (intro toolI keeps_gated_job assms)

end

section \<open>The server\<close>

interpretation logged_data: measuring_client "log_request req" "log_all (\<lambda>_. data_request)" "\<lambda>_. data_request" for req
  by unfold_locales (simp_all add: data_request_def)

interpretation logged_gate: gated_client "log_request req" "log_all (\<lambda>_. policy_payload ReadOnly)"
  "\<lambda>_. policy_payload ReadOnly" for req
  by unfold_locales simp

interpretation logged_clear: clearing_client "log_request req" "log_all (clear_request resets)" "clear_request resets" resets
  for req resets
  by unfold_locales (simp_all add: clear_request_def)

text \<open>The requests a call may make.\<close>

definition call_allows :: "mcp_call \<Rightarrow> u8 \<Rightarrow> bytes \<Rightarrow> bool" where
  "call_allows c target uds \<longleftrightarrow>
     (case c of
        Disconnect \<Rightarrow> False
      | FaultHelp _ \<Rightarrow> False
      | ListEcus \<Rightarrow> False
      | ListMeasurements _ \<Rightarrow> False
      | ListServiceFunctions _ \<Rightarrow> False
      | ReadData _ \<Rightarrow> data_request uds
      | RunJob _ \<Rightarrow> policy_payload ReadOnly uds
      | ClearFaults q \<Rightarrow> cfq_confirm q \<and> clear_request (cfq_reset q) target uds
      | ClearAllFaults q \<Rightarrow> caq_confirm q \<and> clear_request (caq_reset q) target uds
      | _ \<Rightarrow> is_read uds)"

definition confirmed :: "mcp_call \<Rightarrow> bool" where
  "confirmed c \<longleftrightarrow>
     (case c of ClearFaults q \<Rightarrow> cfq_confirm q | ClearAllFaults q \<Rightarrow> caq_confirm q | _ \<Rightarrow> False)"

text \<open>The requests of each call of a run, the state carried from call to call.\<close>

fun mcp_logs ::
    "'s job_env \<Rightarrow> 's requester \<Rightarrow> ('ip mcp_env \<times> mcp_call) list \<Rightarrow> 'ip mcp_state \<times> 's \<Rightarrow> request_log list" where
  "mcp_logs je req [] ms = []"
| "mcp_logs je req ((env, c) # calls) (m, s) =
     (case mcp_handle env (log_env je) (log_request req) c (m, ([], s)) of
        (_, (m', (l, s'))) \<Rightarrow> l # mcp_logs je req calls (m', s'))"

lemma log_nothing: "keeps (world (log_all ok)) m \<Longrightarrow> log_all ok (snd (snd (m (st, ([], s)))))"
  by (auto simp: keeps_def world_def log_all_def)

lemma refused_keeps:
  "\<not> cfq_confirm q \<Longrightarrow> keeps P (clear_faults env req q)"
  "\<not> caq_confirm q' \<Longrightarrow> keeps P (clear_all_faults env req q')"
  by (simp_all add: clear_faults_def clear_all_faults_def paramT_def keeps_liftS)

lemma call_allows_reads:
  "call_allows (Connect ip) = (\<lambda>_. is_read)"
  "call_allows (ReadFaults rfq) = (\<lambda>_. is_read)"
  "call_allows (ReadInfoMemory ecu) = (\<lambda>_. is_read)"
  "call_allows (ReadFaultDetail fdq) = (\<lambda>_. is_read)"
  "call_allows IdentifyVehicle = (\<lambda>_. is_read)"
  "call_allows (ScanEcus rescan) = (\<lambda>_. is_read)"
  "call_allows (ReadAllFaults rescan) = (\<lambda>_. is_read)"
  by (auto simp: call_allows_def fun_eq_iff)

lemma call_allows_others:
  "call_allows (RunJob rjq) = (\<lambda>_. policy_payload ReadOnly)"
  "call_allows (ReadData rdq) = (\<lambda>_. data_request)"
  "cfq_confirm cfq \<Longrightarrow> call_allows (ClearFaults cfq) = clear_request (cfq_reset cfq)"
  "caq_confirm caq \<Longrightarrow> call_allows (ClearAllFaults caq) = clear_request (caq_reset caq)"
  by (auto simp: call_allows_def fun_eq_iff)

text \<open>
  A call keeps any invariant of the world that the requests it may make keep, and that a job's
  waiting keeps.
\<close>

lemma mcp_handle_keeps:
  assumes req: "\<And>s target uds. safe s \<Longrightarrow> call_allows c target uds \<Longrightarrow> safe (snd (req target uds s))"
    and sleep: "\<And>n s. safe s \<Longrightarrow> safe (je_sleep je n s)"
  shows "keeps (world safe) (mcp_handle env je req c)"
proof -
  have reading: "reading_client req safe (\<lambda>_. is_read)" if "call_allows c = (\<lambda>_. is_read)"
    using req that by unfold_locales auto
  show ?thesis
  proof (cases c)
    case (ClearFaults q)
    show ?thesis
    proof (cases "cfq_confirm q")
      case True
      then have "clearing_client req safe (clear_request (cfq_reset q)) (cfq_reset q)"
        using req ClearFaults by unfold_locales (auto simp: call_allows_others clear_request_def)
      with ClearFaults show ?thesis
        by (simp add: mcp_handle_def keeps_mapS clearing_client.keeps_clear_faults)
    qed (simp add: ClearFaults mcp_handle_def keeps_mapS refused_keeps)
  next
    case (ClearAllFaults q)
    show ?thesis
    proof (cases "caq_confirm q")
      case True
      then have "clearing_client req safe (clear_request (caq_reset q)) (caq_reset q)"
        using req ClearAllFaults by unfold_locales (auto simp: call_allows_others clear_request_def)
      with ClearAllFaults show ?thesis
        by (simp add: mcp_handle_def keeps_mapS clearing_client.keeps_clear_all_faults)
    qed (simp add: ClearAllFaults mcp_handle_def keeps_mapS refused_keeps)
  next
    case (ReadData q)
    then have "measuring_client req safe (\<lambda>_. data_request)"
      using req by unfold_locales (auto simp: call_allows_others data_request_def)
    with ReadData show ?thesis by (simp add: mcp_handle_def keeps_mapS measuring_client.keeps_read_data)
  next
    case (RunJob q)
    then have "gated_client req safe (\<lambda>_. policy_payload ReadOnly)"
      using req by unfold_locales (auto simp: call_allows_others)
    with RunJob sleep show ?thesis by (simp add: mcp_handle_def keeps_mapS gated_client.keeps_run_job)
  qed (simp_all add: mcp_handle_def keeps_mapS keeps_offline call_allows_reads
      reading_client.keeps_reading_tools [OF reading])
qed

lemma handle_keeps:
  "keeps (world (log_all (call_allows c))) (mcp_handle env (log_env je) (log_request req) c)"
  by (rule mcp_handle_keeps) (simp_all add: logged_client.req_keeps log_env_sleep)

lemma reads_are_read_only: "is_read uds \<Longrightarrow> policy_payload ReadOnly uds"
  by (auto simp: is_read_def policy_payload_def policy_admits_def split: list.splits)

lemma data_is_read_only: "data_request uds \<Longrightarrow> policy_payload ReadOnly uds"
  by (cases uds) (auto simp: data_request_def is_read_def policy_payload_def policy_admits_def)

lemma unconfirmed_is_read_only: "call_allows c target uds \<Longrightarrow> confirmed c \<or> policy_payload ReadOnly uds"
  by (auto simp: call_allows_def confirmed_def reads_are_read_only data_is_read_only split: mcp_call.splits)

text \<open>
  C3. The safety invariant of the MCP server, for any sequence of tool calls, whatever the database,
  the files, the network and the car answer: every UDS request is made on behalf of a call that
  allows it. Listing, documentation and disconnecting make none; the reads make only fault and
  identifier reads, a measurement also the definition of the dynamic identifier; a job only what
  the read-only gate admits; a clear without confirmation none at all, and with it only reads, the
  extended session, the clear of all codes and, if asked for, the hard reset of an ECU other than
  the gateway. So without a confirmed clear nothing but reads and session plumbing is ever sent.
\<close>
theorem mcp_requests_allowed:
  "list_all2 (\<lambda>(env, c) l. list_all (\<lambda>(target, uds). call_allows c target uds) l
       \<and> (confirmed c \<or> list_all (\<lambda>(target, uds). policy_payload ReadOnly uds) l))
     calls (mcp_logs je req calls (m, s))"
proof (induction calls arbitrary: m s)
  case (Cons ec calls)
  obtain env c where ec: "ec = (env, c)" by fastforce
  obtain r m' l s' where h: "mcp_handle env (log_env je) (log_request req) c (m, ([], s)) = (r, (m', (l, s')))"
    by (metis prod.exhaust)
  have "list_all (\<lambda>(target, uds). call_allows c target uds) l"
    using log_nothing [OF handle_keeps, of c env je req m s] by (simp add: h log_all_def)
  moreover from this have "confirmed c \<or> list_all (\<lambda>(target, uds). policy_payload ReadOnly uds) l"
    using unconfirmed_is_read_only by (fastforce simp: list_all_iff)
  ultimately show ?case
    using Cons [of m' s'] by (simp add: ec h)
qed simp

end
