(* ===== verification/Mcp_Laws.thy ===== *)
theory Mcp_Laws
  imports Mcp_Server
begin

text \<open>
  What the MCP tools promise beside the safety of their requests: the texts they list are the
  texts they accept, the path of an SGBD stays in its directory, a job's results are cut at the
  cap and nowhere else, a learned variant is found again, and without a connection nothing is sent.
\<close>

section \<open>Hex texts\<close>

lemma hex_digit_char:
  assumes "c \<in> set (fmt_hex w n)"
  shows "\<exists>d<16. c = digit_char d"
proof -
  from assms have "c = digit_char 0 \<or> c \<in> set (nat_digits 16 n)"
    by (auto simp: fmt_hex_def Let_def digit_char_def)
  then show ?thesis
  proof
    assume "c = digit_char 0"
    then show ?thesis by (intro exI [of _ 0]) simp
  qed (rule set_nat_digits, simp_all)
qed

lemma digit_char_not_special:
  "d < 16 \<Longrightarrow> \<not> is_whitespace (digit_char d)" "d < 16 \<Longrightarrow> digit_char d \<noteq> 0x2B"
  "d < 16 \<Longrightarrow> digit_char d \<noteq> 0x78" "d < 16 \<Longrightarrow> digit_char d \<noteq> 0x58" "d < 16 \<Longrightarrow> digit_char d < 0x80"
  by (auto simp: digit_char_def is_whitespace_def)

lemma fmt_hex_not_Nil [simp]: "fmt_hex w n \<noteq> []"
  by (simp add: fmt_hex_def Let_def)

lemma parse_fmt_hex:
  assumes "int n \<le> hi"
  shows "parse_int 16 0 hi (fmt_hex w n) = Some (int n)"
proof -
  have "hd (fmt_hex w n) \<noteq> 0x2B"
    using hex_digit_char [OF hd_in_set, OF fmt_hex_not_Nil] digit_char_not_special(2) by metis
  moreover have "digits_value 16 0 (fmt_hex w n) = Some n"
    by (simp add: fmt_hex_def Let_def digits_value_nat_digits)
  ultimately show ?thesis
    using assms by (simp add: parse_int_def)
qed

lemma trim_fmt_hex_append:
  assumes "p = [] \<or> \<not> is_whitespace (hd p)"
  shows "trim (p @ fmt_hex w n) = p @ fmt_hex w n"
proof -
  have "\<not> is_whitespace c" if "c \<in> set (fmt_hex w n)" for c
    using hex_digit_char [OF that] digit_char_not_special(1) by auto
  then have "\<not> is_whitespace (last (p @ fmt_hex w n))" "\<not> is_whitespace (hd (p @ fmt_hex w n))"
    using assms by (auto simp: hd_append)
  then show ?thesis
    by (simp add: trim_def trim_end_last trim_start_hd)
qed

lemma strip_0x_digits:
  assumes "\<And>c. c \<in> set t \<Longrightarrow> \<exists>d<16. c = digit_char d"
  shows "strip_0x t = None"
proof -
  have "c \<noteq> 0x78 \<and> c \<noteq> 0x58" if "c \<in> set t" for c
    using assms [OF that] digit_char_not_special(3,4) by auto
  then show ?thesis
    by (cases t; cases "tl t") (auto simp: strip_0x_def strip_prefix_def ustr_def)
qed

lemmas strip_0x_fmt_hex = strip_0x_digits [OF hex_digit_char]

lemma strip_0x_prefix: "strip_0x (ustr ''0x'' @ t) = Some t"
  by (simp add: strip_0x_def strip_prefix_def ustr_def)

lemma length_fmt_hex_u8 [simp]: "n < 256 \<Longrightarrow> length (fmt_hex 2 n) = 2"
  using less_mult_imp_div_less [of n 16 16]
  by (simp add: fmt_hex_def Let_def nat_digits.simps [of 16 n] nat_digits.simps [of 16 "n div 16"])

lemma parse_fmt_hex_byte: "parse_u8 16 (fmt_hex 2 (unat (b :: u8))) = Some (uint b)"
  using parse_fmt_hex [of "unat b" 255 2] unsigned_less [of b, where ?'a = int]
  by (simp add: parse_u8_def)

lemma utf8_len_ascii: "list_all (\<lambda>c. c < 0x80) t \<Longrightarrow> utf8_len t = length t"
  by (induction t) (simp_all add: utf8_len_def)

lemma code_hex_shape:
  "length (code_hex code) = 6"
  "c \<in> set (code_hex code) \<Longrightarrow> \<exists>d<16. c = digit_char d"
proof -
  obtain x y z where "code = (x, y, z)" by (cases code)
  moreover have "unat (b :: u8) < 256" for b
    using unsigned_less [of b, where ?'a = nat] by simp
  ultimately show "length (code_hex code) = 6" "c \<in> set (code_hex code) \<Longrightarrow> \<exists>d<16. c = digit_char d"
    using hex_digit_char by (auto simp: code_hex_def)
qed

lemma parse_code_hex: "parse_dtc_code (code_hex code) = Inr code"
proof -
  obtain x y z where c: "code = (x, y, z)" by (cases code)
  have l: "length (fmt_hex 2 (unat (b :: u8))) = 2" for b
    using unsigned_less [of b, where ?'a = nat] by simp
  have d: "\<not> is_whitespace c \<and> is_ascii_hexdigit c \<and> c < 0x80" if "c \<in> set (code_hex code)" for c
    using code_hex_shape(2) [OF that] digit_char_not_special by (auto simp: is_ascii_hexdigit_def)
  have t: "trim (code_hex code) = code_hex code"
    using trim_fmt_hex_append [of "fmt_hex 2 (unat x) @ fmt_hex 2 (unat y)" 2 "unat z"] d
    by (simp add: c code_hex_def)
  have f: "filter (\<lambda>c. \<not> is_whitespace c) (code_hex code) = code_hex code"
    using d by (simp add: filter_id_conv)
  have u: "utf8_len (code_hex code) = 6"
    using d code_hex_shape(1) by (simp add: utf8_len_ascii list_all_iff)
  have s: "strip_0x (code_hex code) = None"
    using code_hex_shape(2) by (rule strip_0x_digits)
  have "list_all is_ascii_hexdigit (code_hex code)"
    using d by (simp add: list_all_iff)
  then show ?thesis
    by (simp add: parse_dtc_code_def Let_def t f u s) (simp add: c code_hex_def l parse_fmt_hex_byte)
qed

lemma parse_hex_u16_text: "parse_hex_u16 (hex_u16 w) = Inr w"
  using trim_fmt_hex_append [of "[]" 4 "unat w"] parse_fmt_hex [of "unat w" 65535 4]
    unsigned_less [of w, where ?'a = int]
  by (simp add: parse_hex_u16_def hex_u16_def strip_0x_fmt_hex)

lemma hex_address_trim: "trim (hex_address a) = hex_address a"
  using trim_fmt_hex_append [of "ustr ''0x''" 2 "unat a"] by (simp add: hex_address_def ustr_def is_whitespace_def)

lemma hex_address_parse: "parse_hex_address (hex_address a) = Some a"
  by (simp add: parse_hex_address_def hex_address_def strip_0x_prefix parse_fmt_hex_byte)

text \<open>
  What the tools print, the tools accept: the code of a fault listed by any fault tool is the
  code that \<open>read_fault_detail\<close> and \<open>fault_help\<close> parse, the id of a listed measurement selects that
  measurement in \<open>read_data\<close>, and a listed address resolves to that ECU with or without a database
  and is the address the routing check reads.
\<close>
theorem mcp_texts_roundtrip:
  "parse_dtc_code (fi_code_hex (fault_info_of d address catalog)) = Inr (dtc_code d)
   \<and> resolve_read_target lower
        \<lparr>rdq_ecu = ecu, rdq_did = Some (mi_id_hex (measurement_info_of m)), rdq_name = None, rdq_variant = variant\<rparr>
        v ms = Inr (ms_id m)
   \<and> ecu_resolve (hex_address address) catalog = Inr address
   \<and> parse_sg_adr (hex_address address) = Some address"
  by (simp add: fault_info_of_def dtc_code_hex_def parse_code_hex resolve_read_target_def measurement_info_of_def
      parse_hex_u16_text ecu_resolve_def parse_sg_adr_def hex_address_trim hex_address_parse)
    (simp add: hex_address_def strip_0x_prefix parse_fmt_hex_byte)

section \<open>Paths\<close>

lemma split_on_parts: "f \<in> set (split_on p t) \<Longrightarrow> list_all (\<lambda>c. \<not> p c) f"
  by (induction t arbitrary: f) (fastforce split: list.splits if_splits)+

text \<open>A file name is a file name of itself exactly if it is one component and not a dot name.\<close>

lemma path_file_name_self:
  "path_file_name v = Some v \<longleftrightarrow> v \<noteq> [] \<and> 0x2F \<notin> set v \<and> v \<noteq> ustr ''.'' \<and> v \<noteq> ustr ''..''"
proof
  assume a: "path_file_name v = Some v"
  define cs where "cs = filter (\<lambda>c. c \<noteq> [] \<and> c \<noteq> ustr ''.'') (split_on (\<lambda>c. c = 0x2F) v)"
  from a have "cs \<noteq> []" "last cs = v" "v \<noteq> ustr ''..''"
    by (auto simp: path_file_name_def cs_def [symmetric] split: list.splits if_splits)
  then have "v \<in> set cs" using last_in_set by blast
  then show "v \<noteq> [] \<and> 0x2F \<notin> set v \<and> v \<noteq> ustr ''.'' \<and> v \<noteq> ustr ''..''"
    using split_on_parts [of v "\<lambda>c. c = 0x2F" v] \<open>v \<noteq> ustr ''..''\<close> by (auto simp: cs_def list_all_iff)
next
  assume "v \<noteq> [] \<and> 0x2F \<notin> set v \<and> v \<noteq> ustr ''.'' \<and> v \<noteq> ustr ''..''"
  moreover from this have "split_on (\<lambda>c. c = 0x2F) v = [v]"
    by (intro split_on_none) (auto simp: list_all_iff)
  ultimately show "path_file_name v = Some v" by (simp add: path_file_name_def)
qed

lemma profile_stem_chars: "list_all (\<lambda>c. is_ascii_alphanumeric c \<or> c = 0x5F) (profile_stem vin)"
  by (auto simp: profile_stem_def list_all_iff)

text \<open>
  C32. No text of a client leaves the two directories of the server. A variant names a file exactly
  when it is a single path component other than a dot name, and then that file with the suffix in
  the SGBD directory; a profile is a file of the profile directory whose name has only letters,
  digits and underscores before its suffix, whatever the car calls itself.
\<close>
theorem mcp_paths_confined:
  "sgbd_path env v =
     (case sc_sgbd_dir (ev_config env) of
        None \<Rightarrow> None
      | Some dir \<Rightarrow>
          if v \<noteq> [] \<and> 0x2F \<notin> set v \<and> v \<noteq> ustr ''.'' \<and> v \<noteq> ustr ''..''
          then Some ((if dir = [] \<or> last dir = 0x2F then dir else dir @ [0x2F]) @ v @ ustr ''.prg'') else None)
   \<and> profile_path dir' vin =
       (if dir' = [] \<or> last dir' = 0x2F then dir' else dir' @ [0x2F]) @ profile_stem vin @ ustr ''.json''
   \<and> 0x2F \<notin> set (profile_stem vin) \<and> 0x2E \<notin> set (profile_stem vin)"
proof -
  have s: "\<not> (profile_stem vin @ ustr ''.json'' \<noteq> [] \<and> hd (profile_stem vin @ ustr ''.json'') = 0x2F)"
    "0x2F \<notin> set (profile_stem vin)" "0x2E \<notin> set (profile_stem vin)"
    using profile_stem_chars [of vin]
    by (cases "profile_stem vin"; force simp: list_all_iff is_ascii_alphanumeric_def is_ascii_digit_def
        is_ascii_alphabetic_def ustr_def)+
  have "hd v \<noteq> 0x2F" if "v \<noteq> []" "0x2F \<notin> set v" using that by (cases v) auto
  then show ?thesis
    using path_file_name_self [of v] s
    by (auto simp: sgbd_path_def profile_path_def path_join_def split: option.split)
qed

section \<open>Job results\<close>

lemma surface_sets_concat:
  "emitted \<le> MAX_RUN_JOB_RESULTS \<Longrightarrow>
   concat (surface_sets disp emitted sets)
     = map (named_value_of disp) (take (MAX_RUN_JOB_RESULTS - emitted) (concat sets))"
proof (induction sets arbitrary: emitted)
  case (Cons vals sets)
  let ?k = "MAX_RUN_JOB_RESULTS - emitted"
  have "emitted + length (take ?k vals) \<le> MAX_RUN_JOB_RESULTS"
    using Cons.prems by simp
  from Cons.IH [OF this] show ?case
    using Cons.prems by (cases "?k = 0") (auto simp: Let_def min_def take_map)
qed simp

text \<open>
  A job's reply is cut at the cap and nowhere else: the values shown are the first 200 of all
  the values of the job in their order, each with its name, text and type; the total counts them
  all; and there is a note exactly when some were dropped, which says how many.
\<close>
theorem mcp_job_results_capped:
  "case surface_run_job disp results of (sets, n, note) \<Rightarrow>
     concat sets = map (named_value_of disp) (take 200 (concat results))
     \<and> n = length (concat results)
     \<and> note = (if 200 < length (concat results) then Some (200, n) else None)
     \<and> list_all2 (\<lambda>shown vals. map nv_name shown = map fst (take (length shown) vals))
         sets (take (length sets) results)"
proof -
  have c: "concat (surface_sets disp 0 results) = map (named_value_of disp) (take 200 (concat results))"
    using surface_sets_concat [of 0 disp results] by (simp add: MAX_RUN_JOB_RESULTS_def)
  have n: "nv_name (named_value_of disp x) = fst x" for x
    by (cases x) (simp add: named_value_of_def split: prod.split)
  have "list_all2 (\<lambda>shown vals. map nv_name shown = map fst (take (length shown) vals))
      (surface_sets disp e results) (take (length (surface_sets disp e results)) results)" for e
    by (induction results arbitrary: e) (auto simp: Let_def n comp_def min_def take_map)
  moreover have "sum_list (map length (surface_sets disp 0 results)) = min 200 (sum_list (map length results))"
    using arg_cong [OF c, of length] by (simp add: length_concat)
  ultimately show ?thesis
    using c by (simp add: surface_run_job_def Let_def length_concat)
qed

section \<open>Learned variants\<close>

lemma profile_load_record:
  assumes "writable (profile_path dir vin)"
  shows "profile_load (profile_record writable dir vin address variant store) dir' vin' address' =
     (if profile_path dir' vin' = profile_path dir vin \<and> address' = address then Some variant
      else profile_load store dir' vin' address')"
  using assms by (auto simp: profile_record_def profile_load_def Let_def)

lemma profile_stem_inj:
  assumes "list_all is_ascii_alphanumeric vin" "list_all is_ascii_alphanumeric vin'"
    and "profile_path dir vin = profile_path dir vin'"
  shows "vin = vin'"
proof -
  have n: "is_ascii_alphanumeric c \<Longrightarrow> c \<noteq> 0x2F" for c
    by (auto simp: is_ascii_alphanumeric_def is_ascii_digit_def is_ascii_alphabetic_def)
  have s: "list_all is_ascii_alphanumeric v \<Longrightarrow> profile_stem v = v" for v
    by (induction v) (simp_all add: profile_stem_def)
  have p: "profile_path dir v = (if dir = [] \<or> last dir = 0x2F then dir else dir @ [0x2F]) @ v @ ustr ''.json''"
    if "list_all is_ascii_alphanumeric v" for v
    using that by (cases v) (auto simp: profile_path_def path_join_def s ustr_def dest: n)
  show ?thesis using assms by (simp add: p)
qed

lemma resolve_variant_recorded:
  assumes "ev_writable env (profile_path dir vin)" and "effective_profile_dir env' = Some dir"
    and "store' = profile_record (ev_writable env) dir vin address v store"
  shows "resolve_variant env' store' address None catalog (Some vin) = Some v"
    "address' \<noteq> address \<or> list_all is_ascii_alphanumeric vin \<and> list_all is_ascii_alphanumeric vin' \<and> vin' \<noteq> vin \<Longrightarrow>
      resolve_variant env' store' address' explicit catalog (Some vin')
        = resolve_variant env' store address' explicit catalog (Some vin')"
  using profile_load_record [of "ev_writable env" dir vin address v store, OF assms(1)] assms(2,3)
    profile_stem_inj [of vin vin' dir]
  by (auto simp: resolve_variant_def split: option.split)

lemma bindS_Inr:
  "bindS m k s = (Inr x, s') \<longleftrightarrow> (\<exists>y s1. m s = (Inr y, s1) \<and> k y s1 = (Inr x, s'))"
  by (auto simp: bindS_def split: prod.splits sum.splits)

lemma stateless_Inr:
  "liftS r s = (Inr x, s') \<longleftrightarrow> r = Inr x \<and> s' = s"
  "returnS y s = (Inr x, s') \<longleftrightarrow> x = y \<and> s' = s"
  "getT f s = (Inr x, s') \<longleftrightarrow> x = f (fst s) \<and> s' = s"
  "resolveT env e s = (Inr a, s') \<longleftrightarrow> ecu_resolve e (ev_catalog env) = Inr a \<and> s' = s"
  "paramT p s = (Inr y', s') \<longleftrightarrow> p = Inr y' \<and> s' = s"
  by (auto simp: liftS_def returnS_def getT_def resolveT_def paramT_def map_err_def split: sum.splits)

lemma measurementsT_Inr:
  assumes "measurementsT env v (m, s) = (Inr x, (m', s'))"
  shows "mc_conn m' = mc_conn m \<and> mc_profiles m' = mc_profiles m \<and> s' = s"
  using assms by (auto simp: measurementsT_def split: prod.splits)

lemma read_value_state:
  assumes "read_value req address did x (m, s) = (Inr y, (m', s'))"
  shows "m' = m"
  using assms
  by (auto simp: read_value_def clientT_def bindS_Inr stateless_Inr split: option.splits if_splits prod.splits)

lemma connectedT_Inr: "connectedT (m, s) = (Inr c, ms') \<Longrightarrow> ms' = (m, s)"
  by (auto simp: connectedT_def bindS_Inr stateless_Inr)

lemma describe_value_sgbd:
  "snd (snd (snd (describe_value d p did v ms))) = ScaledBySgbd \<Longrightarrow> \<exists>x. p = Some x"
  by (auto simp: describe_value_def split: option.splits if_splits)

lemma guard_Inr:
  "(case y of None \<Rightarrow> paramT (Inl e) | Some a \<Rightarrow> returnS ()) st = (Inr (), st') \<Longrightarrow> st' = st"
  "(case z of None \<Rightarrow> returnS () | Some a \<Rightarrow> if P a then paramT (Inl (f a)) else returnS ()) st = (Inr (), st') \<Longrightarrow>
     st' = st"
  by (auto simp: stateless_Inr split: option.splits if_splits)

lemma read_data_profiles:
  assumes "read_data env req q (m, s) = (Inr reply, (m', s'))" and "rdr_note reply = ScaledBySgbd"
    and "ecu_resolve (rdq_ecu q) (ev_catalog env) = Inr address"
    and "rdq_variant q = Some v" and "Option.bind (mc_conn m) cn_vin = Some vin"
    and "effective_profile_dir env = Some dir"
  shows "mc_profiles m' = profile_record (ev_writable env) dir vin address v (mc_profiles m)"
proof -
  have v: "variantT env a (Some v) ms = (Inr (Some v), ms)" for a and ms :: "'a mcp_state \<times> 'b"
    by (simp add: variantT_def getT_def resolve_variant_def)
  show ?thesis
    using assms
    unfolding read_data_def Let_def
    apply (simp add: bindS_Inr stateless_Inr v case_prod_beta split del: if_split)
    apply (elim exE conjE)
    apply (drule guard_Inr connectedT_Inr measurementsT_Inr read_value_state)+
    apply hypsubst
    apply simp
    apply (drule describe_value_sgbd)
    apply (auto simp: modifyT_def)
    done
qed

text \<open>
  C12. A variant is learned from a read that proves it: after \<open>read_data\<close> with an explicit variant has
  answered with a value scaled by that variant's SGBD, a later call about the same ECU of the same
  car that names no variant resolves to it, without the network and whatever the database lists; what
  was learned about the other ECUs of the car, and about every other car, stays as it was.
\<close>
theorem mcp_variant_learned:
  assumes "read_data env req q (m, s) = (Inr reply, (m', s'))" and "rdr_note reply = ScaledBySgbd"
    and "ecu_resolve (rdq_ecu q) (ev_catalog env) = Inr address" and "rdq_variant q = Some v"
    and "Option.bind (mc_conn m) cn_vin = Some vin" and "effective_profile_dir env = Some dir"
    and "ev_writable env (profile_path dir vin)" and "effective_profile_dir env' = Some dir"
  shows "resolve_variant env' (mc_profiles m') address None catalog (Some vin) = Some v \<and>
    (\<forall>address' explicit vin'.
       address' \<noteq> address
       \<or> list_all is_ascii_alphanumeric vin \<and> list_all is_ascii_alphanumeric vin' \<and> vin' \<noteq> vin \<longrightarrow>
       resolve_variant env' (mc_profiles m') address' explicit catalog (Some vin')
         = resolve_variant env' (mc_profiles m) address' explicit catalog (Some vin'))"
  using read_data_profiles [OF assms(1-6)] resolve_variant_recorded [OF assms(7,8)] by metis

definition demo_env :: "nat mcp_env" where
  "demo_env =
     \<lparr>ev_config = \<lparr>sc_gateway_ip = None, sc_bind = None, sc_broadcast = 0, sc_port = 6801, sc_timeout = 2,
        sc_connect_timeout = 2, sc_discovery_wait = 2, sc_semantic_db = [], sc_sgbd_dir = None,
        sc_scan_concurrency = 8, sc_profile_dir = Some (ustr ''p''), sc_no_profile = False\<rparr>,
      ev_xdg_state_home = None, ev_home = None, ev_catalog = None, ev_exists = (\<lambda>_. False),
      ev_read = (\<lambda>_. None), ev_writable = (\<lambda>_. True), ev_parse_ip = (\<lambda>_. None), ev_show_ip = (\<lambda>_. []),
      ev_link_local = None, ev_probe = (\<lambda>_ _ _. Inr []), ev_connect = (\<lambda>_ _. None), ev_lower = id,
      ev_show_f64 = (\<lambda>_. []), ev_float = \<lparr>fe_log10 = id, fe_powf = (\<lambda>x _. x), fe_powi = (\<lambda>x _. x),
      fe_display = (\<lambda>_. [])\<rparr>, ev_order = id\<rparr>"

definition demo_measurement :: measurement where
  "demo_measurement =
     \<lparr>ms_arg = ustr ''A'', ms_id = 0x4605, ms_result_name = ustr ''R'', ms_description = ustr ''D'',
      ms_unit = ustr ''K'', ms_datatype = TU8, ms_mul = 0x3FF0000000000000, ms_div = 0x3FF0000000000000, ms_add = 0, ms_sg_adr = ustr ''12'',
      ms_service = ustr ''22''\<rparr>"

definition demo_state :: "nat mcp_state" where
  "demo_state =
     \<lparr>mc_conn = Some \<lparr>cn_gateway_ip = 0, cn_vin = Some (ustr ''WBA1''), cn_vin_source = DidF190, cn_fitted = None\<rparr>,
      mc_cache = Map.empty(ustr ''d72'' \<mapsto> [demo_measurement]), mc_profiles = Map.empty\<rparr>"

definition demo_request :: read_data_request where
  "demo_request =
     \<lparr>rdq_ecu = ustr ''0x12'', rdq_did = Some (ustr ''0x4605''), rdq_name = None,
      rdq_variant = Some (ustr ''d72'')\<rparr>"

lemmas text_eval = ustr_def strip_0x_def strip_prefix_def parse_u8_def parse_int_def trim_def trim_start_def
  trim_end_def to_digit_def is_whitespace_def is_ascii_digit_def

lemmas f64_eval = f64_is_finite_def f64_is_nan_def f64_val_def f64_sign_def f64_mag_def f64_exp_def f64_frac_def

lemma demo_texts:
  "ecu_resolve (ustr ''0x12'') None = Inr 0x12"
  "parse_hex_u16 (ustr ''0x4605'') = Inr 0x4605"
  "parse_sg_adr (ustr ''12'') = Some 0x12"
  "is_dynamic demo_measurement = False"
  by (simp_all add: ecu_resolve_def parse_hex_address_def parse_hex_u16_def parse_sg_adr_def is_dynamic_def
    demo_measurement_def text_eval)

lemma demo_fields:
  "ev_catalog demo_env = None"
  "ev_lower demo_env = id"
  "ev_writable demo_env = (\<lambda>_. True)"
  "effective_profile_dir demo_env = Some (ustr ''p'')"
  "Option.bind (mc_conn demo_state) cn_vin = Some (ustr ''WBA1'')"
  "mc_conn demo_state \<noteq> None"
  "load_measurements demo_env (Some (ustr ''d72'')) (mc_cache demo_state)
     = (Some [demo_measurement], mc_cache demo_state)"
  "ms_sg_adr demo_measurement = ustr ''12''"
  by (simp_all add: demo_env_def effective_profile_dir_def demo_state_def demo_measurement_def load_measurements_def)

lemma demo_read:
  "\<exists>reply m' s'. read_data demo_env (\<lambda>_ _ s. (Inr [0x62, 0x46, 0x05, 7], s)) demo_request (demo_state, ())
      = (Inr reply, (m', s')) \<and> rdr_note reply = ScaledBySgbd"
proof -
  let ?req = "\<lambda>(_::u8) (_::bytes) s. (Inr [0x62, 0x46, 0x05, 7], s :: unit)"
  have r: "read_did ?req 0x12 0x4605 s = (Inr (0x4605, [7]), s)" for s
    by (simp add: read_did_def bindS_def decodeS_def liftS_def returnS_def decode_read_data_by_identifier_def
      expect_positive_def uds_consts positive_response_sid_def slice_opt_def be16_def bindE_def map_err_def)
  have d: "dd_scaled (decode_did 0x4605 [7]) = None"
    by (simp add: decode_did_def pid_for_did_def)
  have m: "ms_get [demo_measurement] 0x4605 = Some demo_measurement"
    by (simp add: ms_get_def demo_measurement_def)
  have x: "ms_scaled demo_measurement [7] \<noteq> None"
    by (simp add: ms_scaled_def demo_measurement_def scale_raw_def read_be_def slice_opt_def f64_eq_def f64_key_def
      f64_eval)
  obtain c where c: "mc_conn demo_state = Some c"
    using demo_fields(6) by blast
  show ?thesis
    using x
    by (auto simp: c read_data_def demo_request_def demo_fields demo_texts resolveT_def bindS_def liftS_def returnS_def
      getT_def variantT_def resolve_variant_def measurementsT_def paramT_def map_err_def resolve_read_target_def
      m r d connectedT_def read_value_def clientT_def modifyT_def Let_def ms_scale_def describe_value_def
      split: option.split)
qed

text \<open>The learned variant of the read above, looked up by the next call.\<close>
theorem mcp_variant_learned_witness:
  "\<exists>reply m' s'. read_data demo_env (\<lambda>_ _ s. (Inr [0x62, 0x46, 0x05, 7], s)) demo_request (demo_state, ())
      = (Inr reply, (m', s'))
    \<and> resolve_variant demo_env (mc_profiles m') 0x12 None None (Some (ustr ''WBA1'')) = Some (ustr ''d72'')"
proof -
  from demo_read obtain reply m' s' where r:
    "read_data demo_env (\<lambda>_ _ s. (Inr [0x62, 0x46, 0x05, 7], s)) demo_request (demo_state, ()) = (Inr reply, (m', s'))"
    and "rdr_note reply = ScaledBySgbd" by blast
  from mcp_variant_learned [OF this, where address = "0x12" and v = "ustr ''d72''" and vin = "ustr ''WBA1''"
      and dir = "ustr ''p''" and env' = demo_env and catalog = None]
  have "resolve_variant demo_env (mc_profiles m') 0x12 None None (Some (ustr ''WBA1'')) = Some (ustr ''d72'')"
    by (simp add: demo_fields demo_request_def demo_texts)
  with r show ?thesis by blast
qed

section \<open>Without a connection\<close>

text \<open>No connection, and the world as it was.\<close>

definition offline :: "'s \<Rightarrow> 'ip mcp_state \<times> 's \<Rightarrow> bool" where
  "offline s ms \<longleftrightarrow> mc_conn (fst ms) = None \<and> snd ms = s"

named_theorems offlineI

lemma offline_connected [offlineI]: "keeps (offline s) (bindS connectedT k)"
  by (simp add: keeps_def offline_def connectedT_def bindS_def getT_def liftS_def ok_or_def split: prod.split)

lemma offline_getT [offlineI]: "keeps (offline s) (getT f)"
  by (simp add: keeps_def getT_def)

lemma offline_measurementsT [offlineI]: "keeps (offline s) (measurementsT env v)"
  by (auto simp: keeps_def measurementsT_def offline_def split: prod.split)

lemma offline_disconnect: "keeps (offline s) disconnect_tool"
  by (simp add: keeps_def disconnect_tool_def offline_def bindS_def getT_def modifyT_def returnS_def)

lemma offline_cond [offlineI]:
  "(c \<Longrightarrow> keeps P a) \<Longrightarrow> (\<not> c \<Longrightarrow> keeps P b) \<Longrightarrow> keeps P (if c then a else b)"
  by simp

lemma offline_let [offlineI]: "(\<And>x. keeps P (f x)) \<Longrightarrow> keeps P (let x = t in f x)"
  by simp

lemma offline_paramT [offlineI]: "keeps P (paramT r)"
  by (simp add: paramT_def keeps_liftS)

lemma offline_resolveT [offlineI]: "keeps P (resolveT env e)"
  by (simp add: resolveT_def keeps_liftS)

lemma offline_variantT [offlineI]: "keeps (offline s) (variantT env address v)"
  unfolding variantT_def by (rule offline_getT)

lemma offline_needed_variant [offlineI]: "keeps P (needed_variant env address v)"
  unfolding needed_variant_def by (rule offline_paramT)

lemmas [offlineI] = keeps_returnS keeps_liftS keeps_option keeps_prod

lemmas offline_stepI = offlineI keeps_bindS

lemma offline_list_variant: "keeps (offline s) (resolve_list_variant env v e)"
  unfolding resolve_list_variant_def by (intro offline_stepI)

lemma offline_handle:
  assumes "\<And>ip. c \<noteq> Connect ip"
  shows "keeps (offline s) (mcp_handle env je req c)"
  using assms
  by (cases c)
    (auto simp: mcp_handle_def mapS_def read_faults_def read_info_memory_tool_def read_fault_detail_tool_def
      fault_help_tool_def identify_vehicle_tool_def clear_faults_def read_data_def run_job_tool_def
      list_ecus_tool_def list_measurements_def list_service_functions_def scan_ecus_def read_all_faults_def
      clear_all_faults_def intro!: offline_stepI offline_disconnect offline_list_variant)

text \<open>What needs a connection is refused without one.\<close>

definition refused :: "'s \<Rightarrow> ('ip mcp_state \<times> 's \<Rightarrow> (mcp_error + 'a) \<times> ('ip mcp_state \<times> 's)) \<Rightarrow> bool" where
  "refused s tool \<longleftrightarrow> (\<forall>ms. offline s ms \<longrightarrow> isl (fst (tool ms)))"

named_theorems refusedI

lemma refused_connectedT [refusedI]: "refused s (bindS connectedT k)"
  by (simp add: refused_def offline_def connectedT_def bindS_def getT_def liftS_def)

lemma refused_bindS [refusedI]:
  "keeps (offline s) tool \<Longrightarrow> (\<And>x. refused s (k x)) \<Longrightarrow> refused s (bindS tool k)"
  by (auto simp: refused_def keeps_def bindS_def split: prod.split sum.split) (metis snd_conv)

lemma refused_cond [refusedI]:
  "(c \<Longrightarrow> refused s a) \<Longrightarrow> (\<not> c \<Longrightarrow> refused s b) \<Longrightarrow> refused s (if c then a else b)"
  "(\<And>x. refused s (f x)) \<Longrightarrow> refused s (let x = t in f x)"
  "refused s (paramT (Inl e))"
  by (simp_all add: refused_def paramT_def liftS_def map_err_def)

lemma refused_mapS: "refused s tool \<Longrightarrow> refused s (mapS f tool)"
  by (auto simp: refused_def mapS_def bindS_def split: prod.split sum.split dest: spec) (metis fst_conv isl_def sum.disc(2))

text \<open>The calls the server answers from its own tables.\<close>

definition local_call :: "mcp_call \<Rightarrow> bool" where
  "local_call c \<longleftrightarrow>
     (case c of
        Disconnect \<Rightarrow> True | FaultHelp _ \<Rightarrow> True | ListEcus \<Rightarrow> True | ListMeasurements _ \<Rightarrow> True
      | ListServiceFunctions _ \<Rightarrow> True | _ \<Rightarrow> False)"

lemma refused_tools:
  "refused s (read_faults env req rfq)"
  "refused s (read_info_memory_tool env req ecu)"
  "refused s (read_fault_detail_tool env req fdq)"
  "refused s (identify_vehicle_tool env req)"
  "refused s (clear_faults env req cfq)"
  "refused s (read_data env req rdq)"
  "refused s (run_job_tool env je req rjq)"
  "refused s (scan_ecus env req rescan)"
  "refused s (read_all_faults env req rescan)"
  "refused s (clear_all_faults env req caq)"
  unfolding read_faults_def read_info_memory_tool_def read_fault_detail_tool_def identify_vehicle_tool_def
    clear_faults_def read_data_def run_job_tool_def scan_ecus_def read_all_faults_def clear_all_faults_def
  by (intro refusedI offline_stepI)+

lemma refused_handle:
  assumes "\<And>ip. c \<noteq> Connect ip" and "\<not> local_call c"
  shows "refused s (mcp_handle env je req c)"
  using assms by (cases c) (auto simp: mcp_handle_def local_call_def intro!: refused_mapS refused_tools)

text \<open>
  C24. Nothing reaches the car before a connection is made: along any sequence of calls none of which
  is a connect, started without a connection, the world is left exactly as it was and no connection
  appears; and every call is answered with an error, except those the server answers from its own
  tables.
\<close>
theorem mcp_offline:
  assumes "list_all (\<lambda>(env, c). \<forall>ip. c \<noteq> Connect ip) calls" and "mc_conn m = None"
  shows "case mcp_run je req calls (m, s) of (replies, (m', s')) \<Rightarrow>
      s' = s \<and> mc_conn m' = None
      \<and> list_all2 (\<lambda>(env, c) reply. local_call c \<or> (\<exists>e. reply = Inl e)) calls replies"
  using assms
proof (induction calls arbitrary: m)
  case (Cons ec calls)
  obtain env c where ec: "ec = (env, c)" by fastforce
  obtain r m' s' where h: "mcp_handle env je req c (m, s) = (r, (m', s'))"
    by (metis prod.exhaust)
  have n: "c \<noteq> Connect ip" for ip using Cons.prems by (simp add: ec)
  have off: "offline s (m, s)" using Cons.prems by (simp add: offline_def)
  then have "offline s (m', s')"
    using offline_handle [OF n, of s env je req] h unfolding keeps_def by (metis snd_conv)
  moreover have "local_call c \<or> (\<exists>e. r = Inl e)"
    using refused_handle [OF n, of s env je req] off h unfolding refused_def by (metis fst_conv isl_def)
  ultimately show ?case
    using Cons.IH [of m'] Cons.prems
    by (simp add: ec h offline_def apfst_def map_prod_def split: prod.splits)
qed simp

theorem mcp_offline_witness:
  "case mcp_run \<lparr>je_show = (\<lambda>_. []), je_sleep = (\<lambda>_ n. n)\<rparr> (\<lambda>_ _ n. (Inr [], Suc n)) [(demo_env, ScanEcus True), (demo_env, ListEcus)] (mcp_new, 0 :: nat)
   of (replies, (m, n)) \<Rightarrow> n = 0 \<and> mc_conn m = None
     \<and> list_all2 (\<lambda>(env, c) reply. local_call c \<or> (\<exists>e. reply = Inl e))
         [(demo_env, ScanEcus True), (demo_env, ListEcus)] replies"
  by (rule mcp_offline) (simp_all add: mcp_new_def)

end
