(* ===== verification/Mcp_Cache.thy ===== *)
theory Mcp_Cache
  imports Mcp_Laws
begin

text \<open>
  The measurement cache of \<open>mcp/src/server.rs\<close> is transparent: whatever calls the server has
  answered, a lookup in the cache gives what parsing the SGBD again would give, and a variant whose
  SGBD cannot be loaded is never in it.
\<close>

section \<open>Lookups\<close>

text \<open>What the lookup of a variant's measurements reads of the world.\<close>

definition same_files :: "'ip mcp_env \<Rightarrow> 'ip mcp_env \<Rightarrow> bool" where
  "same_files env env' \<longleftrightarrow>
     ev_read env' = ev_read env \<and> sc_sgbd_dir (ev_config env') = sc_sgbd_dir (ev_config env)"

definition fresh_measurements :: "'ip mcp_env \<Rightarrow> ustring option \<Rightarrow> measurements option" where
  "fresh_measurements env v = fst (load_measurements env v Map.empty)"

definition cache_fresh :: "'ip mcp_env \<Rightarrow> sgbd_cache \<Rightarrow> bool" where
  "cache_fresh env cache \<longleftrightarrow> (\<forall>v m. cache v = Some m \<longrightarrow> fresh_measurements env (Some v) = Some m)"

lemma same_files_load:
  assumes "same_files env env'"
  shows "load_measurements env' v cache = load_measurements env v cache"
proof -
  have "sgbd_path env' = sgbd_path env"
    using assms by (simp add: same_files_def sgbd_path_def fun_eq_iff)
  with assms show ?thesis by (simp add: load_measurements_def same_files_def split: option.split sum.split)
qed

lemma load_hit: "cache v = Some m \<Longrightarrow> load_measurements env (Some v) cache = (Some m, cache)"
  by (simp add: load_measurements_def)

lemma load_miss:
  "cache v = None \<Longrightarrow> load_measurements env (Some v) cache =
     (case fresh_measurements env (Some v) of None \<Rightarrow> (None, cache) | Some m \<Rightarrow> (Some m, cache(v \<mapsto> m)))"
  by (simp add: load_measurements_def fresh_measurements_def split: option.split sum.split)

lemma load_cached:
  assumes "cache_fresh env cache"
  shows "fst (load_measurements env v cache) = fresh_measurements env v"
    and "cache_fresh env (snd (load_measurements env v cache))"
proof -
  have c: "cache w = Some m \<Longrightarrow> fresh_measurements env (Some w) = Some m" for w m
    using assms by (simp add: cache_fresh_def)
  have n: "load_measurements env None cache = (None, cache)" "fresh_measurements env None = None"
    by (simp_all add: load_measurements_def fresh_measurements_def)
  show "fst (load_measurements env v cache) = fresh_measurements env v"
  proof (cases v)
    case (Some w)
    then show ?thesis by (cases "cache w") (simp_all add: c load_hit load_miss split: option.split)
  qed (simp add: n)
  show "cache_fresh env (snd (load_measurements env v cache))"
  proof (cases v)
    case (Some w)
    with assms show ?thesis
      by (cases "cache w") (auto simp: load_hit load_miss cache_fresh_def split: option.split)
  qed (simp add: n assms)
qed

section \<open>Tools keep the cache fresh\<close>

definition fresh :: "'ip mcp_env \<Rightarrow> 'ip mcp_state \<times> 's \<Rightarrow> bool" where
  "fresh env ms \<longleftrightarrow> cache_fresh env (mc_cache (fst ms))"

named_theorems freshI

lemma fresh_primitives [freshI]:
  "keeps (fresh env) (getT f)"
  "keeps (fresh env) (clientT g a)"
  "keeps (fresh env) (tryT a)"
  "keeps (fresh env) (paramT r)"
  "keeps (fresh env) (resolveT env' spec)"
  "keeps (fresh env) connectedT"
  by (auto simp: keeps_def getT_def clientT_def tryT_def paramT_def resolveT_def connectedT_def liftS_def bindS_def
      fresh_def split: prod.split sum.split)

lemma fresh_modifyT [freshI]:
  "(\<And>m. mc_cache (f m) = mc_cache m) \<Longrightarrow> keeps (fresh env) (modifyT f)"
  by (simp add: keeps_def modifyT_def fresh_def)

lemma fresh_measurementsT [freshI]:
  "same_files env env' \<Longrightarrow> keeps (fresh env) (measurementsT env' v)"
  using load_cached [of env]
  by (auto simp: keeps_def measurementsT_def fresh_def same_files_load split: prod.split) (metis snd_conv)

lemma fresh_branches [freshI]:
  "(c \<Longrightarrow> keeps P a) \<Longrightarrow> (\<not> c \<Longrightarrow> keeps P b) \<Longrightarrow> keeps P (if c then a else b)"
  "(\<And>x. keeps P (g x)) \<Longrightarrow> keeps P (let x = t in g x)"
  by simp_all

lemma fresh_list [freshI]:
  "keeps P a \<Longrightarrow> (\<And>x xs. keeps P (f x xs)) \<Longrightarrow> keeps P (case r of [] \<Rightarrow> a | x # xs \<Rightarrow> f x xs)"
  by (cases r) simp_all

lemma fresh_bool [freshI]:
  "keeps P a \<Longrightarrow> keeps P b \<Longrightarrow> keeps P (case c of True \<Rightarrow> a | False \<Rightarrow> b)"
  by (cases c) simp_all

lemmas [freshI] = keeps_returnS keeps_liftS keeps_option keeps_prod keeps_bindS

lemma fresh_lookups [freshI]:
  "keeps (fresh env) (variantT env' address v)"
  "keeps (fresh env) (needed_variant env' address v)"
  "keeps (fresh env) (fitted_addrs req conn rescan)"
  "keeps (fresh env) (read_value req address did x)"
  unfolding variantT_def needed_variant_def fitted_addrs_def read_value_def
  by (intro freshI; simp?)+

lemma fresh_list_variant [freshI]: "keeps (fresh env) (resolve_list_variant env' v ecu)"
  unfolding resolve_list_variant_def by (intro freshI)

lemma fresh_connecting_tools:
  "keeps (fresh env) (connect_tool env' req ip)"
  "keeps (fresh env) disconnect_tool"
  "keeps (fresh env) (identify_vehicle_tool env' req)"
  "keeps (fresh env) (scan_ecus env' req rescan)"
  "keeps (fresh env) (read_all_faults env' req rescan)"
  "keeps (fresh env) (clear_all_faults env' req caq)"
  unfolding connect_tool_def disconnect_tool_def identify_vehicle_tool_def scan_ecus_def read_all_faults_def
    clear_all_faults_def
  by (intro freshI; simp?)+

lemma fresh_ecu_tools:
  "keeps (fresh env) (read_faults env' req rfq)"
  "keeps (fresh env) (read_info_memory_tool env' req ecu)"
  "keeps (fresh env) (read_fault_detail_tool env' req fdq)"
  "keeps (fresh env) (fault_help_tool env' fhq)"
  "keeps (fresh env) (clear_faults env' req cfq)"
  "keeps (fresh env) (list_ecus_tool env')"
  "keeps (fresh env) (list_service_functions env' lfq)"
  unfolding read_faults_def read_info_memory_tool_def read_fault_detail_tool_def fault_help_tool_def
    clear_faults_def list_ecus_tool_def list_service_functions_def
  by (intro freshI; simp?)+

lemma fresh_loading_tools:
  assumes "same_files env env'"
  shows "keeps (fresh env) (read_data env' req rdq)"
    and "keeps (fresh env) (run_job_tool env' je req rjq)"
    and "keeps (fresh env) (list_measurements env' lmq)"
  unfolding read_data_def run_job_tool_def list_measurements_def
  by (intro freshI assms; simp)+

lemma fresh_handle:
  "same_files env env' \<Longrightarrow> keeps (fresh env) (mcp_handle env' je req c)"
  unfolding mcp_handle_def mapS_def
  by (cases c) (auto intro!: keeps_bindS keeps_returnS fresh_connecting_tools fresh_ecu_tools fresh_loading_tools)

lemma fresh_run:
  "list_all (\<lambda>(env', c). same_files env env') calls \<Longrightarrow> fresh env ms \<Longrightarrow> fresh env (snd (mcp_run je req calls ms))"
proof (induction calls arbitrary: ms)
  case (Cons ec calls)
  obtain env' c where ec: "ec = (env', c)" by fastforce
  obtain r ms' where h: "mcp_handle env' je req c ms = (r, ms')" by (metis prod.exhaust)
  have "same_files env env'" using Cons.prems by (simp add: ec)
  then have "fresh env ms'"
    using fresh_handle [of env env' je req c] Cons.prems(2) h unfolding keeps_def by (metis snd_conv)
  with Cons show ?case by (simp add: ec h)
qed simp



end
