(* ===== verification/Cli_Text.thy ===== *)
theory Cli_Text
  imports Mcp_Types Service_Cycle "HOL-Library.List_Lexorder"
begin

text \<open>
  The texts of the command line (\<open>cli/src/main.rs\<close>): parsing its hexadecimal arguments, the
  listings it prints, and the decision of \<open>service run\<close>. A listing is built character by
  character as the code builds it.
\<close>

section \<open>Arguments\<close>

definition strip_hex_prefix :: "ustring \<Rightarrow> ustring" where
  "strip_hex_prefix s = (case strip_0x s of Some t \<Rightarrow> t | None \<Rightarrow> s)"

definition parse_hex_u8_arg :: "ustring \<Rightarrow> u8 option" where
  "parse_hex_u8_arg s = map_option word_of_int (parse_u8 16 (strip_hex_prefix s))"

definition parse_hex_u16_arg :: "ustring \<Rightarrow> u16 option" where
  "parse_hex_u16_arg s = map_option word_of_int (parse_int 16 0 65535 (strip_hex_prefix s))"

text \<open>Six hex digits; the length the code takes is in bytes, which for hex digits is the same.\<close>

definition parse_dtc_arg :: "ustring \<Rightarrow> code3 option" where
  "parse_dtc_arg s =
     (let hex = strip_hex_prefix (trim s) in
      if utf8_len hex \<noteq> 6 \<or> \<not> list_all is_ascii_hexdigit hex then None
      else case map (\<lambda>i. parse_u8 16 (take 2 (drop i hex))) [0, 2, 4] of
        [Some a, Some b, Some c] \<Rightarrow> Some (word_of_int a, word_of_int b, word_of_int c)
      | _ \<Rightarrow> None)"

section \<open>Formatting\<close>

definition EM_DASH :: ustring where "EM_DASH = [0x2014]"
definition NEWLINE :: ustring where "NEWLINE = [0x0A]"

definition dec :: "nat \<Rightarrow> ustring" where
  "dec n = fmt_int (int n)"

text \<open>\<open>{:<n}\<close>\<close>

definition pad_right :: "nat \<Rightarrow> ustring \<Rightarrow> ustring" where
  "pad_right n t = t @ replicate (n - length t) 0x20"

text \<open>\<open>unwrap_or\<close>, and a suffix that is there only with its text.\<close>

definition text_or :: "string \<Rightarrow> ustring option \<Rightarrow> ustring" where
  "text_or d t = (case t of None \<Rightarrow> ustr d | Some x \<Rightarrow> x)"

definition suffix_of :: "string \<Rightarrow> string \<Rightarrow> ustring option \<Rightarrow> ustring" where
  "suffix_of a b t = (case t of None \<Rightarrow> [] | Some x \<Rightarrow> ustr a @ x @ ustr b)"

text \<open>\<open>{:02X?}\<close> of a byte slice.\<close>

definition debug_hex :: "bytes \<Rightarrow> ustring" where
  "debug_hex bs = ustr ''['' @ join_with (ustr '', '') (map (\<lambda>b. fmt_hex 2 (unat b)) bs) @ ustr '']''"

text \<open>Three decimals; \<open>f64::round\<close> takes a half away from zero.\<close>

definition round3 :: "f64 \<Rightarrow> f64" where
  "round3 v = f64_div (f64_round_away (f64_mul v (f64_of_int 1000))) (f64_of_int 1000)"

section \<open>Jobs\<close>

text \<open>The order of Rust strings is that of their UTF-8 bytes, which is that of their code points.\<close>

definition format_job_list :: "ustring list \<Rightarrow> ustring" where
  "format_job_list names =
     (if names = [] then ustr ''No BEST/2 jobs defined in this SGBD.''
      else dec (length names) @ ustr '' job(s):''
           @ concat (map (\<lambda>n. NEWLINE @ ustr ''  '' @ n) (sort names)))"

text \<open>The loop over the rows: maximal runs of the same function and phase.\<close>

definition row_group :: "job_parameter \<Rightarrow> int \<times> ustring option" where
  "row_group r = (jp_function_id r, jp_phase r)"

function row_runs :: "job_parameter list \<Rightarrow> job_parameter list list" where
  "row_runs [] = []"
| "row_runs (r # rows) =
     (r # takeWhile (\<lambda>x. row_group x = row_group r) rows)
     # row_runs (dropWhile (\<lambda>x. row_group x = row_group r) rows)"
  by pat_completeness auto
termination
  by (relation "measure length") (auto simp: le_imp_less_Suc length_dropWhile_le)

definition run_title :: "job_parameter list \<Rightarrow> ustring option" where
  "run_title rows = fold (\<lambda>r t. or_else (or_else t (jp_function_en r)) (jp_function_de r)) rows None"

definition job_arg_buffer :: "job_parameter list \<Rightarrow> ustring" where
  "job_arg_buffer rows = join_with (ustr '';'') (map (\<lambda>r. text_or '''' (jp_value r)) rows)"

definition job_arg_line :: "job_parameter list \<Rightarrow> ustring" where
  "job_arg_line rows =
     ustr ''  '' @ job_arg_buffer rows
     @ (case map_option trim (run_title rows) of
          None \<Rightarrow> []
        | Some t \<Rightarrow> if t = [] then [] else ustr ''  '' @ EM_DASH @ ustr '' '' @ t)
     @ (case jp_phase (hd rows) of
          None \<Rightarrow> []
        | Some p \<Rightarrow> if p = ustr ''Main'' then [] else ustr ''  ['' @ p @ ustr '']'')"

text \<open>The heading and the closing advice are left out: the lines, whose number the heading shows.\<close>

definition format_job_args :: "job_parameter list \<Rightarrow> ustring list" where
  "format_job_args rows = map job_arg_line (row_runs rows)"

definition render_value :: "(f64 \<Rightarrow> ustring) \<Rightarrow> result_data \<Rightarrow> ustring" where
  "render_value show d =
     (case d of
        RByte b \<Rightarrow> fmt_int (uint b)
      | RWord w \<Rightarrow> fmt_int (uint w)
      | RDword w \<Rightarrow> fmt_int (uint w)
      | RInt i \<Rightarrow> fmt_int (sint i)
      | RReal r \<Rightarrow> show (round3 r)
      | RText t \<Rightarrow> t
      | RBinary bs \<Rightarrow> hex_bytes bs)"

definition result_set_lines :: "(f64 \<Rightarrow> ustring) \<Rightarrow> bool \<Rightarrow> nat \<Rightarrow> (ustring \<times> result_data) list \<Rightarrow> ustring list" where
  "result_set_lines show multi i vals =
     (if multi then [ustr ''set '' @ dec i @ ustr '':''] else [])
     @ map (\<lambda>(name, d). (if multi then ustr ''    '' else ustr ''  '') @ name @ ustr '' = '' @ render_value show d) vals"

definition format_result_sets :: "(f64 \<Rightarrow> ustring) \<Rightarrow> result_set \<Rightarrow> ustring" where
  "format_result_sets show results =
     (let multi = 1 < length results in
      if concat results = [] then ustr ''No results.''
      else join_with NEWLINE
        (concat (map (\<lambda>(i, vals). result_set_lines show multi i vals) (enumerate 0 results))))"

section \<open>Measurements\<close>

text \<open>A unit that is worth showing.\<close>

definition unit_suffix :: "ustring option \<Rightarrow> ustring" where
  "unit_suffix u =
     (case u of None \<Rightarrow> []
      | Some t \<Rightarrow> if t = [] \<or> t = ustr ''-'' then [] else ustr '' ['' @ t @ ustr '']'')"

definition format_sgbd_measurement :: "measurement \<Rightarrow> ustring option \<Rightarrow> ustring" where
  "format_sgbd_measurement m job =
     ustr ''  '' @ fmt_hex 4 (unat (ms_id m)) @ ustr ''  '' @ pad_right 12 (ms_arg m) @ ustr ''  '' @ ms_name m
     @ unit_suffix (Some (ms_unit m)) @ suffix_of ''  (job '' '')'' job"

definition format_catalog_measurement :: "measurement_entry \<Rightarrow> ustring" where
  "format_catalog_measurement e =
     ustr ''  '' @ me_name e @ unit_suffix (me_unit e) @ suffix_of ''  (job '' '')'' (me_job e)"

section \<open>The ECU tree\<close>

definition tree_bus :: "ecu_tree_entry \<Rightarrow> ustring" where
  "tree_bus e = text_or ''(no bus)'' (or_else (et_bus_label e) (et_bus e))"

definition tree_line :: "ecu_tree_entry \<Rightarrow> ustring" where
  "tree_line e =
     ustr ''  '' @ (if et_minimal e then ustr ''*'' else ustr '' '') @ ustr '' '' @ hex_address (et_address e)
     @ ustr ''  '' @ pad_right 10 (text_or ''?'' (et_name e)) @ ustr ''  '' @ text_or ''-'' (et_group_sgbd e) @ NEWLINE"

fun tree_lines :: "ustring option \<Rightarrow> ecu_tree_entry list \<Rightarrow> ustring" where
  "tree_lines last_bus [] = []"
| "tree_lines last_bus (e # es) =
     (let bus = tree_bus e in
      (if last_bus \<noteq> Some bus then NEWLINE @ bus @ ustr '':'' @ NEWLINE else [])
      @ tree_line e @ tree_lines (Some bus) es)"

text \<open>The heading shows the size of the tree and of its minimal configuration.\<close>

definition format_ecu_tree :: "ecu_tree_entry list \<Rightarrow> nat \<times> nat \<times> ustring" where
  "format_ecu_tree tree = (length tree, length (filter et_minimal tree), tree_lines None tree)"

section \<open>ECUs and reports\<close>

definition named_ecu_label :: "named_ecu \<Rightarrow> ustring" where
  "named_ecu_label e =
     (let name = text_or ''(unknown to the semantic DB)'' (ne_name e) in
      case ne_title e of Some t \<Rightarrow> name @ ustr '' '' @ EM_DASH @ ustr '' '' @ t | None \<Rightarrow> name)"

definition ecu_title :: "catalog option \<Rightarrow> u8 \<Rightarrow> ustring option" where
  "ecu_title catalog address =
     Option.bind (Option.bind catalog (\<lambda>c. ok_of (catalog_ecus c))) (\<lambda>slots.
     Option.bind (find (\<lambda>s. es_address s = address) slots) (\<lambda>slot.
     or_else (es_title slot) (Some (es_group_name slot))))"

definition format_clear_report_line ::
    "(report_error \<Rightarrow> ustring) \<Rightarrow> (client_error \<Rightarrow> ustring) \<Rightarrow> clear_report \<Rightarrow> bool \<Rightarrow> ustring" where
  "format_clear_report_line show_report show_client r reset_requested =
     (case cr_error r of
        Some err \<Rightarrow> ustr ''  '' @ hex_address (cr_address r) @ ustr ''  ERROR: '' @ show_report err
      | None \<Rightarrow>
          ustr ''  '' @ hex_address (cr_address r) @ ustr ''  '' @ dec (length (cr_before r))
          @ ustr '' code(s) cleared '' @ EM_DASH @ ustr '' ''
          @ (if cr_verified_clean r then ustr ''verified clean'' else ustr ''STILL HAS FAULTS (diagnose)'')
          @ (case (cr_reset_performed r, reset_requested) of
               (Some True, _) \<Rightarrow> ustr '' '' @ EM_DASH @ ustr '' reset''
             | (Some False, _) \<Rightarrow> ustr '' '' @ EM_DASH @ ustr '' reset FAILED: ''
                 @ text_or ''unknown error'' (map_option show_client (cr_reset_error r))
             | (None, True) \<Rightarrow> ustr '' '' @ EM_DASH @ ustr '' not reset (gateway)''
             | (None, False) \<Rightarrow> []))"

section \<open>Service functions\<close>

datatype run_decision =
    RefuseHighRisk
  | RefuseNotDerivable
  | NeedsConfirm
  | RunCbs
  | RunGeneric

definition classify_run :: "service_function \<Rightarrow> bool \<Rightarrow> run_decision" where
  "classify_run f confirm =
     (if sv_risk f = High then RefuseHighRisk
      else if \<not> is_derived (sv_derivation f) then RefuseNotDerivable
      else if \<not> confirm then NeedsConfirm
      else if sv_category f = CbsReset then RunCbs else RunGeneric)"

fun category_title :: "category \<Rightarrow> ustring" where
  "category_title CbsReset = ustr ''CBS / service-counter reset''"
| "category_title StatisticReset = ustr ''Statistic / histogram reset''"
| "category_title LearnedValueReset = ustr ''Learned-value reset''"
| "category_title ActuatorControl = ustr ''Actuator control''"
| "category_title Calibration = ustr ''Calibration''"

fun risk_label :: "risk \<Rightarrow> ustring" where
  "risk_label Low = ustr ''low risk''"
| "risk_label High = ustr ''HIGH risk''"

definition derivation_tag :: "service_function \<Rightarrow> ustring" where
  "derivation_tag f = (if is_derived (sv_derivation f) then ustr ''[derived*]'' else ustr ''[not-derivable]'')"

definition service_line :: "service_function \<Rightarrow> ustring" where
  "service_line f =
     ustr ''    '' @ pad_right 12 (sv_label f) @ ustr '' '' @ pad_right 14 (derivation_tag f) @ ustr '' '' @ sv_name f"

definition LISTED_CATEGORIES :: "category list" where
  "LISTED_CATEGORIES = [CbsReset, StatisticReset, LearnedValueReset, ActuatorControl, Calibration]"

definition service_groups :: "service_function list \<Rightarrow> (ustring \<times> ustring list) list" where
  "service_groups fs =
     map (\<lambda>c. (ustr ''  '' @ category_title c @ ustr '' ('' @ risk_label (category_risk c) @ ustr ''):'',
               map service_line (by_category fs c)))
       (filter (\<lambda>c. by_category fs c \<noteq> []) LISTED_CATEGORIES)"

end
