(* ===== verification/Cli_Run.thy ===== *)
theory Cli_Run
  imports Cli_Text Mcp_Server
begin

text \<open>
  The commands of the command line (\<open>cli/src/main.rs\<close>) as actions on the output and the world: the
  requests a command sends, the lines it prints, and the error it ends with. A listing line is its
  text; a message for the reader is a constructor with the data it shows.
\<close>

section \<open>The world of a command\<close>

record 'ip cli =
  cl_gateway_ip :: "'ip option"
  cl_bind :: "u32 option"
  cl_broadcast :: u32
  cl_target :: u8
  cl_port :: u16
  cl_timeout :: u64
  cl_connect_timeout :: u64
  cl_discovery_wait :: u64
  cl_scan_concurrency :: nat
  cl_semantic_db :: ustring
  cl_sgbd :: "ustring option"

text \<open>
  What is outside: what opening the database gives, its job-parameter rows, the files, the network,
  the text functions of the library, and the order in which the reads of a scan complete.
\<close>

record 'ip cli_env =
  ce_cli :: "'ip cli"
  ce_catalog :: "ustring + catalog"
  ce_job_parameters :: "ustring \<Rightarrow> ustring \<Rightarrow> ustring + job_parameter list"
  ce_read :: "ustring \<Rightarrow> bytes option"
  ce_link_local :: "u32 option"
  ce_probe :: "u32 \<Rightarrow> u32 \<Rightarrow> u16 \<Rightarrow> hsfz_error + 'ip gateway list"
  ce_connect :: "'ip \<Rightarrow> client_config \<Rightarrow> hsfz_error option"
  ce_lower :: "ustring \<Rightarrow> ustring"
  ce_show_f64 :: "f64 \<Rightarrow> ustring"
  ce_show_f64_1 :: "f64 \<Rightarrow> ustring"
  ce_float :: float_env
  ce_order :: "u8 list \<Rightarrow> u8 list"
  ce_show_report :: "report_error \<Rightarrow> ustring"

datatype (plugins only: size) 'ip network_line =
    Connecting 'ip u16
  | ConnectedTo 'ip u8
  | Discovering u32 "u32 option"
  | FoundGateway 'ip "ustring option" u8
  | Broadcasting u32 u32
  | NoReplies
  | Responder 'ip "ustring option" bytes
  | Responders nat

datatype (plugins only: size) notice =
    VerifyList
  | DbUnavailable ustring
  | ScalingUnavailable "sgbd_error option"
  | DetailUnavailable "sgbd_error option"
  | CatalogLookupFailed ustring
  | DocsLookupFailed ustring
  | DocsNeedDb
  | DocsEnd
  | NoDocs

datatype (plugins only: size) hint =
    HiddenEntries nat
  | ProvisionalRecords
  | ReadLiveHint
  | DiscoveryOnly
  | PassSgbdHint
  | NotInSgbdHint
  | NoServiceTables ustring
  | ServiceNotes

datatype (plugins only: size) shown =
    QuotedValue ustring
  | BinaryValue nat
  | TreeListing ustring nat nat ustring
  | Invocations ustring ustring "ustring list"
  | ConfiguredEcus nat "nat option"
  | IstaView ustring nat
  | JobHeading ustring u8

datatype (plugins only: size) clear_line =
    ClearingAll nat
  | ClearingOne u8
  | ClearedCodes nat bool
  | ResetAfterClear u8
  | ResetFailedWarning client_error
  | ResetSkipped
  | ResetSkippedGateway u8

datatype (plugins only: size) write_line =
    TesterPresentOk u8
  | SendingDerived ustring bytes u8
  | ResetAcknowledged bytes
  | FrameUnconfirmed
  | ResettingCbs ustring u8 u8
  | CbsReadBack bytes
  | IndicatorHint ustring

datatype (plugins only: size) 'ip cli_line =
    Text ustring
  | Net "'ip network_line"
  | Notice notice
  | Hint hint
  | Shown shown
  | ClearLine clear_line
  | WriteLine write_line

datatype (plugins only: size) cli_step =
    HsfzConnect
  | GatewayDiscovery
  | ReadDtcsStep
  | ReadInfoMemoryStep
  | ReadDetailStep
  | ReadDynamicStep
  | ReadDidStep
  | TesterPresentStep
  | ReadSvtStep
  | ReadIdentityStep
  | ServiceResetStep
  | CbsResetStep

datatype (plugins only: size) cli_error =
    ClientContext cli_step client_error
  | JobContext ustring u8 run_error
  | SgbdContext ustring "sgbd_error option"
  | CatalogContext ustring
  | NoLinkLocal
  | DiscoveryError hsfz_error
  | NeedsSgbd
  | NeedsDb
  | NeedsSource
  | NeedsVariant
  | NoCatalogMeasurements ustring
  | NoTreeExtract
  | UnknownSeries ustring "ustring list"
  | NoInvocations ustring ustring
  | DynamicMeasurementJob ustring ustring
  | NoSuchFunction ustring
  | RefusedHighRisk service_function
  | RefusedNotDerivable service_function
  | Unconfirmed service_function u8
  | NoDerivedFrame ustring
  | CbsIdOutOfRange u16
  | ClearUnconfirmed bool u8
  | ClearFailedReport report_error

type_synonym ('ip, 's, 'a) cmd = "('ip cli_line list \<times> 's, cli_error, 'a) action"

definition sayAll :: "'ip cli_line list \<Rightarrow> ('ip, 's, unit) cmd" where
  "sayAll ls os = (case os of (out, s) \<Rightarrow> (Inr (), (out @ ls, s)))"

definition say :: "'ip cli_line \<Rightarrow> ('ip, 's, unit) cmd" where
  "say l = sayAll [l]"

definition failC :: "cli_error \<Rightarrow> ('ip, 's, 'a) cmd" where
  "failC e = liftS (Inl e)"

text \<open>A client operation, its error with a context, kept as a value, or one that has none.\<close>

definition clientC :: "('e \<Rightarrow> cli_error) \<Rightarrow> ('s, 'e, 'a) action \<Rightarrow> ('ip, 's, 'a) cmd" where
  "clientC f m os = (case os of (out, s) \<Rightarrow> (case m s of (r, s') \<Rightarrow> (map_err f r, (out, s'))))"

definition tryC :: "('s, 'e, 'a) action \<Rightarrow> ('ip, 's, 'e + 'a) cmd" where
  "tryC m os = (case os of (out, s) \<Rightarrow> (case m s of (r, s') \<Rightarrow> (Inr r, (out, s'))))"

definition totalC :: "('s \<Rightarrow> 'a \<times> 's) \<Rightarrow> ('ip, 's, 'a) cmd" where
  "totalC m os = (case os of (out, s) \<Rightarrow> (case m s of (x, s') \<Rightarrow> (Inr x, (out, s'))))"

section \<open>Opening\<close>

definition connect_cmd :: "'ip cli_env \<Rightarrow> ('ip, 's, 'ip gateway option) cmd" where
  "connect_cmd env =
     (let cli = ce_cli env;
          config = \<lparr>cc_port = cl_port cli, cc_tester = TESTER_ADDRESS,
                    cc_connect_timeout = cl_connect_timeout cli, cc_read_timeout = cl_timeout cli\<rparr>
      in case cl_gateway_ip cli of
        Some ip \<Rightarrow>
          bindS (say (Net (Connecting ip (cl_port cli)))) (\<lambda>_.
          bindS (liftS (map_err (ClientContext HsfzConnect) (client_connect (ce_connect env) ip config))) (\<lambda>_.
          bindS (say (Net (ConnectedTo ip (cl_target cli)))) (\<lambda>_.
          returnS None)))
      | None \<Rightarrow>
          bindS (say (Net (Discovering (cl_broadcast cli) (cl_bind cli)))) (\<lambda>_.
          bindS (liftS (map_err (ClientContext GatewayDiscovery)
            (discover_and_connect (ce_link_local env) (ce_probe env (cl_broadcast cli)) (ce_connect env)
              (cl_bind cli) config))) (\<lambda>(_, gateway).
          bindS (say (Net (FoundGateway (gw_ip gateway) (gw_vin gateway) (cl_target cli)))) (\<lambda>_.
          returnS (Some gateway)))))"

definition open_catalog :: "'ip cli_env \<Rightarrow> ('ip, 's, catalog option) cmd" where
  "open_catalog env =
     (case ce_catalog env of
        Inl e \<Rightarrow> bindS (say (Notice (DbUnavailable e))) (\<lambda>_. returnS None)
      | Inr c \<Rightarrow> returnS (Some c))"

definition open_measurements :: "'ip cli_env \<Rightarrow> ustring option \<Rightarrow> ('ip, 's, measurements option) cmd" where
  "open_measurements env path =
     (case path of
        None \<Rightarrow> returnS None
      | Some p \<Rightarrow>
          (case measurements_from_sgbd (ce_read env) p of
             Inr ms \<Rightarrow> returnS (Some ms)
           | Inl e \<Rightarrow> bindS (say (Notice (ScalingUnavailable e))) (\<lambda>_. returnS None)))"

definition open_freeze_frame_defs :: "'ip cli_env \<Rightarrow> ustring option \<Rightarrow> ('ip, 's, freeze_frame_defs option) cmd" where
  "open_freeze_frame_defs env path =
     (case path of
        None \<Rightarrow> returnS None
      | Some p \<Rightarrow>
          (case freeze_frame_from_sgbd (ce_read env) p of
             Inr d \<Rightarrow> returnS (Some d)
           | Inl e \<Rightarrow> bindS (say (Notice (DetailUnavailable e))) (\<lambda>_. returnS None)))"

text \<open>The SGBD a command cannot do without.\<close>

definition needed_sgbd :: "'ip cli_env \<Rightarrow> ('ip, 's, ustring) cmd" where
  "needed_sgbd env = liftS (ok_or (cl_sgbd (ce_cli env)) NeedsSgbd)"

definition file_name_or_sgbd :: "ustring \<Rightarrow> ustring" where
  "file_name_or_sgbd p = text_or ''SGBD'' (path_file_name p)"

section \<open>Faults\<close>

definition description_lines :: "catalog option \<Rightarrow> u8 \<Rightarrow> code3 \<Rightarrow> 'ip cli_line list" where
  "description_lines catalog target code =
     (case catalog of
        None \<Rightarrow> []
      | Some c \<Rightarrow>
          (case ct_describe_dtc c target code of
             Inr [] \<Rightarrow> [Text (ustr ''    (no description in the semantic DB for ECU '' @ hex_address target @ ustr '')'')]
           | Inr ds \<Rightarrow>
               map (\<lambda>d. Text (ustr ''    '' @ xd_ecu_variant d @ suffix_of '' ['' '']'' (xd_saecode d) @ ustr '': ''
                              @ text_or ''(no text)'' (or_else (xd_title_en d) (xd_title_de d)))) ds
           | Inl e \<Rightarrow> [Text (ustr ''    (semantic lookup failed: '' @ e @ ustr '')'')]))"

definition flag_summary :: "u8 \<Rightarrow> ustring" where
  "flag_summary st =
     (if status_flags st = [] then EM_DASH else join_with (ustr '', '') (status_flags st))"

definition dtc_display :: "dtc \<Rightarrow> ustring" where
  "dtc_display d = code_hex (dtc_code d) @ ustr ''/'' @ fmt_hex 2 (unat (dtc_status d))"

definition dtc_lines :: "catalog option \<Rightarrow> u8 \<Rightarrow> bool \<Rightarrow> dtc \<Rightarrow> 'ip cli_line list" where
  "dtc_lines catalog target raw d =
     Text (NEWLINE @ ustr ''  '' @ code_hex (dtc_code d) @ ustr ''  ['' @ flag_summary (dtc_status d) @ ustr '']'')
     # description_lines catalog target (dtc_code d)
     @ (if raw then [Text (ustr ''    raw: '' @ dtc_display d)] else [])"

definition faults_lines :: "dtc list \<Rightarrow> u8 \<Rightarrow> catalog option \<Rightarrow> bool \<Rightarrow> bool \<Rightarrow> 'ip cli_line list" where
  "faults_lines dtcs target catalog raw all =
     (let not_tested = length (filter (\<lambda>d. \<not> dtc_is_relevant d) dtcs);
          shown = (if all then dtcs else filter dtc_is_relevant dtcs)
      in if shown = [] then
           Text (ustr ''No relevant DTCs on ECU '' @ hex_address target @ ustr ''.'')
           # (if not_tested > 0 then [Hint (HiddenEntries not_tested)] else [])
         else
           Text (dec (length shown) @ ustr '' DTC(s) on ECU '' @ hex_address target @ ustr '':'')
           # concat (map (dtc_lines catalog target raw) shown)
           @ (if \<not> all \<and> not_tested > 0 then [Hint (HiddenEntries not_tested)] else []))"

definition read_faults_cmd :: "'ip cli_env \<Rightarrow> 's requester \<Rightarrow> u8 \<Rightarrow> bool \<Rightarrow> bool \<Rightarrow> ('ip, 's, unit) cmd" where
  "read_faults_cmd env req m raw all =
     bindS (connect_cmd env) (\<lambda>_.
     bindS (clientC (ClientContext ReadDtcsStep) (read_dtcs req (cl_target (ce_cli env)) m)) (\<lambda>dtcs.
     bindS (open_catalog env) (\<lambda>catalog.
     bindS (sayAll (faults_lines dtcs (cl_target (ce_cli env)) catalog raw all)) (\<lambda>_.
     say (Notice VerifyList)))))"

definition info_memory_lines :: "u8 \<Rightarrow> info_memory option \<Rightarrow> catalog option \<Rightarrow> bool \<Rightarrow> 'ip cli_line list" where
  "info_memory_lines target mem catalog raw =
     (case mem of
        None \<Rightarrow> [Text (ustr ''ECU '' @ hex_address target @ ustr '' does not answer the info memory (22 2000).'')]
      | Some i \<Rightarrow>
          let version = suffix_of '' (version '' '')'' (map_option (\<lambda>v. fmt_int (uint v)) (im_version i)) in
          (if im_entries i = [] then
             [Text (ustr ''Info memory on ECU '' @ hex_address target @ version @ ustr '': empty.'')]
           else
             Text (dec (length (im_entries i)) @ ustr '' info-memory entr(y/ies) on ECU '' @ hex_address target
                   @ version @ ustr '':'')
             # concat (map (dtc_lines catalog target False) (im_entries i)))
          @ (if raw then [Text (NEWLINE @ ustr ''  raw: '' @ hex_bytes (im_raw i))] else [])
          @ [Hint ProvisionalRecords])"

definition info_memory_cmd :: "'ip cli_env \<Rightarrow> 's requester \<Rightarrow> bool \<Rightarrow> ('ip, 's, unit) cmd" where
  "info_memory_cmd env req raw =
     bindS (connect_cmd env) (\<lambda>_.
     bindS (clientC (ClientContext ReadInfoMemoryStep) (read_info_memory req (cl_target (ce_cli env)))) (\<lambda>mem.
     bindS (open_catalog env) (\<lambda>catalog.
     bindS (sayAll (info_memory_lines (cl_target (ce_cli env)) mem catalog raw)) (\<lambda>_.
     say (Notice VerifyList)))))"

definition raw_region :: "dtc_record_region \<Rightarrow> ustring" where
  "raw_region r = dec (length (region_body r)) @ ustr '' raw byte(s): '' @ hex_bytes (region_body r)"

definition snapshot_value :: "(f64 \<Rightarrow> ustring) \<Rightarrow> snapshot_field \<Rightarrow> ustring" where
  "snapshot_value show f =
     (case (sf_available f, sf_value f) of
        (False, _) \<Rightarrow> ustr ''not available''
      | (True, Some v) \<Rightarrow> show (round3 v) @ suffix_of '' '' '''' (sf_unit f)
      | (True, None) \<Rightarrow> ustr ''raw '' @ hex_bytes (sf_raw f))"

definition snapshot_lines ::
    "(f64 \<Rightarrow> ustring) \<Rightarrow> dtc_record_region option \<Rightarrow> freeze_frame_defs option \<Rightarrow> catalog option \<Rightarrow> ustring list" where
  "snapshot_lines show region defs catalog =
     (case (region, defs) of
        (None, _) \<Rightarrow> [ustr ''    (none stored)'']
      | (Some r, None) \<Rightarrow>
          [ustr ''    present but not decoded '' @ EM_DASH @ ustr '' pass --sgbd <ecu>.prg ('' @ raw_region r @ ustr '')'']
      | (Some r, Some d) \<Rightarrow>
          let decoded = decode_snapshot (ff_snapshot d) r (catalog_labels catalog) in
          (if ds_fields decoded = [] then [ustr ''    (no fields decoded)''] else [])
          @ map (\<lambda>f. ustr ''    '' @ sf_label f @ ustr '' = '' @ snapshot_value show f) (ds_fields decoded)
          @ (case ds_undecoded_tail decoded of
               None \<Rightarrow> []
             | Some t \<Rightarrow> [ustr ''    (stopped at an unrecognized identifier; '' @ dec (length t) @ ustr '' trailing raw byte(s))'']))"

definition ext_lines :: "dtc_record_region option \<Rightarrow> freeze_frame_defs option \<Rightarrow> ustring list" where
  "ext_lines region defs =
     (case (region, defs) of
        (None, _) \<Rightarrow> [ustr ''    (none stored)'']
      | (Some r, None) \<Rightarrow> [ustr ''    present but not decoded ('' @ raw_region r @ ustr '')'']
      | (Some r, Some d) \<Rightarrow>
          let decoded = decode_ext_data (ff_extended d) r in
          (if dx_records decoded = [] then [ustr ''    (no records decoded)''] else [])
          @ map (\<lambda>x. ustr ''    '' @ xf_label x @ suffix_of '' = '' '''' (map_option fmt_int (xf_value x))) (dx_records decoded)
          @ (case dx_undecoded_tail decoded of
               None \<Rightarrow> []
             | Some t \<Rightarrow> [ustr ''    (stopped at an unknown record; '' @ dec (length t) @ ustr '' trailing raw byte(s))'']))"

definition fault_detail_lines ::
    "(f64 \<Rightarrow> ustring) \<Rightarrow> u8 \<Rightarrow> code3 \<Rightarrow> fault_detail_raw \<Rightarrow> freeze_frame_defs option \<Rightarrow> catalog option \<Rightarrow> 'ip cli_line list" where
  "fault_detail_lines show target code detail defs catalog =
     Text (ustr ''Fault '' @ code_hex code @ ustr '' on ECU '' @ hex_address target @ ustr '':'')
     # description_lines catalog target code
     @ map Text (
         [NEWLINE @ ustr ''  Freeze-frame (snapshot, 19 04):'']
         @ snapshot_lines show (fd_snapshot detail) defs catalog
         @ [NEWLINE @ ustr ''  Extended data (19 06):'']
         @ ext_lines (fd_extended detail) defs
         @ [NEWLINE @ (case fd_severity detail of
              Some sev \<Rightarrow> ustr ''  Severity (19 09): '' @ hex_address (sev_severity sev) @ ustr '' (functional unit ''
                @ hex_address (sev_functional_unit sev) @ ustr '')''
            | None \<Rightarrow> ustr ''  Severity (19 09): (none reported)'')])"

definition fault_detail_cmd :: "'ip cli_env \<Rightarrow> 's requester \<Rightarrow> code3 \<Rightarrow> ('ip, 's, unit) cmd" where
  "fault_detail_cmd env req code =
     bindS (connect_cmd env) (\<lambda>_.
     bindS (clientC (ClientContext ReadDetailStep) (read_fault_detail req (cl_target (ce_cli env)) code)) (\<lambda>detail.
     bindS (open_catalog env) (\<lambda>catalog.
     bindS (open_freeze_frame_defs env (cl_sgbd (ce_cli env))) (\<lambda>defs.
     bindS (sayAll (fault_detail_lines (ce_show_f64 env) (cl_target (ce_cli env)) code detail defs catalog)) (\<lambda>_.
     say (Notice VerifyList))))))"

definition doc_line :: "fault_doc \<Rightarrow> ustring" where
  "doc_line d =
     ustr ''  ['' @ text_or ''-'' (fo_infotype d) @ ustr ''] '' @ text_or ''(untitled)'' (fo_title d) @ ustr ''  (doc ''
     @ text_or ''-'' (fo_docnumber d) @ ustr '', id '' @ fmt_int (fo_infoobject_id d) @ ustr '')''
     @ (if fo_safety_relevant d then ustr ''  [safety-relevant]'' else [])"

definition fault_docs_cmd :: "'ip cli_env \<Rightarrow> code3 \<Rightarrow> ('ip, 's, unit) cmd" where
  "fault_docs_cmd env code =
     (let target = cl_target (ce_cli env) in
      bindS (open_catalog env) (\<lambda>catalog.
      bindS (sayAll (description_lines catalog target code)) (\<lambda>_.
      bindS (case map_option (\<lambda>c. ct_fault_body c target code) catalog of
               Some (Inr bodies) \<Rightarrow> sayAll (map (\<lambda>b. Text (NEWLINE @ b)) bodies)
             | Some (Inl e) \<Rightarrow> say (Notice (DocsLookupFailed e))
             | None \<Rightarrow> returnS ()) (\<lambda>_.
      case map_option (\<lambda>c. ct_fault_help c target code) catalog of
        Some (Inr []) \<Rightarrow> say (Notice NoDocs)
      | Some (Inr docs) \<Rightarrow>
          sayAll (Text (NEWLINE @ ustr ''ISTA documents ('' @ dec (length docs) @ ustr ''):'')
            # map (\<lambda>d. Text (doc_line d)) docs @ [Notice DocsEnd])
      | Some (Inl e) \<Rightarrow> say (Notice (DocsLookupFailed e))
      | None \<Rightarrow> say (Notice DocsNeedDb)))))"

end
