(* ===== verification/Cli_Commands.thy ===== *)
theory Cli_Commands
  imports Cli_Run
begin

text \<open>
  The other commands of \<open>cli/src/main.rs\<close>: values and listings, the whole-car scan and identity,
  the gated writes, and jobs behind the read-only gate; and the dispatch on the parsed command.
\<close>

section \<open>Values\<close>

definition did_value_lines ::
    "'ip cli_env \<Rightarrow> u16 \<Rightarrow> bytes \<Rightarrow> bool \<Rightarrow> measurements option \<Rightarrow> 'ip cli_line list" where
  "did_value_lines env did val raw ms =
     (let decoded = decode_did did val;
          proprietary = Option.bind ms (\<lambda>m. ms_scale m did val);
          name = text_or ''ECU-specific DID'' (or_else (map_option sm_name proprietary) (dd_name decoded))
      in Text (ustr ''DID 0x'' @ fmt_hex 4 (unat did) @ ustr '' ('' @ name @ ustr '') on ECU ''
               @ hex_address (cl_target (ce_cli env)) @ ustr '':'')
         # [case dd_scaled decoded of
              Some sc \<Rightarrow> Text (ustr ''  value: '' @ ce_show_f64_1 env (sp_value sc) @ ustr '' '' @ sp_unit sc)
            | None \<Rightarrow>
                (case proprietary of
                   Some m \<Rightarrow> Text (ustr ''  value: '' @ ce_show_f64 env (round3 (sm_value m)) @ ustr '' '' @ sm_unit m)
                 | None \<Rightarrow>
                     (case dd_text decoded of
                        Some t \<Rightarrow> Shown (QuotedValue t)
                      | None \<Rightarrow> Shown (BinaryValue (length val))))]
         @ (if dd_name decoded = None \<and> proprietary = None
            then [if ms = None then Hint PassSgbdHint else Hint NotInSgbdHint] else [])
         @ (if raw then [Text (ustr ''  raw ('' @ dec (length val) @ ustr '' bytes): '' @ debug_hex val)] else []))"

text \<open>The identifier that was asked for and its bytes; a dynamic measurement goes through its definition.\<close>

definition read_target_value ::
    "'s requester \<Rightarrow> u8 \<Rightarrow> u16 \<Rightarrow> measurements option \<Rightarrow> ('ip, 's, u16 \<times> bytes) cmd" where
  "read_target_value req target did ms =
     (case Option.bind ms (\<lambda>m. ms_get m did) of
        Some m \<Rightarrow>
          if is_dynamic m
          then bindS (clientC (ClientContext ReadDynamicStep)
                 (\<lambda>s. case read_dynamic_measurement req target (build_read_request m) s of
                        None \<Rightarrow> (Inl CNoMeasurementRead, s) | Some r \<Rightarrow> r)) (\<lambda>val. returnS (did, val))
          else clientC (ClientContext ReadDidStep) (read_did req target did)
      | None \<Rightarrow> clientC (ClientContext ReadDidStep) (read_did req target did))"

definition read_did_cmd :: "'ip cli_env \<Rightarrow> 's requester \<Rightarrow> u16 \<Rightarrow> bool \<Rightarrow> ('ip, 's, unit) cmd" where
  "read_did_cmd env req did raw =
     bindS (connect_cmd env) (\<lambda>_.
     bindS (open_measurements env (cl_sgbd (ce_cli env))) (\<lambda>ms.
     bindS (read_target_value req (cl_target (ce_cli env)) did ms) (\<lambda>(got_did, val).
     bindS (sayAll (did_value_lines env got_did val raw ms)) (\<lambda>_.
     say (Notice VerifyList)))))"

section \<open>Offline listings\<close>

text \<open>\<open>Path::file_stem\<close>: the file name up to its last dot, if there is one after its first character.\<close>

definition path_file_stem :: "ustring \<Rightarrow> ustring option" where
  "path_file_stem p =
     map_option (\<lambda>n.
       let after = takeWhile (\<lambda>c. c \<noteq> 0x2E) (rev n); stem = take (length n - length after - 1) n
       in if 0x2E \<notin> set n \<or> stem = [] then n else stem) (path_file_name p)"

definition catalog_job_map :: "catalog option \<Rightarrow> ustring \<Rightarrow> ('ip, 's, ustring \<rightharpoonup> ustring) cmd" where
  "catalog_job_map catalog variant =
     (case catalog of
        None \<Rightarrow> returnS Map.empty
      | Some c \<Rightarrow>
          (case ct_measurements c variant of
             Inr entries \<Rightarrow> returnS (catalog_jobs entries)
           | Inl e \<Rightarrow> bindS (say (Notice (CatalogLookupFailed e))) (\<lambda>_. returnS Map.empty)))"

definition count_line :: "ustring \<Rightarrow> ustring option \<Rightarrow> nat \<Rightarrow> nat \<Rightarrow> ustring" where
  "count_line source query matching tot =
     (if query = None then source @ ustr '': '' @ dec tot @ ustr '' measurement(s):''
      else source @ ustr '': '' @ dec matching @ ustr '' of '' @ dec tot @ ustr '' measurement(s) match:'')"

definition measurements_cmd :: "'ip cli_env \<Rightarrow> ustring option \<Rightarrow> ustring option \<Rightarrow> ('ip, 's, unit) cmd" where
  "measurements_cmd env search variant =
     (let query = map_option (fold_for_match (ce_lower env)) search;
          matches = (\<lambda>field. case query of None \<Rightarrow> True
                       | Some q \<Rightarrow> text_contains (fold_for_match (ce_lower env) field) q)
      in case cl_sgbd (ce_cli env) of
        Some sgbd \<Rightarrow>
          bindS (liftS (map_err (SgbdContext sgbd) (measurements_from_sgbd (ce_read env) sgbd))) (\<lambda>ms.
          bindS (open_catalog env) (\<lambda>catalog.
          bindS (catalog_job_map catalog
            (case variant of Some v \<Rightarrow> v | None \<Rightarrow> text_or '''' (path_file_stem sgbd))) (\<lambda>jobs.
          let matching = filter (\<lambda>m. list_ex matches [ms_arg m, ms_result_name m, ms_description m]) (ms_all ms) in
          sayAll (Text (count_line (ustr ''SGBD '' @ file_name_or_sgbd sgbd) query (length matching) (length (ms_all ms)))
            # map (\<lambda>m. Text (format_sgbd_measurement m (jobs (ms_result_name m)))) matching @ [Hint ReadLiveHint]))))
      | None \<Rightarrow>
          (case variant of
             None \<Rightarrow> failC NeedsSource
           | Some v \<Rightarrow>
               bindS (open_catalog env) (\<lambda>catalog.
               bindS (liftS (ok_or catalog NeedsDb)) (\<lambda>c.
               bindS (liftS (map_err CatalogContext (ct_measurements c v))) (\<lambda>entries.
               if entries = [] then failC (NoCatalogMeasurements v)
               else
                 let matching = filter (\<lambda>e. matches (me_name e)) entries in
                 sayAll (Text (count_line (ustr ''ISTA catalog '' @ v) query (length matching) (length entries))
                   # map (\<lambda>e. Text (format_catalog_measurement e)) matching @ [Hint DiscoveryOnly])))))) "

definition ecu_tree_cmd :: "'ip cli_env \<Rightarrow> ustring option \<Rightarrow> ('ip, 's, unit) cmd" where
  "ecu_tree_cmd env series =
     bindS (open_catalog env) (\<lambda>catalog.
     bindS (liftS (ok_or catalog NeedsDb)) (\<lambda>c.
     bindS (liftS (map_err CatalogContext (ct_ecu_tree_series c))) (\<lambda>known.
     if known = [] then failC NoTreeExtract
     else case series of
       None \<Rightarrow>
         sayAll (Text (ustr ''Known platform series ('' @ dec (length known) @ ustr ''):'')
           # map (\<lambda>s. Text (ustr ''  '' @ s)) known)
     | Some name \<Rightarrow>
         bindS (liftS (map_err CatalogContext (ct_ecu_tree c name))) (\<lambda>tree.
         if tree = [] then failC (UnknownSeries name known)
         else case format_ecu_tree tree of (n, minimal, listing) \<Rightarrow> say (Shown (TreeListing name n minimal listing))))))"

definition job_list_cmd :: "'ip cli_env \<Rightarrow> ('ip, 's, unit) cmd" where
  "job_list_cmd env =
     bindS (needed_sgbd env) (\<lambda>sgbd.
     bindS (liftS (map_err (SgbdContext sgbd) (prg_open (ce_read env) sgbd))) (\<lambda>p.
     sayAll [Text (ustr ''SGBD '' @ file_name_or_sgbd sgbd @ ustr '':''),
             Text (format_job_list (prg_jobs p))]))"

definition job_args_cmd :: "'ip cli_env \<Rightarrow> ustring \<Rightarrow> ustring option \<Rightarrow> ('ip, 's, unit) cmd" where
  "job_args_cmd env job variant =
     bindS (liftS (ok_or (or_else variant (Option.bind (cl_sgbd (ce_cli env)) path_file_stem)) NeedsVariant)) (\<lambda>v.
     bindS (open_catalog env) (\<lambda>catalog.
     bindS (liftS (ok_or catalog NeedsDb)) (\<lambda>_.
     bindS (liftS (map_err CatalogContext (ce_job_parameters env v job))) (\<lambda>rows.
     if rows = [] then failC (NoInvocations job v)
     else say (Shown (Invocations job v (format_job_args rows)))))))"

definition service_list_cmd :: "'ip cli_env \<Rightarrow> ('ip, 's, unit) cmd" where
  "service_list_cmd env =
     bindS (needed_sgbd env) (\<lambda>sgbd.
     bindS (liftS (map_err (SgbdContext sgbd) (functions_from_sgbd (ce_read env) sgbd))) (\<lambda>fs.
     if fs = [] then say (Hint (NoServiceTables (file_name_or_sgbd sgbd)))
     else sayAll (Text (dec (length fs) @ ustr '' service function(s) in '' @ file_name_or_sgbd sgbd @ ustr '':'')
            # concat (map (\<lambda>(title, ls). Text (NEWLINE @ title) # map Text ls) (service_groups fs))
            @ [Hint ServiceNotes])))"

section \<open>The whole car\<close>

definition discover_cmd :: "'ip cli_env \<Rightarrow> ('ip, 's, unit) cmd" where
  "discover_cmd env =
     (let cli = ce_cli env in
      bindS (liftS (ok_or (or_else (cl_bind cli) (ce_link_local env)) NoLinkLocal)) (\<lambda>bind_ip.
      bindS (say (Net (Broadcasting (cl_broadcast cli) bind_ip))) (\<lambda>_.
      bindS (liftS (map_err DiscoveryError (ce_probe env (cl_broadcast cli) bind_ip CONTROL_PORT))) (\<lambda>gateways.
      bindS (sayAll (if gateways = [] then [Net NoReplies]
                     else map (\<lambda>g. Net (Responder (gw_ip g) (gw_vin g) (gw_raw g))) gateways @ [Net (Responders (length gateways))])) (\<lambda>_.
      say (Notice VerifyList))))))"

text \<open>The tree of the platform; \<open>scan\<close> keeps an empty one.\<close>

definition platform_tree ::
    "catalog \<Rightarrow> ustring option \<Rightarrow> (ustring \<times> (u8 \<rightharpoonup> ecu_tree_entry)) option" where
  "platform_tree c level =
     Option.bind level (\<lambda>level.
     Option.bind (ok_of (ct_ecu_tree_series c)) (\<lambda>known.
     Option.bind (Option.bind (bordnet_series_for level known) id) (\<lambda>series.
     map_option (\<lambda>entries. (series, tree_map entries)) (ok_of (ct_ecu_tree c series)))))"

definition level_of :: "i_stufe_levels \<Rightarrow> ustring" where
  "level_of l = (case is_factory l of Some f \<Rightarrow> f | None \<Rightarrow> is_current l)"

definition ista_note :: "(u8 \<rightharpoonup> ecu_tree_entry) option \<Rightarrow> u8 \<Rightarrow> ustring" where
  "ista_note tree address =
     (case Option.bind tree (\<lambda>m. m address) of
        None \<Rightarrow> []
      | Some e \<Rightarrow>
          ustr ''  (ISTA: '' @ text_or ''?'' (et_name e) @ ustr '' on '' @ text_or ''?'' (or_else (et_bus_label e) (et_bus e))
          @ (if et_minimal e then ustr '', core'' else []) @ ustr '')'')"

definition scan_ecu_line ::
    "(u8 \<rightharpoonup> ecu_tree_entry) option \<Rightarrow> u8 list option \<Rightarrow> named_ecu \<Rightarrow> ustring" where
  "scan_ecu_line tree responding e =
     ustr ''  '' @ hex_address (ne_address e) @ ustr ''  '' @ named_ecu_label e @ ista_note tree (ne_address e)
     @ (case responding of
          Some r \<Rightarrow> if ne_address e \<in> set r then [] else ustr ''  (no 22 3F08 response)''
        | None \<Rightarrow> [])"

definition ecu_faults_lines ::
    "(client_error \<Rightarrow> ustring) \<Rightarrow> catalog option \<Rightarrow> ecu_faults \<Rightarrow> 'ip cli_line list" where
  "ecu_faults_lines show catalog ef =
     (let head = NEWLINE @ ustr ''  '' @ hex_address (ef_address ef) @ ustr '' '' @ text_or '''' (ecu_title catalog (ef_address ef))
      in case ef_error ef of
        Some err \<Rightarrow> [Text (head @ ustr ''  '' @ EM_DASH @ ustr '' ERROR: '' @ show err)]
      | None \<Rightarrow>
          Text (head @ ustr ''  '' @ EM_DASH @ ustr '' '' @ dec (length (ef_relevant ef)) @ ustr '' fault(s)''
                @ (if ef_not_tested ef > 0 then ustr '', '' @ dec (ef_not_tested ef) @ ustr '' not-tested hidden'' else []))
          # concat (map (\<lambda>d.
              Text (ustr ''      '' @ code_hex (dtc_code d) @ ustr ''  ['' @ join_with (ustr '', '') (status_flags (dtc_status d)) @ ustr '']'')
              # description_lines catalog (ef_address ef) (dtc_code d)) (ef_relevant ef)))"

definition scan_faults_lines ::
    "(client_error \<Rightarrow> ustring) \<Rightarrow> ecu_faults list \<Rightarrow> catalog option \<Rightarrow> 'ip cli_line list" where
  "scan_faults_lines show faults catalog =
     Text (ustr ''Scanned '' @ dec (length faults) @ ustr '' fitted ECU(s); ''
           @ dec (sum_list (map (\<lambda>e. length (ef_relevant e)) faults)) @ ustr '' relevant fault(s) total.'')
     # concat (map (ecu_faults_lines show catalog) faults)"

definition scan_cmd ::
    "'ip cli_env \<Rightarrow> (client_error \<Rightarrow> ustring) \<Rightarrow> 's requester \<Rightarrow> bool \<Rightarrow> ('ip, 's, unit) cmd" where
  "scan_cmd env show req ecus_only =
     bindS (connect_cmd env) (\<lambda>_.
     bindS (open_catalog env) (\<lambda>catalog.
     bindS (clientC (ClientContext ReadSvtStep) (read_ecu_list req)) (\<lambda>l.
     let addrs = el_addresses l; named = name_ecu_list (catalog_slots catalog) addrs in
     bindS (tryC (read_responding_ecu_list req)) (\<lambda>r.
     let responding = map_option el_addresses (Option.bind (ok_of r) id) in
     bindS (case catalog of
              None \<Rightarrow> returnS None
            | Some c \<Rightarrow> bindS (tryC (read_i_stufe_levels req)) (\<lambda>r.
                returnS (platform_tree c (map_option level_of (Option.bind (ok_of r) id))))) (\<lambda>tree.
     bindS (say (Shown (ConfiguredEcus (length named)
       (map_option (\<lambda>r. length (filter (\<lambda>a. a \<in> set r) addrs)) responding)))) (\<lambda>_.
     bindS (sayAll (map (\<lambda>e. Text (scan_ecu_line (map_option snd tree) responding e)) named)) (\<lambda>_.
     bindS (case tree of
              None \<Rightarrow> returnS ()
            | Some (series, m) \<Rightarrow> say (Shown (IstaView series (length (filter (\<lambda>e. case m (ne_address e) of
                None \<Rightarrow> False | Some t \<Rightarrow> et_minimal t) named))))) (\<lambda>_.
     bindS (if ecus_only then returnS ()
            else bindS (totalC (scan_faults req (ce_order env addrs))) (\<lambda>faults.
                 sayAll (scan_faults_lines show faults catalog))) (\<lambda>_.
     say (Notice VerifyList))))))))))"

definition identity_lines :: "vehicle_identity \<Rightarrow> catalog option \<Rightarrow> 'ip cli_line list" where
  "identity_lines i catalog =
     (let fa = decode_vehicle_order (vi_vehicle_order_raw i);
          fa_raw = dec (length (vo_raw fa)) @ ustr '' raw byte(s): '' @ hex_bytes (vo_raw fa);
          named = name_ecu_list (catalog_slots catalog) (vi_ecus i)
      in map Text (
        [ustr ''VIN:      '' @ text_or ''(not reported)'' (vi_vin i),
         ustr ''I-Stufe:  '' @ text_or ''(not reported)'' (vi_i_stufe i)]
        @ (if vi_vehicle_order_raw i = [] then [ustr ''FA:       (not reported)'']
           else
             [ustr ''FA:       '' @ (case vo_version fa of
                Some v \<Rightarrow> ustr ''version '' @ fmt_int (uint v) @ ustr '' ('' @ fa_raw @ ustr '')''
              | None \<Rightarrow> fa_raw @ ustr '' (version not present)'')]
             @ concat (map (\<lambda>(label, val). case val of None \<Rightarrow> []
                 | Some t \<Rightarrow> [ustr ''          '' @ label @ ustr '': '' @ t])
                 [(ustr ''Baureihe'', vo_baureihe fa),
                  (ustr ''Typ-Schl'' @ [0xFC] @ ustr ''ssel'', vo_typ_schluessel fa),
                  (ustr ''Lackcode'', vo_lackcode fa), (ustr ''Polstercode'', vo_polstercode fa),
                  (ustr ''Build date'', vo_build_date fa)])
             @ (if vo_options fa = [] then []
                else [ustr ''          Options: '' @ join_with (ustr '', '') (vo_options fa)]))
        @ [NEWLINE @ ustr ''Configured ECUs ('' @ dec (length named) @ ustr '', gateway VCM 22 3F07):'']
        @ map (\<lambda>e. ustr ''  '' @ hex_address (ne_address e) @ ustr ''  '' @ named_ecu_label e) named
        @ [NEWLINE @ ustr ''Identification:'']
        @ concat (map (\<lambda>block.
            (ustr ''  ECU '' @ hex_address (ei_address block) @ ustr '':'')
            # (if ei_fields block = [] then [ustr ''    (no identification DIDs served)'']
               else map (\<lambda>f. let d = decode_did (if_did f) (if_raw f) in
                 ustr ''    0x'' @ fmt_hex 4 (unat (if_did f)) @ ustr '' ('' @ text_or ''ECU-specific DID'' (dd_name d)
                 @ ustr '')  '' @ text_or ''(binary)'' (dd_text d) @ ustr ''  raw '' @ hex_bytes (if_raw f)) (ei_fields block)))
            (vi_identification i))))"

definition identify_cmd :: "'ip cli_env \<Rightarrow> 's requester \<Rightarrow> ('ip, 's, unit) cmd" where
  "identify_cmd env req =
     bindS (connect_cmd env) (\<lambda>_.
     bindS (clientC (ClientContext ReadIdentityStep) (identify_vehicle req)) (\<lambda>identity.
     bindS (open_catalog env) (\<lambda>catalog.
     bindS (sayAll (identity_lines identity catalog)) (\<lambda>_.
     say (Notice VerifyList)))))"

section \<open>Writes\<close>

definition clear_faults_cmd ::
    "'ip cli_env \<Rightarrow> (client_error \<Rightarrow> ustring) \<Rightarrow> 's requester \<Rightarrow> bool \<Rightarrow> bool \<Rightarrow> bool \<Rightarrow> ('ip, 's, unit) cmd" where
  "clear_faults_cmd env show req confirm all_ecus reset =
     (let target = cl_target (ce_cli env) in
      if \<not> confirm then failC (ClearUnconfirmed all_ecus target)
      else
        bindS (connect_cmd env) (\<lambda>_.
        if all_ecus then
          bindS (clientC (ClientContext ReadSvtStep) (read_ecu_list req)) (\<lambda>l.
          bindS (say (ClearLine (ClearingAll (length (el_addresses l))))) (\<lambda>_.
          bindS (totalC (clear_faults_all_with_reset req (el_addresses l) reset)) (\<lambda>reports.
          sayAll (map (\<lambda>r. Text (format_clear_report_line (ce_show_report env) show r reset)) reports))))
        else
          bindS (say (ClearLine (ClearingOne target))) (\<lambda>_.
          bindS (totalC (clear_faults_verified req target)) (\<lambda>report.
          case cr_error report of
            Some e \<Rightarrow> failC (ClearFailedReport e)
          | None \<Rightarrow>
              bindS (say (ClearLine (ClearedCodes (length (cr_before report)) (cr_verified_clean report)))) (\<lambda>_.
              if reset \<and> is_reset_target target then
                bindS (tryC (ecu_reset req target reset_subfn_HARD)) (\<lambda>r.
                say (case r of Inr _ \<Rightarrow> ClearLine (ResetAfterClear target) | Inl e \<Rightarrow> ClearLine (ResetFailedWarning e)))
              else if \<not> reset then say (ClearLine ResetSkipped)
              else say (ClearLine (ResetSkippedGateway target)))))))"

definition run_generic_reset :: "'ip cli_env \<Rightarrow> 's requester \<Rightarrow> service_function \<Rightarrow> ('ip, 's, unit) cmd" where
  "run_generic_reset env req f =
     bindS (liftS (ok_or (sv_request f) (NoDerivedFrame (sv_label f)))) (\<lambda>request.
     bindS (connect_cmd env) (\<lambda>_.
     bindS (say (WriteLine (SendingDerived (sv_name f) request (cl_target (ce_cli env))))) (\<lambda>_.
     bindS (clientC (ClientContext ServiceResetStep) (run_service_reset req (cl_target (ce_cli env)) request)) (\<lambda>response.
     sayAll [WriteLine (ResetAcknowledged response), WriteLine FrameUnconfirmed]))))"

definition run_cbs_reset :: "'ip cli_env \<Rightarrow> 's requester \<Rightarrow> service_function \<Rightarrow> ('ip, 's, unit) cmd" where
  "run_cbs_reset env req f =
     (if 0xFF < sv_id f then failC (CbsIdOutOfRange (sv_id f))
      else
        let cbs_id = ucast (sv_id f) in
        bindS (connect_cmd env) (\<lambda>_.
        bindS (say (WriteLine (ResettingCbs (sv_name f) cbs_id (cl_target (ce_cli env))))) (\<lambda>_.
        bindS (clientC (ClientContext CbsResetStep)
          (reset_cbs req (cl_target (ce_cli env)) (build_cbs_reset_request cbs_id) build_cbs_read_request)) (\<lambda>block.
        sayAll [WriteLine (CbsReadBack block), WriteLine (IndicatorHint (sv_name f))]))))"

definition service_run_cmd :: "'ip cli_env \<Rightarrow> 's requester \<Rightarrow> ustring \<Rightarrow> bool \<Rightarrow> ('ip, 's, unit) cmd" where
  "service_run_cmd env req label confirm =
     bindS (needed_sgbd env) (\<lambda>sgbd.
     bindS (liftS (map_err (SgbdContext sgbd) (functions_from_sgbd (ce_read env) sgbd))) (\<lambda>fs.
     bindS (liftS (ok_or (by_label fs label) (NoSuchFunction label))) (\<lambda>f.
     case classify_run f confirm of
       RefuseHighRisk \<Rightarrow> failC (RefusedHighRisk f)
     | RefuseNotDerivable \<Rightarrow> failC (RefusedNotDerivable f)
     | NeedsConfirm \<Rightarrow> failC (Unconfirmed f (cl_target (ce_cli env)))
     | RunCbs \<Rightarrow> run_cbs_reset env req f
     | RunGeneric \<Rightarrow> run_generic_reset env req f)))"

definition tester_present_cmd :: "'ip cli_env \<Rightarrow> 's requester \<Rightarrow> ('ip, 's, unit) cmd" where
  "tester_present_cmd env req =
     bindS (connect_cmd env) (\<lambda>_.
     bindS (clientC (ClientContext TesterPresentStep) (client_tester_present req (cl_target (ce_cli env)))) (\<lambda>_.
     say (WriteLine (TesterPresentOk (cl_target (ce_cli env))))))"

section \<open>Jobs\<close>

definition job_run_cmd ::
    "'ip cli_env \<Rightarrow> 's job_env \<Rightarrow> 's requester \<Rightarrow> ustring \<Rightarrow> ustring list \<Rightarrow> ('ip, 's, unit) cmd" where
  "job_run_cmd env je req job args =
     bindS (needed_sgbd env) (\<lambda>sgbd.
     bindS (liftS (map_err (SgbdContext sgbd) (prg_open (ce_read env) sgbd))) (\<lambda>ecu.
     bindS (open_measurements env (Some sgbd)) (\<lambda>ms.
     bindS (case Option.bind ms (\<lambda>ms. misrouted_dynamic_measurement (ce_lower env) ms job args) of
              Some name \<Rightarrow> failC (DynamicMeasurementJob name job)
            | None \<Rightarrow> returnS ()) (\<lambda>_.
     bindS (connect_cmd env) (\<lambda>_.
     bindS (clientC (JobContext job (cl_target (ce_cli env)))
              (run_job (ce_float env) ecu job (cl_target (ce_cli env)) (to_utf8 (join_with (ustr '';'') args))
                (live_request ReadOnly (session_bridge (je_show je) req)) (je_sleep je))) (\<lambda>results.
     sayAll [Shown (JobHeading job (cl_target (ce_cli env))), Text (format_result_sets (ce_show_f64 env) results)]))))))"

section \<open>The commands\<close>

datatype (plugins only: size) command =
    Discover
  | Scan bool
  | Identify
  | ReadFaultsOf u8 bool bool
  | FaultDetailOf code3
  | FaultDocsOf code3
  | ReadDid u16 bool
  | MeasurementsOf "ustring option" "ustring option"
  | EcuTree "ustring option"
  | InfoMemoryOf bool
  | ClearFaultsOf bool bool bool
  | TesterPresent
  | ServiceList
  | ServiceRun ustring bool
  | JobList
  | JobArgs ustring "ustring option"
  | JobRun ustring "ustring list"

definition cli_run :: "'ip cli_env \<Rightarrow> 's job_env \<Rightarrow> 's requester \<Rightarrow> command \<Rightarrow> ('ip, 's, unit) cmd" where
  "cli_run env je req c =
     (case c of
        Discover \<Rightarrow> discover_cmd env
      | Scan ecus_only \<Rightarrow> scan_cmd env (je_show je) req ecus_only
      | Identify \<Rightarrow> identify_cmd env req
      | ReadFaultsOf m raw all \<Rightarrow> read_faults_cmd env req m raw all
      | FaultDetailOf code \<Rightarrow> fault_detail_cmd env req code
      | FaultDocsOf code \<Rightarrow> fault_docs_cmd env code
      | ReadDid did raw \<Rightarrow> read_did_cmd env req did raw
      | MeasurementsOf search variant \<Rightarrow> measurements_cmd env search variant
      | EcuTree series \<Rightarrow> ecu_tree_cmd env series
      | InfoMemoryOf raw \<Rightarrow> info_memory_cmd env req raw
      | ClearFaultsOf confirm all_ecus no_reset \<Rightarrow> clear_faults_cmd env (je_show je) req confirm all_ecus (\<not> no_reset)
      | TesterPresent \<Rightarrow> tester_present_cmd env req
      | ServiceList \<Rightarrow> service_list_cmd env
      | ServiceRun label confirm \<Rightarrow> service_run_cmd env req label confirm
      | JobList \<Rightarrow> job_list_cmd env
      | JobArgs job variant \<Rightarrow> job_args_cmd env job variant
      | JobRun job args \<Rightarrow> job_run_cmd env je req job args)"

end
