(* ===== verification/Cli_Safety.thy ===== *)
theory Cli_Safety
  imports Cli_Commands Mcp_Safety
begin

text \<open>
  What the command line promises about the car: each command sends only requests of its kind, and a
  write only when it is confirmed; \<open>service run\<close> sends the frame its catalog derived for the chosen
  low-risk function, and nothing else but the session and the read-back.
\<close>

section \<open>Commands keep an invariant of the world\<close>

lemma keeps_say [toolI]: "keeps (world safe) (say l)" "keeps (world safe) (sayAll ls)"
  by (auto simp: keeps_def say_def sayAll_def world_def)

lemma keeps_clientC [toolI]: "keeps safe m \<Longrightarrow> keeps (world safe) (clientC f m)"
  by (auto simp: keeps_def clientC_def world_def split: prod.split)

lemma keeps_tryC [toolI]: "keeps safe m \<Longrightarrow> keeps (world safe) (tryC m)"
  by (auto simp: keeps_def tryC_def world_def split: prod.split)

lemma keeps_totalC [toolI]: "(\<And>s. safe s \<Longrightarrow> safe (snd (m s))) \<Longrightarrow> keeps (world safe) (totalC m)"
  by (auto simp: keeps_def totalC_def world_def split: prod.split) (metis snd_conv)

lemma keeps_failC [toolI]: "keeps P (failC e)"
  unfolding failC_def by (intro toolI)

lemma keeps_sum [toolI]:
  "(\<And>e. keeps P (f e)) \<Longrightarrow> (\<And>x. keeps P (g x)) \<Longrightarrow> keeps P (case r of Inl e \<Rightarrow> f e | Inr x \<Rightarrow> g x)"
  by (cases r) simp_all

lemma keeps_opening [toolI]:
  "keeps (world safe) (connect_cmd env)"
  "keeps (world safe) (open_catalog env)"
  "keeps (world safe) (open_measurements env path)"
  "keeps (world safe) (open_freeze_frame_defs env path)"
  "keeps (world safe) (needed_sgbd env)"
  "keeps (world safe) (catalog_job_map catalog variant)"
  unfolding connect_cmd_def open_catalog_def open_measurements_def open_freeze_frame_defs_def
    needed_sgbd_def catalog_job_map_def
  by (intro toolI)+

text \<open>The commands that need no car keep every invariant.\<close>

lemma keeps_listings:
  "keeps (world safe) (discover_cmd env)"
  "keeps (world safe) (fault_docs_cmd env code)"
  "keeps (world safe) (measurements_cmd env search variant)"
  "keeps (world safe) (ecu_tree_cmd env series)"
  "keeps (world safe) (job_list_cmd env)"
  "keeps (world safe) (job_args_cmd env job variant)"
  "keeps (world safe) (service_list_cmd env)"
  unfolding discover_cmd_def fault_docs_cmd_def measurements_cmd_def ecu_tree_cmd_def job_list_cmd_def
    job_args_cmd_def service_list_cmd_def
  by (intro toolI)+

section \<open>Reading commands\<close>

context reading_client
begin

lemma keeps_scan_faults: "safe s \<Longrightarrow> safe (snd (scan_faults req addrs s))"
  using keeps_scan_reads by (simp add: scan_faults_def)

lemma keeps_reading_commands:
  "keeps (world safe) (read_faults_cmd env req mask_byte raw all)"
  "keeps (world safe) (info_memory_cmd env req raw)"
  "keeps (world safe) (fault_detail_cmd env req code)"
  "keeps (world safe) (scan_cmd env show_error req ecus_only)"
  "keeps (world safe) (identify_cmd env req)"
  unfolding read_faults_cmd_def info_memory_cmd_def fault_detail_cmd_def scan_cmd_def identify_cmd_def
  by (intro toolI keeps_read_dtcs keeps_read_info_memory keeps_read_fault_detail keeps_read_ecu_list
      keeps_read_responding_ecu_list keeps_read_i_stufe_levels keeps_scan_faults keeps_identify_vehicle; simp?)+

end

context measuring_client
begin

lemma keeps_read_did_cmd: "keeps (world safe) (read_did_cmd env req did raw)"
  unfolding read_did_cmd_def read_target_value_def by (intro toolI keeps_read_did keeps_dynamic)

end

section \<open>Writing commands\<close>

lemma bindS_liftS:
  "bindS (liftS (Inr x)) k = k x"
  "bindS (liftS (Inl e)) k = liftS (Inl e)"
  by (simp_all add: bindS_def liftS_def fun_eq_iff)

context clearing_client
begin

lemma keeps_clear_faults_cmd:
  "keeps (world safe) (clear_faults_cmd env show_error req confirm all_ecus resets)"
  unfolding clear_faults_cmd_def
  by (intro toolI keeps_read_ecu_list keeps_clear_all_with_reset keeps_verified keeps_ecu_reset; simp?)

end

text \<open>A confirmed service function: the extended session, its frame, and the read-back.\<close>

definition service_request :: "u8 \<Rightarrow> bytes option \<Rightarrow> u8 \<Rightarrow> bytes \<Rightarrow> bool" where
  "service_request own frame target uds \<longleftrightarrow>
     target = own \<and> (uds = [0x10, 0x03] \<or> is_read uds \<or> frame = Some uds)"

locale service_client = client_transport +
  fixes own :: u8 and frame :: bytes
  assumes own_ok: "service_request own (Some frame) target uds \<Longrightarrow> ok target uds"
begin

lemma keeps_own: "service_request own (Some frame) own uds \<Longrightarrow> keeps safe (req own uds)"
  by (rule keeps_req [OF own_ok])

lemma keeps_enter_own: "keeps safe (enter_session req own session_EXTENDED)"
  unfolding enter_session_def
  by (intro toolI keeps_own) (simp add: service_request_def uds_builders uds_consts)

lemma keeps_run_service_reset: "keeps safe (run_service_reset req own frame)"
  unfolding run_service_reset_def
  by (intro toolI keeps_enter_own keeps_own) (simp add: service_request_def)

lemma keeps_reset_cbs: "keeps safe (reset_cbs req own frame build_cbs_read_request)"
  unfolding reset_cbs_def decodeS_def
  by (intro toolI keeps_enter_own keeps_own)
    (simp_all add: service_request_def build_cbs_read_request_def is_read_builders)

lemma keeps_run_generic_reset:
  assumes "sv_request f = Some frame" and "cl_target (ce_cli env) = own"
  shows "keeps (world safe) (run_generic_reset env req f)"
  unfolding run_generic_reset_def assms ok_or_simps bindS_liftS
  by (intro toolI keeps_run_service_reset)

lemma keeps_run_cbs_reset:
  assumes "build_cbs_reset_request (ucast (sv_id f)) = frame" and "cl_target (ce_cli env) = own"
  shows "keeps (world safe) (run_cbs_reset env req f)"
  unfolding run_cbs_reset_def assms Let_def
  by (intro toolI keeps_reset_cbs)

end

interpretation logged_service: service_client "log_request req" "log_all (service_request own (Some frame))"
  "service_request own (Some frame)" own frame
  for req own frame
  by unfold_locales simp_all

lemma catalog_cbs_frame:
  assumes "f \<in> set (functions_from_prg p)" "sv_category f = CbsReset" "is_derived (sv_derivation f)"
  shows "sv_request f = Some (build_cbs_reset_request (ucast (sv_id f)))"
proof -
  obtain r where r: "sv_request f = Some r"
    using assms(3) by (cases "sv_derivation f") (auto simp: is_derived_def sv_request_def derivation_request_def)
  moreover have "entry_safe f"
    using assms(1) functions_of_table_safe derived_resets_safe
    by (auto simp: functions_from_prg_def from_tables_and_jobs_def list_all_iff)
  ultimately show ?thesis
    using assms(2) by (simp add: entry_safe_def build_cbs_reset_request_def write_data_by_identifier_def
        uds_consts CBS_DID_def CBS_RECORD_COUNT_def)
qed

section \<open>The command line\<close>

text \<open>The frame a service function of the SGBD carries: that of the function the label chooses, if it may run.\<close>

definition chosen_frame :: "'ip cli_env \<Rightarrow> ustring \<Rightarrow> bytes option" where
  "chosen_frame env label =
     (case cl_sgbd (ce_cli env) of
        None \<Rightarrow> None
      | Some sgbd \<Rightarrow>
          (case functions_from_sgbd (ce_read env) sgbd of
             Inl _ \<Rightarrow> None
           | Inr fs \<Rightarrow> Option.bind (by_label fs label) (\<lambda>f. if sv_risk f = Low then sv_request f else None)))"

definition cli_allows :: "'ip cli_env \<Rightarrow> command \<Rightarrow> u8 \<Rightarrow> bytes \<Rightarrow> bool" where
  "cli_allows env c target uds \<longleftrightarrow>
     (case c of
        Scan _ \<Rightarrow> is_read uds
      | Identify \<Rightarrow> is_read uds
      | ReadFaultsOf _ _ _ \<Rightarrow> is_read uds
      | FaultDetailOf _ \<Rightarrow> is_read uds
      | InfoMemoryOf _ \<Rightarrow> is_read uds
      | ReadDid _ _ \<Rightarrow> data_request uds
      | TesterPresent \<Rightarrow> target = cl_target (ce_cli env) \<and> uds = [0x3E, 0x00]
      | JobRun _ _ \<Rightarrow> policy_payload ReadOnly uds
      | ClearFaultsOf confirm _ no_reset \<Rightarrow> confirm \<and> clear_request (\<not> no_reset) target uds
      | ServiceRun label confirm \<Rightarrow>
          confirm \<and> chosen_frame env label \<noteq> None
          \<and> service_request (cl_target (ce_cli env)) (chosen_frame env label) target uds
      | _ \<Rightarrow> False)"

lemma log_cli: "keeps (world (log_all ok)) m \<Longrightarrow> log_all ok (fst (snd (snd (m (out, ([], s))))), snd (snd (snd (m (out, ([], s))))))"
  by (auto simp: keeps_def world_def log_all_def)

lemma keeps_service_run:
  assumes req: "\<And>s target uds. safe s \<Longrightarrow> cli_allows env (ServiceRun label confirm) target uds \<Longrightarrow>
      safe (snd (req target uds s))"
  shows "keeps (world safe) (service_run_cmd env req label confirm)"
proof -
  let ?own = "cl_target (ce_cli env)"
  have client: "service_client req safe (service_request ?own (Some frame)) ?own frame"
    if "chosen_frame env label = Some frame" confirm for frame
    using that req by unfold_locales (auto simp: cli_allows_def)
  have run: "keeps (world safe)
      (case classify_run f confirm of
         RefuseHighRisk \<Rightarrow> failC (RefusedHighRisk f) | RefuseNotDerivable \<Rightarrow> failC (RefusedNotDerivable f)
       | NeedsConfirm \<Rightarrow> failC (Unconfirmed f ?own)
       | RunCbs \<Rightarrow> run_cbs_reset env req f | RunGeneric \<Rightarrow> run_generic_reset env req f)"
    if g: "cl_sgbd (ce_cli env) = Some sgbd" "functions_from_sgbd (ce_read env) sgbd = Inr fs" "by_label fs label = Some f"
    for sgbd fs f
  proof -
    obtain p where p: "fs = functions_from_prg p"
      using g(2) by (auto simp: functions_from_sgbd_def bindE_def split: sum.splits)
    have f: "f \<in> set (functions_from_prg p)"
      using g(3) by (auto simp: p by_label_def find_Some_iff)
    have chosen: "chosen_frame env label = (if sv_risk f = Low then sv_request f else None)"
      using g by (simp add: chosen_frame_def)
    have "sv_risk f = Low \<and> confirm \<and> is_derived (sv_derivation f)"
      if "classify_run f confirm = RunCbs \<or> classify_run f confirm = RunGeneric"
      using that by (cases "sv_risk f") (auto simp: classify_run_def split: if_splits)
    moreover have "\<exists>r. sv_request f = Some r" if "is_derived (sv_derivation f)"
      using that by (cases "sv_derivation f") (auto simp: is_derived_def sv_request_def derivation_request_def)
    moreover have "sv_category f = CbsReset" if "classify_run f confirm = RunCbs"
      using that by (auto simp: classify_run_def split: if_splits)
    ultimately show ?thesis
      using client chosen catalog_cbs_frame [OF f] service_client.keeps_run_generic_reset [OF client _ refl]
      by (cases "classify_run f confirm")
        (auto intro: keeps_failC service_client.keeps_run_cbs_reset [OF client refl refl])
  qed
  have fns: "keeps (world safe)
      (bindS (liftS (ok_or (by_label fs label) (NoSuchFunction label))) (\<lambda>f.
       case classify_run f confirm of
         RefuseHighRisk \<Rightarrow> failC (RefusedHighRisk f) | RefuseNotDerivable \<Rightarrow> failC (RefusedNotDerivable f)
       | NeedsConfirm \<Rightarrow> failC (Unconfirmed f ?own)
       | RunCbs \<Rightarrow> run_cbs_reset env req f | RunGeneric \<Rightarrow> run_generic_reset env req f))"
    if "cl_sgbd (ce_cli env) = Some sgbd" "functions_from_sgbd (ce_read env) sgbd = Inr fs" for sgbd fs
    using run [OF that] by (cases "by_label fs label") (simp_all add: bindS_liftS keeps_liftS)
  show ?thesis
  proof (cases "cl_sgbd (ce_cli env)")
    case (Some sgbd)
    then show ?thesis
      using fns by (cases "functions_from_sgbd (ce_read env) sgbd")
        (simp_all add: service_run_cmd_def needed_sgbd_def bindS_liftS map_err_def keeps_liftS)
  qed (simp add: service_run_cmd_def needed_sgbd_def bindS_liftS keeps_liftS)
qed

context gated_client
begin

lemma keeps_job_run:
  assumes "\<And>n s. safe s \<Longrightarrow> safe (je_sleep je n s)"
  shows "keeps (world safe) (job_run_cmd env je req job args)"
  unfolding job_run_cmd_def by (intro toolI keeps_gated_job assms)

end

context client_transport
begin

lemma keeps_tester_present:
  assumes "ok (cl_target (ce_cli env)) [0x3E, 0x00]"
  shows "keeps (world safe) (tester_present_cmd env req)"
proof -
  have "tester_present = [0x3E, 0x00]" by (simp add: tester_present_def uds_consts)
  then show ?thesis
    unfolding tester_present_cmd_def client_tester_present_def using assms
    by (intro toolI keeps_req) simp
qed

end

lemma cli_allows_simps:
  "cli_allows env (Scan ecus_only) = (\<lambda>_. is_read)"
  "cli_allows env Identify = (\<lambda>_. is_read)"
  "cli_allows env (ReadFaultsOf m raw all) = (\<lambda>_. is_read)"
  "cli_allows env (FaultDetailOf code) = (\<lambda>_. is_read)"
  "cli_allows env (InfoMemoryOf raw) = (\<lambda>_. is_read)"
  "cli_allows env (ReadDid did raw) = (\<lambda>_. data_request)"
  "cli_allows env (JobRun job args) = (\<lambda>_. policy_payload ReadOnly)"
  "cli_allows env (ClearFaultsOf True all no_reset) = clear_request (\<not> no_reset)"
  by (auto simp: cli_allows_def fun_eq_iff)

text \<open>
  A command keeps any invariant of the world that the requests it may make keep, and that a job's
  waiting keeps.
\<close>

lemma cli_command_keeps:
  assumes req: "\<And>s target uds. safe s \<Longrightarrow> cli_allows env c target uds \<Longrightarrow> safe (snd (req target uds s))"
    and sleep: "\<And>n s. safe s \<Longrightarrow> safe (je_sleep je n s)"
  shows "keeps (world safe) (cli_run env je req c)"
proof -
  have reading: "reading_client req safe (\<lambda>_. is_read)" if "cli_allows env c = (\<lambda>_. is_read)"
    using req that by unfold_locales auto
  show ?thesis
  proof (cases c)
    case (ClearFaultsOf confirm all_ecus no_reset)
    show ?thesis
    proof (cases confirm)
      case True
      then have "clearing_client req safe (clear_request (\<not> no_reset)) (\<not> no_reset)"
        using req ClearFaultsOf by unfold_locales (auto simp: cli_allows_def clear_request_def)
      with ClearFaultsOf True show ?thesis
        by (simp add: cli_run_def clearing_client.keeps_clear_faults_cmd)
    qed (simp add: ClearFaultsOf cli_run_def clear_faults_cmd_def keeps_failC)
  next
    case (ReadDid did raw)
    then have "measuring_client req safe (\<lambda>_. data_request)"
      using req by unfold_locales (auto simp: cli_allows_simps data_request_def)
    with ReadDid show ?thesis by (simp add: cli_run_def measuring_client.keeps_read_did_cmd)
  next
    case (JobRun job args)
    then have "gated_client req safe (\<lambda>_. policy_payload ReadOnly)"
      using req by unfold_locales (auto simp: cli_allows_simps)
    with JobRun sleep show ?thesis by (simp add: cli_run_def gated_client.keeps_job_run)
  next
    case (ServiceRun label confirm)
    with req show ?thesis by (simp add: cli_run_def keeps_service_run)
  next
    case TesterPresent
    have "client_transport req safe (cli_allows env c)" using req by unfold_locales
    from client_transport.keeps_tester_present [OF this, of env] TesterPresent show ?thesis
      by (simp add: cli_run_def cli_allows_def)
  qed (simp_all add: cli_run_def keeps_listings cli_allows_simps reading_client.keeps_reading_commands [OF reading])
qed

lemma cli_run_keeps:
  "keeps (world (log_all (cli_allows env c))) (cli_run env (log_env je) (log_request req) c)"
  by (rule cli_command_keeps) (simp_all add: logged_client.req_keeps log_env_sleep)

text \<open>
  C4. The safety of the command line, whatever the database, the files, the network and the car answer:
  discovery, the offline listings and \<open>job list\<close> or \<open>job args\<close> make no request at all; the reading
  commands make only reads, \<open>read-did\<close> also the definition of the dynamic identifier; \<open>job run\<close> only
  what the read-only gate admits; \<open>clear-faults\<close> none without \<open>--confirm\<close>, and then only reads, the
  extended session, the clear and, unless \<open>--no-reset\<close>, the hard reset of ECUs other than the gateway;
  and \<open>service run\<close> none without \<open>--confirm\<close>, and then, to the target only, the extended session, a
  read-back and the one frame the catalog of the SGBD derived for the low-risk function of that label.
\<close>
theorem cli_requests_allowed:
  "list_all (\<lambda>(target, uds). cli_allows env c target uds)
     (fst (snd (snd (cli_run env (log_env je) (log_request req) c (out, ([], s))))))"
  using cli_run_keeps [of env c je req] by (auto simp: keeps_def world_def log_all_def)

end
