(* ===== verification/Doc_Fkb.thy ===== *)
theory Doc_Fkb
  imports Rust_Text Rust_Utf8
begin

text \<open>
  The document builder's renderer (\<open>docbuild/src/fkb.rs\<close>): the events of an XML reader over a
  fault-description body become compact markdown. The reader (\<open>quick_xml\<close>) is outside: the input is
  the sequence of its events, each possibly an error, and the names of the entities it resolves.
\<close>

section \<open>Events\<close>

text \<open>A reference is a character or a named entity; an attribute has its key and its value.\<close>

datatype entity_ref = CharRef nat | Named ustring

datatype 'e xml_event =
    Start ustring "('e + ustring \<times> ustring) list"
  | Empty ustring
  | Chars "'e + ustring"
  | GeneralRef "'e + entity_ref"
  | End ustring
  | OtherEvent

section \<open>The renderer\<close>

definition SECTIONS :: "(ustring \<times> ustring) list" where
  "SECTIONS =
     [(ustr ''FEHLERBESCHREIBUNG'', ustr ''Fehlerbeschreibung''),
      (ustr ''BESCHREIBUNG'', ustr ''Beschreibung''),
      (ustr ''SETZBEDINGUNG'', ustr ''Setzbedingung''),
      (ustr ''SPANNUNGSBEDINGUNG'', ustr ''Spannungsbedingung''),
      (ustr ''FAHRZUSTAND'', ustr ''Fahrzustand''),
      (ustr ''ZEITBEDINGUNG'', ustr ''Zeitbedingung''),
      (ustr ''MASSNAHMEIMSERVICE'', ustr ''Ma'' @ [0xDF] @ ustr ''nahme im Service''),
      (ustr ''FEHLERAUSWIRKUNG'', ustr ''Fehlerauswirkung''),
      (ustr ''SICHTBAREAUSWIRKUNG'', ustr ''Sichtbare Auswirkung''),
      (ustr ''PANNENHINWEIS'', ustr ''Pannenhinweis''),
      (ustr ''FAHRERINFORMATION'', ustr ''Fahrerinformation''),
      (ustr ''WARNLEUCHTE'', ustr ''Warnleuchte''),
      (ustr ''SERVICEHINWEIS'', ustr ''Servicehinweis''),
      (ustr ''CCMELDUNG'', ustr ''Check-Control-Meldung''),
      (ustr ''FEHLERORTTEXT'', ustr ''Fehlerort'')]"

definition heading_for :: "ustring \<Rightarrow> ustring option" where
  "heading_for tag = map_of SECTIONS tag"

text \<open>The open sections are a stack with the innermost first.\<close>

record fkb_state =
  fk_blocks :: "ustring list"
  fk_open :: "(ustring \<times> ustring list) list"
  fk_in_paragraph :: bool
  fk_para :: ustring
  fk_list_depth :: nat
  fk_klemme :: "(ustring \<times> ustring) option"
  fk_field :: "bool option"

definition fkb_start :: fkb_state where
  "fkb_start =
     \<lparr>fk_blocks = [], fk_open = [], fk_in_paragraph = False, fk_para = [], fk_list_depth = 0,
      fk_klemme = None, fk_field = None\<rparr>"

definition start_tag :: "ustring \<Rightarrow> fkb_state \<Rightarrow> fkb_state" where
  "start_tag tag st =
     (if tag = ustr ''PARAGRAPH'' then st\<lparr>fk_in_paragraph := True, fk_para := []\<rparr>
      else if tag = ustr ''LIST'' then st\<lparr>fk_list_depth := fk_list_depth st + 1\<rparr>
      else if tag = ustr ''KLEMME'' then st\<lparr>fk_klemme := Some ([], [])\<rparr>
      else if tag = ustr ''KLEMMENNAME'' then st\<lparr>fk_field := Some True\<rparr>
      else if tag = ustr ''KLEMMENSTATUS'' then st\<lparr>fk_field := Some False\<rparr>
      else case heading_for tag of
        Some h \<Rightarrow> st\<lparr>fk_open := (h, []) # fk_open st\<rparr>
      | None \<Rightarrow> st)"

text \<open>Where text goes: the open paragraph, else the field of the terminal in progress, else nowhere.\<close>

definition takes_text :: "fkb_state \<Rightarrow> bool" where
  "takes_text st \<longleftrightarrow> fk_in_paragraph st \<or> (fk_field st \<noteq> None \<and> fk_klemme st \<noteq> None)"

definition push_text :: "ustring \<Rightarrow> fkb_state \<Rightarrow> fkb_state" where
  "push_text t st =
     (if fk_in_paragraph st then st\<lparr>fk_para := fk_para st @ t\<rparr>
      else case (fk_field st, fk_klemme st) of
        (Some f, Some (name, status)) \<Rightarrow>
          st\<lparr>fk_klemme := Some (if f then (name @ t, status) else (name, status @ t))\<rparr>
      | _ \<Rightarrow> st)"

text \<open>A closed paragraph goes to the innermost open section, as a bullet inside a list.\<close>

definition end_paragraph :: "fkb_state \<Rightarrow> fkb_state" where
  "end_paragraph st =
     (let text = trim (fk_para st); st' = st\<lparr>fk_in_paragraph := False\<rparr> in
      case fk_open st' of
        (h, paras) # secs \<Rightarrow>
          if text = [] then st'
          else st'\<lparr>fk_open := (h, paras @ [if fk_list_depth st' > 0 then ustr ''- '' @ text else text]) # secs\<rparr>
      | [] \<Rightarrow> st')"

definition klemme_block :: "ustring \<times> ustring \<Rightarrow> ustring list" where
  "klemme_block k =
     (let name = trim (fst k); status = trim (snd k) in
      if name = [] then []
      else if status = [] then [ustr ''**Klemme:** '' @ name]
      else [ustr ''**Klemme:** '' @ name @ ustr '' '' @ [0x2014] @ ustr '' '' @ status])"

definition section_block :: "ustring \<Rightarrow> ustring list \<Rightarrow> ustring list" where
  "section_block h paras =
     (if paras = [] then []
      else
        let sep = (if list_all (\<lambda>p. take 2 p = ustr ''- '') paras then [0x0A] else [0x0A, 0x0A])
        in [ustr ''## '' @ h @ [0x0A, 0x0A] @ join_with sep paras])"

definition end_tag :: "ustring \<Rightarrow> fkb_state \<Rightarrow> fkb_state" where
  "end_tag tag st =
     (if tag = ustr ''PARAGRAPH'' then end_paragraph st
      else if tag = ustr ''LIST'' then st\<lparr>fk_list_depth := fk_list_depth st - 1\<rparr>
      else if tag = ustr ''KLEMMENNAME'' \<or> tag = ustr ''KLEMMENSTATUS'' then st\<lparr>fk_field := None\<rparr>
      else if tag = ustr ''KLEMME'' then
        (case fk_klemme st of
           None \<Rightarrow> st
         | Some k \<Rightarrow> st\<lparr>fk_klemme := None, fk_blocks := fk_blocks st @ klemme_block k\<rparr>)
      else if heading_for tag \<noteq> None then
        (case fk_open st of
           [] \<Rightarrow> st
         | (h, paras) # secs \<Rightarrow> st\<lparr>fk_open := secs, fk_blocks := fk_blocks st @ section_block h paras\<rparr>)
      else st)"

definition fkb_event :: "(ustring \<Rightarrow> ustring option) \<Rightarrow> 'e xml_event \<Rightarrow> fkb_state \<Rightarrow> 'e + fkb_state" where
  "fkb_event predefined ev st =
     (case ev of
        Start tag _ \<Rightarrow> Inr (start_tag tag st)
      | Chars t \<Rightarrow>
          if takes_text st then bindE t (\<lambda>t. Inr (push_text t st)) else Inr st
      | GeneralRef r \<Rightarrow>
          if takes_text st then
            bindE r (\<lambda>r. Inr (case r of
              CharRef c \<Rightarrow> push_text [c] st
            | Named n \<Rightarrow> (case predefined n of Some t \<Rightarrow> push_text t st | None \<Rightarrow> st)))
          else Inr st
      | End tag \<Rightarrow> Inr (end_tag tag st)
      | Empty _ \<Rightarrow> Inr st
      | OtherEvent \<Rightarrow> Inr st)"

fun fkb_loop :: "(ustring \<Rightarrow> ustring option) \<Rightarrow> ('e + 'e xml_event) list \<Rightarrow> fkb_state \<Rightarrow> 'e + fkb_state" where
  "fkb_loop predefined [] st = Inr st"
| "fkb_loop predefined (ev # evs) st =
     bindE ev (\<lambda>ev. bindE (fkb_event predefined ev st) (fkb_loop predefined evs))"

definition render_fkb :: "(ustring \<Rightarrow> ustring option) \<Rightarrow> ('e + 'e xml_event) list \<Rightarrow> 'e + ustring" where
  "render_fkb predefined evs =
     bindE (fkb_loop predefined evs fkb_start) (\<lambda>st. Inr (join_with [0x0A, 0x0A] (fk_blocks st)))"

text \<open>
  The rows of the document store (\<open>build.rs\<close>): for each wanted id, found by its number in decimal, the
  body rendered and compressed, in order; an id without a body and an empty rendering give none.
  \<open>gzip\<close> is the compressor.
\<close>

fun build_fkb_rows ::
    "(ustring \<Rightarrow> ustring option) \<Rightarrow> (bytes \<Rightarrow> 'e + bytes) \<Rightarrow> (ustring \<rightharpoonup> ('e + 'e xml_event) list) \<Rightarrow> int list
     \<Rightarrow> 'e + (int \<times> bytes) list" where
  "build_fkb_rows predefined gzip body [] = Inr []"
| "build_fkb_rows predefined gzip body (content_dede # wanted) =
     (case body (fmt_int content_dede) of
        None \<Rightarrow> build_fkb_rows predefined gzip body wanted
      | Some evs \<Rightarrow>
          bindE (render_fkb predefined evs) (\<lambda>md.
          if md = [] then build_fkb_rows predefined gzip body wanted
          else
            bindE (gzip (to_utf8 md)) (\<lambda>gz.
            bindE (build_fkb_rows predefined gzip body wanted) (\<lambda>rows. Inr ((content_dede, gz) # rows)))))"

section \<open>The document as a tree\<close>

text \<open>
  Pieces of text, and the nodes of a body: a paragraph, a bulleted list, a section, a terminal with
  its name and status, any other element, and what stands between elements.
\<close>

datatype piece = Plain ustring | Ref entity_ref

datatype fkb_node =
    Paragraph "piece list"
  | Bullets "fkb_node list"
  | Section ustring "fkb_node list"
  | Terminal "piece list" "piece list"
  | Element ustring "fkb_node list"
  | Between ustring
  | Hollow ustring

fun piece_event :: "piece \<Rightarrow> 'e xml_event" where
  "piece_event (Plain t) = Chars (Inr t)"
| "piece_event (Ref r) = GeneralRef (Inr r)"

fun piece_text :: "(ustring \<Rightarrow> ustring option) \<Rightarrow> piece \<Rightarrow> ustring" where
  "piece_text predefined (Plain t) = t"
| "piece_text predefined (Ref (CharRef c)) = [c]"
| "piece_text predefined (Ref (Named n)) = (case predefined n of Some t \<Rightarrow> t | None \<Rightarrow> [])"

definition pieces_text :: "(ustring \<Rightarrow> ustring option) \<Rightarrow> piece list \<Rightarrow> ustring" where
  "pieces_text predefined ps = concat (map (piece_text predefined) ps)"

definition tagged :: "ustring \<Rightarrow> 'e xml_event list \<Rightarrow> 'e xml_event list" where
  "tagged tag evs = Start tag [] # evs @ [End tag]"

fun node_events :: "fkb_node \<Rightarrow> 'e xml_event list" where
  "node_events (Paragraph ps) = tagged (ustr ''PARAGRAPH'') (map piece_event ps)"
| "node_events (Bullets ns) = tagged (ustr ''LIST'') (concat (map node_events ns))"
| "node_events (Section tag ns) = tagged tag (concat (map node_events ns))"
| "node_events (Terminal name status) =
     tagged (ustr ''KLEMME'')
       (tagged (ustr ''KLEMMENNAME'') (map piece_event name) @ tagged (ustr ''KLEMMENSTATUS'') (map piece_event status))"
| "node_events (Element tag ns) = tagged tag (concat (map node_events ns))"
| "node_events (Between t) = [Chars (Inr t)]"
| "node_events (Hollow tag) = [Empty tag]"

definition MARKUP :: "ustring list" where
  "MARKUP = map ustr [''PARAGRAPH'', ''LIST'', ''KLEMME'', ''KLEMMENNAME'', ''KLEMMENSTATUS'']"

text \<open>Sections have a section's tag, other elements neither that nor a markup tag.\<close>

fun node_ok :: "fkb_node \<Rightarrow> bool" where
  "node_ok (Section tag ns) \<longleftrightarrow> heading_for tag \<noteq> None \<and> list_all node_ok ns"
| "node_ok (Element tag ns) \<longleftrightarrow> heading_for tag = None \<and> tag \<notin> set MARKUP \<and> list_all node_ok ns"
| "node_ok (Bullets ns) \<longleftrightarrow> list_all node_ok ns"
| "node_ok _ \<longleftrightarrow> True"

text \<open>
  What a node gives: the blocks it closes, in the order they close, and the paragraphs it leaves to
  the section around it; \<open>d\<close> says whether a list is open.
\<close>

fun node_paras :: "(ustring \<Rightarrow> ustring option) \<Rightarrow> bool \<Rightarrow> fkb_node \<Rightarrow> ustring list" where
  "node_paras pre d (Paragraph ps) =
     (let text = trim (pieces_text pre ps) in if text = [] then [] else [if d then ustr ''- '' @ text else text])"
| "node_paras pre d (Bullets ns) = concat (map (node_paras pre True) ns)"
| "node_paras pre d (Element tag ns) = concat (map (node_paras pre d) ns)"
| "node_paras pre d _ = []"

fun node_blocks :: "(ustring \<Rightarrow> ustring option) \<Rightarrow> bool \<Rightarrow> fkb_node \<Rightarrow> ustring list" where
  "node_blocks pre d (Bullets ns) = concat (map (node_blocks pre True) ns)"
| "node_blocks pre d (Section tag ns) =
     concat (map (node_blocks pre d) ns)
     @ section_block (the (heading_for tag)) (concat (map (node_paras pre d) ns))"
| "node_blocks pre d (Terminal name status) = klemme_block (pieces_text pre name, pieces_text pre status)"
| "node_blocks pre d (Element tag ns) = concat (map (node_blocks pre d) ns)"
| "node_blocks pre d _ = []"

section \<open>The machine computes the tree\<close>

text \<open>Between elements nothing is in progress; a node leaves its blocks and paragraphs behind.\<close>

definition quiet :: "fkb_state \<Rightarrow> bool" where
  "quiet st \<longleftrightarrow> \<not> fk_in_paragraph st \<and> fk_klemme st = None \<and> fk_field st = None"

definition leave :: "ustring list \<Rightarrow> ustring list \<Rightarrow> ustring \<Rightarrow> fkb_state \<Rightarrow> fkb_state" where
  "leave bs ps p st =
     st\<lparr>fk_blocks := fk_blocks st @ bs,
        fk_open := (case fk_open st of [] \<Rightarrow> [] | (h, qs) # secs \<Rightarrow> (h, qs @ ps) # secs),
        fk_para := p\<rparr>"

lemma leave_simps [simp]:
  "fk_list_depth (leave bs ps p st) = fk_list_depth st"
  "quiet (leave bs ps p st) = quiet st"
  "leave bs' ps' p' (leave bs ps p st) = leave (bs @ bs') (ps @ ps') p' st"
  "leave [] [] (fk_para st) st = st"
  by (simp_all add: leave_def quiet_def split: list.split)

lemma loop_Inr [simp]:
  "fkb_loop pre (Inr ev # evs) st = bindE (fkb_event pre ev st) (fkb_loop pre evs)"
  by simp

lemma markup_tags [simp]:
  "heading_for (ustr ''PARAGRAPH'') = None" "heading_for (ustr ''LIST'') = None"
  "heading_for (ustr ''KLEMME'') = None" "heading_for (ustr ''KLEMMENNAME'') = None"
  "heading_for (ustr ''KLEMMENSTATUS'') = None"
  by (simp_all add: heading_for_def SECTIONS_def ustr_def)

lemma distinct_tags [simp]:
  "ustr ''LIST'' \<noteq> ustr ''PARAGRAPH''" "ustr ''KLEMME'' \<noteq> ustr ''PARAGRAPH''"
  "ustr ''KLEMMENNAME'' \<noteq> ustr ''PARAGRAPH''" "ustr ''KLEMMENSTATUS'' \<noteq> ustr ''PARAGRAPH''"
  "ustr ''KLEMME'' \<noteq> ustr ''LIST''" "ustr ''KLEMMENNAME'' \<noteq> ustr ''LIST''"
  "ustr ''KLEMMENSTATUS'' \<noteq> ustr ''LIST''" "ustr ''KLEMMENNAME'' \<noteq> ustr ''KLEMME''"
  "ustr ''KLEMMENSTATUS'' \<noteq> ustr ''KLEMME''" "ustr ''KLEMMENSTATUS'' \<noteq> ustr ''KLEMMENNAME''"
  "ustr ''KLEMME'' \<noteq> ustr ''KLEMMENNAME''" "ustr ''KLEMME'' \<noteq> ustr ''KLEMMENSTATUS''"
  by (simp_all add: ustr_def)

text \<open>Text in progress grows by the pieces.\<close>

lemma loop_pieces_para:
  fixes evs :: "('e + 'e xml_event) list"
  assumes "fk_in_paragraph st"
  shows "fkb_loop pre (map (Inr \<circ> piece_event) ps @ evs) st
    = fkb_loop pre evs (st\<lparr>fk_para := fk_para st @ pieces_text pre ps\<rparr>)"
  using assms
proof (induction ps arbitrary: st)
  case (Cons p ps)
  have "fkb_event pre (piece_event p :: 'e xml_event) st = Inr (st\<lparr>fk_para := fk_para st @ piece_text pre p\<rparr>)"
    using Cons.prems
    by (cases "(pre, p)" rule: piece_text.cases)
      (auto simp: fkb_event_def takes_text_def push_text_def bindE_def split: option.split)
  then show ?case
    using Cons by (simp add: pieces_text_def bindE_def)
qed (simp add: pieces_text_def)

lemma loop_pieces_field:
  fixes evs :: "('e + 'e xml_event) list"
  assumes "\<not> fk_in_paragraph st" and "fk_field st = Some f" and "fk_klemme st = Some (n, s)"
  shows "fkb_loop pre (map (Inr \<circ> piece_event) ps @ evs) st
    = fkb_loop pre evs (st\<lparr>fk_klemme :=
        Some (if f then (n @ pieces_text pre ps, s) else (n, s @ pieces_text pre ps))\<rparr>)"
  using assms
proof (induction ps arbitrary: st n s)
  case (Cons p ps)
  have "fkb_event pre (piece_event p :: 'e xml_event) st
      = Inr (st\<lparr>fk_klemme := Some (if f then (n @ piece_text pre p, s) else (n, s @ piece_text pre p))\<rparr>)"
    using Cons.prems
    by (cases "(pre, p)" rule: piece_text.cases)
      (auto simp: fkb_event_def takes_text_def push_text_def bindE_def split: option.split)
  then show ?case
    using Cons by (simp add: pieces_text_def bindE_def)
next
  case Nil
  then show ?case by (cases st) (simp add: pieces_text_def)
qed

text \<open>A node and a forest leave their blocks and paragraphs behind, whatever comes after.\<close>

definition settles_to ::
    "(ustring \<Rightarrow> ustring option) \<Rightarrow> ('e + 'e xml_event) list \<Rightarrow> ustring list \<Rightarrow> ustring list \<Rightarrow> fkb_state \<Rightarrow> bool" where
  "settles_to pre evs bs ps st \<longleftrightarrow>
     (\<exists>p. \<forall>more_evs. fkb_loop pre (evs @ more_evs) st = fkb_loop pre more_evs (leave bs ps p st))"

lemma settles_Nil: "settles_to pre [] [] [] st"
  unfolding settles_to_def by (rule exI [of _ "fk_para st"]) simp

lemma settles_append:
  assumes "settles_to pre evs bs ps st" and "\<And>p. settles_to pre evs' bs' ps' (leave bs ps p st)"
  shows "settles_to pre (evs @ evs') (bs @ bs') (ps @ ps') st"
  using assms unfolding settles_to_def by (metis append.assoc leave_simps(3))

lemma settles_forest:
  assumes "\<And>n st. n \<in> set ns \<Longrightarrow> quiet st \<Longrightarrow> (0 < fk_list_depth st) = d \<Longrightarrow>
      settles_to pre (map Inr (node_events n) :: ('e + 'e xml_event) list) (node_blocks pre d n) (node_paras pre d n) st"
    and "quiet st" and "(0 < fk_list_depth st) = d"
  shows "settles_to pre (map Inr (concat (map node_events ns)) :: ('e + 'e xml_event) list)
    (concat (map (node_blocks pre d) ns)) (concat (map (node_paras pre d) ns)) st"
  using assms
proof (induction ns arbitrary: st)
  case (Cons n ns)
  show ?case
    unfolding list.map concat.simps map_append
    by (rule settles_append) (use Cons in \<open>simp_all del: map_map\<close>)
qed (simp add: settles_Nil)

lemma settles_paragraph:
  assumes "quiet st"
  shows "settles_to pre (map Inr (node_events (Paragraph ps)) :: ('e + 'e xml_event) list) [] (node_paras pre (0 < fk_list_depth st) (Paragraph ps)) st"
  unfolding settles_to_def
proof (rule exI [of _ "pieces_text pre ps"], rule allI)
  fix more_evs :: "('e + 'e xml_event) list"
  let ?st = "st\<lparr>fk_in_paragraph := True, fk_para := pieces_text pre ps\<rparr>"
  have "fkb_loop pre (map Inr (node_events (Paragraph ps)) @ more_evs) st
      = fkb_loop pre (Inr (End (ustr ''PARAGRAPH'')) # more_evs) ?st"
    using loop_pieces_para [of "st\<lparr>fk_in_paragraph := True, fk_para := []\<rparr>" pre ps
        "Inr (End (ustr ''PARAGRAPH'')) # more_evs"]
    by (simp add: tagged_def fkb_event_def start_tag_def bindE_def comp_def)
  also have "\<dots> = fkb_loop pre more_evs (leave [] (node_paras pre (0 < fk_list_depth st) (Paragraph ps)) (pieces_text pre ps) st)"
    using assms by (cases st) (auto simp: fkb_event_def end_tag_def end_paragraph_def bindE_def leave_def quiet_def
        Let_def split: list.split)
  finally show "fkb_loop pre (map Inr (node_events (Paragraph ps)) @ more_evs) st = \<dots>" .
qed

lemma settles_bullets:
  assumes "\<And>st. quiet st \<Longrightarrow> 0 < fk_list_depth st \<Longrightarrow>
      settles_to pre (map Inr (concat (map node_events ns)) :: ('e + 'e xml_event) list) bs ps st"
    and "quiet st"
  shows "settles_to pre (map Inr (node_events (Bullets ns)) :: ('e + 'e xml_event) list) bs ps st"
proof -
  let ?st = "st\<lparr>fk_list_depth := fk_list_depth st + 1\<rparr>"
  obtain p where p: "\<And>more_evs. fkb_loop pre ((map Inr (concat (map node_events ns)) :: ('e + 'e xml_event) list) @ more_evs) ?st
      = fkb_loop pre more_evs (leave bs ps p ?st)"
    using assms(1) [of ?st] assms(2) by (auto simp: settles_to_def quiet_def)
  have "(leave bs ps p ?st)\<lparr>fk_list_depth := fk_list_depth (leave bs ps p ?st) - 1\<rparr> = leave bs ps p st"
    by (cases st) (simp add: leave_def)
  with p show ?thesis
    by (auto simp: settles_to_def tagged_def fkb_event_def start_tag_def end_tag_def bindE_def intro!: exI [of _ p])
qed

lemma markup_distinct:
  assumes "tag \<notin> set MARKUP"
  shows "tag \<noteq> ustr ''PARAGRAPH''" "tag \<noteq> ustr ''LIST''" "tag \<noteq> ustr ''KLEMME''" "tag \<noteq> ustr ''KLEMMENNAME''"
    "tag \<noteq> ustr ''KLEMMENSTATUS''"
  using assms by (auto simp: MARKUP_def)

lemma section_not_markup: "heading_for tag \<noteq> None \<Longrightarrow> tag \<notin> set MARKUP"
  by (auto simp: MARKUP_def)

lemma settles_section:
  assumes "\<And>st. quiet st \<Longrightarrow> (0 < fk_list_depth st) = d \<Longrightarrow>
      settles_to pre (map Inr (concat (map node_events ns)) :: ('e + 'e xml_event) list) bs ps st"
    and "quiet st" and "(0 < fk_list_depth st) = d" and "heading_for tag = Some h"
  shows "settles_to pre (map Inr (node_events (Section tag ns)) :: ('e + 'e xml_event) list) (bs @ section_block h ps) [] st"
proof -
  note m = markup_distinct [OF section_not_markup, of tag]
  let ?st = "st\<lparr>fk_open := (h, []) # fk_open st\<rparr>"
  obtain p where p: "\<And>more_evs. fkb_loop pre ((map Inr (concat (map node_events ns)) :: ('e + 'e xml_event) list) @ more_evs) ?st
      = fkb_loop pre more_evs (leave bs ps p ?st)"
    using assms(1) [of ?st] assms(2,3) by (auto simp: settles_to_def quiet_def)
  have "end_tag tag (leave bs ps p ?st) = leave (bs @ section_block h ps) [] p st"
    using assms(4) m by (cases st) (auto simp: leave_def end_tag_def split: list.split)
  with p assms(4) m show ?thesis
    by (auto simp: settles_to_def tagged_def fkb_event_def start_tag_def bindE_def intro!: exI [of _ p])
qed

lemma settles_element:
  assumes "settles_to pre (map Inr (concat (map node_events ns)) :: ('e + 'e xml_event) list) bs ps st"
    and "heading_for tag = None" and "tag \<notin> set MARKUP"
  shows "settles_to pre (map Inr (node_events (Element tag ns)) :: ('e + 'e xml_event) list) bs ps st"
  using assms markup_distinct [OF assms(3)]
  by (auto simp: settles_to_def tagged_def fkb_event_def start_tag_def end_tag_def bindE_def)

lemma settles_terminal:
  assumes "quiet st"
  shows "settles_to pre (map Inr (node_events (Terminal name status)) :: ('e + 'e xml_event) list)
    (klemme_block (pieces_text pre name, pieces_text pre status)) [] st"
  unfolding settles_to_def
proof (rule exI [of _ "fk_para st"], rule allI)
  fix evs :: "('e + 'e xml_event) list"
  let ?n = "pieces_text pre name" and ?s = "pieces_text pre status"
  have 1: "fkb_loop pre (map (Inr \<circ> piece_event) name @ evs) (st\<lparr>fk_klemme := Some ([], []), fk_field := Some True\<rparr>)
      = fkb_loop pre evs (st\<lparr>fk_klemme := Some (?n, []), fk_field := Some True\<rparr>)"
    for evs :: "('e + 'e xml_event) list"
    using loop_pieces_field [of "st\<lparr>fk_klemme := Some ([], []), fk_field := Some True\<rparr>" True "[]" "[]" pre name evs] assms
    by (cases st) (simp add: quiet_def)
  have 2: "fkb_loop pre (map (Inr \<circ> piece_event) status @ evs) (st\<lparr>fk_klemme := Some (?n, []), fk_field := Some False\<rparr>)
      = fkb_loop pre evs (st\<lparr>fk_klemme := Some (?n, ?s), fk_field := Some False\<rparr>)"
    for evs :: "('e + 'e xml_event) list"
    using loop_pieces_field [of "st\<lparr>fk_klemme := Some (?n, []), fk_field := Some False\<rparr>" False ?n "[]" pre status evs] assms
    by (cases st) (simp add: quiet_def)
  have 3: "end_tag (ustr ''KLEMME'') (st\<lparr>fk_klemme := Some (?n, ?s), fk_field := None\<rparr>)
      = leave (klemme_block (?n, ?s)) [] (fk_para st) st"
    using assms by (cases st) (auto simp: end_tag_def leave_def quiet_def split: list.split)
  show "fkb_loop pre (map Inr (node_events (Terminal name status)) @ evs) st
      = fkb_loop pre evs (leave (klemme_block (?n, ?s)) [] (fk_para st) st)"
    using 1 2 3 by (simp add: tagged_def fkb_event_def start_tag_def end_tag_def bindE_def comp_def)
qed

lemma settles_nothing:
  "quiet st \<Longrightarrow> settles_to pre (map Inr (node_events (Between t)) :: ('e + 'e xml_event) list) [] [] st"
  "settles_to pre (map Inr (node_events (Hollow tag)) :: ('e + 'e xml_event) list) [] [] st"
  using settles_Nil [of pre st] unfolding settles_to_def
  by (simp_all add: fkb_event_def takes_text_def quiet_def bindE_def)

lemma settles_node:
  assumes "node_ok n" and "quiet st" and "(0 < fk_list_depth st) = d"
  shows "settles_to pre (map Inr (node_events n) :: ('e + 'e xml_event) list) (node_blocks pre d n) (node_paras pre d n) st"
  using assms
proof (induction n arbitrary: st d)
  case (Paragraph ps)
  then show ?case using settles_paragraph [of st pre ps] by simp
next
  case (Bullets ns)
  have "settles_to pre (map Inr (concat (map node_events ns)) :: ('e + 'e xml_event) list)
      (concat (map (node_blocks pre True) ns)) (concat (map (node_paras pre True) ns)) st"
    if "quiet st" "0 < fk_list_depth st" for st
    using that Bullets.prems(1) by (intro settles_forest Bullets.IH) (auto simp: list_all_iff)
  then show ?case
    unfolding node_blocks.simps node_paras.simps by (rule settles_bullets [OF _ Bullets.prems(2)])
next
  case (Section tag ns)
  have forest: "settles_to pre (map Inr (concat (map node_events ns)) :: ('e + 'e xml_event) list)
      (concat (map (node_blocks pre d) ns)) (concat (map (node_paras pre d) ns)) st"
    if "quiet st" "(0 < fk_list_depth st) = d" for st
    using that Section.prems(1) by (intro settles_forest Section.IH) (auto simp: list_all_iff)
  obtain h where h: "heading_for tag = Some h"
    using Section.prems(1) by auto
  show ?case
    unfolding node_blocks.simps node_paras.simps h option.sel
    by (rule settles_section [OF forest Section.prems(2,3) h])
next
  case (Terminal name status)
  then show ?case using settles_terminal [of st pre name status] by (simp del: node_events.simps)
next
  case (Element tag ns)
  then have "settles_to pre (map Inr (concat (map node_events ns)) :: ('e + 'e xml_event) list)
      (concat (map (node_blocks pre d) ns)) (concat (map (node_paras pre d) ns)) st"
    by (intro settles_forest Element.IH) (auto simp: list_all_iff)
  then show ?case
    unfolding node_blocks.simps node_paras.simps by (rule settles_element) (use Element.prems in simp_all)
qed (use settles_nothing in \<open>simp_all del: node_events.simps\<close>)

text \<open>
  C20. The renderer is a machine over a reader's events, with a stack of open sections, a list depth, a
  paragraph and a terminal in progress; it computes what the document's tree says. For every
  well-formed body without attributes of any depth, the result is the blocks of its nodes in the order
  their elements close, with a blank line between: a section that has paragraphs gives its heading and
  the trimmed non-empty paragraphs directly in it or in lists and unknown elements in it (not those of
  a section nested in it), a bullet for each paragraph in a list; a terminal gives its own block; and
  an entity is resolved or dropped in place, without a break in the text around it.
\<close>

theorem fkb_renders_structure:
  fixes ns :: "fkb_node list"
  assumes "list_all node_ok ns"
  shows "render_fkb pre (map Inr (concat (map node_events ns)) :: ('e + 'e xml_event) list)
    = Inr (join_with [0x0A, 0x0A] (concat (map (node_blocks pre False) ns)))"
proof -
  have "settles_to pre (map Inr (concat (map node_events ns)) :: ('e + 'e xml_event) list)
      (concat (map (node_blocks pre False) ns)) (concat (map (node_paras pre False) ns)) fkb_start"
    by (intro settles_forest settles_node)
      (use assms in \<open>auto simp: list_all_iff quiet_def fkb_start_def\<close>)
  then obtain p where
    "fkb_loop pre (map Inr (concat (map node_events ns)) :: ('e + 'e xml_event) list) fkb_start
      = Inr (leave (concat (map (node_blocks pre False) ns)) (concat (map (node_paras pre False) ns)) p fkb_start)"
    unfolding settles_to_def by (metis append_Nil2 fkb_loop.simps(1))
  then show ?thesis
    by (simp add: render_fkb_def bindE_def leave_def fkb_start_def)
qed

definition sample_body :: "fkb_node list" where
  "sample_body =
     [Element (ustr ''FKB'')
        [Section (ustr ''SETZBEDINGUNG'')
           [Between [0x0A], Paragraph [Plain (ustr '' U ''), Ref (Named (ustr ''lt'')), Plain (ustr '' 9V '')],
            Bullets [Paragraph [Plain (ustr ''a'')]]],
         Terminal [Plain (ustr ''15'')] [Plain (ustr ''ein'')]]]"

lemma fkb_renders_structure_witness:
  "list_all node_ok sample_body \<and>
   render_fkb (\<lambda>n. if n = ustr ''lt'' then Some (ustr ''<'') else None)
      (map Inr (concat (map node_events sample_body)) :: (unit + unit xml_event) list)
    = Inr (join_with [0x0A, 0x0A]
        [ustr ''## Setzbedingung'' @ [0x0A, 0x0A] @ ustr ''U < 9V'' @ [0x0A, 0x0A] @ ustr ''- a'',
         ustr ''**Klemme:** 15 '' @ [0x2014] @ ustr '' ein''])"
proof -
  have ok: "list_all node_ok sample_body"
    by code_simp
  have "concat (map (node_blocks (\<lambda>n. if n = ustr ''lt'' then Some (ustr ''<'') else None) False) sample_body)
    = [ustr ''## Setzbedingung'' @ [0x0A, 0x0A] @ ustr ''U < 9V'' @ [0x0A, 0x0A] @ ustr ''- a'',
         ustr ''**Klemme:** 15 '' @ [0x2014] @ ustr '' ein'']"
    by (simp add: sample_body_def pieces_text_def ustr_def section_block_def klemme_block_def heading_for_def
        SECTIONS_def trim_def trim_start_def trim_end_def is_whitespace_def)
  with fkb_renders_structure [OF ok, where 'e = unit] ok show ?thesis
    by simp
qed

end
