(* ===== verification/Doc_Bordnet.thy ===== *)
theory Doc_Bordnet
  imports Doc_Fkb
begin

text \<open>
  The document builder's bordnet pass (\<open>docbuild/src/bordnet.rs\<close>): the events of a platform's XML
  body become its ECU nodes, bus labels, minimal configuration and housings, and those become the
  rows of the ECU tree. The SQLite statements that fetch the bodies and store the rows are outside.
\<close>

section \<open>The parser\<close>

record ecu_node =
  nd_address :: "int option"
  nd_name :: "ustring option"
  nd_group_sgbd :: "ustring option"
  nd_bus :: "ustring option"
  nd_col :: "int option"
  nd_row :: "int option"

type_synonym housing = "int option \<times> int option \<times> int list"

record bordnet =
  bn_ecus :: "ecu_node list"
  bn_bus_labels :: "ustring \<rightharpoonup> ustring"
  bn_minimal :: "int list"
  bn_housings :: "housing list"

datatype bordnet_ctx = CtxNone | CtxEcu | CtxBusName | CtxMinimal | CtxHousing

record bordnet_state =
  bs_out :: bordnet
  bs_ctx :: bordnet_ctx
  bs_field :: ustring
  bs_bus_enum :: ustring
  bs_housing :: housing

definition bordnet_start :: bordnet_state where
  "bordnet_start =
     \<lparr>bs_out = \<lparr>bn_ecus = [], bn_bus_labels = Map.empty, bn_minimal = [], bn_housings = []\<rparr>,
      bs_ctx = CtxNone, bs_field = [], bs_bus_enum = [], bs_housing = (None, None, [])\<rparr>"

definition new_node :: ecu_node where
  "new_node =
     \<lparr>nd_address = None, nd_name = None, nd_group_sgbd = None, nd_bus = None, nd_col = None, nd_row = None\<rparr>"

definition node_attr :: "ustring \<times> ustring \<Rightarrow> ecu_node \<Rightarrow> ecu_node" where
  "node_attr kv n =
     (if fst kv = ustr ''DiagAddress'' then n\<lparr>nd_address := parse_i64 10 (trim (snd kv))\<rparr>
      else if fst kv = ustr ''Name'' then n\<lparr>nd_name := Some (snd kv)\<rparr>
      else n)"

text \<open>The first bad attribute ends the parse; those before it have no effect that stays.\<close>

fun fold_attrs :: "('k \<Rightarrow> 'a \<Rightarrow> 'a) \<Rightarrow> ('e + 'k) list \<Rightarrow> 'a \<Rightarrow> 'e + 'a" where
  "fold_attrs f [] x = Inr x"
| "fold_attrs f (a # as) x = bindE a (\<lambda>kv. fold_attrs f as (f kv x))"

definition bordnet_open :: "ustring \<Rightarrow> ('e + ustring \<times> ustring) list \<Rightarrow> bordnet_state \<Rightarrow> 'e + bordnet_state" where
  "bordnet_open tag attrs st =
     (if tag = ustr ''EcuLogisticsEntry'' then
        bindE (fold_attrs node_attr attrs new_node) (\<lambda>node.
        Inr (st\<lparr>bs_ctx := CtxEcu, bs_out := (bs_out st)\<lparr>bn_ecus := bn_ecus (bs_out st) @ [node]\<rparr>\<rparr>))
      else if tag = ustr ''BusNameEntry'' then
        bindE (fold_attrs (\<lambda>kv b. if fst kv = ustr ''Bus'' then snd kv else b) attrs []) (\<lambda>b.
        Inr (st\<lparr>bs_ctx := CtxBusName, bs_bus_enum := b\<rparr>))
      else if tag = ustr ''MinimalConfigurationEntry'' then Inr (st\<lparr>bs_ctx := CtxMinimal\<rparr>)
      else if tag = ustr ''CombinedEcuHousingEntry'' then
        Inr (st\<lparr>bs_ctx := CtxHousing, bs_housing := (None, None, [])\<rparr>)
      else Inr (st\<lparr>bs_field := tag\<rparr>))"

definition node_field :: "ustring \<Rightarrow> ustring \<Rightarrow> ecu_node \<Rightarrow> ecu_node" where
  "node_field field text n =
     (if field = ustr ''GroupSgbd'' then n\<lparr>nd_group_sgbd := Some text\<rparr>
      else if field = ustr ''Bus'' then n\<lparr>nd_bus := Some text\<rparr>
      else if field = ustr ''Column'' then n\<lparr>nd_col := parse_i64 10 text\<rparr>
      else if field = ustr ''Row'' then n\<lparr>nd_row := parse_i64 10 text\<rparr>
      else n)"

definition housing_field :: "ustring \<Rightarrow> ustring \<Rightarrow> housing \<Rightarrow> housing" where
  "housing_field field text h =
     (case h of (col, row, members) \<Rightarrow>
        if field = ustr ''Column'' then (parse_i64 10 text, row, members)
        else if field = ustr ''Row'' then (col, parse_i64 10 text, members)
        else if field = ustr ''RequiredEcuAddresses'' then
          (col, row, members @ (case parse_i64 10 text of None \<Rightarrow> [] | Some a \<Rightarrow> [a]))
        else h)"

text \<open>\<open>last_mut\<close>\<close>

definition update_last :: "('a \<Rightarrow> 'a) \<Rightarrow> 'a list \<Rightarrow> 'a list" where
  "update_last f xs = (if xs = [] then [] else butlast xs @ [f (last xs)])"

definition bordnet_text :: "ustring \<Rightarrow> bordnet_state \<Rightarrow> bordnet_state" where
  "bordnet_text t st =
     (let text = trim t; out = bs_out st in
      if text = [] then st
      else case bs_ctx st of
        CtxEcu \<Rightarrow> st\<lparr>bs_out := out\<lparr>bn_ecus := update_last (node_field (bs_field st) text) (bn_ecus out)\<rparr>\<rparr>
      | CtxBusName \<Rightarrow>
          if bs_bus_enum st = [] then st
          else st\<lparr>bs_out := out\<lparr>bn_bus_labels := (bn_bus_labels out)(bs_bus_enum st \<mapsto> text)\<rparr>\<rparr>
      | CtxMinimal \<Rightarrow>
          (case parse_i64 10 text of
             None \<Rightarrow> st
           | Some a \<Rightarrow> st\<lparr>bs_out := out\<lparr>bn_minimal := bn_minimal out @ [a]\<rparr>\<rparr>)
      | CtxHousing \<Rightarrow> st\<lparr>bs_housing := housing_field (bs_field st) text (bs_housing st)\<rparr>
      | CtxNone \<Rightarrow> st)"

definition bordnet_close :: "ustring \<Rightarrow> bordnet_state \<Rightarrow> bordnet_state" where
  "bordnet_close tag st =
     (if tag \<in> {ustr ''EcuLogisticsEntry'', ustr ''BusNameEntry'', ustr ''MinimalConfigurationEntry''} then
        st\<lparr>bs_ctx := CtxNone\<rparr>
      else if tag = ustr ''CombinedEcuHousingEntry'' then
        st\<lparr>bs_out := (bs_out st)\<lparr>bn_housings := bn_housings (bs_out st) @ [bs_housing st]\<rparr>,
           bs_housing := (None, None, []), bs_ctx := CtxNone\<rparr>
      else st\<lparr>bs_field := []\<rparr>)"

definition bordnet_event :: "'e xml_event \<Rightarrow> bordnet_state \<Rightarrow> 'e + bordnet_state" where
  "bordnet_event ev st =
     (case ev of
        Start tag attrs \<Rightarrow> bordnet_open tag attrs st
      | Chars t \<Rightarrow> bindE t (\<lambda>t. Inr (bordnet_text t st))
      | End tag \<Rightarrow> Inr (bordnet_close tag st)
      | _ \<Rightarrow> Inr st)"

fun bordnet_loop :: "('e + 'e xml_event) list \<Rightarrow> bordnet_state \<Rightarrow> 'e + bordnet_state" where
  "bordnet_loop [] st = Inr st"
| "bordnet_loop (ev # evs) st = bindE ev (\<lambda>ev. bindE (bordnet_event ev st) (bordnet_loop evs))"

definition parse_bordnet :: "('e + 'e xml_event) list \<Rightarrow> 'e + bordnet" where
  "parse_bordnet evs = bindE (bordnet_loop evs bordnet_start) (\<lambda>st. Inr (bs_out st))"

section \<open>The rows of the tree\<close>

record tree_row =
  tr_series :: ustring
  tr_address :: int
  tr_name :: "ustring option"
  tr_group_sgbd :: "ustring option"
  tr_bus :: "ustring option"
  tr_bus_label :: "ustring option"
  tr_col :: "int option"
  tr_row :: "int option"
  tr_minimal :: int

definition tree_row_of :: "ustring \<Rightarrow> bordnet \<Rightarrow> ecu_node \<Rightarrow> tree_row option" where
  "tree_row_of series b n =
     map_option (\<lambda>address.
       \<lparr>tr_series = series, tr_address = address, tr_name = nd_name n, tr_group_sgbd = nd_group_sgbd n,
        tr_bus = nd_bus n, tr_bus_label = Option.bind (nd_bus n) (bn_bus_labels b), tr_col = nd_col n,
        tr_row = nd_row n, tr_minimal = (if address \<in> set (bn_minimal b) then 1 else 0)\<rparr>) (nd_address n)"

definition tree_rows :: "ustring \<Rightarrow> bordnet \<Rightarrow> tree_row list" where
  "tree_rows series b = List.map_filter (tree_row_of series b) (bn_ecus b)"

definition housing_rows :: "ustring \<Rightarrow> bordnet \<Rightarrow> (ustring \<times> int option \<times> int option \<times> int) list" where
  "housing_rows series b =
     concat (map (\<lambda>(col, row, members). map (\<lambda>a. (series, col, row, a)) members) (bn_housings b))"

text \<open>
  The pass over the pointers, the body of each found by its number written in decimal; a pointer
  without a body is skipped. \<open>body\<close> is the events of the body's XML.
\<close>

fun build_rows ::
    "(ustring \<rightharpoonup> ('e + 'e xml_event) list) \<Rightarrow> (ustring \<times> int) list
     \<Rightarrow> 'e + (nat \<times> tree_row list \<times> (ustring \<times> int option \<times> int option \<times> int) list)" where
  "build_rows body [] = Inr (0, [], [])"
| "build_rows body ((series, doc_id) # wanted) =
     (case body (fmt_int doc_id) of
        None \<Rightarrow> build_rows body wanted
      | Some evs \<Rightarrow>
          bindE (parse_bordnet evs) (\<lambda>b.
          bindE (build_rows body wanted) (\<lambda>(n, rows, housings).
          Inr (n + 1, tree_rows series b @ rows, housing_rows series b @ housings))))"

section \<open>A written platform\<close>

text \<open>
  The events of a written platform: the leaves of an entry, the entries, and the lists around them.
  An entry's address is always given; the other fields only where the node has them.
\<close>

definition leaf :: "ustring \<Rightarrow> ustring \<Rightarrow> 'e xml_event list" where
  "leaf tag text = tagged tag [Chars (Inr text)]"

definition opt_leaf :: "ustring \<Rightarrow> ustring option \<Rightarrow> 'e xml_event list" where
  "opt_leaf tag text = (case text of None \<Rightarrow> [] | Some t \<Rightarrow> leaf tag t)"

definition opt_attr :: "ustring \<Rightarrow> ustring option \<Rightarrow> ('e + ustring \<times> ustring) list" where
  "opt_attr key text = (case text of None \<Rightarrow> [] | Some t \<Rightarrow> [Inr (key, t)])"

definition ecu_events :: "ecu_node \<Rightarrow> 'e xml_event list" where
  "ecu_events n =
     Start (ustr ''EcuLogisticsEntry'')
       (opt_attr (ustr ''DiagAddress'') (map_option fmt_int (nd_address n)) @ opt_attr (ustr ''Name'') (nd_name n))
     # opt_leaf (ustr ''GroupSgbd'') (nd_group_sgbd n) @ opt_leaf (ustr ''Bus'') (nd_bus n)
     @ opt_leaf (ustr ''Column'') (map_option fmt_int (nd_col n))
     @ opt_leaf (ustr ''Row'') (map_option fmt_int (nd_row n))
     @ [End (ustr ''EcuLogisticsEntry'')]"

definition bus_events :: "ustring \<times> ustring \<Rightarrow> 'e xml_event list" where
  "bus_events = (\<lambda>(bus, label).
     [Start (ustr ''BusNameEntry'') [Inr (ustr ''Bus'', bus)], Chars (Inr label), End (ustr ''BusNameEntry'')])"

definition minimal_events :: "int \<Rightarrow> 'e xml_event list" where
  "minimal_events a = leaf (ustr ''MinimalConfigurationEntry'') (fmt_int a)"

definition housing_events :: "housing \<Rightarrow> 'e xml_event list" where
  "housing_events = (\<lambda>(col, row, members).
     tagged (ustr ''CombinedEcuHousingEntry'')
       (opt_leaf (ustr ''Column'') (map_option fmt_int col) @ opt_leaf (ustr ''Row'') (map_option fmt_int row)
        @ concat (map (\<lambda>a. leaf (ustr ''RequiredEcuAddresses'') (fmt_int a)) members)))"

definition platform_events ::
    "ecu_node list \<Rightarrow> housing list \<Rightarrow> (ustring \<times> ustring) list \<Rightarrow> int list \<Rightarrow> 'e xml_event list" where
  "platform_events ecus housings labels minimal =
     tagged (ustr ''EcuTreeConfiguration'')
       (tagged (ustr ''EcuLogisticsList'') (concat (map ecu_events ecus))
        @ tagged (ustr ''CombinedEcuHousingList'') (concat (map housing_events housings))
        @ tagged (ustr ''BusNameList'') (concat (map bus_events labels))
        @ tagged (ustr ''MinimalConfigurationList'') (concat (map minimal_events minimal)))"

text \<open>What can be written: texts that are not blank at an end, and integers of 64 bits.\<close>

definition text_ok :: "ustring \<Rightarrow> bool" where
  "text_ok t \<longleftrightarrow> t \<noteq> [] \<and> trim t = t"

definition i64_ok :: "int \<Rightarrow> bool" where
  "i64_ok i \<longleftrightarrow> - (2 ^ 63) \<le> i \<and> i < 2 ^ 63"

definition ecu_ok :: "ecu_node \<Rightarrow> bool" where
  "ecu_ok n \<longleftrightarrow>
     pred_option text_ok (nd_group_sgbd n) \<and> pred_option text_ok (nd_bus n) \<and>
     pred_option i64_ok (nd_address n) \<and> pred_option i64_ok (nd_col n) \<and> pred_option i64_ok (nd_row n)"

definition housing_ok :: "housing \<Rightarrow> bool" where
  "housing_ok = (\<lambda>(col, row, members).
     pred_option i64_ok col \<and> pred_option i64_ok row \<and> list_all i64_ok members)"

definition label_ok :: "ustring \<times> ustring \<Rightarrow> bool" where
  "label_ok l \<longleftrightarrow> fst l \<noteq> [] \<and> text_ok (snd l)"

text \<open>Blank text, comments and empty elements are noise: the parser passes over them anywhere.\<close>

fun noise :: "'e xml_event \<Rightarrow> bool" where
  "noise (Chars (Inr t)) \<longleftrightarrow> trim t = []"
| "noise (Empty tag) \<longleftrightarrow> True"
| "noise OtherEvent \<longleftrightarrow> True"
| "noise _ \<longleftrightarrow> False"

fun idle :: "'e + 'e xml_event \<Rightarrow> bool" where
  "idle (Inr ev) \<longleftrightarrow> noise ev"
| "idle (Inl e) \<longleftrightarrow> False"

section \<open>The written platform is read back\<close>

lemma idle_step:
  assumes "idle ev"
  shows "bordnet_loop (ev # evs) st = bordnet_loop evs st"
proof (cases ev)
  case (Inr e)
  with assms show ?thesis
    by (cases e rule: noise.cases) (auto simp: bordnet_event_def bordnet_text_def bindE_def)
qed (use assms in simp)

lemma loop_skips_idle: "bordnet_loop [ev \<leftarrow> evs. \<not> idle ev] st = bordnet_loop evs st"
proof (induction evs arbitrary: st)
  case (Cons ev evs)
  have "bordnet_loop [ev \<leftarrow> evs. \<not> idle ev] = bordnet_loop evs"
    by (rule ext) (rule Cons.IH)
  then show ?case
    using idle_step [of ev evs st] by (cases "idle ev") simp_all
qed simp

text \<open>\<open>reads evs st P\<close>: from \<open>st\<close>, the events lead to a state with \<open>P\<close>, whatever comes after them.\<close>

definition reads :: "'e xml_event list \<Rightarrow> bordnet_state \<Rightarrow> (bordnet_state \<Rightarrow> bool) \<Rightarrow> bool" where
  "reads evs st P \<longleftrightarrow>
     (\<forall>more_evs. \<exists>st'. bordnet_loop (map Inr evs @ more_evs) st = bordnet_loop more_evs st' \<and> P st')"

lemma reads_Nil: "P st \<Longrightarrow> reads [] st P"
  by (auto simp: reads_def)

lemma reads_Cons:
  "bordnet_event ev st = Inr st' \<Longrightarrow> reads evs st' P \<Longrightarrow> reads (ev # evs) st P"
  by (simp add: reads_def bindE_def)

lemma reads_append:
  assumes "reads evs st P" and "\<And>st'. P st' \<Longrightarrow> reads evs' st' Q"
  shows "reads (evs @ evs') st Q"
  using assms unfolding reads_def by (metis append.assoc map_append)

lemma reads_weaken: "reads evs st P \<Longrightarrow> (\<And>st'. P st' \<Longrightarrow> Q st') \<Longrightarrow> reads evs st Q"
  unfolding reads_def by blast

text \<open>Met outside an entry, the events change the output by \<open>f\<close> and nothing is in progress after them.\<close>

definition outside :: "bordnet \<Rightarrow> bordnet_state \<Rightarrow> bool" where
  "outside b st \<longleftrightarrow> bs_ctx st = CtxNone \<and> bs_out st = b"

definition writes :: "'e xml_event list \<Rightarrow> (bordnet \<Rightarrow> bordnet) \<Rightarrow> bool" where
  "writes evs f \<longleftrightarrow> (\<forall>b st. outside b st \<longrightarrow> reads evs st (outside (f b)))"

lemma writesI: "(\<And>b st. outside b st \<Longrightarrow> reads evs st (outside (f b))) \<Longrightarrow> writes evs f"
  by (simp add: writes_def)

lemma writes_append: "writes evs f \<Longrightarrow> writes evs' g \<Longrightarrow> writes (evs @ evs') (\<lambda>b. g (f b))"
  unfolding writes_def by (blast intro: reads_append)

lemma writes_list:
  fixes item :: "'x \<Rightarrow> 'e xml_event list"
  assumes "\<And>x. x \<in> set xs \<Longrightarrow> writes (item x) (f x)"
  shows "writes (concat (map item xs)) (fold f xs)"
  using assms
proof (induction xs)
  case (Cons x xs)
  have "writes (item x @ concat (map item xs)) (\<lambda>b. fold f xs (f x b))"
    using Cons by (intro writes_append) auto
  then show ?case by (simp add: comp_def)
qed (simp add: writes_def reads_Nil)

definition ENTRIES :: "ustring list" where
  "ENTRIES = map ustr [''EcuLogisticsEntry'', ''BusNameEntry'', ''MinimalConfigurationEntry'', ''CombinedEcuHousingEntry'']"

lemma entry_distinct:
  assumes "tag \<notin> set ENTRIES"
  shows "tag \<noteq> ustr ''EcuLogisticsEntry''" "tag \<noteq> ustr ''BusNameEntry''"
    "tag \<noteq> ustr ''MinimalConfigurationEntry''" "tag \<noteq> ustr ''CombinedEcuHousingEntry''"
  using assms by (auto simp: ENTRIES_def)

lemma open_other: "tag \<notin> set ENTRIES \<Longrightarrow> bordnet_event (Start tag attrs) st = Inr (st\<lparr>bs_field := tag\<rparr>)"
  using entry_distinct by (simp add: bordnet_event_def bordnet_open_def)

lemma close_other: "tag \<notin> set ENTRIES \<Longrightarrow> bordnet_event (End tag) st = Inr (st\<lparr>bs_field := []\<rparr>)"
  using entry_distinct by (simp add: bordnet_event_def bordnet_close_def)

lemma writes_tagged:
  assumes "writes evs f" and "tag \<notin> set ENTRIES"
  shows "writes (tagged tag evs) f"
  unfolding tagged_def
proof (rule writesI)
  fix b st
  assume "outside b st"
  then have "outside b (st\<lparr>bs_field := tag\<rparr>)"
    by (simp add: outside_def)
  then have "reads evs (st\<lparr>bs_field := tag\<rparr>) (outside (f b))"
    using assms(1) unfolding writes_def by blast
  then show "reads (Start tag [] # evs @ [End tag]) st (outside (f b))"
    by (intro reads_Cons [OF open_other [OF assms(2)]] reads_append [of evs _ "outside (f b)"]
        reads_Cons [OF close_other [OF assms(2)]] reads_Nil) (auto simp: outside_def)
qed

text \<open>The leaves of an entry: a text, met with its tag in \<open>bs_field\<close>, goes to the entry in progress.\<close>

lemma reads_leaf:
  assumes "tag \<notin> set ENTRIES" and "P ((bordnet_text text (st\<lparr>bs_field := tag\<rparr>))\<lparr>bs_field := []\<rparr>)"
  shows "reads (leaf tag text) st P"
  using assms(2) unfolding leaf_def tagged_def append.simps
  by (intro reads_Cons [OF open_other] reads_Cons [OF close_other] reads_Nil assms(1) reads_Cons [of "Chars (Inr text)"])
    (simp_all add: bordnet_event_def bindE_def)

lemma reads_opt_leaf:
  assumes "tag \<notin> set ENTRIES" and "text = None \<Longrightarrow> P st"
    and "\<And>t. text = Some t \<Longrightarrow> P ((bordnet_text t (st\<lparr>bs_field := tag\<rparr>))\<lparr>bs_field := []\<rparr>)"
  shows "reads (opt_leaf tag text) st P"
  using assms by (auto simp: opt_leaf_def intro: reads_Nil reads_leaf split: option.split)

lemma parse_fmt_i64: "i64_ok i \<Longrightarrow> parse_i64 10 (fmt_int i) = Some i"
  by (simp add: i64_ok_def parse_i64_def parse_fmt_int)

lemma digit_not_blank:
  assumes "c \<in> set (nat_digits 10 n)"
  shows "\<not> is_whitespace c"
proof -
  obtain d where "d < 10" "c = 0x30 + d"
    using set_nat_digits [of 10 c n] assms by (auto simp: digit_char_def)
  then show ?thesis by (auto simp: is_whitespace_def)
qed

lemma text_ok_fmt_int [simp]: "text_ok (fmt_int i)"
proof -
  have "fmt_int i \<noteq> []" "\<forall>c \<in> set (fmt_int i). \<not> is_whitespace c"
    using digit_not_blank by (auto simp: fmt_int_def is_whitespace_def)
  then show ?thesis
    by (simp add: text_ok_def trim_def trim_start_hd trim_end_last)
qed

text \<open>An ECU's entry appends the ECU, field by field.\<close>

definition in_ecu :: "bordnet \<Rightarrow> ecu_node \<Rightarrow> bordnet_state \<Rightarrow> bool" where
  "in_ecu b n st \<longleftrightarrow> bs_ctx st = CtxEcu \<and> bs_out st = b\<lparr>bn_ecus := bn_ecus b @ [n]\<rparr>"

definition set_field :: "ustring \<Rightarrow> ustring option \<Rightarrow> ecu_node \<Rightarrow> ecu_node" where
  "set_field tag text n = (case text of None \<Rightarrow> n | Some t \<Rightarrow> node_field tag t n)"

lemma reads_ecu_leaf:
  assumes "in_ecu b n st" and "pred_option text_ok text" and "tag \<notin> set ENTRIES"
  shows "reads (opt_leaf tag text) st (in_ecu b (set_field tag text n))"
  using assms(1,2)
  by (intro reads_opt_leaf [OF assms(3)])
    (auto simp: set_field_def in_ecu_def bordnet_text_def text_ok_def update_last_def)

lemma written_int [simp]: "pred_option text_ok (map_option fmt_int i)"
  by (cases i) simp_all

lemma reads_ecu_open:
  assumes "ecu_ok n" and "outside b st"
  defines "attrs \<equiv> opt_attr (ustr ''DiagAddress'') (map_option fmt_int (nd_address n)) @ opt_attr (ustr ''Name'') (nd_name n)"
  shows "bordnet_event (Start (ustr ''EcuLogisticsEntry'') attrs) st =
    Inr (st\<lparr>bs_ctx := CtxEcu, bs_out := b\<lparr>bn_ecus := bn_ecus b
      @ [n\<lparr>nd_group_sgbd := None, nd_bus := None, nd_col := None, nd_row := None\<rparr>]\<rparr>\<rparr>)"
proof -
  have "fold_attrs node_attr attrs new_node
      = Inr (n\<lparr>nd_group_sgbd := None, nd_bus := None, nd_col := None, nd_row := None\<rparr>)"
    using assms(1) text_ok_fmt_int unfolding attrs_def
    by (cases n) (auto simp: bindE_def opt_attr_def node_attr_def new_node_def ustr_def ecu_ok_def parse_fmt_i64
        text_ok_def split: option.split)
  with assms(2) show ?thesis
    by (simp add: bordnet_event_def bordnet_open_def bindE_def outside_def)
qed

lemma writes_ecu:
  assumes "ecu_ok n"
  shows "writes (ecu_events n) (\<lambda>b. b\<lparr>bn_ecus := bn_ecus b @ [n]\<rparr>)"
  unfolding ecu_events_def
proof (rule writesI, rule reads_Cons [OF reads_ecu_open [OF assms]], assumption)
  fix b st
  assume st: "outside b st"
  let ?n = "n\<lparr>nd_group_sgbd := None, nd_bus := None, nd_col := None, nd_row := None\<rparr>"
  let ?out = "b\<lparr>bn_ecus := bn_ecus b @ [n]\<rparr>"
  have start: "in_ecu b ?n (st\<lparr>bs_ctx := CtxEcu, bs_out := b\<lparr>bn_ecus := bn_ecus b @ [?n]\<rparr>\<rparr>)"
    by (simp add: in_ecu_def)
  have filled: "set_field (ustr ''Row'') (map_option fmt_int (nd_row n)) (set_field (ustr ''Column'') (map_option fmt_int (nd_col n))
      (set_field (ustr ''Bus'') (nd_bus n) (set_field (ustr ''GroupSgbd'') (nd_group_sgbd n) ?n))) = n"
    using assms by (cases n) (auto simp: set_field_def node_field_def ustr_def ecu_ok_def parse_fmt_i64 split: option.split)
  have close: "reads [End (ustr ''EcuLogisticsEntry'')] st (outside ?out)" if "in_ecu b n st" for st
    using that by (intro reads_Cons [OF _ reads_Nil])
      (auto simp: bordnet_event_def bordnet_close_def in_ecu_def outside_def)
  show "reads (opt_leaf (ustr ''GroupSgbd'') (nd_group_sgbd n) @ opt_leaf (ustr ''Bus'') (nd_bus n)
      @ opt_leaf (ustr ''Column'') (map_option fmt_int (nd_col n)) @ opt_leaf (ustr ''Row'') (map_option fmt_int (nd_row n))
      @ [End (ustr ''EcuLogisticsEntry'')]) (st\<lparr>bs_ctx := CtxEcu, bs_out := b\<lparr>bn_ecus := bn_ecus b @ [?n]\<rparr>\<rparr>)
      (outside ?out)"
    by (rule reads_append [OF reads_ecu_leaf [OF start] reads_append [OF reads_ecu_leaf reads_append
          [OF reads_ecu_leaf reads_append [OF reads_ecu_leaf close]]]])
      (use assms filled in \<open>auto simp: ENTRIES_def ustr_def ecu_ok_def\<close>)
qed

text \<open>A housing's entry, a bus name's and a minimal configuration's.\<close>

definition in_housing :: "bordnet \<Rightarrow> housing \<Rightarrow> bordnet_state \<Rightarrow> bool" where
  "in_housing b h st \<longleftrightarrow> bs_ctx st = CtxHousing \<and> bs_out st = b \<and> bs_housing st = h"

lemma reads_housing_leaf:
  assumes "in_housing b h st" and "pred_option text_ok text" and "tag \<notin> set ENTRIES"
  shows "reads (opt_leaf tag text) st
    (in_housing b (case text of None \<Rightarrow> h | Some t \<Rightarrow> housing_field tag t h))"
  using assms(1,2)
  by (intro reads_opt_leaf [OF assms(3)]) (auto simp: in_housing_def bordnet_text_def text_ok_def)

lemma reads_members:
  assumes "in_housing b (col, row, as) st" and "list_all i64_ok as'"
  shows "reads (concat (map (\<lambda>a. leaf (ustr ''RequiredEcuAddresses'') (fmt_int a)) as')) st (in_housing b (col, row, as @ as'))"
  using assms
proof (induction as' arbitrary: as st)
  case (Cons a as')
  have "reads (leaf (ustr ''RequiredEcuAddresses'') (fmt_int a)) st (in_housing b (col, row, as @ [a]))"
    using reads_housing_leaf [OF Cons.prems(1), of "Some (fmt_int a)" "ustr ''RequiredEcuAddresses''"] Cons.prems(2)
    by (simp add: opt_leaf_def housing_field_def parse_fmt_i64 ustr_def ENTRIES_def)
  then show ?case
    using Cons.IH [of "as @ [a]"] Cons.prems(2) by (auto intro: reads_append)
qed (simp add: reads_Nil)

lemma writes_housing:
  assumes "housing_ok h"
  shows "writes (housing_events h) (\<lambda>b. b\<lparr>bn_housings := bn_housings b @ [h]\<rparr>)"
proof -
  obtain col row members where h: "h = (col, row, members)"
    by (cases h)
  have ok: "pred_option i64_ok col" "pred_option i64_ok row" "list_all i64_ok members"
    using assms by (auto simp: housing_ok_def h)
  have tags: "ustr ''Column'' \<notin> set ENTRIES" "ustr ''Row'' \<notin> set ENTRIES"
    by (simp_all add: ENTRIES_def ustr_def)
  show ?thesis
    unfolding housing_events_def h prod.case tagged_def
  proof (rule writesI, rule reads_Cons)
    fix b st
    assume "outside b st"
    then show "bordnet_event (Start (ustr ''CombinedEcuHousingEntry'') []) st
        = Inr (st\<lparr>bs_ctx := CtxHousing, bs_out := b, bs_housing := (None, None, [])\<rparr>)"
      by (cases st) (auto simp: bordnet_event_def bordnet_open_def ustr_def outside_def)
    let ?st = "st\<lparr>bs_ctx := CtxHousing, bs_out := b, bs_housing := (None, None, [])\<rparr>"
    have 1: "reads (opt_leaf (ustr ''Column'') (map_option fmt_int col)) ?st (in_housing b (col, None, []))"
      using ok(1) by (intro reads_weaken [OF reads_housing_leaf [of b "(None, None, [])"]] tags)
        (auto simp: in_housing_def housing_field_def parse_fmt_i64 split: option.splits)
    have 2: "reads (opt_leaf (ustr ''Row'') (map_option fmt_int row)) st (in_housing b (col, row, []))"
      if "in_housing b (col, None, []) st" for st
      using that ok(2) by (intro reads_weaken [OF reads_housing_leaf [of b "(col, None, [])"]] tags)
        (auto simp: in_housing_def housing_field_def parse_fmt_i64 ustr_def split: option.splits)
    have members: "reads (concat (map (\<lambda>a. leaf (ustr ''RequiredEcuAddresses'') (fmt_int a)) members)) st
        (in_housing b (col, row, members))" if "in_housing b (col, row, []) st" for st
      using reads_members [OF that ok(3)] by simp
    have 3: "reads [End (ustr ''CombinedEcuHousingEntry'')] st (outside (b\<lparr>bn_housings := bn_housings b @ [(col, row, members)]\<rparr>))"
      if "in_housing b (col, row, members) st" for st
      using that by (intro reads_Cons [OF _ reads_Nil])
        (auto simp: bordnet_event_def bordnet_close_def in_housing_def outside_def ustr_def)
    show "reads ((opt_leaf (ustr ''Column'') (map_option fmt_int col) @ opt_leaf (ustr ''Row'') (map_option fmt_int row)
        @ concat (map (\<lambda>a. leaf (ustr ''RequiredEcuAddresses'') (fmt_int a)) members)) @ [End (ustr ''CombinedEcuHousingEntry'')])
        ?st (outside (b\<lparr>bn_housings := bn_housings b @ [(col, row, members)]\<rparr>))"
      by (rule reads_append [OF reads_append [OF 1 reads_append [OF 2 members]] 3])
  qed
qed

lemma writes_bus:
  assumes "label_ok l"
  shows "writes (bus_events l) (\<lambda>b. b\<lparr>bn_bus_labels := (bn_bus_labels b)(fst l \<mapsto> snd l)\<rparr>)"
  using assms
  by (intro writesI) (auto simp: bus_events_def bordnet_event_def bordnet_open_def bordnet_close_def bordnet_text_def
      bindE_def label_ok_def text_ok_def outside_def ustr_def reads_def Let_def split: prod.split)

lemma writes_minimal:
  assumes "i64_ok a"
  shows "writes (minimal_events a) (\<lambda>b. b\<lparr>bn_minimal := bn_minimal b @ [a]\<rparr>)"
  using assms text_ok_fmt_int [of a]
  by (intro writesI) (auto simp: minimal_events_def leaf_def tagged_def bordnet_event_def bordnet_open_def
      bordnet_close_def bordnet_text_def bindE_def text_ok_def parse_fmt_i64 outside_def ustr_def reads_def)

lemma fold_entries:
  shows fold_ecus: "fold (\<lambda>n b. b\<lparr>bn_ecus := bn_ecus b @ [n]\<rparr>) ns b = b\<lparr>bn_ecus := bn_ecus b @ ns\<rparr>"
    and fold_housings: "fold (\<lambda>h b. b\<lparr>bn_housings := bn_housings b @ [h]\<rparr>) hs b = b\<lparr>bn_housings := bn_housings b @ hs\<rparr>"
    and fold_minimal: "fold (\<lambda>a b. b\<lparr>bn_minimal := bn_minimal b @ [a]\<rparr>) as b = b\<lparr>bn_minimal := bn_minimal b @ as\<rparr>"
    and fold_labels: "fold (\<lambda>l b. b\<lparr>bn_bus_labels := (bn_bus_labels b)(fst l \<mapsto> snd l)\<rparr>) ls b
      = b\<lparr>bn_bus_labels := bn_bus_labels b ++ map_of (rev ls)\<rparr>"
proof -
  show "fold (\<lambda>n b. b\<lparr>bn_ecus := bn_ecus b @ [n]\<rparr>) ns b = b\<lparr>bn_ecus := bn_ecus b @ ns\<rparr>"
    by (induction ns arbitrary: b) simp_all
  show "fold (\<lambda>h b. b\<lparr>bn_housings := bn_housings b @ [h]\<rparr>) hs b = b\<lparr>bn_housings := bn_housings b @ hs\<rparr>"
    by (induction hs arbitrary: b) simp_all
  show "fold (\<lambda>a b. b\<lparr>bn_minimal := bn_minimal b @ [a]\<rparr>) as b = b\<lparr>bn_minimal := bn_minimal b @ as\<rparr>"
    by (induction as arbitrary: b) simp_all
  show "fold (\<lambda>l b. b\<lparr>bn_bus_labels := (bn_bus_labels b)(fst l \<mapsto> snd l)\<rparr>) ls b
      = b\<lparr>bn_bus_labels := bn_bus_labels b ++ map_of (rev ls)\<rparr>"
    by (induction ls arbitrary: b) (simp_all add: map_add_upd_left del: fun_upd_apply)
qed

text \<open>
  C28. Reading inverts writing: from the events of a platform's file - its ECUs, housings, bus names and
  minimal configuration as entries with their leaves, each integer in decimal and each absent field
  left out - with any blank text, comments and empty elements between or inside the elements, the
  parser gives back every ECU with every field, every housing with its members, the minimal
  configuration in order, and for each bus its last label. Texts must be non-empty and trimmed and
  integers fit 64 bits.
\<close>

theorem bordnet_roundtrip:
  fixes evs :: "('e + 'e xml_event) list"
  assumes "list_all ecu_ok ecus" and "list_all housing_ok housings" and "list_all label_ok labels"
    and "list_all i64_ok minimal"
    and "[ev \<leftarrow> evs. \<not> idle ev] = map Inr (platform_events ecus housings labels minimal)"
  shows "parse_bordnet evs =
    Inr \<lparr>bn_ecus = ecus, bn_bus_labels = map_of (rev labels), bn_minimal = minimal, bn_housings = housings\<rparr>"
proof -
  have tags: "ustr ''EcuTreeConfiguration'' \<notin> set ENTRIES" "ustr ''EcuLogisticsList'' \<notin> set ENTRIES"
    "ustr ''CombinedEcuHousingList'' \<notin> set ENTRIES" "ustr ''BusNameList'' \<notin> set ENTRIES"
    "ustr ''MinimalConfigurationList'' \<notin> set ENTRIES"
    by (simp_all add: ENTRIES_def ustr_def)
  have items: "writes (concat (map ecu_events ecus)) (fold (\<lambda>n b. b\<lparr>bn_ecus := bn_ecus b @ [n]\<rparr>) ecus)"
    "writes (concat (map housing_events housings)) (fold (\<lambda>h b. b\<lparr>bn_housings := bn_housings b @ [h]\<rparr>) housings)"
    "writes (concat (map bus_events labels)) (fold (\<lambda>l b. b\<lparr>bn_bus_labels := (bn_bus_labels b)(fst l \<mapsto> snd l)\<rparr>) labels)"
    "writes (concat (map minimal_events minimal)) (fold (\<lambda>a b. b\<lparr>bn_minimal := bn_minimal b @ [a]\<rparr>) minimal)"
    using assms(1-4) by (auto simp: list_all_iff intro!: writes_list writes_ecu writes_housing writes_bus writes_minimal)
  let ?b = "bs_out bordnet_start"
  let ?b' = "\<lparr>bn_ecus = ecus, bn_bus_labels = map_of (rev labels), bn_minimal = minimal, bn_housings = housings\<rparr>"
  have "reads (platform_events ecus housings labels minimal :: 'e xml_event list) bordnet_start (outside ?b')"
    using writes_tagged [OF writes_append [OF writes_tagged [OF items(1) tags(2)] writes_append
        [OF writes_tagged [OF items(2) tags(3)] writes_append [OF writes_tagged [OF items(3) tags(4)]
            writes_tagged [OF items(4) tags(5)]]]] tags(1)]
    unfolding writes_def platform_events_def fold_entries
    by (elim allE [of _ ?b] allE [of _ bordnet_start]) (simp add: outside_def bordnet_start_def)
  then obtain st where "bordnet_loop (map Inr (platform_events ecus housings labels minimal) :: ('e + 'e xml_event) list) bordnet_start = Inr st"
    "bs_out st = ?b'"
    unfolding reads_def outside_def by (metis append_Nil2 bordnet_loop.simps(1))
  moreover from this(1) have "bordnet_loop evs bordnet_start = Inr st"
    using loop_skips_idle [of evs bordnet_start] assms(5) by simp
  ultimately show ?thesis
    by (simp add: parse_bordnet_def bindE_def)
qed

lemma bordnet_roundtrip_witness:
  "let dme = \<lparr>nd_address = Some 18, nd_name = Some (ustr ''DME''), nd_group_sgbd = Some (ustr ''G_MOTOR''),
        nd_bus = Some (ustr ''FACAN''), nd_col = Some 1, nd_row = None\<rparr>;
       housing = (Some 0, Some 5, [64, 18]); label = (ustr ''FACAN'', ustr ''PT-CAN'')
   in parse_bordnet (Inr OtherEvent # Inr (Chars (Inr [0x0A])) # map Inr (platform_events [dme] [housing] [label] [18])
        :: (unit + unit xml_event) list)
      = Inr \<lparr>bn_ecus = [dme], bn_bus_labels = map_of [label], bn_minimal = [18], bn_housings = [housing]\<rparr>"
proof -
  let ?dme = "\<lparr>nd_address = Some 18, nd_name = Some (ustr ''DME''), nd_group_sgbd = Some (ustr ''G_MOTOR''),
        nd_bus = Some (ustr ''FACAN''), nd_col = Some 1, nd_row = None\<rparr>"
  let ?evs = "platform_events [?dme] [(Some 0, Some 5, [64, 18])] [(ustr ''FACAN'', ustr ''PT-CAN'')] [18]
    :: unit xml_event list"
  have "[ev \<leftarrow> Inr OtherEvent # Inr (Chars (Inr [0x0A])) # map Inr ?evs. \<not> idle ev] = map Inr ?evs"
    by (simp add: platform_events_def tagged_def leaf_def opt_leaf_def opt_attr_def ecu_events_def bus_events_def
        minimal_events_def housing_events_def fmt_int_def nat_digits.simps digit_char_def ustr_def trim_def
        trim_start_def trim_end_def is_whitespace_def)
  moreover have "ecu_ok ?dme" "housing_ok (Some 0, Some 5, [64, 18])" "label_ok (ustr ''FACAN'', ustr ''PT-CAN'')" "i64_ok 18"
    by (simp_all add: ecu_ok_def housing_ok_def label_ok_def text_ok_def i64_ok_def ustr_def trim_def
        trim_start_def trim_end_def is_whitespace_def)
  ultimately show ?thesis
    using bordnet_roundtrip [of "[?dme]" "[(Some 0, Some 5, [64, 18])]" "[(ustr ''FACAN'', ustr ''PT-CAN'')]" "[18]"
        "Inr OtherEvent # Inr (Chars (Inr [0x0A])) # map Inr ?evs"] by (simp add: Let_def)
qed

text \<open>
  The parser passes over entities as well, but they split the text they stand in: what comes after an
  entity replaces what came before it.
\<close>

lemma entity_splits_text:
  "parse_bordnet (map Inr
      (Start (ustr ''EcuLogisticsEntry'') [] # Start (ustr ''GroupSgbd'') []
       # [Chars (Inr (ustr ''A'')), GeneralRef (Inr (Named (ustr ''amp''))), Chars (Inr (ustr ''B'')),
          End (ustr ''GroupSgbd''), End (ustr ''EcuLogisticsEntry'')]) :: (unit + unit xml_event) list)
   = Inr \<lparr>bn_ecus = [new_node\<lparr>nd_group_sgbd := Some (ustr ''B'')\<rparr>], bn_bus_labels = Map.empty, bn_minimal = [],
          bn_housings = []\<rparr>"
  by (simp add: parse_bordnet_def bordnet_start_def bordnet_event_def bordnet_open_def bordnet_close_def bindE_def
      bordnet_text_def node_field_def new_node_def ustr_def update_last_def trim_def trim_start_def trim_end_def
      is_whitespace_def)

end
