(* ===== verification/Sem_Catalog.thy ===== *)
theory Sem_Catalog
  imports Mcp_Env Service_Cycle Doc_Bordnet "HOL-Library.Option_ord" "HOL-Library.List_Lexorder"
begin

text \<open>
  The queries of the semantic database (\<open>crates/semantic/src/catalog.rs\<close>): each SELECT as a filter, a
  join, a sort and a projection of its tables, and each row read into the result as the code reads it.

  SQLite itself is outside. Of what it documents the model uses: a comparison with NULL never holds,
  NULL sorts before every value, text compares byte by byte (for valid text, by code point) and with
  NOCASE up to ASCII case. The rows of a table are listed in the order in which SQLite visits them;
  rows that an ORDER BY leaves equal stay in that order. A cell has the type of its column or is NULL.
\<close>

section \<open>Tables\<close>

record dtc_cells =
  xr_address :: "int option"
  xr_variant :: "ustring option"
  xr_code :: "int option"
  xr_saecode :: "ustring option"
  xr_title_en :: "ustring option"
  xr_title_de :: "ustring option"

record ecu_cells =
  ur_address :: "int option"
  ur_variant :: "ustring option"
  ur_group_name :: "ustring option"
  ur_title_en :: "ustring option"
  ur_title_de :: "ustring option"

record fault_doc_cells =
  fr_address :: "int option"
  fr_code :: "int option"
  fr_infoobject_id :: "int option"
  fr_content_dede :: "int option"

record infoobject_cells =
  ir_id :: "int option"
  ir_infotype :: "ustring option"
  ir_docnumber :: "ustring option"
  ir_safety_relevant :: "int option"
  ir_title_en :: "ustring option"
  ir_title_de :: "ustring option"

record envcond_cells =
  vr_uwnr :: "int option"
  vr_title_en :: "ustring option"
  vr_title_de :: "ustring option"
  vr_unit :: "ustring option"
  vr_is_status :: "int option"

record measurement_cells =
  mr_variant :: "ustring option"
  mr_name :: "ustring option"
  mr_unit :: "ustring option"
  mr_mul :: "f64 option"
  mr_offset :: "f64 option"
  mr_round :: "int option"
  mr_zahlenformat :: "ustring option"
  mr_job :: "ustring option"

record job_param_cells =
  jr_variant :: "ustring option"
  jr_job :: "ustring option"
  jr_function_id :: "int option"
  jr_function_en :: "ustring option"
  jr_function_de :: "ustring option"
  jr_phase :: "ustring option"
  jr_position :: "int option"
  jr_value :: "ustring option"
  jr_label :: "ustring option"

text \<open>
  A table of an older extract may be absent, and so may the two title columns of the ECU table.
  \<open>db_docs\<close> is the store beside the database, the bodies by their id.
\<close>

record database =
  db_dtc :: "dtc_cells list option"
  db_ecu :: "ecu_cells list option"
  db_ecu_titles :: bool
  db_fault_doc :: "fault_doc_cells list option"
  db_infoobject :: "infoobject_cells list option"
  db_envcond :: "envcond_cells list option"
  db_measurement :: "measurement_cells list option"
  db_job_param :: "job_param_cells list option"
  db_ecu_tree :: "tree_row list option"
  db_docs :: "(int \<times> bytes) list option"

datatype query_error =
    NoTable
  | NullCell nat
  | OutOfRange nat int
  | CorruptBody ustring

type_synonym 'a query = "query_error + 'a"

section \<open>Reading cells\<close>

text \<open>\<open>row.get\<close> into a type that is not an option, at a column.\<close>

definition cell :: "nat \<Rightarrow> 'a option \<Rightarrow> 'a query" where
  "cell i c = ok_or c (NullCell i)"

definition cell_u8 :: "nat \<Rightarrow> int option \<Rightarrow> u8 query" where
  "cell_u8 i c = bindE (cell i c) (\<lambda>v. if 0 \<le> v \<and> v \<le> 255 then Inr (word_of_int v) else Inl (OutOfRange i v))"

definition cell_u32 :: "nat \<Rightarrow> int option \<Rightarrow> u32 query" where
  "cell_u32 i c = bindE (cell i c) (\<lambda>v. if 0 \<le> v \<and> v < 2 ^ 32 then Inr (word_of_int v) else Inl (OutOfRange i v))"

text \<open>The rows of a result, the first one that cannot be read ending the query.\<close>

fun collect_rows :: "('r \<Rightarrow> 'e + 'a) \<Rightarrow> 'r list \<Rightarrow> 'e + 'a list" where
  "collect_rows f [] = Inr []"
| "collect_rows f (r # rs) = bindE (f r) (\<lambda>x. bindE (collect_rows f rs) (\<lambda>xs. Inr (x # xs)))"

text \<open>\<open>DISTINCT\<close> keeps the first of equal rows.\<close>

definition distinct_rows :: "'r list \<Rightarrow> 'r list" where
  "distinct_rows rs = rev (remdups (rev rs))"

section \<open>The queries\<close>

definition describe_dtc :: "database \<Rightarrow> u8 \<Rightarrow> code3 \<Rightarrow> dtc_description list query" where
  "describe_dtc db ecu_address code =
     bindE (ok_or (db_dtc db) NoTable) (\<lambda>rows.
     collect_rows (\<lambda>r.
         bindE (cell 0 (xr_variant r)) (\<lambda>variant.
         bindE (cell_u32 1 (xr_code r)) (\<lambda>c.
         Inr \<lparr>xd_ecu_variant = variant, xd_code = c, xd_saecode = xr_saecode r, xd_title_en = xr_title_en r,
              xd_title_de = xr_title_de r\<rparr>)))
       (filter (\<lambda>r. xr_address r = Some (uint ecu_address) \<and> xr_code r = Some (uint (code_number code))) rows))"

text \<open>The links of faults joined to the documents they name, and those of one fault.\<close>

definition doc_links :: "fault_doc_cells list \<Rightarrow> infoobject_cells list \<Rightarrow> (fault_doc_cells \<times> infoobject_cells) list" where
  "doc_links fds ios = [(fd, io). fd \<leftarrow> fds, io \<leftarrow> ios, ir_id io \<noteq> None \<and> ir_id io = fr_infoobject_id fd]"

definition linked_docs ::
    "fault_doc_cells list \<Rightarrow> infoobject_cells list \<Rightarrow> u8 \<Rightarrow> code3 \<Rightarrow> (fault_doc_cells \<times> infoobject_cells) list" where
  "linked_docs fds ios address code =
     filter (\<lambda>(fd, _). fr_address fd = Some (uint address) \<and> fr_code fd = Some (uint (code_number code)))
       (doc_links fds ios)"

definition fault_help :: "database \<Rightarrow> u8 \<Rightarrow> code3 \<Rightarrow> fault_doc list query" where
  "fault_help db address code =
     (case (db_fault_doc db, db_infoobject db) of
        (Some fds, Some ios) \<Rightarrow>
          collect_rows (\<lambda>(_, io).
              bindE (cell 0 (ir_id io)) (\<lambda>id.
              Inr \<lparr>fo_infoobject_id = id, fo_infotype = ir_infotype io, fo_docnumber = ir_docnumber io,
                   fo_safety_relevant = (case ir_safety_relevant io of None \<Rightarrow> False | Some s \<Rightarrow> s \<noteq> 0),
                   fo_title = or_else (ir_title_en io) (ir_title_de io)\<rparr>))
            (sort_key (\<lambda>(_, io). ir_id io) (linked_docs fds ios address code))
      | _ \<Rightarrow> Inr [])"

definition FKB :: ustring where "FKB = ustr ''FKB''"

text \<open>The German bodies of linked fault descriptions.\<close>

definition fkb_ids :: "(fault_doc_cells \<times> infoobject_cells) list \<Rightarrow> int list" where
  "fkb_ids links =
     distinct_rows (List.map_filter (\<lambda>(fd, io). if ir_infotype io = Some FKB then fr_content_dede fd else None) links)"

definition gunzip_utf8 :: "(bytes \<Rightarrow> ustring + bytes) \<Rightarrow> bytes \<Rightarrow> ustring query" where
  "gunzip_utf8 gunzip gz =
     bindE (map_err CorruptBody (gunzip gz)) (\<lambda>bs. ok_or (from_utf8 bs) (CorruptBody (ustr ''utf-8'')))"

definition fault_body :: "(bytes \<Rightarrow> ustring + bytes) \<Rightarrow> database \<Rightarrow> u8 \<Rightarrow> code3 \<Rightarrow> ustring list query" where
  "fault_body gunzip db address code =
     (case db_docs db of
        None \<Rightarrow> Inr []
      | Some docs \<Rightarrow>
          bindE (ok_or (db_fault_doc db) NoTable) (\<lambda>fds.
          bindE (ok_or (db_infoobject db) NoTable) (\<lambda>ios.
          bindE (collect_rows (\<lambda>i.
              case map_of docs i of None \<Rightarrow> Inr None | Some gz \<Rightarrow> map_sum id Some (gunzip_utf8 gunzip gz))
            (fkb_ids (linked_docs fds ios address code))) (\<lambda>bodies.
          Inr (List.map_filter id bodies)))))"

definition envcond_label_query :: "database \<Rightarrow> u16 \<Rightarrow> envcond_label option query" where
  "envcond_label_query db uwnr =
     (case db_envcond db of
        None \<Rightarrow> Inr None
      | Some rows \<Rightarrow>
          (case find (\<lambda>r. vr_uwnr r = Some (uint uwnr)) rows of
             None \<Rightarrow> Inr None
           | Some r \<Rightarrow>
               bindE (cell_u32 0 (vr_uwnr r)) (\<lambda>u.
               bindE (cell 4 (vr_is_status r)) (\<lambda>s.
               Inr (Some \<lparr>el_uwnr = u, el_title_en = vr_title_en r, el_title_de = vr_title_de r, el_unit = vr_unit r,
                          el_is_status = (s \<noteq> 0)\<rparr>)))))"

text \<open>A title of the ECU table, NULL where the extract has no such column.\<close>

definition title_cell :: "database \<Rightarrow> ustring option \<Rightarrow> ustring option" where
  "title_cell db t = (if db_ecu_titles db then t else None)"

definition ecu_row_query :: "database \<Rightarrow> ecu_row list query" where
  "ecu_row_query db =
     bindE (ok_or (db_ecu db) NoTable) (\<lambda>rows.
     collect_rows (\<lambda>(address, group_name, title_en, title_de).
         bindE (cell_u8 0 address) (\<lambda>a.
         bindE (cell 1 group_name) (\<lambda>g.
         Inr (a, g, or_else title_en title_de))))
       (sort_key (\<lambda>(address, group_name, _, _). (address, group_name))
         (distinct_rows (map (\<lambda>r. (ur_address r, ur_group_name r, title_cell db (ur_title_en r), title_cell db (ur_title_de r)))
           (filter (\<lambda>r. ur_address r \<noteq> None) rows)))))"

definition variants_query :: "database \<Rightarrow> u8 \<Rightarrow> variant_info list query" where
  "variants_query db address =
     bindE (ok_or (db_ecu db) NoTable) (\<lambda>rows.
     collect_rows (\<lambda>(variant, title_en, title_de).
         bindE (cell 0 variant) (\<lambda>n. Inr \<lparr>va_name = n, va_title = or_else title_en title_de\<rparr>))
       (sort_key (\<lambda>(variant, _, _). variant)
         (distinct_rows (map (\<lambda>r. (ur_variant r, title_cell db (ur_title_en r), title_cell db (ur_title_de r)))
           (filter (\<lambda>r. ur_address r = Some (uint address)) rows)))))"

definition measurements_query :: "database \<Rightarrow> ustring \<Rightarrow> measurement_entry list query" where
  "measurements_query db variant =
     (case db_measurement db of
        None \<Rightarrow> Inr []
      | Some rows \<Rightarrow>
          collect_rows (\<lambda>r.
              bindE (cell 0 (mr_name r)) (\<lambda>n.
              Inr \<lparr>me_name = n, me_unit = mr_unit r, me_mul = mr_mul r, me_offset = mr_offset r, me_round = mr_round r,
                   me_format = mr_zahlenformat r, me_job = mr_job r\<rparr>))
            (sort_key mr_name (filter (\<lambda>r. mr_variant r = Some variant) rows)))"

definition job_parameters :: "database \<Rightarrow> ustring \<Rightarrow> ustring \<Rightarrow> job_parameter list query" where
  "job_parameters db variant job =
     (case db_job_param db of
        None \<Rightarrow> Inr []
      | Some rows \<Rightarrow>
          collect_rows (\<lambda>r.
              bindE (cell 0 (jr_function_id r)) (\<lambda>f.
              bindE (cell 4 (jr_position r)) (\<lambda>p.
              Inr \<lparr>jp_function_id = f, jp_function_en = jr_function_en r, jp_function_de = jr_function_de r,
                   jp_phase = jr_phase r, jp_position = p, jp_value = jr_value r, jp_label = jr_label r\<rparr>)))
            (sort_key (\<lambda>r. (jr_function_id r, jr_phase r, jr_position r))
              (filter (\<lambda>r. jr_variant r = Some variant \<and> jr_job r = Some job) rows)))"

text \<open>The tree of a platform, whose rows the document builder wrote.\<close>

definition tree_entry_of :: "tree_row \<Rightarrow> ecu_tree_entry" where
  "tree_entry_of r =
     \<lparr>et_address = word_of_int (tr_address r), et_name = tr_name r, et_group_sgbd = tr_group_sgbd r, et_bus = tr_bus r,
      et_bus_label = tr_bus_label r, et_col = tr_col r, et_row = tr_row r, et_minimal = (tr_minimal r \<noteq> 0)\<rparr>"

definition ecu_tree_query :: "database \<Rightarrow> ustring \<Rightarrow> ecu_tree_entry list query" where
  "ecu_tree_query db series =
     (case db_ecu_tree db of
        None \<Rightarrow> Inr []
      | Some rows \<Rightarrow>
          Inr (map tree_entry_of
            (sort_key (\<lambda>r. (tr_bus r, tr_row r, tr_col r, tr_address r))
              (filter (\<lambda>r. eq_ignore_ascii_case (tr_series r) series \<and> 0 \<le> tr_address r \<and> tr_address r \<le> 255) rows))))"

definition ecu_tree_series_query :: "database \<Rightarrow> ustring list query" where
  "ecu_tree_series_query db =
     (case db_ecu_tree db of None \<Rightarrow> Inr [] | Some rows \<Rightarrow> Inr (sort (distinct_rows (map tr_series rows))))"

text \<open>The catalog the server and the command line ask; \<open>shown\<close> is the display of a query's error.\<close>

definition catalog_of ::
    "(query_error \<Rightarrow> ustring) \<Rightarrow> (bytes \<Rightarrow> ustring + bytes) \<Rightarrow> database \<Rightarrow> catalog" where
  "catalog_of shown gunzip db =
     \<lparr>ct_ecu_rows = map_err shown (ecu_row_query db),
      ct_variants = (\<lambda>a. map_err shown (variants_query db a)),
      ct_describe_dtc = (\<lambda>a c. map_err shown (describe_dtc db a c)),
      ct_fault_help = (\<lambda>a c. map_err shown (fault_help db a c)),
      ct_fault_body = (\<lambda>a c. map_err shown (fault_body gunzip db a c)),
      ct_envcond_label = (\<lambda>u. map_err shown (envcond_label_query db u)),
      ct_measurements = (\<lambda>v. map_err shown (measurements_query db v)),
      ct_ecu_tree_series = map_err shown (ecu_tree_series_query db),
      ct_ecu_tree = (\<lambda>s. map_err shown (ecu_tree_query db s))\<rparr>"

section \<open>The builder's query\<close>

text \<open>\<open>build_fkb\<close>: the bodies of every linked fault description.\<close>

definition wanted_fkb :: "fault_doc_cells list \<Rightarrow> infoobject_cells list \<Rightarrow> int list" where
  "wanted_fkb fds ios = fkb_ids (doc_links fds ios)"

section \<open>What the builder stores is what the catalog shows\<close>

lemma distinct_rows_set [simp]: "set (distinct_rows rs) = set rs" "distinct (distinct_rows rs)"
  by (simp_all add: distinct_rows_def)

lemma collect_rows_map:
  "(\<And>r. r \<in> set rs \<Longrightarrow> f r = Inr (g r)) \<Longrightarrow> collect_rows f rs = Inr (map g rs)"
  by (induction rs) simp_all

text \<open>The markdown of an id: its body rendered, unless there is none or it renders to nothing.\<close>

definition rendered ::
    "(ustring \<Rightarrow> ustring option) \<Rightarrow> (ustring \<rightharpoonup> ('e + 'e xml_event) list) \<Rightarrow> int \<Rightarrow> ustring option" where
  "rendered pre body i =
     Option.bind (body (fmt_int i)) (\<lambda>evs.
       case render_fkb pre evs of Inl _ \<Rightarrow> None | Inr md \<Rightarrow> if md = [] then None else Some md)"

lemma build_rows_lookup:
  assumes "build_fkb_rows pre gzip body wanted = Inr rows" and "distinct wanted"
  shows "(i \<in> set wanted \<longrightarrow> (case rendered pre body i of
      None \<Rightarrow> map_of rows i = None
    | Some md \<Rightarrow> \<exists>gz. map_of rows i = Some gz \<and> gzip (to_utf8 md) = Inr gz))
    \<and> (i \<notin> set wanted \<longrightarrow> map_of rows i = None)"
  using assms
proof (induction wanted arbitrary: rows)
  case (Cons w wanted)
  show ?case
  proof (cases "body (fmt_int w)")
    case None
    then have "build_fkb_rows pre gzip body wanted = Inr rows" "rendered pre body w = None"
      using Cons.prems by (simp_all add: rendered_def)
    with Cons show ?thesis by auto
  next
    case (Some evs)
    with Cons.prems(1) obtain md where md: "render_fkb pre evs = Inr md"
      by (auto simp: bindE_Inr_iff)
    show ?thesis
    proof (cases "md = []")
      case True
      then have "build_fkb_rows pre gzip body wanted = Inr rows" "rendered pre body w = None"
        using Cons.prems Some md by (simp_all add: rendered_def)
      with Cons show ?thesis by auto
    next
      case False
      with Cons.prems(1) Some md obtain gz rows' where rows: "gzip (to_utf8 md) = Inr gz"
        "build_fkb_rows pre gzip body wanted = Inr rows'" "rows = (w, gz) # rows'"
        by (auto simp: bindE_Inr_iff)
      moreover have "rendered pre body w = Some md"
        using Some md False by (simp add: rendered_def)
      ultimately show ?thesis
        using Cons.IH [of rows'] Cons.prems(2) by (cases "i = w") (auto split: option.split)
    qed
  qed
qed simp

lemma set_map_filter: "set (List.map_filter f xs) = {y. \<exists>x \<in> set xs. f x = Some y}"
  by (induction xs) (auto simp: List.map_filter_simps split: option.splits)

lemma linked_wanted: "set (fkb_ids (linked_docs fds ios address code)) \<subseteq> set (wanted_fkb fds ios)"
  unfolding wanted_fkb_def fkb_ids_def distinct_rows_set set_map_filter linked_docs_def set_filter
  by blast

text \<open>
  C21. What the document builder stores is what the catalog shows. Take a store that \<open>build_fkb\<close> wrote for
  a semantic database, with a compressor that the catalog's decompressor undoes. Then for every ECU
  address and fault code the fault bodies are exactly the renderings of the linked German fault
  descriptions, each once, in the order of the query, without those that have no body or render to
  nothing; no stored body is corrupt and none of another fault is shown.
\<close>

theorem fault_bodies_stored:
  assumes "\<And>bs gz. gzip bs = Inr gz \<Longrightarrow> gunzip gz = Inr bs"
    and "\<And>i md. rendered pre body i = Some md \<Longrightarrow> list_all is_scalar md"
    and "db_fault_doc db = Some fds" and "db_infoobject db = Some ios"
    and "build_fkb_rows pre gzip body (wanted_fkb fds ios) = Inr rows" and "db_docs db = Some rows"
  shows "fault_body gunzip db address code
    = Inr (List.map_filter (rendered pre body) (fkb_ids (linked_docs fds ios address code)))"
proof -
  let ?ids = "fkb_ids (linked_docs fds ios address code)"
  have "distinct (wanted_fkb fds ios)"
    by (simp add: wanted_fkb_def fkb_ids_def)
  note stored = build_rows_lookup [OF assms(5) this]
  have "(case map_of rows i of None \<Rightarrow> Inr None | Some gz \<Rightarrow> map_sum id Some (gunzip_utf8 gunzip gz))
      = Inr (rendered pre body i)" if "i \<in> set ?ids" for i
  proof -
    have "i \<in> set (wanted_fkb fds ios)"
      using that linked_wanted by blast
    with stored [of i] show ?thesis
      using assms(1,2) by (auto simp: gunzip_utf8_def from_to_utf8 split: option.splits)
  qed
  then have "collect_rows (\<lambda>i. case map_of rows i of None \<Rightarrow> Inr None
      | Some gz \<Rightarrow> map_sum id Some (gunzip_utf8 gunzip gz)) ?ids = Inr (map (rendered pre body) ?ids)"
    by (rule collect_rows_map)
  then show ?thesis
    using assms(3,4,6) by (simp add: fault_body_def List.map_filter_def comp_def filter_map)
qed

lemma fault_bodies_stored_witness:
  "let fd = \<lparr>fr_address = Some 18, fr_code = Some 1, fr_infoobject_id = Some 7, fr_content_dede = Some 42\<rparr>;
       io = \<lparr>ir_id = Some 7, ir_infotype = Some FKB, ir_docnumber = None, ir_safety_relevant = None,
             ir_title_en = None, ir_title_de = None\<rparr>;
       body = (\<lambda>t. if t = fmt_int 42 then Some (map Inr (node_events (Terminal [Plain [0x41]] []))) else None);
       db = \<lparr>db_dtc = None, db_ecu = None, db_ecu_titles = False, db_fault_doc = Some [fd], db_infoobject = Some [io],
             db_envcond = None, db_measurement = None, db_job_param = None, db_ecu_tree = None,
             db_docs = Some [(42, to_utf8 (ustr ''**Klemme:** A''))]\<rparr>
   in fault_body Inr db 18 (0, 0, 1)
     = Inr (List.map_filter (rendered Map.empty (body :: ustring \<rightharpoonup> (ustring + ustring xml_event) list)) [42])"
proof -
  let ?fd = "\<lparr>fr_address = Some 18, fr_code = Some 1, fr_infoobject_id = Some 7, fr_content_dede = Some 42\<rparr>"
  let ?io = "\<lparr>ir_id = Some 7, ir_infotype = Some FKB, ir_docnumber = None, ir_safety_relevant = None,
             ir_title_en = None, ir_title_de = None\<rparr>"
  let ?body = "(\<lambda>t. if t = fmt_int 42 then Some (map Inr (node_events (Terminal [Plain [0x41]] []))) else None)
    :: ustring \<rightharpoonup> (ustring + ustring xml_event) list"
  let ?md = "ustr ''**Klemme:** A''"
  let ?db = "\<lparr>db_dtc = None, db_ecu = None, db_ecu_titles = False, db_fault_doc = Some [?fd], db_infoobject = Some [?io],
             db_envcond = None, db_measurement = None, db_job_param = None, db_ecu_tree = None,
             db_docs = Some [(42, to_utf8 ?md)]\<rparr>"
  have md: "render_fkb Map.empty (map Inr (node_events (Terminal [Plain [0x41]] [])) :: (ustring + ustring xml_event) list)
      = Inr ?md"
    by (simp add: render_fkb_def fkb_start_def tagged_def fkb_event_def start_tag_def end_tag_def takes_text_def
        push_text_def klemme_block_def trim_def trim_start_def trim_end_def is_whitespace_def bindE_def ustr_def)
  have nonempty: "?md \<noteq> []"
    by (simp add: ustr_def)
  have wanted: "wanted_fkb [?fd] [?io] = [42]" "fkb_ids (linked_docs [?fd] [?io] 18 (0, 0, 1)) = [42]"
    by (simp_all add: wanted_fkb_def fkb_ids_def doc_links_def linked_docs_def distinct_rows_def List.map_filter_simps
        code_number_def)
  have rows: "build_fkb_rows Map.empty Inr ?body (wanted_fkb [?fd] [?io]) = Inr [(42, to_utf8 ?md)]"
    using nonempty by (simp add: wanted md del: node_events.simps)
  have scalar: "rendered Map.empty ?body i = Some t \<Longrightarrow> list_all is_scalar t" for i t
  proof -
    assume "rendered Map.empty ?body i = Some t"
    then have "t = ?md"
      using nonempty by (auto simp: rendered_def md simp del: node_events.simps split: if_splits)
    then show "list_all is_scalar t"
      by (simp add: is_scalar_def ustr_def)
  qed
  show ?thesis
    unfolding Let_def
    using fault_bodies_stored [of Inr Inr Map.empty ?body ?db "[?fd]" "[?io]" "[(42, to_utf8 ?md)]" 18 "(0, 0, 1)"] scalar rows
    by (simp add: wanted)
qed

end
