(* ===== verification/Cli_Laws.thy ===== *)
theory Cli_Laws
  imports Cli_Text Sem_Catalog
begin

text \<open>
  What \<open>job args\<close> prints (\<open>format_job_args\<close> in \<open>cli/src/main.rs\<close>) and what the service runner sends
  (\<open>invocations\<close> in \<open>crates/service\<close>): two groupings of the same rows, one on the order of the query,
  one on an order of its own.
\<close>

section \<open>Runs of rows in the query's order\<close>

text \<open>\<open>ORDER BY function_id, phase, position\<close>, an absent phase first: the query's rows are in that order.\<close>

definition query_key :: "job_parameter \<Rightarrow> (int \<times> ustring option) \<times> int" where
  "query_key r = (row_group r, jp_position r)"

definition in_query_order :: "job_parameter list \<Rightarrow> bool" where
  "in_query_order rows \<longleftrightarrow> sorted (map query_key rows)"

lemma collect_rows_all2: "collect_rows f rs = Inr xs \<Longrightarrow> list_all2 (\<lambda>r x. f r = Inr x) rs xs"
  by (induction rs arbitrary: xs) (auto simp: bindE_Inr_iff)

lemma sorted_all2:
  assumes "list_all2 R rs xs" and "sorted (map f rs)"
    and "\<And>r r' x x'. R r x \<Longrightarrow> R r' x' \<Longrightarrow> f r \<le> f r' \<Longrightarrow> g x \<le> g x'"
  shows "sorted (map g xs)"
  using assms(1,2)
proof (induction rule: list_all2_induct)
  case (Cons r rs x xs)
  have "g x \<le> g x'" if "x' \<in> set xs" for x'
  proof -
    from that Cons.hyps(2) obtain r' where "r' \<in> set rs" "R r' x'"
      by (metis in_set_conv_nth list_all2_conv_all_nth)
    with Cons.prems Cons.hyps(1) assms(3) show ?thesis by auto
  qed
  with Cons show ?case by simp
qed simp

lemma job_parameters_in_order:
  assumes "job_parameters db variant job = Inr rows"
  shows "in_query_order rows"
proof (cases "db_job_param db")
  case (Some cells)
  let ?key = "\<lambda>r. (jr_function_id r, jr_phase r, jr_position r)"
  let ?sel = "sort_key ?key (filter (\<lambda>r. jr_variant r = Some variant \<and> jr_job r = Some job) cells)"
  from Some assms have "list_all2 (\<lambda>r x. \<exists>f p. jr_function_id r = Some f \<and> jr_position r = Some p
      \<and> row_group x = (f, jr_phase r) \<and> jp_position x = p) ?sel rows"
    by (intro list_all2_mono [OF collect_rows_all2])
      (auto simp: job_parameters_def cell_def bindE_Inr_iff ok_or_def row_group_def split: option.splits)
  then show ?thesis
    unfolding in_query_order_def
    by (rule sorted_all2 [where f = ?key]) (auto simp: query_key_def)
qed (use assms in \<open>simp add: job_parameters_def in_query_order_def\<close>)

lemma run_of_sorted:
  fixes k :: "'r \<Rightarrow> 'k :: linorder"
  assumes "sorted (map k (r # rows))"
  shows "takeWhile (\<lambda>x. k x = k r) rows = filter (\<lambda>x. k x = k r) rows"
    and "dropWhile (\<lambda>x. k x = k r) rows = filter (\<lambda>x. k x \<noteq> k r) rows"
proof -
  have "takeWhile (\<lambda>x. k x = k r) rows = filter (\<lambda>x. k x = k r) rows
      \<and> dropWhile (\<lambda>x. k x = k r) rows = filter (\<lambda>x. k x \<noteq> k r) rows"
    using assms
  proof (induction rows)
    case (Cons x rows)
    show ?case
    proof (cases "k x = k r")
      case True
      with Cons show ?thesis by auto
    next
      case False
      with Cons.prems have "k r < k x" by auto
      moreover have "\<forall>y \<in> set rows. k x \<le> k y" using Cons.prems by auto
      ultimately have "\<forall>y \<in> set rows. k y \<noteq> k r" by auto
      with False show ?thesis by (simp add: filter_empty_conv)
    qed
  qed simp
  then show "takeWhile (\<lambda>x. k x = k r) rows = filter (\<lambda>x. k x = k r) rows"
    and "dropWhile (\<lambda>x. k x = k r) rows = filter (\<lambda>x. k x \<noteq> k r) rows" by auto
qed

lemma group_order:
  assumes "in_query_order rows"
  shows "sorted (map row_group rows)"
  using assms unfolding in_query_order_def sorted_map
  by (rule sorted_wrt_mono_rel [rotated]) (auto simp: query_key_def)

text \<open>In that order a run is all the rows of its group, and each group has one run.\<close>

lemma row_runs_groups:
  assumes "sorted (map row_group rows)"
  shows "distinct (map (\<lambda>rs. row_group (hd rs)) (row_runs rows))
    \<and> set (map (\<lambda>rs. row_group (hd rs)) (row_runs rows)) = row_group ` set rows
    \<and> list_all (\<lambda>rs. rs = filter (\<lambda>r. row_group r = row_group (hd rs)) rows) (row_runs rows)"
  using assms
proof (induction rows rule: row_runs.induct)
  case (2 r rows)
  let ?others = "filter (\<lambda>x. row_group x \<noteq> row_group r) rows"
  note run = run_of_sorted [OF "2.prems"]
  have "sorted (map row_group ?others)"
    using "2.prems" by (simp add: sorted_wrt_filter sorted_map)
  with "2.IH" run(2) have IH:
    "distinct (map (\<lambda>rs. row_group (hd rs)) (row_runs ?others))"
    "set (map (\<lambda>rs. row_group (hd rs)) (row_runs ?others)) = row_group ` set ?others"
    "list_all (\<lambda>rs. rs = filter (\<lambda>x. row_group x = row_group (hd rs)) ?others) (row_runs ?others)"
    by auto
  have other: "filter (\<lambda>x. row_group x = row_group (hd rs)) ?others = filter (\<lambda>x. row_group x = row_group (hd rs)) (r # rows)"
    if "rs \<in> set (row_runs ?others)" for rs
  proof -
    have "row_group (hd rs) \<in> row_group ` set ?others" using IH(2) that by auto
    then show ?thesis by (auto simp: filter_filter intro!: filter_cong)
  qed
  have runs: "row_runs (r # rows) = (r # filter (\<lambda>x. row_group x = row_group r) rows) # row_runs ?others"
    by (simp add: run)
  show ?case
    unfolding runs using IH other by (auto simp: list_all_iff)
qed simp

section \<open>The lines are the invocations\<close>

definition phase_known :: "job_parameter \<Rightarrow> bool" where
  "phase_known r \<longleftrightarrow> jp_phase r \<in> {Some (ustr ''Preset''), Some (ustr ''Main''), Some (ustr ''Reset'')}"

lemma known_group_key:
  "phase_known r \<Longrightarrow> phase_known r' \<Longrightarrow> row_group r = row_group r' \<longleftrightarrow> row_key r = row_key r'"
  by (auto simp: phase_known_def row_group_def row_key_def phase_from_catalog_def ustr_def)

lemma same_key_rows:
  assumes "in_query_order rows" and "list_all phase_known rows"
  shows "filter (\<lambda>r. row_key r = k) (sorted_rows rows) = filter (\<lambda>r. row_key r = k) rows"
proof -
  let ?key = "\<lambda>r. (jp_function_id r, phase_from_catalog (jp_phase r), jp_position r)"
  have "sorted_wrt (\<lambda>r r'. query_key r \<le> query_key r') (filter (\<lambda>r. row_key r = k) rows)"
    using assms(1) by (simp add: in_query_order_def sorted_map sorted_wrt_filter)
  then have "sorted (map ?key (filter (\<lambda>r. row_key r = k) rows))"
    unfolding sorted_map
  proof (rule sorted_wrt_mono_rel [rotated])
    fix r r'
    assume "r \<in> set (filter (\<lambda>r. row_key r = k) rows)" "r' \<in> set (filter (\<lambda>r. row_key r = k) rows)"
      and le: "query_key r \<le> query_key r'"
    then have eq: "row_key r = row_key r'" and "row_group r = row_group r'"
      using assms(2) known_group_key [of r r'] by (auto simp: list_all_iff)
    with le show "?key r \<le> ?key r'"
      by (auto simp: query_key_def row_key_def)
  qed
  then show ?thesis
    unfolding sorted_rows_def filter_sort by (rule sort_key_id_if_sorted)
qed

text \<open>
  C11. The lines \<open>job args\<close> prints are the commands the service runner sends. For the rows the catalog's
  query answers with, with phases the catalog knows, the command line's grouping by runs and the
  runner's own sorting and grouping agree: the printed argument buffers, each with its function and
  phase, are exactly those of the runner's invocations, one line each, though the phases come in
  another order.
\<close>

theorem job_args_are_invocations:
  assumes "job_parameters db variant job = Inr rows" and "list_all phase_known rows"
  shows "mset (map (\<lambda>rs. (row_key (hd rs), job_arg_buffer rs)) (row_runs rows))
    = mset (map (\<lambda>i. (inv_key i, arg_buffer i)) (invocations rows))"
proof -
  let ?rows_of = "\<lambda>k. filter (\<lambda>r. row_key r = k) rows"
  let ?F = "\<lambda>k. (k, join_with (ustr '';'') (map row_value (?rows_of k)))"
  let ?keys = "map (\<lambda>rs. row_key (hd rs)) (row_runs rows)"
  note order = job_parameters_in_order [OF assms(1)]
  note runs = row_runs_groups [OF group_order [OF order]]
  have run: "hd rs \<in> set rows \<and> rs = ?rows_of (row_key (hd rs))" if "rs \<in> set (row_runs rows)" for rs
  proof -
    have rs: "rs = filter (\<lambda>r. row_group r = row_group (hd rs)) rows"
      using runs that by (auto simp only: list_all_iff)
    have "row_group (hd rs) \<in> row_group ` set rows"
      using runs that by (metis (mono_tags, lifting) image_eqI list.set_map)
    then obtain r where "r \<in> set rows" "row_group r = row_group (hd rs)"
      by (metis imageE)
    with rs have "rs \<noteq> []" by (metis (mono_tags, lifting) filter_empty_conv)
    then have "hd rs \<in> set rows" using rs by (metis filter_is_subset hd_in_set subsetD)
    have "filter (\<lambda>r. row_group r = row_group (hd rs)) rows = ?rows_of (row_key (hd rs))"
      using \<open>hd rs \<in> set rows\<close> assms(2) known_group_key by (auto simp: list_all_iff intro!: filter_cong)
    with rs \<open>hd rs \<in> set rows\<close> show ?thesis by simp
  qed
  have g: "grouped (invocations rows) (sorted_rows rows)"
    unfolding invocations_def by (rule foldl_add_row [OF sorted_rows_keys])
  have vals: "row_value = (\<lambda>r. text_or '''' (jp_value r))"
    by (rule ext) (simp add: row_value_def text_or_def ustr_def split: option.split)
  have printed: "map (\<lambda>rs. (row_key (hd rs), job_arg_buffer rs)) (row_runs rows) = map ?F ?keys"
    using run by (auto simp: job_arg_buffer_def vals)
  have sent: "map (\<lambda>i. (inv_key i, arg_buffer i)) (invocations rows) = map ?F (map inv_key (invocations rows))"
    using g same_key_rows [OF order assms(2)] by (auto simp: grouped_def arg_buffer_def list_all_iff)
  have "mset ?keys = mset (map inv_key (invocations rows))"
  proof (subst set_eq_iff_mset_eq_distinct [symmetric])
    show "distinct ?keys"
      using runs run assms(2) known_group_key by (auto simp: distinct_map inj_on_def list_all_iff)
    show "distinct (map inv_key (invocations rows))"
      using g strict_sorted_iff unfolding grouped_def by blast
    have "set ?keys = row_key ` set rows"
    proof (intro set_eqI iffI)
      fix k assume "k \<in> row_key ` set rows"
      then obtain r where r: "r \<in> set rows" "k = row_key r" by auto
      then have "row_group r \<in> (\<lambda>rs. row_group (hd rs)) ` set (row_runs rows)" using runs by simp
      then obtain rs where "rs \<in> set (row_runs rows)" "row_group r = row_group (hd rs)" by auto
      with r run assms(2) known_group_key [of r "hd rs"] show "k \<in> set ?keys"
        by (auto simp: list_all_iff)
    qed (use run in auto)
    then show "set ?keys = set (map inv_key (invocations rows))"
      using g by (simp add: grouped_def sorted_rows_def)
  qed
  then show ?thesis
    unfolding printed sent mset_map [of ?F] by (rule arg_cong)
qed

lemma job_args_are_invocations_witness:
  "let c = \<lambda>p n v. \<lparr>jr_variant = Some (ustr ''d''), jr_job = Some (ustr ''j''), jr_function_id = Some 7, jr_function_en = None,
        jr_function_de = None, jr_phase = Some p, jr_position = Some n, jr_value = v, jr_label = None\<rparr>;
       db = \<lparr>db_dtc = None, db_ecu = None, db_ecu_titles = False, db_fault_doc = None, db_infoobject = None,
             db_envcond = None, db_measurement = None,
             db_job_param = Some [c (ustr ''Preset'') 1 (Some (ustr ''4'')), c (ustr ''Main'') 2 (Some (ustr ''3'')), c (ustr ''Main'') 1 None],
             db_ecu_tree = None, db_docs = None\<rparr>
   in \<exists>rows. job_parameters db (ustr ''d'') (ustr ''j'') = Inr rows \<and>
      mset (map (\<lambda>i. (inv_key i, arg_buffer i)) (invocations rows))
      = {# ((7, Main), ustr '';3''), ((7, Preset), ustr ''4'') #}"
proof -
  let ?c = "\<lambda>p n v. \<lparr>jr_variant = Some (ustr ''d''), jr_job = Some (ustr ''j''), jr_function_id = Some 7, jr_function_en = None,
        jr_function_de = None, jr_phase = Some p, jr_position = Some n, jr_value = v, jr_label = None\<rparr>"
  let ?db = "\<lparr>db_dtc = None, db_ecu = None, db_ecu_titles = False, db_fault_doc = None, db_infoobject = None,
             db_envcond = None, db_measurement = None,
             db_job_param = Some [?c (ustr ''Preset'') 1 (Some (ustr ''4'')), ?c (ustr ''Main'') 2 (Some (ustr ''3'')), ?c (ustr ''Main'') 1 None],
             db_ecu_tree = None, db_docs = None\<rparr>"
  let ?r = "\<lambda>p n v. \<lparr>jp_function_id = 7, jp_function_en = None, jp_function_de = None, jp_phase = Some p,
        jp_position = n, jp_value = v, jp_label = None\<rparr>"
  let ?rows = "[?r (ustr ''Main'') 1 None, ?r (ustr ''Main'') 2 (Some (ustr ''3'')), ?r (ustr ''Preset'') 1 (Some (ustr ''4''))]"
  have query: "job_parameters ?db (ustr ''d'') (ustr ''j'') = Inr ?rows"
    by (simp add: job_parameters_def cell_def ustr_def)
  have known: "list_all phase_known ?rows"
    by (simp add: phase_known_def)
  have "map (\<lambda>rs. (row_key (hd rs), job_arg_buffer rs)) (row_runs ?rows)
      = [((7, Main), ustr '';3''), ((7, Preset), ustr ''4'')]"
    by (simp add: row_key_def row_group_def job_arg_buffer_def text_or_def phase_from_catalog_def ustr_def)
  with job_args_are_invocations [OF query known] query show ?thesis
    unfolding Let_def by (intro exI [of _ ?rows]) (simp only: mset.simps simp_thms)
qed

end
