(* ===== verification/Sem_Catalog_Laws.thy ===== *)
theory Sem_Catalog_Laws
  imports Sem_Catalog
begin

text \<open>
  The ECU tree from the platform's file to the catalog's answer, the order of the job parameters, and
  the groups of an ECU that repeat.
\<close>

section \<open>The ECU tree\<close>

text \<open>The entry of an ECU of a platform: one for each diagnostic address of a byte.\<close>

definition platform_entry :: "bordnet \<Rightarrow> ecu_node \<Rightarrow> ecu_tree_entry option" where
  "platform_entry b n =
     Option.bind (nd_address n) (\<lambda>a.
       if 0 \<le> a \<and> a \<le> 255
       then Some \<lparr>et_address = word_of_int a, et_name = nd_name n, et_group_sgbd = nd_group_sgbd n, et_bus = nd_bus n,
                  et_bus_label = Option.bind (nd_bus n) (bn_bus_labels b), et_col = nd_col n, et_row = nd_row n,
                  et_minimal = (a \<in> set (bn_minimal b))\<rparr>
       else None)"

definition entry_key :: "ecu_tree_entry \<Rightarrow> ustring option \<times> int option \<times> int option \<times> u8" where
  "entry_key e = (et_bus e, et_row e, et_col e, et_address e)"

lemma series_of_rows: "r \<in> set (tree_rows series b) \<Longrightarrow> tr_series r = series"
  by (auto simp: tree_rows_def set_map_filter tree_row_of_def)

lemma rows_of_series:
  assumes "build_rows body wanted = Inr (n, rows, housings)"
  shows "filter (\<lambda>r. p (tr_series r)) rows
    = concat (map (\<lambda>(s, doc). case body (fmt_int doc) of None \<Rightarrow> []
        | Some evs \<Rightarrow> (case parse_bordnet evs of Inl _ \<Rightarrow> [] | Inr b \<Rightarrow> tree_rows s b)) (filter (\<lambda>w. p (fst w)) wanted))"
  using assms
proof (induction wanted arbitrary: n rows housings)
  case (Cons w wanted)
  obtain s doc where w: "w = (s, doc)" by (cases w)
  show ?case
  proof (cases "body (fmt_int doc)")
    case None
    with Cons show ?thesis by (auto simp: w)
  next
    case (Some evs)
    with Cons.prems obtain b n' rows' hs' where p: "parse_bordnet evs = Inr b"
      "build_rows body wanted = Inr (n', rows', hs')" "rows = tree_rows s b @ rows'"
      by (auto simp: w bindE_Inr_iff)
    have "filter (\<lambda>r. p (tr_series r)) (tree_rows s b) = (if p s then tree_rows s b else [])"
      using series_of_rows [of _ s b] by (auto intro: filter_True filter_False)
    with p Some Cons.IH [OF p(2)] show ?thesis by (simp add: w)
  qed
qed simp

lemma entry_of_row:
  "tree_row_of s b n = Some r \<Longrightarrow>
    (if 0 \<le> tr_address r \<and> tr_address r \<le> 255 then Some (tree_entry_of r) else None) = platform_entry b n"
  by (auto simp: tree_row_of_def platform_entry_def tree_entry_of_def)

lemma entries_of_rows:
  "map tree_entry_of (filter (\<lambda>r. 0 \<le> tr_address r \<and> tr_address r \<le> 255) (tree_rows s b))
    = List.map_filter (platform_entry b) (bn_ecus b)"
proof -
  have "map tree_entry_of (filter (\<lambda>r. 0 \<le> tr_address r \<and> tr_address r \<le> 255) (List.map_filter (tree_row_of s b) ns))
    = List.map_filter (platform_entry b) ns" for ns
  proof (induction ns)
    case (Cons n ns)
    show ?case
    proof (cases "tree_row_of s b n")
      case None
      then have "platform_entry b n = None"
        by (auto simp: tree_row_of_def platform_entry_def)
      with None Cons show ?thesis by (simp add: List.map_filter_simps)
    next
      case (Some r)
      with Cons entry_of_row [OF Some, symmetric] show ?thesis by (simp add: List.map_filter_simps)
    qed
  qed (simp add: List.map_filter_simps)
  then show ?thesis by (simp add: tree_rows_def)
qed

lemma byte_le:
  assumes "0 \<le> a" "a \<le> 255" "0 \<le> b" "b \<le> 255"
  shows "(word_of_int a :: u8) \<le> word_of_int b \<longleftrightarrow> a \<le> b"
  using assms by (simp add: word_le_def uint_word_of_int_eq take_bit_int_eq_self)

lemma entry_key_mono:
  assumes "(tr_bus r, tr_row r, tr_col r, tr_address r) \<le> (tr_bus r', tr_row r', tr_col r', tr_address r')"
    and "0 \<le> tr_address r" "tr_address r \<le> 255" "0 \<le> tr_address r'" "tr_address r' \<le> 255"
  shows "entry_key (tree_entry_of r) \<le> entry_key (tree_entry_of r')"
  using assms(1) byte_le [OF assms(2-5)] by (simp add: entry_key_def tree_entry_of_def)

text \<open>
  C29. The ECU tree the catalog answers with is the platform's file. When the builder wrote the tree table,
  and one of its platforms has the asked name, whatever the case of its letters, then the answer has
  exactly one entry for each ECU of that platform's parsed file with an address of a byte, with its
  name, group, grid position and bus, the label the file gives that bus, and the mark exactly when its
  minimal configuration lists the address; in the order of bus, row, column and address.
\<close>

theorem ecu_tree_stored:
  assumes "build_rows body wanted = Inr (n, rows, housings)" and "db_ecu_tree db = Some rows"
    and "[w \<leftarrow> wanted. eq_ignore_ascii_case (fst w) series] = [(s, doc)]"
    and "body (fmt_int doc) = Some evs" and "parse_bordnet evs = Inr b"
  shows "\<exists>es. ecu_tree_query db series = Inr es \<and> sorted (map entry_key es)
    \<and> mset es = mset (List.map_filter (platform_entry b) (bn_ecus b))"
proof -
  let ?key = "\<lambda>r. (tr_bus r, tr_row r, tr_col r, tr_address r)"
  let ?in = "\<lambda>r. 0 \<le> tr_address r \<and> tr_address r \<le> 255"
  let ?rows = "filter ?in (tree_rows s b)"
  let ?es = "map tree_entry_of (sort_key ?key ?rows)"
  have "filter (\<lambda>r. eq_ignore_ascii_case (tr_series r) series) rows = tree_rows s b"
    using rows_of_series [OF assms(1), of "\<lambda>t. eq_ignore_ascii_case t series"] assms(3-5) by simp
  then have "filter (\<lambda>r. eq_ignore_ascii_case (tr_series r) series \<and> ?in r) rows = ?rows"
    by (simp add: conj_commute flip: filter_filter)
  then have "ecu_tree_query db series = Inr ?es"
    using assms(2) by (simp add: ecu_tree_query_def)
  moreover have "sorted (map entry_key ?es)"
  proof -
    have "sorted_wrt (\<lambda>r r'. ?key r \<le> ?key r') (sort_key ?key ?rows)"
      using sorted_sort_key [of ?key ?rows] by (simp add: sorted_map)
    then have "sorted_wrt (\<lambda>r r'. entry_key (tree_entry_of r) \<le> entry_key (tree_entry_of r')) (sort_key ?key ?rows)"
      by (rule sorted_wrt_mono_rel [rotated]) (rule entry_key_mono; simp)
    then show ?thesis by (simp add: sorted_map sorted_wrt_map)
  qed
  moreover have "mset ?es = mset (List.map_filter (platform_entry b) (bn_ecus b))"
    unfolding entries_of_rows [symmetric, of b s] mset_map mset_sort by (rule refl)
  ultimately show ?thesis by blast
qed

lemma ecu_tree_stored_witness:
  "let node = new_node\<lparr>nd_address := Some 18\<rparr>;
       b = \<lparr>bn_ecus = [node], bn_bus_labels = Map.empty, bn_minimal = [18], bn_housings = []\<rparr>;
       db = \<lparr>db_dtc = None, db_ecu = None, db_ecu_titles = False, db_fault_doc = None, db_infoobject = None,
             db_envcond = None, db_measurement = None, db_job_param = None,
             db_ecu_tree = Some (tree_rows (ustr ''F25'') b), db_docs = None\<rparr>
   in \<exists>es. ecu_tree_query db (ustr ''f25'') = Inr es \<and> sorted (map entry_key es)
        \<and> mset es = mset (List.map_filter (platform_entry b) [node])"
proof -
  let ?node = "new_node\<lparr>nd_address := Some 18\<rparr>"
  let ?b = "\<lparr>bn_ecus = [?node], bn_bus_labels = Map.empty, bn_minimal = [18], bn_housings = []\<rparr>"
  let ?evs = "map Inr [Start (ustr ''EcuLogisticsEntry'') [Inr (ustr ''DiagAddress'', ustr ''18'')],
      End (ustr ''EcuLogisticsEntry''), Start (ustr ''MinimalConfigurationEntry'') [], Chars (Inr (ustr ''18''))]
    :: (unit + unit xml_event) list"
  let ?body = "(\<lambda>t. if t = fmt_int 42 then Some ?evs else None)"
  let ?db = "\<lparr>db_dtc = None, db_ecu = None, db_ecu_titles = False, db_fault_doc = None, db_infoobject = None,
             db_envcond = None, db_measurement = None, db_job_param = None,
             db_ecu_tree = Some (tree_rows (ustr ''F25'') ?b), db_docs = None\<rparr>"
  have parse: "parse_bordnet ?evs = Inr ?b"
    by (simp add: parse_bordnet_def bordnet_start_def bordnet_event_def bordnet_open_def bordnet_close_def bindE_def
        bordnet_text_def node_attr_def new_node_def ustr_def trim_def trim_start_def trim_end_def is_whitespace_def
        parse_i64_def parse_int_def to_digit_def)
  have rows: "build_rows ?body [(ustr ''F25'', 42)] = Inr (1, tree_rows (ustr ''F25'') ?b, [])"
    using parse by (simp add: housing_rows_def del: list.map)
  have asked: "[w \<leftarrow> [(ustr ''F25'', 42 :: int)]. eq_ignore_ascii_case (fst w) (ustr ''f25'')] = [(ustr ''F25'', 42)]"
    by (simp add: eq_ignore_ascii_case_def ascii_lower_def ustr_def)
  show ?thesis
    unfolding Let_def
    using ecu_tree_stored [OF rows _ asked _ parse, of ?db] by (simp del: list.map)
qed

section \<open>Groups that repeat\<close>

text \<open>
  The extra groups of a slot are those of the rows, not of the names: two variants of one group with
  different titles leave the group itself among its extra groups.
\<close>

lemma extra_groups_repeat:
  "ecu_slots [(0x40, ustr ''d_0040'', None), (0x40, ustr ''d_0040'', Some (ustr ''Front''))]
    = [\<lparr>es_address = 0x40, es_group_name = ustr ''d_0040'', es_extra_groups = [ustr ''d_0040''],
        es_title = Some (ustr ''Front'')\<rparr>]"
  by code_simp

end
