(* ===== verification/Doc_Build.thy ===== *)
theory Doc_Build
  imports Sem_Catalog
begin

text \<open>
  The document builder as a program (\<open>docbuild/src/main.rs\<close>, \<open>build.rs\<close> and the second half of
  \<open>bordnet.rs\<close>): what the two passes read, in which order they replace the document store and the
  topology tables, and what an error leaves behind. The files are the state; SQLite, the XML reader
  and the compressor are outside. Of SQLite the model uses that a statement outside a transaction
  takes effect at once and that a transaction dropped before its commit leaves nothing.
\<close>

section \<open>The source of the bodies\<close>

text \<open>A row of \<open>xmlvalueprimitive_content\<close>: its row id, the global id \<open>c0\<close>, the body \<open>c3\<close>.\<close>

type_synonym content_cells = "int \<times> ustring option \<times> ustring option"

datatype 'x build_error =
    NoDatabase                              \<comment> \<open>an input cannot be opened\<close>
  | MissingTable
  | NullValue
  | OutputFile                              \<comment> \<open>the old store cannot be removed or the new one made\<close>
  | InBody 'x                               \<comment> \<open>the XML reader, or the compressor\<close>

text \<open>The map from the global id to the row id; of two rows with one id the last counts.\<close>

fun id_map :: "content_cells list \<Rightarrow> (ustring \<rightharpoonup> int) \<Rightarrow> 'x build_error + (ustring \<rightharpoonup> int)" where
  "id_map [] m = Inr m"
| "id_map ((i, None, _) # rows) m = Inl NullValue"
| "id_map ((i, Some c0, _) # rows) m = id_map rows (m(c0 \<mapsto> i))"

text \<open>
  The body of a global id, as the events \<open>xml\<close> makes of its text. An id that has no row has no body;
  a body that is NULL is an error where it is read.
\<close>

definition body_of ::
    "(ustring \<Rightarrow> ('x build_error + 'x build_error xml_event) list) \<Rightarrow> content_cells list \<Rightarrow> (ustring \<rightharpoonup> int)
     \<Rightarrow> ustring \<rightharpoonup> ('x build_error + 'x build_error xml_event) list" where
  "body_of xml rows ids c0 =
     map_option (\<lambda>i. case map_of rows i of Some (_, Some text) \<Rightarrow> xml text | _ \<Rightarrow> [Inl NullValue]) (ids c0)"

section \<open>State\<close>

text \<open>The semantic database with the tables only the builder touches; \<open>db_docs\<close> is the output file.\<close>

record build_db = database +
  bd_bordnet_doc :: "(ustring \<times> int) list option"
  bd_ecu_housing :: "(ustring \<times> int option \<times> int option \<times> int) list option"

text \<open>What the passes take from the outside.\<close>

record 'x build_env =
  be_xml :: "ustring \<Rightarrow> ('x build_error + 'x build_error xml_event) list"
  be_predefined :: "ustring \<Rightarrow> ustring option"
  be_gzip :: "bytes \<Rightarrow> 'x build_error + bytes"
  be_xmlvalue :: "content_cells list option"          \<comment> \<open>the German bodies, if the file opens\<close>
  be_xmlvalue_other :: "content_cells list option"    \<comment> \<open>the language-neutral ones\<close>
  be_can_remove :: bool                               \<comment> \<open>the old document store goes away\<close>
  be_can_create :: bool                               \<comment> \<open>and the new one can be made\<close>

section \<open>The fault-description pass\<close>

text \<open>What is read before anything is written: the wanted ids, and the map.\<close>

definition fkb_inputs :: "'x build_env \<Rightarrow> build_db \<Rightarrow> 'x build_error + (int list \<times> content_cells list \<times> (ustring \<rightharpoonup> int))" where
  "fkb_inputs be db =
     bindE (ok_or (be_xmlvalue be) NoDatabase) (\<lambda>rows.
     bindE (ok_or (db_fault_doc db) MissingTable) (\<lambda>fds.
     bindE (ok_or (db_infoobject db) MissingTable) (\<lambda>ios.
     bindE (id_map rows Map.empty) (\<lambda>ids. Inr (wanted_fkb fds ios, rows, ids)))))"

definition build_fkb :: "'x build_env \<Rightarrow> build_db \<Rightarrow> ('x build_error + nat) \<times> build_db" where
  "build_fkb be db =
     (case fkb_inputs be db of
        Inl e \<Rightarrow> (Inl e, db)
      | Inr (wanted, rows, ids) \<Rightarrow>
          if db_docs db \<noteq> None \<and> \<not> be_can_remove be then (Inl OutputFile, db)
          else let gone = db\<lparr>db_docs := None\<rparr> in
          if \<not> be_can_create be then (Inl OutputFile, gone)
          else let fresh = gone\<lparr>db_docs := Some []\<rparr> in
          (case build_fkb_rows (be_predefined be) (be_gzip be) (body_of (be_xml be) rows ids) wanted of
             Inl e \<Rightarrow> (Inl e, fresh)
           | Inr stored \<Rightarrow> (Inr (length stored), fresh\<lparr>db_docs := Some stored\<rparr>)))"

section \<open>The topology pass\<close>

definition tree_inputs ::
    "'x build_env \<Rightarrow> (ustring \<times> int) list \<Rightarrow> 'x build_error + ((ustring \<times> int) list \<times> content_cells list \<times> (ustring \<rightharpoonup> int))" where
  "tree_inputs be pointers =
     bindE (ok_or (be_xmlvalue_other be) NoDatabase) (\<lambda>rows.
     bindE (id_map rows Map.empty) (\<lambda>ids. Inr (sort_key fst pointers, rows, ids)))"

text \<open>A database without the pointer table is left as it is.\<close>

definition build_ecu_tree :: "'x build_env \<Rightarrow> build_db \<Rightarrow> ('x build_error + nat \<times> nat) \<times> build_db" where
  "build_ecu_tree be db =
     (case bd_bordnet_doc db of
        None \<Rightarrow> (Inr (0, 0), db)
      | Some pointers \<Rightarrow>
     (case tree_inputs be pointers of
        Inl e \<Rightarrow> (Inl e, db)
      | Inr (wanted, rows, ids) \<Rightarrow>
          let fresh = db\<lparr>db_ecu_tree := Some [], bd_ecu_housing := Some []\<rparr> in
          (case build_rows (body_of (be_xml be) rows ids) wanted of
             Inl e \<Rightarrow> (Inl e, fresh)
           | Inr (platforms, tree, housings) \<Rightarrow>
               (Inr (platforms, length tree),
                fresh\<lparr>db_ecu_tree := Some tree, bd_ecu_housing := Some housings\<rparr>))))"

section \<open>The program\<close>

text \<open>The two lines it reports: the bodies written, then the rows and the platforms.\<close>

datatype build_line = WroteBodies nat | WroteTree nat nat

definition docbuild_main ::
    "'x build_env \<Rightarrow> bool \<Rightarrow> build_db \<Rightarrow> ('x build_error + unit) \<times> build_line list \<times> build_db" where
  "docbuild_main be with_other db =
     (case build_fkb be db of
        (Inl e, db1) \<Rightarrow> (Inl e, [], db1)
      | (Inr n, db1) \<Rightarrow>
          if \<not> with_other then (Inr (), [WroteBodies n], db1)
          else (case build_ecu_tree be db1 of
             (Inl e, db2) \<Rightarrow> (Inl e, [WroteBodies n], db2)
           | (Inr (platforms, rows), db2) \<Rightarrow> (Inr (), [WroteBodies n, WroteTree rows platforms], db2)))"

section \<open>What it leaves\<close>

text \<open>The stored bodies and tables of a complete pass.\<close>

definition fkb_result :: "'x build_env \<Rightarrow> build_db \<Rightarrow> (int \<times> bytes) list option" where
  "fkb_result be db =
     (case fkb_inputs be db of
        Inl e \<Rightarrow> None
      | Inr (wanted, rows, ids) \<Rightarrow>
          (case build_fkb_rows (be_predefined be) (be_gzip be) (body_of (be_xml be) rows ids) wanted of
             Inl e \<Rightarrow> None | Inr stored \<Rightarrow> Some stored))"

definition tree_result ::
    "'x build_env \<Rightarrow> build_db \<Rightarrow> (nat \<times> tree_row list \<times> (ustring \<times> int option \<times> int option \<times> int) list) option" where
  "tree_result be db =
     (case bd_bordnet_doc db of
        None \<Rightarrow> None
      | Some pointers \<Rightarrow>
          (case tree_inputs be pointers of
             Inl e \<Rightarrow> None
           | Inr (wanted, rows, ids) \<Rightarrow>
               (case build_rows (body_of (be_xml be) rows ids) wanted of Inl e \<Rightarrow> None | Inr r \<Rightarrow> Some r)))"

lemma build_fkb_cases:
  "build_fkb be db = (r, db') \<Longrightarrow>
   (\<exists>stored. r = Inr (length stored) \<and> fkb_result be db = Some stored \<and> db' = db\<lparr>db_docs := Some stored\<rparr>)
   \<or> (\<exists>e. r = Inl e \<and> (db' = db \<or> db' = db\<lparr>db_docs := None\<rparr> \<or> db' = db\<lparr>db_docs := Some []\<rparr>))"
  by (auto simp: build_fkb_def fkb_result_def Let_def split: sum.splits if_splits)

lemma build_ecu_tree_cases:
  "build_ecu_tree be db = (r, db') \<Longrightarrow>
   (\<exists>n tree housings. r = Inr (n, length tree) \<and> tree_result be db = Some (n, tree, housings)
      \<and> bd_bordnet_doc db \<noteq> None \<and> db' = db\<lparr>db_ecu_tree := Some tree, bd_ecu_housing := Some housings\<rparr>)
   \<or> (r = Inr (0, 0) \<and> bd_bordnet_doc db = None \<and> db' = db)
   \<or> (\<exists>e. r = Inl e \<and> (db' = db \<or> db' = db\<lparr>db_ecu_tree := Some [], bd_ecu_housing := Some []\<rparr>))"
  by (auto simp: build_ecu_tree_def tree_result_def Let_def split: option.splits sum.splits prod.splits)

text \<open>The topology pass reads nothing the first pass writes.\<close>

lemma tree_result_docs [simp]: "tree_result be (db\<lparr>db_docs := d\<rparr>) = tree_result be db"
  by (simp add: tree_result_def)


end
