(* ===== verification/Client_Connect.thy ===== *)
theory Client_Connect
  imports Client_Ops Hsfz_Conn
begin

text \<open>
  Connecting, from the sockets up: \<open>DiagnosticClient::connect\<close> and \<open>discover_and_connect\<close> of
  \<open>crates/client/src/client.rs\<close> over the sockets of \<open>Hsfz_Conn\<close>, with the network's state passed
  through. \<open>Client_Ops\<close> has the same two over the outcomes alone; here they get them.
\<close>

definition connect_net ::
    "('ip, 'st, 'w) tcp \<Rightarrow> 'ip \<Rightarrow> client_config \<Rightarrow> 'w \<Rightarrow> (client_error + session) \<times> 'w" where
  "connect_net tcp ip config w =
     (case hsfz_connect tcp ip (cc_port config) (cc_connect_timeout config) (cc_read_timeout config) w of
        (Inl e, w1) \<Rightarrow> (Inl (CHsfz e), w1)
      | (Inr conn, w1) \<Rightarrow> (Inr (session_open (cc_tester config) ZGW_ADDRESS), w1))"

definition discover_and_connect_net ::
    "nat \<Rightarrow> ip_addr list option \<Rightarrow> ('ip, 'w) udp \<Rightarrow> ('ip, 'st, 'w) tcp \<Rightarrow> u32 option \<Rightarrow> u32 \<Rightarrow> u64 \<Rightarrow> client_config
     \<Rightarrow> 'w \<Rightarrow> ((client_error + session \<times> 'ip gateway) \<times> 'w) option" where
  "discover_and_connect_net fuel if_addrs udp tcp bind broadcast discovery_wait config w =
     (case (case bind of Some ip \<Rightarrow> Some ip | None \<Rightarrow> link_local_bind_ip if_addrs) of
        None \<Rightarrow> Some (Inl CNoLinkLocalInterface, w)
      | Some bind_ip \<Rightarrow>
     (case discover fuel udp bind_ip broadcast CONTROL_PORT discovery_wait w of
        None \<Rightarrow> None
      | Some (Inl e, w1) \<Rightarrow> Some (Inl (CHsfz e), w1)
      | Some (Inr gateways, w1) \<Rightarrow>
          (case gateways of
             [] \<Rightarrow> Some (Inl (CNoGatewayFound bind_ip), w1)
           | [gateway] \<Rightarrow>
               (case connect_net tcp (gw_ip gateway) config w1 of
                  (Inl e, w2) \<Rightarrow> Some (Inl e, w2)
                | (Inr client, w2) \<Rightarrow> Some (Inr (client, gateway), w2))
           | _ \<Rightarrow> Some (Inl (CAmbiguousGateway (length gateways)), w1))))"

section \<open>It is the client's connect\<close>

text \<open>The outcomes the sockets give, in the form \<open>Client_Ops\<close> takes them.\<close>

definition tcp_error ::
    "('ip, 'st, 'w) tcp \<Rightarrow> 'w \<Rightarrow> 'ip \<Rightarrow> client_config \<Rightarrow> hsfz_error option" where
  "tcp_error tcp w ip config =
     (case fst (hsfz_connect tcp ip (cc_port config) (cc_connect_timeout config) (cc_read_timeout config) w) of
        Inl e \<Rightarrow> Some e | Inr _ \<Rightarrow> None)"

lemma connect_net_refines: "fst (connect_net tcp ip config w) = client_connect (tcp_error tcp w) ip config"
  by (auto simp: connect_net_def client_connect_def tcp_error_def split: prod.split sum.split)

text \<open>
  Over the sockets \<open>discover_and_connect\<close> returns what it returns over the gateways the discovery
  found and the outcome of the TCP connect.
\<close>

lemma discover_and_connect_net_refines:
  assumes "discover_and_connect_net fuel if_addrs udp tcp bind broadcast discovery_wait config w = Some (r, w')"
  shows "\<exists>found w1. r = discover_and_connect (link_local_bind_ip if_addrs) (\<lambda>_ _. found) (tcp_error tcp w1) bind config"
proof (cases "case bind of Some ip \<Rightarrow> Some ip | None \<Rightarrow> link_local_bind_ip if_addrs")
  case None
  with assms show ?thesis
    by (auto simp: discover_and_connect_net_def discover_and_connect_def ok_or_def bindE_def split: option.splits)
next
  case (Some bind_ip)
  with assms obtain found w1 where d: "discover fuel udp bind_ip broadcast CONTROL_PORT discovery_wait w = Some (found, w1)"
    by (auto simp: discover_and_connect_net_def split: option.splits)
  have "(case bind of Some ip \<Rightarrow> Inr ip | None \<Rightarrow> ok_or (link_local_bind_ip if_addrs) CNoLinkLocalInterface) = Inr bind_ip"
    using Some by (auto simp: ok_or_def split: option.splits)
  moreover note connect_net_refines [of tcp _ config w1]
  ultimately have "r = discover_and_connect (link_local_bind_ip if_addrs) (\<lambda>_ _. found) (tcp_error tcp w1) bind config"
    using assms Some d
    by (auto simp: discover_and_connect_net_def discover_and_connect_def bindE_def map_err_def
        split: sum.splits list.splits prod.splits)
      (metis fst_conv sum.distinct(1) sum.inject)+
  then show ?thesis by blast
qed

text \<open>
  One gateway that is heard twice is more than one: a broadcast that draws two datagrams from the same
  address, an announcement and an answer, say, is not connected to.
\<close>

lemma heard_twice_ambiguous:
  assumes "discover fuel udp bind_ip broadcast CONTROL_PORT discovery_wait w =
      Some (Inr (collect_gateways [(ip, announcement), (ip, answer)]), w1)"
  shows "discover_and_connect_net fuel if_addrs udp tcp (Some bind_ip) broadcast discovery_wait config w =
      Some (Inl (CAmbiguousGateway 2), w1)"
  using assms by (simp add: discover_and_connect_net_def)

end
