(* ===== verification/Session_Wire.thy ===== *)
theory Session_Wire
  imports Client_Session Hsfz_Conn
begin

text \<open>
  The session of \<open>crates/client/src/session.rs\<close> over the bytes of its connection. The writers
  share the write half behind a mutex: a request or the keepalive takes the lock, the socket takes
  its frame in as many pieces as it likes, and the lock is released when the frame is flushed, when
  the write fails, or when the future that holds it is dropped. The reader task turns the bytes of
  the read half into frames and routes them.

  \<open>wire_event\<close> is one step of this, \<open>wire_trace\<close> the events of \<open>Client_Session\<close> a run amounts to. The
  frames that model calls written whole are, as long as no write is broken off, exactly the bytes
  on the wire.
\<close>

section \<open>The write half\<close>

datatype holder = HoldRequest nat | HoldKeepalive

fun holder_frame :: "holder \<Rightarrow> session \<Rightarrow> hsfz_frame" where
  "holder_frame (HoldRequest i) s =
     hsfz_diagnostic (ss_source s) (rq_target (ss_requests s ! i)) (rq_uds (ss_requests s ! i))"
| "holder_frame HoldKeepalive s =
     hsfz_diagnostic (ss_source s) (ss_gateway s) tester_present_suppressed"

text \<open>Who comes to the lock: a request after its registration, the keepalive task while it runs.\<close>

fun may_lock :: "holder \<Rightarrow> session \<Rightarrow> bool" where
  "may_lock (HoldRequest i) s \<longleftrightarrow> i < length (ss_requests s) \<and> rq_phase (ss_requests s ! i) = Registered"
| "may_lock HoldKeepalive s \<longleftrightarrow> ss_keepalive s"

text \<open>What the result of \<open>write_frame\<close> means to the writer.\<close>

fun written :: "holder \<Rightarrow> hsfz_error option \<Rightarrow> session_ev" where
  "written (HoldRequest i) result = Write i result"
| "written HoldKeepalive result = KeepaliveTick (result = None)"

record 's wire_state =
  wi_session :: session
  wi_inbound :: 's                            \<comment> \<open>the read half\<close>
  wi_out :: bytes                             \<comment> \<open>what the socket has taken\<close>
  wi_lock :: "(holder \<times> bytes) option"        \<comment> \<open>the holder, and the bytes of its frame still to go\<close>

definition wire_open :: "'s \<Rightarrow> u8 \<Rightarrow> u8 \<Rightarrow> 's wire_state" where
  "wire_open inbound source gateway =
     \<lparr>wi_session = session_open source gateway, wi_inbound = inbound, wi_out = [], wi_lock = None\<rparr>"

definition take_lock :: "holder \<Rightarrow> 's wire_state \<Rightarrow> 's wire_state" where
  "take_lock h w =
     (if wi_lock w = None \<and> may_lock h (wi_session w)
      then w\<lparr>wi_lock := Some (h, hsfz_encode (holder_frame h (wi_session w)))\<rparr> else w)"

text \<open>The socket takes the next \<open>n\<close> bytes of the frame being written.\<close>

definition write_chunk :: "nat \<Rightarrow> 's wire_state \<Rightarrow> 's wire_state" where
  "write_chunk n w =
     (case wi_lock w of
        None \<Rightarrow> w
      | Some (h, rem) \<Rightarrow> w\<lparr>wi_out := wi_out w @ take n rem, wi_lock := Some (h, drop n rem)\<rparr>)"

text \<open>\<open>write_frame\<close> returns: \<open>Ok\<close> once every byte is out and flushed, an error at any point.\<close>

definition write_returns :: "hsfz_error option \<Rightarrow> 's wire_state \<Rightarrow> 's wire_state" where
  "write_returns result w =
     (case wi_lock w of
        None \<Rightarrow> w
      | Some (h, rem) \<Rightarrow>
          if result = None \<and> rem \<noteq> [] then w
          else w\<lparr>wi_session := session_event (written h result) (wi_session w), wi_lock := None\<rparr>)"

text \<open>A dropped request future releases the lock it holds, wherever the write has got to.\<close>

definition drop_future :: "nat \<Rightarrow> 's wire_state \<Rightarrow> 's wire_state" where
  "drop_future i w =
     w\<lparr>wi_session := session_event (Cancel i) (wi_session w),
       wi_lock := (case wi_lock w of
                     Some (HoldRequest j, rem) \<Rightarrow> if j = i then None else wi_lock w
                   | l \<Rightarrow> l)\<rparr>"

section \<open>The read half\<close>

text \<open>One turn of the reader task: a frame is routed, anything else ends the task.\<close>

definition reader_event :: "'s reader \<Rightarrow> 's \<Rightarrow> session_ev \<times> 's" where
  "reader_event rx inbound =
     (case read_frame rx inbound of
        (Inr frame, s1) \<Rightarrow> (Incoming frame, s1)
      | (Inl e, s1) \<Rightarrow> (ReaderEnds, s1))"

definition reader_turn :: "'s reader \<Rightarrow> 's wire_state \<Rightarrow> 's wire_state" where
  "reader_turn rx w =
     (if ss_reader (wi_session w)
      then (case reader_event rx (wi_inbound w) of
              (ev, s1) \<Rightarrow> w\<lparr>wi_session := session_event ev (wi_session w), wi_inbound := s1\<rparr>)
      else w)"

section \<open>Steps\<close>

datatype wire_ev =
    WIssue u8 bytes
  | WRegister nat
  | WWake nat
  | WDropGuard nat
  | WLock holder
  | WChunk nat
  | WReturn "hsfz_error option"
  | WCancel nat
  | WReader

definition wire_event :: "'s reader \<Rightarrow> wire_ev \<Rightarrow> 's wire_state \<Rightarrow> 's wire_state" where
  "wire_event rx ev w =
     (case ev of
        WIssue target uds \<Rightarrow> w\<lparr>wi_session := session_event (Issue target uds) (wi_session w)\<rparr>
      | WRegister i \<Rightarrow> w\<lparr>wi_session := session_event (Register i) (wi_session w)\<rparr>
      | WWake i \<Rightarrow> w\<lparr>wi_session := session_event (Wake i) (wi_session w)\<rparr>
      | WDropGuard i \<Rightarrow> w\<lparr>wi_session := session_event (DropGuard i) (wi_session w)\<rparr>
      | WLock h \<Rightarrow> take_lock h w
      | WChunk n \<Rightarrow> write_chunk n w
      | WReturn result \<Rightarrow> write_returns result w
      | WCancel i \<Rightarrow> drop_future i w
      | WReader \<Rightarrow> reader_turn rx w)"

definition wire_run :: "'s reader \<Rightarrow> wire_ev list \<Rightarrow> 's wire_state \<Rightarrow> 's wire_state" where
  "wire_run rx evs w = fold (wire_event rx) evs w"

lemma wire_run_simps [simp]:
  "wire_run rx [] w = w"
  "wire_run rx (ev # evs) w = wire_run rx evs (wire_event rx ev w)"
  "wire_run rx (xs @ ys) w = wire_run rx ys (wire_run rx xs w)"
  by (simp_all add: wire_run_def)

text \<open>The events of the session a step amounts to: none for the steps inside a write.\<close>

definition session_evs :: "'s reader \<Rightarrow> wire_ev \<Rightarrow> 's wire_state \<Rightarrow> session_ev list" where
  "session_evs rx ev w =
     (case ev of
        WIssue target uds \<Rightarrow> [Issue target uds]
      | WRegister i \<Rightarrow> [Register i]
      | WWake i \<Rightarrow> [Wake i]
      | WDropGuard i \<Rightarrow> [DropGuard i]
      | WLock h \<Rightarrow> []
      | WChunk n \<Rightarrow> []
      | WReturn result \<Rightarrow>
          (case wi_lock w of
             None \<Rightarrow> []
           | Some (h, rem) \<Rightarrow> if result = None \<and> rem \<noteq> [] then [] else [written h result])
      | WCancel i \<Rightarrow> [Cancel i]
      | WReader \<Rightarrow> if ss_reader (wi_session w) then [fst (reader_event rx (wi_inbound w))] else [])"

fun wire_trace :: "'s reader \<Rightarrow> wire_ev list \<Rightarrow> 's wire_state \<Rightarrow> session_ev list" where
  "wire_trace rx [] w = []"
| "wire_trace rx (ev # evs) w = session_evs rx ev w @ wire_trace rx evs (wire_event rx ev w)"

lemmas wire_ops = take_lock_def write_chunk_def write_returns_def drop_future_def reader_turn_def

lemma wire_event_session:
  "wi_session (wire_event rx ev w) = session_run (session_evs rx ev w) (wi_session w)"
  by (auto simp: wire_event_def session_evs_def wire_ops split: wire_ev.split option.split prod.split)

lemma session_run_append: "session_run (xs @ ys) s = session_run ys (session_run xs s)"
  by (simp add: session_run_def)

text \<open>Every run over the bytes is a run of the session.\<close>

lemma wire_run_session: "wi_session (wire_run rx evs w) = session_run (wire_trace rx evs w) (wi_session w)"
  by (induction evs arbitrary: w) (simp_all add: wire_event_session session_run_append)

section \<open>What a step leaves alone\<close>

lemma event_fields:
  "ss_source (session_event ev s) = ss_source s" "ss_gateway (session_event ev s) = ss_gateway s"
  by (cases ev; auto simp: session_event_def issue_def register_slot_def write_request_def wake_def
      set_phase_def drain_def drop_guard_def route_frame_def finish_def Let_def
      split: request_phase.split option.split delivery.split list.split)+

lemma event_uds:
  assumes "i < length (ss_requests s)"
  shows "rq_uds (ss_requests (session_event ev s) ! i) = rq_uds (ss_requests s ! i)"
  using assms
  by (cases ev; auto simp: session_event_def issue_def register_slot_def write_request_def wake_def
      set_phase_def drain_nth route_frame_def finish_def send_nth nth_append nth_list_update Let_def
      split: request_phase.split option.split delivery.split list.split)

lemma event_wire:
  "(\<And>h r. ev \<noteq> written h r) \<Longrightarrow> ss_wire (session_event ev s) = ss_wire s"
proof (cases ev)
  case (Write i r)
  moreover assume "\<And>h r. ev \<noteq> written h r"
  ultimately show ?thesis using written.simps(1) by metis
next
  case (KeepaliveTick ok)
  moreover assume "\<And>h r. ev \<noteq> written h r"
  moreover have "KeepaliveTick ok = written HoldKeepalive (if ok then None else Some HsfzIo)" by simp
  ultimately show ?thesis by metis
qed (auto simp: session_event_def issue_def register_slot_def wake_def
      set_phase_def drain_def drop_guard_def route_frame_def finish_def Let_def
      split: request_phase.split option.split delivery.split list.split)

lemma length_drain: "length (ss_requests (drain s)) = length (ss_requests s)"
  by (simp add: drain_def)

lemma not_written:
  "Issue target uds \<noteq> written h r" "Register i \<noteq> written h r" "Wake i \<noteq> written h r"
  "DropGuard i \<noteq> written h r" "Cancel i \<noteq> written h r" "Incoming f \<noteq> written h r" "ReaderEnds \<noteq> written h r"
  by (cases h; simp)+

text \<open>A holder of the lock stays where it is until its write returns or its future is dropped.\<close>

lemma may_lock_stable:
  assumes "may_lock h s" "\<And>r. ev \<noteq> written h r" "\<And>i. h = HoldRequest i \<Longrightarrow> ev \<noteq> Cancel i"
  shows "may_lock h (session_event ev s)" "holder_frame h (session_event ev s) = holder_frame h s"
proof -
  show "may_lock h (session_event ev s)"
  proof (cases h)
    case (HoldRequest i)
    with assms show ?thesis
      by (cases ev) (auto simp: session_event_def issue_def register_slot_def write_request_def wake_def
        set_phase_def drain_nth length_drain route_frame_def finish_def nth_append nth_list_update Let_def
        split: request_phase.split option.split delivery.split list.split)
  next
    case HoldKeepalive
    show ?thesis
    proof (cases ev)
      case (KeepaliveTick ok)
      moreover have "KeepaliveTick ok = written HoldKeepalive (if ok then None else Some HsfzIo)" by simp
      ultimately show ?thesis using HoldKeepalive assms(2) by metis
    qed (use assms HoldKeepalive in \<open>auto simp: session_event_def issue_def register_slot_def write_request_def wake_def
        set_phase_def drain_def drop_guard_def route_frame_def finish_def Let_def
        split: request_phase.split option.split delivery.split list.split\<close>)
  qed
  show "holder_frame h (session_event ev s) = holder_frame h s"
    using assms(1) by (cases h) (simp_all add: event_fields event_same event_uds)
qed

text \<open>A write that returns puts the frame of its holder on the wire, or nothing.\<close>

lemma written_wire:
  assumes "may_lock h s"
  shows "ss_wire (session_event (written h r) s) =
    ss_wire s @ (if r = None then [holder_frame h s] else [])"
  using assms by (cases h; cases r) (auto simp: session_event_def write_request_def set_phase_def Let_def)

section \<open>Whole frames\<close>

definition wire_held :: "'s wire_state \<Rightarrow> hsfz_frame list" where
  "wire_held w = (case wi_lock w of None \<Rightarrow> [] | Some (h, rem) \<Rightarrow> [holder_frame h (wi_session w)])"

definition wire_rest :: "'s wire_state \<Rightarrow> bytes" where
  "wire_rest w = (case wi_lock w of None \<Rightarrow> [] | Some (h, rem) \<Rightarrow> rem)"

text \<open>A step that breaks a write off: an error returned to the holder, or the holder dropped.\<close>

definition breaks_off :: "wire_ev \<Rightarrow> 's wire_state \<Rightarrow> bool" where
  "breaks_off ev w =
     (case wi_lock w of
        None \<Rightarrow> False
      | Some (h, rem) \<Rightarrow>
          (case ev of
             WReturn (Some e) \<Rightarrow> True
           | WCancel i \<Rightarrow> h = HoldRequest i
           | _ \<Rightarrow> False))"

fun unbroken :: "'s reader \<Rightarrow> wire_ev list \<Rightarrow> 's wire_state \<Rightarrow> bool" where
  "unbroken rx [] w = True"
| "unbroken rx (ev # evs) w \<longleftrightarrow> \<not> breaks_off ev w \<and> unbroken rx evs (wire_event rx ev w)"

definition wire_locked :: "'s wire_state \<Rightarrow> bool" where
  "wire_locked w = (case wi_lock w of None \<Rightarrow> True | Some (h, rem) \<Rightarrow> may_lock h (wi_session w))"

definition wire_whole :: "'s wire_state \<Rightarrow> bool" where
  "wire_whole w \<longleftrightarrow> wire_locked w
     \<and> wi_out w @ wire_rest w = concat (map hsfz_encode (ss_wire (wi_session w) @ wire_held w))"

lemma reader_event_not_written: "fst (reader_event rx s) \<noteq> written h r" "fst (reader_event rx s) \<noteq> Cancel i"
  by (auto simp: reader_event_def not_written split: prod.split sum.split)

text \<open>A session event that is no end of a write leaves the write half as it is.\<close>

lemma pass_whole:
  assumes "wire_whole w" and ev: "\<And>h r. ev \<noteq> written h r"
    "\<And>i rem. wi_lock w = Some (HoldRequest i, rem) \<Longrightarrow> ev \<noteq> Cancel i"
    and w': "wi_session w' = session_event ev (wi_session w)" "wi_out w' = wi_out w" "wi_lock w' = wi_lock w"
  shows "wire_whole w'"
proof (cases "wi_lock w")
  case None
  with assms event_wire [OF ev(1)] show ?thesis
    by (simp add: wire_whole_def wire_locked_def wire_rest_def wire_held_def)
next
  case (Some hr)
  then obtain h rem where hr: "wi_lock w = Some (h, rem)" by (cases hr) simp
  then have "may_lock h (wi_session w)" using assms(1) by (simp add: wire_whole_def wire_locked_def)
  from may_lock_stable [OF this ev(1)] ev(2) hr
  have "may_lock h (session_event ev (wi_session w))"
    "holder_frame h (session_event ev (wi_session w)) = holder_frame h (wi_session w)" by blast+
  with assms hr event_wire [OF ev(1)] show ?thesis
    by (simp add: wire_whole_def wire_locked_def wire_rest_def wire_held_def)
qed

lemma event_whole:
  assumes "wire_whole w" "\<not> breaks_off ev w"
  shows "wire_whole (wire_event rx ev w)"
proof (cases ev)
  case (WReturn result)
  show ?thesis
  proof (cases "wi_lock w")
    case None
    with assms WReturn show ?thesis by (simp add: wire_event_def write_returns_def)
  next
    case (Some hr)
    then obtain h rem where hr: "wi_lock w = Some (h, rem)" by (cases hr) simp
    then have "result = None" using assms(2) WReturn by (cases result) (auto simp: breaks_off_def)
    moreover have "may_lock h (wi_session w)" using assms(1) hr by (simp add: wire_whole_def wire_locked_def)
    ultimately show ?thesis
      using assms(1) hr WReturn written_wire [of h "wi_session w" None]
      by (auto simp: wire_event_def write_returns_def wire_whole_def wire_locked_def wire_rest_def wire_held_def)
  qed
next
  case (WCancel i)
  with assms have free: "wi_lock w \<noteq> Some (HoldRequest i, rem)" for rem by (auto simp: breaks_off_def)
  then have lock: "wi_lock (drop_future i w) = wi_lock w"
    by (auto simp: drop_future_def split: option.split holder.split)
  show ?thesis
    unfolding WCancel wire_event_def wire_ev.case
  proof (rule pass_whole [OF assms(1), of "Cancel i"])
    show "wi_lock (drop_future i w) = wi_lock w" by (rule lock)
    show "Cancel i \<noteq> Cancel j" if "wi_lock w = Some (HoldRequest j, rem)" for j rem
      using that free by auto
  qed (simp_all add: not_written drop_future_def)
next
  case WReader
  show ?thesis
  proof (cases "ss_reader (wi_session w)")
    case True
    have w': "wi_session (reader_turn rx w) = session_event (fst (reader_event rx (wi_inbound w))) (wi_session w)"
      "wi_out (reader_turn rx w) = wi_out w" "wi_lock (reader_turn rx w) = wi_lock w"
      using True by (simp_all add: reader_turn_def split: prod.split)
    show ?thesis
      unfolding WReader wire_event_def wire_ev.case
      by (rule pass_whole [OF assms(1) _ _ w']) (rule reader_event_not_written)+
  qed (use assms(1) WReader in \<open>simp add: wire_event_def reader_turn_def\<close>)
next
  case (WLock h)
  with assms(1) show ?thesis
    by (auto simp: wire_event_def take_lock_def wire_whole_def wire_locked_def wire_rest_def wire_held_def)
next
  case (WChunk n)
  with assms(1) show ?thesis
    by (auto simp: wire_event_def write_chunk_def wire_whole_def wire_locked_def wire_rest_def wire_held_def
        split: option.splits)
next
  case (WIssue target uds)
  show ?thesis unfolding WIssue
    by (rule pass_whole [OF assms(1), of "Issue target uds"])
      (simp_all add: wire_event_def not_written)
next
  case (WRegister i)
  show ?thesis unfolding WRegister
    by (rule pass_whole [OF assms(1), of "Register i"]) (simp_all add: wire_event_def not_written)
next
  case (WWake i)
  show ?thesis unfolding WWake
    by (rule pass_whole [OF assms(1), of "Wake i"]) (simp_all add: wire_event_def not_written)
next
  case (WDropGuard i)
  show ?thesis unfolding WDropGuard
    by (rule pass_whole [OF assms(1), of "DropGuard i"]) (simp_all add: wire_event_def not_written)
qed

lemma run_whole: "wire_whole w \<Longrightarrow> unbroken rx evs w \<Longrightarrow> wire_whole (wire_run rx evs w)"
  by (induction evs arbitrary: w) (simp_all add: event_whole)

lemma open_whole: "wire_whole (wire_open inbound source gateway)"
  by (simp add: wire_whole_def wire_locked_def wire_rest_def wire_held_def wire_open_def session_open_def)

section \<open>The peer reads the frames back\<close>

fun read_frames :: "'p reader \<Rightarrow> nat \<Rightarrow> 'p \<Rightarrow> (hsfz_error + hsfz_frame list) \<times> 'p" where
  "read_frames rx 0 s = (Inr [], s)"
| "read_frames rx (Suc n) s =
     (case read_frame rx s of
        (Inl e, s1) \<Rightarrow> (Inl e, s1)
      | (Inr f, s1) \<Rightarrow>
     (case read_frames rx n s1 of
        (Inl e, s2) \<Rightarrow> (Inl e, s2)
      | (Inr fs, s2) \<Rightarrow> (Inr (f # fs), s2)))"

lemma read_frames_concat:
  assumes "exact_reader rx stream" "list_all hsfz_wf fs" "stream s = concat (map hsfz_encode fs) @ tail"
  shows "\<exists>s'. read_frames rx (length fs) s = (Inr fs, s') \<and> stream s' = tail"
  using assms(2,3)
proof (induction fs arbitrary: s)
  case (Cons f fs)
  then obtain s1 where "read_frame rx s = (Inr f, s1)" "stream s1 = concat (map hsfz_encode fs) @ tail"
    using read_frame_reassembles [OF assms(1), of s f] by auto
  with Cons show ?case by fastforce
qed simp

text \<open>A request of up to 65534 bytes makes a frame that \<open>decode\<close> accepts.\<close>

lemma diagnostic_wf: "hsfz_wf (hsfz_diagnostic source target uds) \<longleftrightarrow> length uds \<le> 65534"
  by (auto simp: hsfz_wf_def hsfz_diagnostic_def hsfz_body_def hsfz_consts control_has_addrs_def)

text \<open>
  C8. As long as no write is broken off, however the tasks interleave and however the socket cuts
  the bytes, what the connection carries is whole frames: whenever the lock is free, a peer that
  reads them with \<open>read_frame\<close>, however TCP has cut them again, gets exactly the requests and
  keepalives written, in order, and no byte of them is left over.
\<close>
theorem wire_reads_back:
  assumes "unbroken rx evs (wire_open inbound source gateway)"
    and w: "w = wire_run rx evs (wire_open inbound source gateway)" and "wi_lock w = None"
    and wf: "list_all hsfz_wf (ss_wire (wi_session w))"
    and rx: "exact_reader prx stream" and p: "stream p = wi_out w @ tail"
  shows "\<exists>p'. read_frames prx (length (ss_wire (wi_session w))) p = (Inr (ss_wire (wi_session w)), p')
    \<and> stream p' = tail"
proof -
  have "wire_whole w" using run_whole [OF open_whole assms(1)] w by simp
  then have "wi_out w = concat (map hsfz_encode (ss_wire (wi_session w)))"
    using assms(3) by (simp add: wire_whole_def wire_rest_def wire_held_def)
  with read_frames_concat [OF rx wf] p show ?thesis by simp
qed

text \<open>
  Two requests and a keepalive contend for the lock; the socket takes their frames in pieces, and
  the peer's TCP cuts them elsewhere.
\<close>

definition demo_wire :: "wire_ev list" where
  "demo_wire =
     [WIssue 0x12 [0x22, 0xF1, 0x90], WIssue 0x40 [0x3E, 0x00], WRegister 1, WRegister 0,
      WLock (HoldRequest 1), WChunk 3, WLock HoldKeepalive, WLock (HoldRequest 0), WChunk 4, WReturn None,
      WChunk 9, WReturn None, WLock HoldKeepalive, WChunk 10, WReturn None, WLock (HoldRequest 0),
      WChunk 7, WReader, WChunk 4, WReturn None]"

lemmas wire_eval = demo_wire_def wire_open_def wire_event_def take_lock_def write_chunk_def write_returns_def
  drop_future_def reader_turn_def reader_event_def breaks_off_def session_eval

theorem wire_reads_back_witness:
  "let w = wire_run segment_reader demo_wire (wire_open [] 0xF4 0x10) in
     length (ss_wire (wi_session w)) = 3 \<and> wi_lock w = None
     \<and> (\<exists>p'. read_frames segment_reader 3 [take 5 (wi_out w), drop 5 (wi_out w) @ [9]]
          = (Inr (ss_wire (wi_session w)), p') \<and> concat p' = [9])"
proof -
  let ?w = "wire_run segment_reader demo_wire (wire_open [] 0xF4 0x10)"
  have unbroken: "unbroken segment_reader demo_wire (wire_open [] 0xF4 0x10)"
    by code_simp
  have lock: "wi_lock ?w = None" by code_simp
  have wire: "ss_wire (wi_session ?w) = [hsfz_diagnostic 0xF4 0x40 [0x3E, 0x00],
      hsfz_diagnostic 0xF4 0x10 [0x3E, 0x80], hsfz_diagnostic 0xF4 0x12 [0x22, 0xF1, 0x90]]"
    by code_simp
  then have len: "length (ss_wire (wi_session ?w)) = 3" and wf: "list_all hsfz_wf (ss_wire (wi_session ?w))"
    by (simp_all add: diagnostic_wf)
  have "concat [take 5 (wi_out ?w), drop 5 (wi_out ?w) @ [9]] = wi_out ?w @ [9]" by simp
  from wire_reads_back [OF unbroken refl lock wf exact_reader_segments this] lock len show ?thesis
    by (simp add: Let_def)
qed

section \<open>The frames the reader routes\<close>

text \<open>
  What the documentation of \<open>read_exact\<close> promises: a buffer it fills holds the next bytes of the
  stream, as many as were asked for.
\<close>

definition stream_reader :: "'s reader \<Rightarrow> ('s \<Rightarrow> bytes) \<Rightarrow> bool" where
  "stream_reader rx stream \<longleftrightarrow>
     (\<forall>n s bs s'. rx n s = (Filled bs, s') \<longrightarrow> length bs = n \<and> stream s = bs @ stream s')"

lemma stream_readerD:
  "stream_reader rx stream \<Longrightarrow> rx n s = (Filled bs, s') \<Longrightarrow> length bs = n \<and> stream s = bs @ stream s'"
  by (simp add: stream_reader_def)

lemma stream_reader_segments: "stream_reader segment_reader concat"
  by (auto simp: stream_reader_def)

lemma read_frame_consumes:
  assumes rx: "stream_reader rx stream" and f: "read_frame rx s = (Inr f, s')"
  shows "stream s = hsfz_encode f @ stream s'"
proof -
  obtain lb s1 rb where lb: "rx 4 s = (Filled lb, s1)"
    and rb: "rx (2 + unat (be32 (lb ! 0) (lb ! 1) (lb ! 2) (lb ! 3))) s1 = (Filled rb, s')"
    and dec: "hsfz_decode (lb @ rb) = Inr f"
    using f by (auto simp: read_frame_def read_exact_timed_def Let_def
        split: prod.splits io_outcome.splits sum.splits if_splits)
  note 4 = stream_readerD [OF rx lb] and r = stream_readerD [OF rx rb]
  obtain more_bytes where whole: "lb @ rb = hsfz_encode f @ more_bytes" and wf: "hsfz_wf f"
    using hsfz_decode_canonical [OF dec] by blast
  let ?w = "of_nat (length (hsfz_body f)) :: u32"
  have "lb = be32_bytes ?w"
    using whole 4 by (simp add: hsfz_encode_def Let_def append_eq_append_conv2 be32_bytes_def)
      (auto simp: numeral_eq_Suc length_Suc_conv)
  then have "unat (be32 (lb ! 0) (lb ! 1) (lb ! 2) (lb ! 3)) = length (hsfz_body f)"
    using wf by (simp add: be32_bytes_nth hsfz_wf_def MAX_FRAME_LEN_def unat_of_nat)
  with r 4 have "length (lb @ rb) = length (hsfz_encode f)" by simp
  with whole have "lb @ rb = hsfz_encode f" by simp
  with 4 r show ?thesis by simp
qed

fun incoming :: "session_ev list \<Rightarrow> hsfz_frame list" where
  "incoming [] = []"
| "incoming (Incoming f # evs) = f # incoming evs"
| "incoming (ev # evs) = incoming evs"

lemma incoming_append [simp]: "incoming (xs @ ys) = incoming xs @ incoming ys"
  by (induction xs rule: incoming.induct) simp_all

lemma incoming_session_evs:
  "incoming (session_evs rx ev w) =
     (case ev of WReader \<Rightarrow>
        if ss_reader (wi_session w)
        then (case read_frame rx (wi_inbound w) of (Inr f, _) \<Rightarrow> [f] | _ \<Rightarrow> []) else []
      | _ \<Rightarrow> [])"
proof -
  have "incoming [written h r] = []" for h r by (cases h) simp_all
  then show ?thesis
    by (auto simp: session_evs_def reader_event_def split: wire_ev.split option.split prod.split sum.split)
qed

lemma wire_event_inbound: "ev \<noteq> WReader \<Longrightarrow> wi_inbound (wire_event rx ev w) = wi_inbound w"
  by (auto simp: wire_event_def wire_ops split: wire_ev.split option.split)

lemma wire_event_reader: "\<not> ss_reader (wi_session w) \<Longrightarrow> \<not> ss_reader (wi_session (wire_event rx ev w))"
proof -
  have "\<not> ss_reader s \<Longrightarrow> \<not> ss_reader (session_run evs s)" for evs s
    by (induction evs arbitrary: s) (simp_all add: event_reader)
  then show "\<not> ss_reader (wi_session w) \<Longrightarrow> ?thesis" by (simp add: wire_event_session)
qed

lemma no_reader_no_frames: "\<not> ss_reader (wi_session w) \<Longrightarrow> incoming (wire_trace rx evs w) = []"
proof (induction evs arbitrary: w)
  case (Cons ev evs)
  from Cons.IH [OF wire_event_reader [OF Cons.prems]] Cons.prems show ?case
    by (auto simp: incoming_session_evs split: wire_ev.split)
qed simp

text \<open>The frames routed are the first frames of the inbound stream, none skipped and none invented.\<close>

lemma run_inbound:
  assumes rx: "stream_reader rx stream"
  shows "\<exists>tail. stream (wi_inbound w) = concat (map hsfz_encode (incoming (wire_trace rx evs w))) @ tail"
proof (induction evs arbitrary: w)
  case (Cons ev evs)
  show ?case
  proof (cases "ev = WReader \<and> ss_reader (wi_session w)")
    case True
    show ?thesis
    proof (cases "read_frame rx (wi_inbound w)")
      case (Pair r s1)
      show ?thesis
      proof (cases r)
        case (Inl e)
        with True Pair have "wi_session (wire_event rx ev w) = drain (wi_session w)"
          by (simp add: wire_event_def reader_turn_def reader_event_def session_event_def)
        then have "\<not> ss_reader (wi_session (wire_event rx ev w))" by (simp add: drain_def)
        with True Inl Pair show ?thesis
          by (simp add: incoming_session_evs no_reader_no_frames)
      next
        case (Inr f)
        with True Pair have "wi_inbound (wire_event rx ev w) = s1"
          by (simp add: wire_event_def reader_turn_def reader_event_def)
        with True Inr Pair Cons [of "wire_event rx ev w"] read_frame_consumes [OF rx, of "wi_inbound w" f s1]
        show ?thesis by (auto simp: incoming_session_evs)
      qed
    qed
  next
    case False
    then have "incoming (session_evs rx ev w) = []"
      by (auto simp: incoming_session_evs split: wire_ev.split)
    moreover have "wi_inbound (wire_event rx ev w) = wi_inbound w"
      using False
      by (cases "ev = WReader", simp_all add: wire_event_inbound, simp add: wire_event_def reader_turn_def)
    ultimately show ?thesis using Cons [of "wire_event rx ev w"] by simp
  qed
qed simp

text \<open>
  C7. No answer is made up on the way from the socket: a payload or a negative response that a
  request returns stands in the bytes the read half delivered, whole, as the encoding of a
  diagnostic frame from the ECU the request addressed that answers the service it asked for. This
  holds for every interleaving and every cut of the bytes; every other result is an error of the
  connection.
\<close>
theorem wire_attribution:
  assumes rx: "stream_reader rx stream" and w: "w = wire_run rx evs (wire_open inbound source gateway)"
    and "length (ss_requests (wi_session w)) \<le> 2 ^ 64" and "i < length (ss_requests (wi_session w))"
    and rq: "rq = ss_requests (wi_session w) ! i" and "rq_phase rq = Left (Some r)"
  shows "(r = Inl (CRequestInFlight (rq_target rq)) \<or> r = Inl CConnectionClosed \<or> (\<exists>e. r = Inl (CHsfz e)))
    \<or> (\<exists>before f after. stream inbound = before @ hsfz_encode f @ after
        \<and> answers (rq_target rq) (rq_sid rq) r f)"
proof -
  let ?tr = "wire_trace rx evs (wire_open inbound source gateway)"
  have s: "wi_session w = session_run ?tr (session_open source gateway)"
    using wire_run_session [of rx evs] w by (simp add: wire_open_def)
  obtain tail where tail: "stream inbound = concat (map hsfz_encode (incoming ?tr)) @ tail"
    using run_inbound [OF rx, of "wire_open inbound source gateway" evs] by (auto simp: wire_open_def)
  have "outcome_of rq r" using assms(6) by (simp add: outcome_of_def)
  with run_outcome [of ?tr source gateway i r] assms(3-5) s
  have "local_result (rq_target rq) r \<or>
      (\<exists>pre f later. ?tr = pre @ Incoming f # later \<and> answers (rq_target rq) (rq_sid rq) r f)"
    by (auto simp: Let_def)
  moreover have "\<exists>before after. stream inbound = before @ hsfz_encode f @ after"
    if "?tr = pre @ Incoming f # later" for pre f later
    using tail that by simp blast
  ultimately show ?thesis unfolding local_result_def by blast
qed

definition demo_inbound :: "bytes list" where
  "demo_inbound = [[0, 0, 0, 3, 0, 2, 0x12], [0xF4, 0x62, 0, 0, 0, 6, 0, 1, 0x12, 0xF4, 0x62], [0xF1, 0x90, 7]]"

theorem wire_attribution_witness:
  "\<exists>before f after. concat demo_inbound = before @ hsfz_encode f @ after
     \<and> answers 0x12 0x22 (Inr [0x62, 0xF1, 0x90, 7]) f"
proof -
  let ?evs = "[WIssue 0x12 [0x22, 0xF1, 0x90], WRegister 0, WLock (HoldRequest 0), WChunk 11, WReturn None,
      WReader, WReader, WWake 0, WDropGuard 0]"
  let ?w = "wire_run segment_reader ?evs (wire_open demo_inbound 0xF4 0x10)"
  have rs: "ss_requests (wi_session ?w) =
      [\<lparr>rq_target = 0x12, rq_uds = [0x22, 0xF1, 0x90], rq_sid = 0x22, rq_generation = 0, rq_inbox = [],
        rq_phase = Left (Some (Inr [0x62, 0xF1, 0x90, 7]))\<rparr>]"
    by code_simp
  from wire_attribution [OF stream_reader_segments refl, of ?evs demo_inbound "0xF4" "0x10" 0, OF _ _ refl,
      of "Inr [0x62, 0xF1, 0x90, 7]"] rs
  show ?thesis by (simp del: wire_run_simps concat.simps)
qed

section \<open>The reader task as a loop\<close>

text \<open>
  The task on its own: \<open>while let Ok(frame) = read_frame(..) { route_frame(..) }\<close>, then the drain.
  \<open>None\<close> is a loop the fuel did not see the end of.
\<close>

fun reader_task :: "nat \<Rightarrow> 's reader \<Rightarrow> 's \<Rightarrow> session \<Rightarrow> (session \<times> 's) option" where
  "reader_task 0 rx inbound s = None"
| "reader_task (Suc fuel) rx inbound s =
     (case read_frame rx inbound of
        (Inr frame, s1) \<Rightarrow> reader_task fuel rx s1 (route_frame frame s)
      | (Inl e, s1) \<Rightarrow> Some (drain s, s1))"

lemma reader_task_frames:
  assumes rx: "stream_reader rx stream" and "length (stream inbound) < 6 * fuel"
  shows "\<exists>fs last e s1. reader_task fuel rx inbound s = Some (drain (fold route_frame fs s), s1)
    \<and> stream inbound = concat (map hsfz_encode fs) @ stream last \<and> read_frame rx last = (Inl e, s1)"
  using assms(2)
proof (induction fuel arbitrary: inbound s)
  case (Suc fuel)
  obtain r s1 where r: "read_frame rx inbound = (r, s1)" by fastforce
  show ?case
  proof (cases r)
    case (Inl e)
    with r show ?thesis
      by (intro exI [of _ "[]"] exI [of _ inbound] exI [of _ e] exI [of _ s1]) simp
  next
    case (Inr f)
    with r have st: "stream inbound = hsfz_encode f @ stream s1" using read_frame_consumes [OF rx] by blast
    with Suc.prems have "length (stream s1) < 6 * fuel" by simp
    from Suc.IH [OF this, of "route_frame f s"] obtain fs lastin e s2 where
      fs: "reader_task fuel rx s1 (route_frame f s) = Some (drain (fold route_frame fs (route_frame f s)), s2)"
        "stream s1 = concat (map hsfz_encode fs) @ stream lastin" "read_frame rx lastin = (Inl e, s2)"
      by blast
    with r Inr st show ?thesis
      by (intro exI [of _ "f # fs"] exI [of _ lastin] exI [of _ e] exI [of _ s2]) simp
  qed
qed simp



section \<open>A write broken off\<close>

text \<open>
  A request dropped while its frame is on its way releases the lock with the frame half written.
  The next writer's frame follows in the middle of it: the peer takes the first bytes of the
  keepalive for the payload of the request, a request nobody made, and what is left of the
  keepalive for the header of a frame over the length cap.
\<close>

definition broken_wire :: "wire_ev list" where
  "broken_wire =
     [WIssue 0x12 [0x22, 0xF1, 0x90], WRegister 0, WLock (HoldRequest 0), WChunk 8, WCancel 0, WDropGuard 0,
      WLock HoldKeepalive, WChunk 10, WReturn None]"

lemma broken_off_write:
  "let w = wire_run segment_reader broken_wire (wire_open [] 0xF4 0x10) in
     ss_wire (wi_session w) = [hsfz_diagnostic 0xF4 0x10 [0x3E, 0x80]]
     \<and> read_frame segment_reader [wi_out w]
         = (Inr (hsfz_diagnostic 0xF4 0x12 [0, 0, 0]), [[4, 0, 1, 0xF4, 0x10, 0x3E, 0x80]])
     \<and> read_frame segment_reader [[4, 0, 1, 0xF4, 0x10, 0x3E, 0x80]]
         = (Inl (FrameTooLarge 0x040001F4), [[0x10, 0x3E, 0x80]])"
  by code_simp

section \<open>What the bytes can carry\<close>

text \<open>A frame the session may put on the wire, when its requests are all acceptable to \<open>ok\<close>.\<close>

definition frame_allowed :: "(u8 \<Rightarrow> bytes \<Rightarrow> bool) \<Rightarrow> session \<Rightarrow> hsfz_frame \<Rightarrow> bool" where
  "frame_allowed ok s f \<longleftrightarrow>
     f = hsfz_diagnostic (ss_source s) (ss_gateway s) tester_present_suppressed
     \<or> (case hf_addr f of
          None \<Rightarrow> False
        | Some (src, tgt) \<Rightarrow>
            ok tgt (hf_payload f) \<and> f = hsfz_diagnostic (ss_source s) tgt (hf_payload f))"

definition requests_ok :: "(u8 \<Rightarrow> bytes \<Rightarrow> bool) \<Rightarrow> session \<Rightarrow> bool" where
  "requests_ok ok s \<longleftrightarrow> list_all (\<lambda>rq. ok (rq_target rq) (rq_uds rq)) (ss_requests s)"

text \<open>Pieces of frames: of each, as many bytes as the socket took.\<close>

definition pieces :: "(hsfz_frame \<times> nat) list \<Rightarrow> bytes" where
  "pieces ps = concat (map (\<lambda>(f, n). take n (hsfz_encode f)) ps)"

definition wire_pieces :: "(u8 \<Rightarrow> bytes \<Rightarrow> bool) \<Rightarrow> 's wire_state \<Rightarrow> bool" where
  "wire_pieces ok w \<longleftrightarrow>
     (\<exists>ps. list_all (\<lambda>(f, n). frame_allowed ok (wi_session w) f) ps \<and>
       (case wi_lock w of
          None \<Rightarrow> wi_out w = pieces ps
        | Some (h, rem) \<Rightarrow>
            (\<exists>k. wi_out w = pieces ps @ take k (hsfz_encode (holder_frame h (wi_session w)))
               \<and> rem = drop k (hsfz_encode (holder_frame h (wi_session w))))))"

definition wire_safe :: "(u8 \<Rightarrow> bytes \<Rightarrow> bool) \<Rightarrow> 's wire_state \<Rightarrow> bool" where
  "wire_safe ok w \<longleftrightarrow> requests_ok ok (wi_session w) \<and> wire_locked w
     \<and> list_all (frame_allowed ok (wi_session w)) (ss_wire (wi_session w)) \<and> wire_pieces ok w"

lemma frame_allowed_event [simp]: "frame_allowed ok (session_event ev s) = frame_allowed ok s"
  by (simp add: fun_eq_iff frame_allowed_def event_fields cong: option.case_cong)

lemma event_requests_length:
  "(\<And>t u. ev \<noteq> Issue t u) \<Longrightarrow> length (ss_requests (session_event ev s)) = length (ss_requests s)"
  by (cases ev) (auto simp: session_event_def register_slot_def write_request_def wake_def
      set_phase_def length_drain route_frame_def finish_def Let_def
      split: request_phase.split option.split delivery.split list.split)

lemma event_requests_ok:
  assumes "requests_ok ok s" "\<And>t u. ev = Issue t u \<Longrightarrow> ok t u"
  shows "requests_ok ok (session_event ev s)"
proof (cases "\<exists>t u. ev = Issue t u")
  case True
  with assms show ?thesis by (auto simp: session_event_def issue_def requests_ok_def)
next
  case False
  then have "length (ss_requests (session_event ev s)) = length (ss_requests s)"
    by (intro event_requests_length) auto
  with assms(1) show ?thesis by (simp add: requests_ok_def list_all_length event_same event_uds)
qed

lemma holder_allowed:
  "requests_ok ok s \<Longrightarrow> may_lock h s \<Longrightarrow> frame_allowed ok s (holder_frame h s)"
  by (cases h) (auto simp: frame_allowed_def requests_ok_def list_all_length hsfz_diagnostic_def)

lemma pieces_append [simp]: "pieces (ps @ qs) = pieces ps @ pieces qs"
  by (simp add: pieces_def)

text \<open>A session event that is no end of a write.\<close>

lemma pass_safe:
  assumes safe: "wire_safe ok w" and ev: "\<And>h r. ev \<noteq> written h r"
    "\<And>i rem. wi_lock w = Some (HoldRequest i, rem) \<Longrightarrow> ev \<noteq> Cancel i" "\<And>t u. ev = Issue t u \<Longrightarrow> ok t u"
    and w': "wi_session w' = session_event ev (wi_session w)" "wi_out w' = wi_out w" "wi_lock w' = wi_lock w"
  shows "wire_safe ok w'"
proof -
  have "wire_locked w' \<and> wire_pieces ok w'"
  proof (cases "wi_lock w")
    case None
    with safe w' show ?thesis by (simp add: wire_safe_def wire_locked_def wire_pieces_def)
  next
    case (Some hr)
    then obtain h rem where hr: "wi_lock w = Some (h, rem)" by (cases hr) simp
    then have "may_lock h (wi_session w)" using safe by (simp add: wire_safe_def wire_locked_def)
    from may_lock_stable [OF this ev(1)] ev(2) hr
    have "may_lock h (session_event ev (wi_session w))"
      "holder_frame h (session_event ev (wi_session w)) = holder_frame h (wi_session w)" by blast+
    with safe hr w' show ?thesis by (simp add: wire_safe_def wire_locked_def wire_pieces_def)
  qed
  with safe w' ev event_wire [OF ev(1)] event_requests_ok show ?thesis
    by (simp add: wire_safe_def)
qed

text \<open>A write that ends, well or not, leaves one more piece behind.\<close>

lemma release_safe:
  assumes safe: "wire_safe ok w" and hr: "wi_lock w = Some (h, rem)"
    and ev: "ev = Cancel i \<or> ev = written h r"
    and w': "wi_session w' = session_event ev (wi_session w)" "wi_out w' = wi_out w" "wi_lock w' = None"
  shows "wire_safe ok w'"
proof -
  let ?s = "wi_session w"
  have lock: "may_lock h ?s" using safe hr by (simp add: wire_safe_def wire_locked_def)
  then have allowed: "frame_allowed ok ?s (holder_frame h ?s)"
    using safe holder_allowed by (simp add: wire_safe_def)
  obtain ps k where ps: "list_all (\<lambda>(f, n). frame_allowed ok ?s f) ps"
    "wi_out w = pieces ps @ take k (hsfz_encode (holder_frame h ?s))"
    using safe hr by (auto simp: wire_safe_def wire_pieces_def)
  have "wi_out w = pieces (ps @ [(holder_frame h ?s, k)])" by (simp add: ps(2) pieces_def)
  then have "wire_pieces ok w'"
    unfolding wire_pieces_def w' using ps(1) allowed
    by (intro exI [of _ "ps @ [(holder_frame h ?s, k)]"]) simp
  moreover have "list_all (frame_allowed ok ?s) (ss_wire (session_event ev ?s))"
    using safe ev allowed written_wire [OF lock, of r] event_wire [of "Cancel i" ?s]
    by (auto simp: wire_safe_def not_written)
  moreover have "requests_ok ok (session_event ev ?s)"
    using safe ev not_written(1) by (intro event_requests_ok) (auto simp: wire_safe_def)
  ultimately show ?thesis by (simp add: wire_safe_def wire_locked_def w')
qed

lemma event_safe:
  assumes safe: "wire_safe ok w" and issue: "\<And>t u. ev = WIssue t u \<Longrightarrow> ok t u"
  shows "wire_safe ok (wire_event rx ev w)"
proof (cases ev)
  case (WReturn result)
  show ?thesis
  proof (cases "wi_lock w")
    case (Some hr)
    then obtain h rem where hr: "wi_lock w = Some (h, rem)" by (cases hr) simp
    have "wire_safe ok (w\<lparr>wi_session := session_event (written h result) (wi_session w), wi_lock := None\<rparr>)"
      by (rule release_safe [OF safe hr, of "written h result" 0 result]) simp_all
    with safe show ?thesis
      by (simp add: WReturn wire_event_def write_returns_def hr)
  qed (use safe WReturn in \<open>simp add: wire_event_def write_returns_def\<close>)
next
  case (WCancel i)
  show ?thesis
  proof (cases "\<exists>rem. wi_lock w = Some (HoldRequest i, rem)")
    case True
    then obtain rem where hr: "wi_lock w = Some (HoldRequest i, rem)" ..
    show ?thesis
      unfolding WCancel wire_event_def wire_ev.case
      by (rule release_safe [OF safe hr, of "Cancel i" i]) (simp_all add: drop_future_def hr)
  next
    case False
    then have "wi_lock (drop_future i w) = wi_lock w"
      by (auto simp: drop_future_def split: option.split holder.split)
    with False safe show ?thesis
      unfolding WCancel wire_event_def wire_ev.case
      by (intro pass_safe [OF safe, of "Cancel i"]) (auto simp: not_written drop_future_def)
  qed
next
  case WReader
  show ?thesis
  proof (cases "ss_reader (wi_session w)")
    case True
    have w': "wi_session (reader_turn rx w) = session_event (fst (reader_event rx (wi_inbound w))) (wi_session w)"
      "wi_out (reader_turn rx w) = wi_out w" "wi_lock (reader_turn rx w) = wi_lock w"
      using True by (simp_all add: reader_turn_def split: prod.split)
    show ?thesis
      unfolding WReader wire_event_def wire_ev.case
      by (rule pass_safe [OF safe _ _ _ w'], (rule reader_event_not_written)+)
        (simp add: reader_event_def split: prod.splits sum.splits)
  qed (use safe WReader in \<open>simp add: wire_event_def reader_turn_def\<close>)
next
  case (WLock h)
  show ?thesis
  proof (cases "wi_lock w = None \<and> may_lock h (wi_session w)")
    case True
    let ?f = "holder_frame h (wi_session w)"
    from True safe obtain ps where "list_all (\<lambda>(f, n). frame_allowed ok (wi_session w) f) ps" "wi_out w = pieces ps"
      by (auto simp: wire_safe_def wire_pieces_def)
    with True safe show ?thesis
      by (auto simp: WLock wire_event_def take_lock_def wire_safe_def wire_locked_def wire_pieces_def
          intro!: exI [of _ ps] exI [of _ 0])
  qed (use safe WLock in \<open>auto simp: wire_event_def take_lock_def\<close>)
next
  case (WChunk n)
  show ?thesis
  proof (cases "wi_lock w")
    case (Some hr)
    then obtain h rem where hr: "wi_lock w = Some (h, rem)" by (cases hr) simp
    let ?e = "hsfz_encode (holder_frame h (wi_session w))"
    from safe hr obtain ps k where ps: "list_all (\<lambda>(f, n). frame_allowed ok (wi_session w) f) ps"
      "wi_out w = pieces ps @ take k ?e" "rem = drop k ?e"
      by (auto simp: wire_safe_def wire_pieces_def)
    then have "wi_out w @ take n rem = pieces ps @ take (k + n) ?e" "drop n rem = drop (k + n) ?e"
      by (simp_all add: take_add add.commute)
    with ps(1) safe hr show ?thesis
      by (auto simp: WChunk wire_event_def write_chunk_def wire_safe_def wire_locked_def wire_pieces_def)
  qed (use safe WChunk in \<open>simp add: wire_event_def write_chunk_def\<close>)
next
  case (WIssue target uds)
  show ?thesis unfolding WIssue
    by (rule pass_safe [OF safe, of "Issue target uds"]) (simp_all add: wire_event_def not_written issue WIssue)
next
  case (WRegister i)
  show ?thesis unfolding WRegister
    by (rule pass_safe [OF safe, of "Register i"]) (simp_all add: wire_event_def not_written)
next
  case (WWake i)
  show ?thesis unfolding WWake
    by (rule pass_safe [OF safe, of "Wake i"]) (simp_all add: wire_event_def not_written)
next
  case (WDropGuard i)
  show ?thesis unfolding WDropGuard
    by (rule pass_safe [OF safe, of "DropGuard i"]) (simp_all add: wire_event_def not_written)
qed

lemma open_safe: "wire_safe ok (wire_open inbound source gateway)"
  by (auto simp: wire_safe_def requests_ok_def wire_locked_def wire_pieces_def wire_open_def session_open_def
      pieces_def intro: exI [of _ "[]"])

end
