(* ===== verification/Session_Requester.thy ===== *)
theory Session_Requester
  imports Session_Wire Client_Ops
begin

text \<open>
  One request of the session as its caller sees it: \<open>Session::request_with_timeout\<close> of
  \<open>crates/client/src/session.rs\<close>, run to its end over the bytes of the connection. What the car
  sends, when the keepalive fires, how the socket cuts the bytes, whether a write fails and when
  the waiter is woken is a script of steps of \<open>Session_Wire\<close>; the caller adds the steps of its own
  request. This gives the operations of the client, which take a session as a parameter, a
  session to run on.
\<close>

section \<open>The request\<close>

type_synonym 's wired_conn = "'s wire_state \<times> wire_ev list"

text \<open>The steps the script may take: any but those that are a caller's to start or to abandon.\<close>

definition environment :: "wire_ev \<Rightarrow> bool" where
  "environment ev = (case ev of WIssue _ _ \<Rightarrow> False | WRegister _ \<Rightarrow> False | WCancel _ \<Rightarrow> False | _ \<Rightarrow> True)"

text \<open>The request has an outcome: it failed to register, to write, or its waiting is over.\<close>

definition request_over :: "nat \<Rightarrow> 's wire_state \<Rightarrow> bool" where
  "request_over i w = phase_done (rq_phase (ss_requests (wi_session w) ! i))"

text \<open>
  When the script has no more to say, the socket takes everything, and nothing comes any more: the
  lock passes to the request, its frame is written, and it wakes until it gives up.
\<close>

definition silence :: "nat \<Rightarrow> 's wire_state \<Rightarrow> wire_ev list" where
  "silence i w =
     [WChunk (length (wire_rest w)), WReturn None, WLock (HoldRequest i),
      WChunk (length (hsfz_encode (holder_frame (HoldRequest i) (wi_session w)))), WReturn None]
     @ replicate 11 (WWake i)"

fun await_request :: "'s reader \<Rightarrow> nat \<Rightarrow> wire_ev list \<Rightarrow> 's wire_state \<Rightarrow> 's wired_conn" where
  "await_request rx i [] w = (if request_over i w then w else wire_run rx (silence i w) w, [])"
| "await_request rx i (ev # evs) w =
     (if request_over i w then (w, ev # evs)
      else await_request rx i evs (if environment ev then wire_event rx ev w else w))"

definition session_request :: "'s reader \<Rightarrow> 's wired_conn requester" where
  "session_request rx target uds conn =
     (case conn of (w, script) \<Rightarrow>
      let i = length (ss_requests (wi_session w));
          w1 = wire_event rx (WRegister i) (wire_event rx (WIssue target uds) w)
      in case await_request rx i script w1 of (w2, script') \<Rightarrow>
      let w3 = wire_event rx (WDropGuard i) w2
      in (case rq_phase (ss_requests (wi_session w3) ! i) of
            Left (Some r) \<Rightarrow> r
          | _ \<Rightarrow> Inl CConnectionClosed,
          (w3, script')))"

text \<open>While the caller sleeps, the others go on: so many steps of the script.\<close>

definition session_sleep :: "'s reader \<Rightarrow> nat \<Rightarrow> 's wired_conn \<Rightarrow> 's wired_conn" where
  "session_sleep rx n conn =
     (case conn of (w, script) \<Rightarrow> (wire_run rx (List.filter environment (take n script)) w, drop n script))"

section \<open>It is a run of the session\<close>

lemma await_request_run:
  "\<exists>evs. list_all environment evs \<and> fst (await_request rx i script w) = wire_run rx evs w"
proof (induction script arbitrary: w)
  case Nil
  have "list_all environment (silence i w)"
    by (simp add: silence_def environment_def list_all_iff)
  then show ?case
    by (cases "request_over i w")
      (auto intro: exI [of _ "[] :: wire_ev list"] exI [of _ "silence i w"])
next
  case (Cons ev script)
  show ?case
  proof (cases "request_over i w")
    case True
    then show ?thesis by (auto intro: exI [of _ "[] :: wire_ev list"])
  next
    case False
    obtain evs where "list_all environment evs"
      "fst (await_request rx i script (if environment ev then wire_event rx ev w else w)) =
        wire_run rx evs (if environment ev then wire_event rx ev w else w)"
      using Cons.IH by blast
    with False show ?thesis
      by (cases "environment ev") (auto intro: exI [of _ "ev # evs"])
  qed
qed

text \<open>The steps of one request.\<close>

lemma session_request_run:
  assumes "session_request rx target uds (w, script) = (r, (w', script'))"
  shows "\<exists>evs. list_all environment evs \<and> w' = wire_run rx
    ([WIssue target uds, WRegister (length (ss_requests (wi_session w)))] @ evs
       @ [WDropGuard (length (ss_requests (wi_session w)))]) w"
proof -
  let ?i = "length (ss_requests (wi_session w))"
  let ?w1 = "wire_event rx (WRegister ?i) (wire_event rx (WIssue target uds) w)"
  obtain evs where evs: "list_all environment evs" "fst (await_request rx ?i script ?w1) = wire_run rx evs ?w1"
    using await_request_run [of rx ?i script ?w1] by blast
  from assms have "w' = wire_event rx (WDropGuard ?i) (fst (await_request rx ?i script ?w1))"
    by (auto simp: session_request_def Let_def split: prod.splits)
  with evs show ?thesis by (intro exI [of _ evs]) simp
qed

lemma run_safe:
  "wire_safe ok w \<Longrightarrow> list_all (\<lambda>ev. \<forall>t u. ev = WIssue t u \<longrightarrow> ok t u) evs \<Longrightarrow> wire_safe ok (wire_run rx evs w)"
  by (induction evs arbitrary: w) (simp_all add: event_safe)

lemma environment_safe: "wire_safe ok w \<Longrightarrow> list_all environment evs \<Longrightarrow> wire_safe ok (wire_run rx evs w)"
  by (rule run_safe) (auto simp: list_all_iff environment_def)

text \<open>
  The interface of the client holds of the session: acceptable requests keep the wire to
  acceptable frames.
\<close>

lemma session_request_safe:
  assumes "wire_safe ok (fst conn)" "ok target uds"
  shows "wire_safe ok (fst (snd (session_request rx target uds conn)))"
proof -
  obtain w script r w' script' where conn: "conn = (w, script)"
    and req: "session_request rx target uds (w, script) = (r, (w', script'))"
    by (metis prod.exhaust)
  from session_request_run [OF req] obtain evs where evs: "list_all environment evs"
    "w' = wire_run rx ([WIssue target uds, WRegister (length (ss_requests (wi_session w)))] @ evs
       @ [WDropGuard (length (ss_requests (wi_session w)))]) w" by blast
  have "wire_safe ok w'"
    unfolding evs(2) by (rule run_safe) (use assms evs(1) conn in \<open>auto simp: list_all_iff environment_def\<close>)
  then show ?thesis by (simp add: conn req)
qed

interpretation wired: client_transport "session_request rx" "\<lambda>conn. wire_safe ok (fst conn)" ok
  for rx :: "'s reader" and ok
  by unfold_locales (rule session_request_safe)

lemma session_sleep_safe: "wire_safe ok (fst conn) \<Longrightarrow> wire_safe ok (fst (session_sleep rx n conn))"
  by (cases conn) (auto simp: session_sleep_def list_all_iff intro: environment_safe)

section \<open>Whole frames\<close>

text \<open>A script in which no write fails: what a request then puts on the wire is whole.\<close>

definition write_fails :: "wire_ev \<Rightarrow> bool" where
  "write_fails ev = (case ev of WReturn (Some _) \<Rightarrow> True | _ \<Rightarrow> False)"

definition harmless :: "wire_ev \<Rightarrow> bool" where
  "harmless ev \<longleftrightarrow> \<not> write_fails ev \<and> (case ev of WCancel _ \<Rightarrow> False | _ \<Rightarrow> True)"

lemma harmless_whole: "wire_whole w \<Longrightarrow> list_all harmless evs \<Longrightarrow> wire_whole (wire_run rx evs w)"
proof (induction evs arbitrary: w)
  case (Cons ev evs)
  then have "\<not> breaks_off ev w"
    by (auto simp: breaks_off_def harmless_def write_fails_def split: option.splits wire_ev.splits)
  with Cons show ?case by (simp add: event_whole)
qed simp

lemma await_whole:
  assumes "wire_whole w" "list_all (\<lambda>ev. \<not> write_fails ev) script"
  shows "wire_whole (fst (await_request rx i script w))
    \<and> list_all (\<lambda>ev. \<not> write_fails ev) (snd (await_request rx i script w))"
  using assms
proof (induction script arbitrary: w)
  case Nil
  have "list_all harmless (silence i w)"
    by (simp add: silence_def harmless_def write_fails_def list_all_iff)
  with Nil harmless_whole show ?case by auto
next
  case (Cons ev script)
  have "wire_whole (if environment ev then wire_event rx ev w else w)"
    using harmless_whole [OF Cons.prems(1), of "[ev]" rx] Cons.prems
    by (auto simp: environment_def harmless_def split: wire_ev.splits)
  with Cons show ?case by auto
qed

definition conn_whole :: "'s wired_conn \<Rightarrow> bool" where
  "conn_whole conn \<longleftrightarrow> wire_whole (fst conn) \<and> list_all (\<lambda>ev. \<not> write_fails ev) (snd conn)"

lemma session_request_whole:
  assumes "conn_whole conn"
  shows "conn_whole (snd (session_request rx target uds conn))"
proof -
  obtain w script where conn: "conn = (w, script)" by fastforce
  let ?i = "length (ss_requests (wi_session w))"
  let ?w1 = "wire_event rx (WRegister ?i) (wire_event rx (WIssue target uds) w)"
  have one: "wire_whole v \<Longrightarrow> harmless ev \<Longrightarrow> wire_whole (wire_event rx ev v)" for ev v
    using harmless_whole [of v "[ev]" rx] by simp
  have "wire_whole ?w1"
    using assms conn by (intro one) (simp_all add: conn_whole_def harmless_def write_fails_def)
  moreover obtain w2 script' where await: "await_request rx ?i script ?w1 = (w2, script')" by fastforce
  ultimately have w2: "wire_whole w2" "list_all (\<lambda>ev. \<not> write_fails ev) script'"
    using await_whole [of ?w1 script rx ?i] assms conn by (auto simp: conn_whole_def)
  have "wire_whole (wire_event rx (WDropGuard ?i) w2)"
    by (rule one [OF w2(1)]) (simp add: harmless_def write_fails_def)
  with w2(2) show ?thesis
    by (simp add: conn session_request_def await conn_whole_def Let_def)
qed

lemma session_sleep_whole: "conn_whole conn \<Longrightarrow> conn_whole (session_sleep rx n conn)"
proof -
  assume whole: "conn_whole conn"
  obtain w script where conn: "conn = (w, script)" by fastforce
  have "list_all harmless (List.filter environment (take n script))"
    using whole in_set_takeD [of _ n script]
    by (fastforce simp: conn conn_whole_def list_all_iff harmless_def environment_def split: wire_ev.splits)
  from harmless_whole [OF _ this, of w rx] whole show ?thesis
    by (auto simp: conn session_sleep_def conn_whole_def list_all_iff dest: in_set_dropD)
qed

section \<open>It returns\<close>

text \<open>Between two requests of a sequential caller: a reachable session whose requests are all gone.\<close>

definition is_left :: "request_phase \<Rightarrow> bool" where
  "is_left p = (case p of Left _ \<Rightarrow> True | _ \<Rightarrow> False)"

definition conn_inv :: "'s wire_state \<Rightarrow> bool" where
  "conn_inv w \<longleftrightarrow> wire_safe (\<lambda>_ _. True) w \<and> session_inv (wi_session w)"

definition conn_idle :: "'s wire_state \<Rightarrow> bool" where
  "conn_idle w \<longleftrightarrow> conn_inv w \<and> list_all (\<lambda>rq. is_left (rq_phase rq)) (ss_requests (wi_session w))"

lemma open_idle: "conn_idle (wire_open inbound source gateway)"
  using open_safe by (simp add: conn_idle_def conn_inv_def wire_open_def session_open_def session_inv_def)

lemma run_requests_length:
  assumes "\<And>t u. Issue t u \<notin> set evs"
  shows "length (ss_requests (session_run evs s)) = length (ss_requests s)"
  using assms
proof (induction evs arbitrary: s)
  case (Cons ev evs)
  then have "ev \<noteq> Issue t u" "Issue t u \<notin> set evs" for t u by auto
  with Cons.IH show ?case by (simp add: event_requests_length)
qed simp

lemma run_inv:
  assumes "session_inv s" "\<And>t u. Issue t u \<notin> set evs" "length (ss_requests s) \<le> 2 ^ 64"
  shows "session_inv (session_run evs s)"
  using assms
proof (induction evs arbitrary: s)
  case (Cons ev evs)
  then have "ev \<noteq> Issue t u" "Issue t u \<notin> set evs" for t u by auto
  moreover from this(1) have "length (ss_requests (session_event ev s)) = length (ss_requests s)"
    by (rule event_requests_length)
  ultimately show ?case using Cons by (simp add: session_event_keeps)
qed simp

lemma environment_evs:
  assumes "environment ev"
  shows "Issue t u \<notin> set (session_evs rx ev w)" "Cancel i \<notin> set (session_evs rx ev w)"
    "Register i \<notin> set (session_evs rx ev w)"
proof -
  have "written h r \<noteq> Issue t u \<and> written h r \<noteq> Cancel i \<and> written h r \<noteq> Register i" for h r
    by (cases h) simp_all
  moreover have "fst (reader_event rx s) \<noteq> Issue t u \<and> fst (reader_event rx s) \<noteq> Cancel i
      \<and> fst (reader_event rx s) \<noteq> Register i" for s
    by (simp add: reader_event_def split: prod.split sum.split)
  ultimately show "Issue t u \<notin> set (session_evs rx ev w)" "Cancel i \<notin> set (session_evs rx ev w)"
    "Register i \<notin> set (session_evs rx ev w)"
    using assms by (auto simp: environment_def session_evs_def dest: sym split: wire_ev.splits option.splits if_splits)
qed

lemma environment_trace:
  "list_all environment evs \<Longrightarrow> Issue t u \<notin> set (wire_trace rx evs w) \<and> Cancel i \<notin> set (wire_trace rx evs w)
     \<and> Register i \<notin> set (wire_trace rx evs w)"
  by (induction evs arbitrary: w) (simp_all add: environment_evs)

lemma wakes_in_trace: "count_list (wire_trace rx (replicate n (WWake i)) w) (Wake i) = n"
  by (induction n arbitrary: w) (simp_all add: session_evs_def)

text \<open>The lock is free once its holder's bytes are out.\<close>

lemma flush_lock:
  "wi_lock (wire_run rx [WChunk (length (wire_rest w)), WReturn None] w) = None"
  "wi_session (wire_run rx [WChunk (length (wire_rest w)), WReturn None] w) =
     (case wi_lock w of None \<Rightarrow> wi_session w | Some (h, rem) \<Rightarrow> session_event (written h None) (wi_session w))"
  by (auto simp: wire_event_def write_chunk_def write_returns_def wire_rest_def split: option.split)

lemma written_phase:
  assumes "may_lock h s" "i < length (ss_requests s)" "rq_phase (ss_requests s ! i) = Registered"
  shows "rq_phase (ss_requests (session_event (written h None) s) ! i) =
    (if h = HoldRequest i then Awaiting 0 else Registered)"
  using assms by (cases h) (auto simp: session_event_def write_request_def set_phase_def nth_list_update Let_def)

lemma event_holder_frame:
  "i < length (ss_requests s) \<Longrightarrow>
   holder_frame (HoldRequest i) (session_event ev s) = holder_frame (HoldRequest i) s"
  by (simp add: event_fields event_same event_uds)

text \<open>The quiet end brings a registered request to its waiting.\<close>

lemma silence_writes:
  assumes lock: "wire_locked w" and i: "i < length (ss_requests (wi_session w))"
    and ph: "rq_phase (ss_requests (wi_session w) ! i) = Registered"
  shows "rq_phase (ss_requests (wi_session (wire_run rx (take 5 (silence i w)) w)) ! i) = Awaiting 0"
proof -
  let ?frame = "holder_frame (HoldRequest i) (wi_session w)"
  define w2 where "w2 = wire_run rx [WChunk (length (wire_rest w)), WReturn None] w"
  let ?mine = "\<exists>rem. wi_lock w = Some (HoldRequest i, rem)"
  have free: "wi_lock w2 = None" by (simp only: w2_def flush_lock)
  have s2: "wi_session w2 =
      (case wi_lock w of None \<Rightarrow> wi_session w | Some (h, rem) \<Rightarrow> session_event (written h None) (wi_session w))"
    by (simp only: w2_def flush_lock)
  have i2: "i < length (ss_requests (wi_session w2))"
    using i le_trans session_event_length less_le_trans unfolding s2
    by (cases "wi_lock w") (auto split: prod.split intro: less_le_trans session_event_length)
  have frame2: "holder_frame (HoldRequest i) (wi_session w2) = ?frame"
    unfolding s2 using event_holder_frame [OF i] by (auto split: option.split)
  have ph2: "rq_phase (ss_requests (wi_session w2) ! i) = (if ?mine then Awaiting 0 else Registered)"
    unfolding s2 using lock ph written_phase [OF _ i ph] written_phase [of "HoldRequest i", OF _ i ph] i
    by (cases "wi_lock w") (auto simp: wire_locked_def split: prod.split)
  have run: "wire_run rx (take 5 (silence i w)) w =
      wire_run rx [WLock (HoldRequest i), WChunk (length (hsfz_encode ?frame)), WReturn None] w2"
    by (simp add: silence_def w2_def del: holder_frame.simps)
  show ?thesis
  proof (cases ?mine)
    case True
    with ph2 free show ?thesis
      unfolding run by (simp add: wire_event_def take_lock_def write_chunk_def write_returns_def)
  next
    case False
    with ph2 i2 have may: "may_lock (HoldRequest i) (wi_session w2)" by simp
    then have "wi_session (wire_run rx [WLock (HoldRequest i), WChunk (length (hsfz_encode ?frame)), WReturn None] w2) =
        session_event (Write i None) (wi_session w2)"
      using free frame2
      by (simp add: wire_event_def take_lock_def write_chunk_def write_returns_def del: holder_frame.simps may_lock.simps)
    then show ?thesis
      unfolding run using written_phase [OF may i2] ph2 False by simp
  qed
qed

text \<open>
  A request on its way: it is registered, nobody has dropped its future, and it has not been turned
  away.
\<close>

definition underway :: "request \<Rightarrow> bool" where
  "underway rq \<longleftrightarrow> rq_phase rq \<noteq> Issued \<and> rq_phase rq \<noteq> Leaving None \<and> rq_phase rq \<noteq> Left None
     \<and> (\<forall>t. \<not> outcome_of rq (Inl (CRequestInFlight t)))"

lemma event_underway:
  assumes inv: "session_inv s" and i: "i < length (ss_requests s)"
    and u: "underway (ss_requests s ! i)" and ev: "ev \<noteq> Cancel i"
  shows "underway (ss_requests (session_event ev s) ! i)"
proof (cases ev)
  case (Incoming f)
  have "outcome_of (ss_requests s ! i) (Inl (CRequestInFlight t))"
    if "outcome_of (ss_requests (route_frame f s) ! i) (Inl (CRequestInFlight t))" for t
    using route_frame_outcome [OF inv i that] by (auto simp: answers_def Let_def)
  moreover have "rq_phase (ss_requests (route_frame f s) ! i) = rq_phase (ss_requests s ! i)"
    by (auto simp: route_frame_def finish_def Let_def split: option.split list.split)
  ultimately show ?thesis
    using u Incoming by (auto simp: session_event_def underway_def)
next
  case (Wake k)
  with u i show ?thesis
    by (cases "k = i") (auto simp: session_event_def wake_def set_phase_def Let_def nth_list_update outcome_of_def
        underway_def split: request_phase.split list.split delivery.split)
next
  case ReaderEnds
  with u i show ?thesis
    by (auto simp: session_event_def drain_nth outcome_of_def underway_def)
qed (use u i ev in \<open>auto simp: session_event_def issue_def register_slot_def write_request_def Let_def
      set_phase_def nth_list_update nth_append outcome_of_def underway_def
      split: request_phase.splits option.splits if_splits\<close>)

lemma run_underway:
  assumes "session_inv s" "i < length (ss_requests s)" "underway (ss_requests s ! i)"
    and "\<And>t u. Issue t u \<notin> set evs" "Cancel i \<notin> set evs" "length (ss_requests s) \<le> 2 ^ 64"
  shows "underway (ss_requests (session_run evs s) ! i)"
  using assms
proof (induction evs arbitrary: s)
  case (Cons ev evs)
  then have new: "ev \<noteq> Issue t u" "Issue t u \<notin> set evs" for t u by auto
  have len: "length (ss_requests (session_event ev s)) = length (ss_requests s)"
    using new(1) by (rule event_requests_length)
  have "underway (ss_requests (session_event ev s) ! i)" "session_inv (session_event ev s)"
    using Cons.prems event_underway session_event_keeps by auto
  with Cons.IH [of "session_event ev s"] Cons.prems new(2) len show ?case by simp
qed simp

lemma run_left:
  assumes "i < length (ss_requests s)" "rq_phase (ss_requests s ! i) = Left r"
  shows "rq_phase (ss_requests (session_run evs s) ! i) = Left r"
  using assms
proof (induction evs arbitrary: s)
  case (Cons ev evs)
  have "rq_phase (ss_requests (session_event ev s) ! i) = Left r"
    using Cons.prems by (cases ev) (auto simp: session_event_def issue_def register_slot_def write_request_def
      wake_def set_phase_def drain_nth route_frame_def finish_def nth_append nth_list_update Let_def
      split: request_phase.split option.split delivery.split list.split)
  moreover have "i < length (ss_requests (session_event ev s))"
    using Cons.prems(1) session_event_length by (rule less_le_trans)
  ultimately show ?case using Cons.IH by simp
qed simp

lemma run_done:
  assumes "i < length (ss_requests s)" "phase_done (rq_phase (ss_requests s ! i))"
  shows "phase_done (rq_phase (ss_requests (session_run evs s) ! i))"
  using assms
proof (induction evs arbitrary: s)
  case (Cons ev evs)
  obtain r where "rq_phase (ss_requests s ! i) = Leaving r \<or> rq_phase (ss_requests s ! i) = Left r"
    using Cons.prems(2) by (cases "rq_phase (ss_requests s ! i)") auto
  from event_done [OF Cons.prems(1) this, of ev]
  have "phase_done (rq_phase (ss_requests (session_event ev s) ! i))" by auto
  moreover have "i < length (ss_requests (session_event ev s))"
    using Cons.prems(1) session_event_length by (rule less_le_trans)
  ultimately show ?case using Cons.IH by simp
qed simp

text \<open>Waiting for a registered request ends, whatever the script holds.\<close>

definition waiting_inv :: "nat \<Rightarrow> 's wire_state \<Rightarrow> bool" where
  "waiting_inv i w \<longleftrightarrow> conn_inv w \<and> i < length (ss_requests (wi_session w))
     \<and> length (ss_requests (wi_session w)) \<le> 2 ^ 64 \<and> underway (ss_requests (wi_session w) ! i)"

lemma waiting_run:
  assumes w: "waiting_inv i w" and evs: "list_all environment evs"
  shows "waiting_inv i (wire_run rx evs w)"
    "length (ss_requests (wi_session (wire_run rx evs w))) = length (ss_requests (wi_session w))"
proof -
  note tr = environment_trace [OF evs, of _ _ rx w]
  show len: "length (ss_requests (wi_session (wire_run rx evs w))) = length (ss_requests (wi_session w))"
    using tr by (simp add: wire_run_session run_requests_length)
  show "waiting_inv i (wire_run rx evs w)"
    using w len environment_safe [OF _ evs, of "\<lambda>_ _. True" w rx]
      run_inv [of "wi_session w" "wire_trace rx evs w"] run_underway [of "wi_session w" i "wire_trace rx evs w"] tr
    unfolding waiting_inv_def conn_inv_def wire_run_session by simp
qed

lemma silence_ends:
  assumes w: "waiting_inv i w" and "\<not> request_over i w"
  shows "request_over i (wire_run rx (silence i w) w)"
proof -
  let ?rq = "\<lambda>w. ss_requests (wi_session w) ! i"
  let ?mid = "wire_run rx (take 5 (silence i w)) w"
  let ?fin = "wire_run rx (silence i w) w"
  have run: "?fin = wire_run rx (replicate 11 (WWake i)) ?mid"
    by (simp add: silence_def)
  have env: "list_all environment (take 5 (silence i w))"
    by (simp add: silence_def environment_def)
  note mid = waiting_run [OF w env, of rx]
  have lock: "wire_locked w" using w by (simp add: waiting_inv_def conn_inv_def wire_safe_def)
  have i: "i < length (ss_requests (wi_session w))" "i < length (ss_requests (wi_session ?mid))"
    using w mid by (simp_all add: waiting_inv_def)
  have "\<exists>n. rq_phase (?rq ?mid) = Awaiting n \<or> phase_done (rq_phase (?rq ?mid))"
  proof (cases "rq_phase (?rq w)")
    case Registered
    then show ?thesis using silence_writes [OF lock i(1)] by blast
  next
    case (Awaiting n)
    have "n \<le> MAX_PENDING_TICKS"
      using requestD(2) [of "wi_session w" i] w i Awaiting by (simp add: waiting_inv_def conn_inv_def)
    from run_wakes [OF i(1) Awaiting this, of "wire_trace rx (take 5 (silence i w)) w"] show ?thesis
      unfolding wire_run_session by (auto split: request_phase.splits)
  qed (use w assms(2) in \<open>auto simp: waiting_inv_def underway_def request_over_def\<close>)
  then consider n where "rq_phase (?rq ?mid) = Awaiting n" | "phase_done (rq_phase (?rq ?mid))" by blast
  then show ?thesis
  proof cases
    case 1
    have "n \<le> MAX_PENDING_TICKS"
      using requestD(2) [of "wi_session ?mid" i] mid i 1 by (simp add: waiting_inv_def conn_inv_def)
    from run_wakes [OF i(2) 1 this, of "wire_trace rx (replicate 11 (WWake i)) ?mid"] show ?thesis
      unfolding run request_over_def wire_run_session [of rx "replicate 11 (WWake i)"] wakes_in_trace
      by (auto simp: MAX_PENDING_TICKS_def word_le_nat_alt split: request_phase.splits)
  next
    case 2
    from run_done [OF i(2) this] show ?thesis
      unfolding run request_over_def wire_run_session [of rx "replicate 11 (WWake i)"] .
  qed
qed

lemma await_over:
  assumes "waiting_inv i w"
  shows "waiting_inv i (fst (await_request rx i script w)) \<and> request_over i (fst (await_request rx i script w))"
  using assms
proof (induction script arbitrary: w)
  case Nil
  have "list_all environment (silence i w)"
    by (simp add: silence_def environment_def list_all_iff)
  with Nil silence_ends waiting_run(1) show ?case by auto
next
  case (Cons ev script)
  have "waiting_inv i (if environment ev then wire_event rx ev w else w)"
    using waiting_run(1) [OF Cons.prems, of "[ev]" rx] Cons.prems by simp
  with Cons show ?case by auto
qed

text \<open>An idle connection has no slot taken, so the next request registers.\<close>

lemma idle_left:
  assumes "conn_idle w" "j < length (ss_requests (wi_session w))"
  obtains p where "rq_phase (ss_requests (wi_session w) ! j) = Left p"
proof -
  from assms have "is_left (rq_phase (ss_requests (wi_session w) ! j))"
    by (simp add: conn_idle_def list_all_length)
  with that show thesis
    by (cases "rq_phase (ss_requests (wi_session w) ! j)") (simp_all add: is_left_def)
qed

lemma idle_pending: "conn_idle w \<Longrightarrow> ss_pending (wi_session w) = Map.empty"
proof
  fix t
  assume idle: "conn_idle w"
  show "ss_pending (wi_session w) t = Map.empty t"
  proof (cases "ss_pending (wi_session w) t")
    case (Some r)
    have "session_inv (wi_session w)" using idle by (simp add: conn_idle_def conn_inv_def)
    note slot = slotD(1,5) [OF this Some refl]
    obtain p where "rq_phase (ss_requests (wi_session w) ! pr_tx r) = Left p"
      by (rule idle_left [OF idle slot(1)])
    with slot(2) show ?thesis by simp
  qed simp
qed

lemma idle_registers:
  assumes idle: "conn_idle w" and len: "length (ss_requests (wi_session w)) < 2 ^ 64"
    and w1: "w1 = wire_event rx (WRegister (length (ss_requests (wi_session w)))) (wire_event rx (WIssue target uds) w)"
  shows "waiting_inv (length (ss_requests (wi_session w))) w1"
    "length (ss_requests (wi_session w1)) = Suc (length (ss_requests (wi_session w)))"
proof -
  let ?i = "length (ss_requests (wi_session w))"
  let ?s1 = "session_event (Issue target uds) (wi_session w)"
  have s1: "wi_session w1 = session_event (Register ?i) ?s1"
    by (simp add: w1 wire_event_def)
  have len1: "length (ss_requests ?s1) = Suc ?i"
    by (simp add: session_event_def issue_def)
  then show len2: "length (ss_requests (wi_session w1)) = Suc ?i"
    by (simp add: s1 event_requests_length)
  have "wire_safe (\<lambda>_ _. True) w1"
    using idle by (simp add: w1 event_safe conn_idle_def conn_inv_def)
  moreover have "session_inv (wi_session w1)"
    using idle len len1 by (simp add: s1 session_event_keeps conn_idle_def conn_inv_def)
  moreover have "underway (ss_requests (wi_session w1) ! ?i)"
    using idle_pending [OF idle]
    by (simp add: s1 session_event_def issue_def register_slot_def set_phase_def underway_def outcome_of_def Let_def)
  ultimately show "waiting_inv ?i w1"
    using len len2 by (simp add: waiting_inv_def conn_inv_def)
qed


text \<open>The car answers late, after a pending response; the keepalive fires in between.\<close>

definition demo_script :: "wire_ev list" where
  "demo_script =
     [WLock HoldKeepalive, WChunk 4, WLock (HoldRequest 0), WChunk 6, WReturn None, WLock (HoldRequest 0),
      WChunk 11, WReturn None, WReader, WWake 0, WReader, WWake 0, WReader]"

definition demo_answers :: "bytes list" where
  "demo_answers = [hsfz_encode (demo_frame 0x12 [0x7F, 0x22, 0x78]), hsfz_encode (demo_frame 0x12 [0x62, 0xF1, 0x90, 7])]"


end
