(* ===== verification/Wire_Safety.thy ===== *)
theory Wire_Safety
  imports Cli_Safety Session_Requester
begin

text \<open>
  The safety of the command line and of the MCP server, from the call to the bytes of the TCP
  connection: the commands and tools of \<open>cli/src/main.rs\<close> and \<open>mcp/src/server.rs\<close> on the client,
  the client on a session of \<open>crates/client/src/session.rs\<close>, the session on the frames of
  \<open>crates/hsfz/src/frame.rs\<close>. What the car answers, when the keepalive fires, how the socket cuts
  the bytes and which writes fail is any script.
\<close>

text \<open>The waiting of a job lets the script go on, by as many steps as \<open>pace\<close> gives for its milliseconds.\<close>

definition wired_env ::
    "'s Hsfz_Frame.reader \<Rightarrow> (u32 \<Rightarrow> nat) \<Rightarrow> (client_error \<Rightarrow> ustring) \<Rightarrow> 's wired_conn job_env" where
  "wired_env rx pace show_error = \<lparr>je_show = show_error, je_sleep = (\<lambda>ms. session_sleep rx (pace ms))\<rparr>"

lemma wired_sleep: "wire_safe ok (fst conn) \<Longrightarrow> wire_safe ok (fst (je_sleep (wired_env rx pace show_error) n conn))"
  by (simp add: wired_env_def session_sleep_safe)

text \<open>
  All that a safe wire can have sent, as one list of pieces: the write in progress counts with the
  bytes it has got out.
\<close>

lemma wire_safe_pieces:
  assumes "wire_safe ok w"
  shows "list_all (frame_allowed ok (wi_session w)) (ss_wire (wi_session w))
    \<and> (\<exists>ps. wi_out w = pieces ps \<and> list_all (\<lambda>(f, n). frame_allowed ok (wi_session w) f) ps)"
proof (cases "wi_lock w")
  case None
  with assms show ?thesis by (auto simp: wire_safe_def wire_pieces_def)
next
  case (Some hr)
  then obtain h rem where hr: "wi_lock w = Some (h, rem)" by (cases hr) simp
  with assms obtain ps k where ps: "list_all (\<lambda>(f, n). frame_allowed ok (wi_session w) f) ps"
    "wi_out w = pieces ps @ take k (hsfz_encode (holder_frame h (wi_session w)))"
    by (auto simp: wire_safe_def wire_pieces_def)
  moreover have "frame_allowed ok (wi_session w) (holder_frame h (wi_session w))"
    using assms hr holder_allowed by (auto simp: wire_safe_def wire_locked_def)
  ultimately have "wi_out w = pieces (ps @ [(holder_frame h (wi_session w), k)])
      \<and> list_all (\<lambda>(f, n). frame_allowed ok (wi_session w) f) (ps @ [(holder_frame h (wi_session w), k)])"
    by (simp add: pieces_def)
  then have "\<exists>ps. wi_out w = pieces ps \<and> list_all (\<lambda>(f, n). frame_allowed ok (wi_session w) f) ps"
    by blast
  with assms show ?thesis by (simp add: wire_safe_def)
qed

lemma keeps_world: "keeps (world safe) m \<Longrightarrow> safe c \<Longrightarrow> m (x, c) = (r, (x', c')) \<Longrightarrow> safe c'"
  unfolding keeps_def by (drule spec [of _ "(x, c)"]) (simp add: world_def)

lemma wired_sleep_whole: "conn_whole conn \<Longrightarrow> conn_whole (je_sleep (wired_env rx pace show_error) n conn)"
  by (simp add: wired_env_def session_sleep_whole)

text \<open>The whole frames of a connection on which no write fails.\<close>

definition wire_is_frames :: "'s wire_state \<Rightarrow> bool" where
  "wire_is_frames w \<longleftrightarrow>
     wi_out w @ wire_rest w = concat (map hsfz_encode (ss_wire (wi_session w) @ wire_held w))"

lemma open_conn_whole: "\<not> list_ex write_fails script \<Longrightarrow> conn_whole (wire_open inbound source gateway, script)"
  by (simp add: conn_whole_def open_whole list_all_iff list_ex_iff)

text \<open>
  C1. The safety of the command line in bytes. On a fresh connection, whatever the database, the files
  and the car say, however the tasks of the session interleave and the socket cuts or drops the
  frames: every frame on the wire is the keepalive of the gateway or a request the command may
  make, from the tester's address; every byte the socket has taken belongs to such a frame,
  the bytes of each a first part of its encoding; and unless a write failed the bytes, with what
  a write in progress still holds, are these frames whole, one after the other.
\<close>
theorem cli_wire_allowed:
  "case cli_run env (wired_env rx pace show_error) (session_request rx) c
      (out, (wire_open inbound source gateway, script)) of (r, (out', (w, script'))) \<Rightarrow>
    list_all (frame_allowed (cli_allows env c) (wi_session w)) (ss_wire (wi_session w))
    \<and> (\<exists>ps. wi_out w = pieces ps \<and> list_all (\<lambda>(f, n). frame_allowed (cli_allows env c) (wi_session w) f) ps)
    \<and> (list_ex write_fails script \<or> wire_is_frames w)"
proof -
  obtain r out' w script' where run: "cli_run env (wired_env rx pace show_error) (session_request rx) c
      (out, (wire_open inbound source gateway, script)) = (r, (out', (w, script')))"
    by (metis prod.exhaust)
  have "keeps (world (\<lambda>conn. wire_safe (cli_allows env c) (fst conn)))
      (cli_run env (wired_env rx pace show_error) (session_request rx) c)"
    by (rule cli_command_keeps) (simp_all add: wired.req_keeps wired_sleep)
  from keeps_world [OF this _ run] have "wire_safe (cli_allows env c) w"
    by (simp add: open_safe)
  moreover have "keeps (world conn_whole) (cli_run env (wired_env rx pace show_error) (session_request rx) c)"
    by (rule cli_command_keeps) (simp_all add: session_request_whole wired_sleep_whole)
  from keeps_world [OF this open_conn_whole run] have "list_ex write_fails script \<or> wire_is_frames w"
    by (auto simp: conn_whole_def wire_whole_def wire_is_frames_def)
  ultimately show ?thesis using wire_safe_pieces by (simp add: run)
qed

text \<open>The calls of an MCP client over one session, one after the other.\<close>

fun mcp_calls ::
    "'s job_env \<Rightarrow> 's requester \<Rightarrow> ('ip mcp_env \<times> mcp_call) list \<Rightarrow> 'ip mcp_state \<times> 's \<Rightarrow> 'ip mcp_state \<times> 's" where
  "mcp_calls je req [] ms = ms"
| "mcp_calls je req ((env, c) # calls) ms = mcp_calls je req calls (snd (mcp_handle env je req c ms))"

lemma mcp_calls_keep:
  assumes req: "\<And>s target uds. safe s \<Longrightarrow> list_ex (\<lambda>(env, c). call_allows c target uds) calls \<Longrightarrow>
      safe (snd (req target uds s))"
    and sleep: "\<And>n s. safe s \<Longrightarrow> safe (je_sleep je n s)" and "world safe ms"
  shows "world safe (mcp_calls je req calls ms)"
  using req assms(3)
proof (induction calls arbitrary: ms)
  case (Cons ec calls)
  obtain env c where ec: "ec = (env, c)" by fastforce
  have "keeps (world safe) (mcp_handle env je req c)"
    by (rule mcp_handle_keeps) (use Cons.prems(1) ec sleep in auto)
  then have "world safe (snd (mcp_handle env je req c ms))"
    using Cons.prems(2) unfolding keeps_def by blast
  with Cons ec show ?case by simp
qed simp

text \<open>
  C2. The same for any sequence of MCP tool calls over a session: every frame on the wire, and
  every byte the socket took, is of the keepalive or of a request one of the calls may make, and
  when no clear was confirmed, of a payload the read-only gate admits; and unless a write failed the
  bytes are these frames whole.
\<close>
theorem mcp_wire_allowed:
  "case mcp_calls (wired_env rx pace show_error) (session_request rx) calls
      (m, (wire_open inbound source gateway, script)) of (m', (w, script')) \<Rightarrow>
    list_all (frame_allowed (\<lambda>target uds. list_ex (\<lambda>(env, c). call_allows c target uds) calls) (wi_session w))
      (ss_wire (wi_session w))
    \<and> (\<exists>ps. wi_out w = pieces ps
        \<and> list_all (\<lambda>(f, n). frame_allowed (\<lambda>target uds. list_ex (\<lambda>(env, c). call_allows c target uds) calls)
             (wi_session w) f) ps)
    \<and> (list_ex write_fails script \<or> wire_is_frames w)
    \<and> (list_ex (\<lambda>(env, c). confirmed c) calls
        \<or> list_all (frame_allowed (\<lambda>_. policy_payload ReadOnly) (wi_session w)) (ss_wire (wi_session w)))"
proof -
  let ?ok = "\<lambda>target uds. list_ex (\<lambda>(env, c). call_allows c target uds) calls"
  obtain m' w script' where run: "mcp_calls (wired_env rx pace show_error) (session_request rx) calls
      (m, (wire_open inbound source gateway, script)) = (m', (w, script'))"
    by (metis prod.exhaust)
  have "world (\<lambda>conn. wire_safe ?ok (fst conn))
      (mcp_calls (wired_env rx pace show_error) (session_request rx) calls (m, (wire_open inbound source gateway, script)))"
    by (rule mcp_calls_keep) (simp_all add: wired.req_keeps wired_sleep world_def open_safe)
  then have safe: "wire_safe ?ok w" by (simp add: run world_def)
  have "world conn_whole (mcp_calls (wired_env rx pace show_error) (session_request rx) calls
      (m, (wire_open inbound source gateway, script)))" if "\<not> list_ex write_fails script"
    by (rule mcp_calls_keep) (simp_all add: session_request_whole wired_sleep_whole world_def open_conn_whole that)
  then have whole: "list_ex write_fails script \<or> wire_is_frames w"
    by (auto simp: run world_def conn_whole_def wire_whole_def wire_is_frames_def)
  have "frame_allowed (\<lambda>_. policy_payload ReadOnly) (wi_session w) f"
    if "\<not> list_ex (\<lambda>(env, c). confirmed c) calls" "frame_allowed ?ok (wi_session w) f" for f
    using that unconfirmed_is_read_only
    by (fastforce simp: frame_allowed_def list_ex_iff split: option.splits)
  with wire_safe_pieces [OF safe] whole show ?thesis by (auto simp: run list_all_iff)
qed

end
